(* ===== verification/Access.thy ===== *)
theory Access
  imports Prelude
begin

text \<open>
  \<open>kosherd/src/kosherd/access.py\<close>: which polkit action, guardian password or refusal each
  D-Bus method of the daemon meets.  The tables are the source's dictionaries and frozen
  sets, entry by entry (\<open>ACTIONS\<close> is split in two lists, appended); \<open>evaluate\<close> is the
  decision.  The lemmas say when a call is allowed, and when it meets polkit or the guardian,
  and check the tables against each other.
\<close>

named_theorems access_tables \<open>the tables of access.py\<close>

section \<open>The tables\<close>

definition ACTION_READ_CONFIG :: string where
  [access_tables]: "ACTION_READ_CONFIG = ''org.kosherlinux.read-config''"

definition ACTION_USE_STORE :: string where
  [access_tables]: "ACTION_USE_STORE = ''org.kosherlinux.use-store''"

definition ACTION_READ_OWN :: string where
  [access_tables]: "ACTION_READ_OWN = ''org.kosherlinux.read-own-settings''"

definition ACTION_SET_OWN :: string where
  [access_tables]: "ACTION_SET_OWN = ''org.kosherlinux.set-own-desktop''"

definition ACTION_MANAGE_USERS :: string where
  [access_tables]: "ACTION_MANAGE_USERS = ''org.kosherlinux.manage-users''"

definition ACTION_MANAGE_FILTER :: string where
  [access_tables]: "ACTION_MANAGE_FILTER = ''org.kosherlinux.manage-filter''"

definition ACTION_INSTALL_APPS :: string where
  [access_tables]: "ACTION_INSTALL_APPS = ''org.kosherlinux.install-apps''"

definition ACTION_MANAGE_NETWORK :: string where
  [access_tables]: "ACTION_MANAGE_NETWORK = ''org.kosherlinux.manage-network''"

definition ACTION_APPLY_UPDATES :: string where
  [access_tables]: "ACTION_APPLY_UPDATES = ''org.kosherlinux.apply-updates''"

definition ACTION_MANAGE_GUARDIAN :: string where
  [access_tables]: "ACTION_MANAGE_GUARDIAN = ''org.kosherlinux.manage-guardian''"

definition ACTIONS_system :: "(string \<times> string) list" where
  [access_tables]: "ACTIONS_system =
    [(''IsComplete'', ACTION_READ_CONFIG),
     (''AdminExists'', ACTION_READ_CONFIG),
     (''ExistingAccounts'', ACTION_READ_CONFIG),
     (''CreateFirstAdmin'', ACTION_MANAGE_USERS),
     (''FinishSetup'', ACTION_MANAGE_USERS),
     (''NetworkStatus'', ACTION_READ_CONFIG),
     (''ListWifi'', ACTION_READ_CONFIG),
     (''ConnectWifi'', ACTION_MANAGE_NETWORK),
     (''Unlock'', ACTION_MANAGE_USERS),
     (''Lock'', ACTION_READ_CONFIG),
     (''Status'', ACTION_READ_CONFIG),
     (''VerifyGuardian'', ACTION_READ_CONFIG),
     (''GetPolicy'', ACTION_READ_CONFIG),
     (''SetFilterMode'', ACTION_MANAGE_FILTER),
     (''SetWhitelist'', ACTION_MANAGE_FILTER),
     (''ListWhitelistBundles'', ACTION_READ_CONFIG),
     (''SetWhitelistBundles'', ACTION_MANAGE_FILTER),
     (''Enrol'', ACTION_MANAGE_FILTER),
     (''Unenrol'', ACTION_MANAGE_FILTER),
     (''SyncNow'', ACTION_READ_CONFIG),
     (''PortalStatus'', ACTION_READ_CONFIG),
     (''SetUrlRules'', ACTION_MANAGE_FILTER),
     (''SetBlockedCategories'', ACTION_MANAGE_FILTER),
     (''ApplyProfile'', ACTION_MANAGE_FILTER),
     (''SaveProfile'', ACTION_MANAGE_FILTER),
     (''DeleteProfile'', ACTION_MANAGE_FILTER),
     (''SetUserAdmin'', ACTION_MANAGE_FILTER),
     (''SetLayout'', ACTION_MANAGE_USERS),
     (''GetMyLayout'', ACTION_READ_OWN),
     (''SetMyLayout'', ACTION_SET_OWN),
     (''GetMyCompositor'', ACTION_READ_OWN),
     (''SetMyCompositor'', ACTION_SET_OWN),
     (''SetMyKeyboard'', ACTION_SET_OWN),
     (''SetMyAppKeys'', ACTION_SET_OWN),
     (''GetMySettings'', ACTION_READ_OWN),
     (''SetCoverStyle'', ACTION_MANAGE_USERS),
     (''SetAdBlock'', ACTION_MANAGE_FILTER),
     (''SetAdBlockAllowed'', ACTION_MANAGE_FILTER),
     (''SetTimeLimits'', ACTION_MANAGE_FILTER),
     (''GetTimeUsage'', ACTION_READ_CONFIG),
     (''SetNetworkAccess'', ACTION_MANAGE_FILTER),
     (''SetSsh'', ACTION_MANAGE_FILTER),
     (''SetDeveloperTools'', ACTION_MANAGE_FILTER),
     (''SetSshIn'', ACTION_MANAGE_FILTER),
     (''SetBuildSources'', ACTION_MANAGE_FILTER),
     (''SetBootMenuPassword'', ACTION_MANAGE_FILTER),
     (''BootMenuProtected'', ACTION_READ_CONFIG),
     (''ApproveRequest'', ACTION_MANAGE_FILTER),
     (''DismissRequest'', ACTION_MANAGE_USERS),
     (''ListRequests'', ACTION_READ_CONFIG),
     (''AllowUrl'', ACTION_MANAGE_FILTER),
     (''BypassUrl'', ACTION_MANAGE_FILTER),
     (''GrantUrl'', ACTION_MANAGE_FILTER),
     (''ListActivity'', ACTION_READ_CONFIG),
     (''ActivitySummary'', ACTION_READ_CONFIG),
     (''Usage'', ACTION_READ_CONFIG),
     (''SetMediaLevel'', ACTION_MANAGE_FILTER),
     (''SetLanguageFilter'', ACTION_MANAGE_FILTER),
     (''SetYouTube'', ACTION_MANAGE_FILTER),
     (''SetCalm'', ACTION_MANAGE_FILTER)]"

definition ACTIONS_apps :: "(string \<times> string) list" where
  [access_tables]: "ACTIONS_apps =
    [(''SearchYouTubeChannels'', ACTION_READ_CONFIG),
     (''ListProfiles'', ACTION_READ_CONFIG),
     (''FilterStatus'', ACTION_READ_CONFIG),
     (''GetListEdits'', ACTION_READ_CONFIG),
     (''EditList'', ACTION_MANAGE_FILTER),
     (''ListCategories'', ACTION_READ_CONFIG),
     (''SetGuestConfig'', ACTION_MANAGE_FILTER),
     (''CreateUser'', ACTION_MANAGE_USERS),
     (''AdoptUser'', ACTION_MANAGE_USERS),
     (''RemoveUser'', ACTION_MANAGE_USERS),
     (''ResetPassword'', ACTION_MANAGE_USERS),
     (''ListCatalog'', ACTION_USE_STORE),
     (''ListStoreApps'', ACTION_USE_STORE),
     (''ListInstalled'', ACTION_USE_STORE),
     (''InstallApp'', ACTION_USE_STORE),
     (''InstallAppFor'', ACTION_INSTALL_APPS),
     (''ListInstalledDetails'', ACTION_READ_CONFIG),
     (''ListMyInstalledDetails'', ACTION_USE_STORE),
     (''ListAppUpdates'', ACTION_USE_STORE),
     (''CheckAppUpdates'', ACTION_USE_STORE),
     (''UpdateApp'', ACTION_USE_STORE),
     (''UpdateAllApps'', ACTION_USE_STORE),
     (''RemoveApp'', ACTION_INSTALL_APPS),
     (''ListUnusedApps'', ACTION_USE_STORE),
     (''RemoveUnusedApps'', ACTION_INSTALL_APPS),
     (''SetUserApps'', ACTION_INSTALL_APPS),
     (''SetUserCanInstall'', ACTION_INSTALL_APPS),
     (''SetUserAppAccess'', ACTION_INSTALL_APPS),
     (''SetUserBlockedAppKinds'', ACTION_INSTALL_APPS),
     (''SetUserBlockedApps'', ACTION_INSTALL_APPS),
     (''SetUserAppApproval'', ACTION_INSTALL_APPS),
     (''SetSyncthingLan'', ACTION_MANAGE_FILTER),
     (''SetSyncthingEnabled'', ACTION_MANAGE_FILTER),
     (''SetKeydEnabled'', ACTION_MANAGE_FILTER),
     (''SearchApps'', ACTION_READ_CONFIG),
     (''ApproveApp'', ACTION_INSTALL_APPS),
     (''UnapproveApp'', ACTION_INSTALL_APPS),
     (''CheckUpdate'', ACTION_READ_CONFIG),
     (''FilterLog'', ACTION_READ_CONFIG),
     (''ApplyUpdate'', ACTION_APPLY_UPDATES),
     (''DeploymentStatus'', ACTION_READ_CONFIG),
     (''ListChannels'', ACTION_READ_CONFIG),
     (''SetChannel'', ACTION_APPLY_UPDATES),
     (''Rollback'', ACTION_APPLY_UPDATES),
     (''TryImage'', ACTION_APPLY_UPDATES),
     (''ReturnToKept'', ACTION_APPLY_UPDATES),
     (''Reboot'', ACTION_APPLY_UPDATES),
     (''SetAutoUpdates'', ACTION_APPLY_UPDATES),
     (''AutoUpdateStatus'', ACTION_READ_CONFIG),
     (''RunAutoUpdate'', ACTION_APPLY_UPDATES),
     (''PendingUpdate'', ACTION_READ_OWN),
     (''SetCaptiveMode'', ACTION_MANAGE_NETWORK),
     (''TailscaleStatus'', ACTION_READ_CONFIG),
     (''TailscaleSignIn'', ACTION_MANAGE_NETWORK),
     (''TailscaleSignOut'', ACTION_MANAGE_NETWORK),
     (''SetTailscaleEnabled'', ACTION_MANAGE_NETWORK),
     (''IsEnabled'', ACTION_READ_CONFIG),
     (''SetGuardianPassword'', ACTION_MANAGE_GUARDIAN),
     (''DisableGuardian'', ACTION_MANAGE_GUARDIAN)]"

definition ACTIONS :: "(string \<times> string) list" where
  [access_tables]: "ACTIONS = ACTIONS_system @ ACTIONS_apps"

definition GUARDIAN_GATED :: "string list" where
  [access_tables]: "GUARDIAN_GATED =
    [''SetFilterMode'', ''SetWhitelist'', ''SetWhitelistBundles'', ''SetUrlRules'',
     ''SetBlockedCategories'', ''ApplyProfile'', ''SaveProfile'', ''DeleteProfile'',
     ''ApproveRequest'', ''AllowUrl'', ''BypassUrl'', ''GrantUrl'', ''EditList'',
     ''SetUserAdmin'', ''SetMediaLevel'', ''SetLanguageFilter'', ''SetYouTube'',
     ''SetCalm'', ''SetGuestConfig'', ''DisableGuardian'', ''Enrol'', ''Unenrol'',
     ''SetAdBlock'', ''SetAdBlockAllowed'', ''SetTimeLimits'', ''SetChannel'',
     ''TryImage'', ''Rollback'', ''SetNetworkAccess'', ''SetSsh'',
     ''SetDeveloperTools'', ''SetSshIn'', ''SetBuildSources'', ''SetBootMenuPassword'',
     ''SetUserAppAccess'', ''SetUserBlockedAppKinds'', ''SetUserBlockedApps'',
     ''SetUserAppApproval'', ''SetSyncthingLan'', ''SetSyncthingEnabled'',
     ''TailscaleSignIn'', ''SetTailscaleEnabled'', ''SetKeydEnabled'']"

definition SETUP_METHODS :: "string list" where
  [access_tables]: "SETUP_METHODS =
    [''IsComplete'', ''AdminExists'', ''ExistingAccounts'', ''CreateFirstAdmin'',
     ''FinishSetup'', ''NetworkStatus'', ''ListWifi'', ''ConnectWifi'']"

definition SETUP_READS :: "string list" where
  [access_tables]: "SETUP_READS =
    [''IsComplete'', ''AdminExists'']"

definition UID_AWARE :: "string list" where
  [access_tables]: "UID_AWARE =
    [''Unlock'', ''Lock'', ''Status'', ''VerifyGuardian'', ''InstallApp'', ''ListStoreApps'',
     ''ListMyInstalledDetails'', ''GetMyLayout'', ''SetMyLayout'', ''GetMySettings'',
     ''GetMyCompositor'', ''SetMyCompositor'', ''SetMyKeyboard'', ''SetMyAppKeys'',
     ''ListInstalled'', ''UpdateApp'', ''RemoveApp'', ''ListAppUpdates'',
     ''CheckAppUpdates'', ''UpdateAllApps'']"

definition CHANGES :: "string list" where
  [access_tables]: "CHANGES =
    [''SetFilterMode'', ''SetWhitelist'', ''SetWhitelistBundles'', ''SetUrlRules'',
     ''SetBlockedCategories'', ''ApplyProfile'', ''SaveProfile'', ''DeleteProfile'',
     ''ApproveRequest'', ''DismissRequest'', ''AllowUrl'', ''BypassUrl'', ''GrantUrl'',
     ''EditList'', ''SetMediaLevel'', ''SetLanguageFilter'', ''SetYouTube'',
     ''SetCalm'', ''SetUserAdmin'', ''SetLayout'', ''SetCoverStyle'', ''SetAdBlock'',
     ''SetAdBlockAllowed'', ''SetTimeLimits'', ''SetNetworkAccess'',
     ''SetDeveloperTools'', ''SetSshIn'', ''SetBuildSources'', ''SetBootMenuPassword'',
     ''SetGuestConfig'', ''CreateUser'', ''AdoptUser'', ''RemoveUser'',
     ''ResetPassword'', ''SetUserApps'', ''RemoveApp'', ''RemoveUnusedApps'',
     ''InstallAppFor'', ''ApproveApp'', ''UnapproveApp'', ''SetUserCanInstall'',
     ''SetUserAppAccess'', ''SetUserBlockedAppKinds'', ''SetUserBlockedApps'',
     ''SetCaptiveMode'', ''SetUserAppApproval'', ''SetSyncthingLan'',
     ''SetSyncthingEnabled'', ''SetGuardianPassword'', ''DisableGuardian'', ''Enrol'',
     ''Unenrol'', ''ApplyUpdate'', ''Rollback'', ''SetChannel'', ''SetAutoUpdates'',
     ''TryImage'', ''ReturnToKept'', ''TailscaleSignIn'', ''TailscaleSignOut'',
     ''SetTailscaleEnabled'', ''SetKeydEnabled'']"

definition PER_USER :: "string list" where
  [access_tables]: "PER_USER =
    [''SetFilterMode'', ''SetWhitelist'', ''SetWhitelistBundles'', ''SetUrlRules'',
     ''SetBlockedCategories'', ''ApplyProfile'', ''SaveProfile'', ''AllowUrl'',
     ''BypassUrl'', ''GrantUrl'', ''SetMediaLevel'', ''SetLanguageFilter'',
     ''SetYouTube'', ''SetCalm'', ''SetUserAdmin'', ''SetLayout'', ''SetCoverStyle'',
     ''SetTimeLimits'', ''SetNetworkAccess'', ''SetDeveloperTools'', ''SetSshIn'',
     ''InstallAppFor'', ''RemoveUser'', ''ResetPassword'', ''SetUserApps'',
     ''SetUserCanInstall'', ''SetUserAppAccess'', ''SetUserBlockedAppKinds'',
     ''SetUserBlockedApps'', ''SetCaptiveMode'', ''SetUserAppApproval'',
     ''SetSyncthingLan'']"

definition NO_ARGS_LOGGED :: "string list" where
  [access_tables]: "NO_ARGS_LOGGED =
    [''SetGuardianPassword'', ''DisableGuardian'', ''SetBootMenuPassword'', ''Enrol'',
     ''EditList'', ''SetWhitelist'', ''SetUrlRules'']"

definition FREE_ACTIONS :: "string list" where
  [access_tables]: "FREE_ACTIONS =
    [ACTION_USE_STORE, ACTION_READ_OWN, ACTION_SET_OWN]"

definition SETUP_CLOSED :: string where
  [access_tables]: "SETUP_CLOSED = ''initial setup is already complete''"

definition UNKNOWN_METHOD :: string where
  [access_tables]: "UNKNOWN_METHOD = ''unknown method''"

section \<open>The decision\<close>

text \<open>What a call must satisfy before it may run.\<close>

record Requirement =
  polkit_action :: "string option"
  needs_guardian :: bool
  refusal :: "string option"

definition allowed :: "Requirement \<Rightarrow> bool" where
  "allowed r \<longleftrightarrow> refusal r = None"

definition needs_admin_session :: "string \<Rightarrow> bool" where
  "needs_admin_session m =
     (case map_of ACTIONS m of
        None \<Rightarrow> False
      | Some a \<Rightarrow>
          if m \<in> set SETUP_METHODS then False
          else if m \<in> set [''Unlock'', ''Lock''] then False
          else a \<notin> set FREE_ACTIONS)"

definition evaluate :: "string \<Rightarrow> bool \<Rightarrow> bool \<Rightarrow> bool \<Rightarrow> bool \<Rightarrow> Requirement" where
  "evaluate m setup_complete session_unlocked guardian_enabled guardian_proven =
     (case map_of ACTIONS m of
        None \<Rightarrow> \<lparr>polkit_action = None, needs_guardian = False, refusal = Some UNKNOWN_METHOD\<rparr>
      | Some a \<Rightarrow>
          if m \<in> set SETUP_METHODS then
            (if m \<notin> set SETUP_READS \<and> setup_complete
             then \<lparr>polkit_action = None, needs_guardian = False, refusal = Some SETUP_CLOSED\<rparr>
             else \<lparr>polkit_action = None, needs_guardian = False, refusal = None\<rparr>)
          else
            \<lparr>polkit_action = (if m = ''Unlock'' \<or> \<not> session_unlocked then Some a else None),
             needs_guardian = (m \<in> set GUARDIAN_GATED \<and> guardian_enabled \<and> \<not> guardian_proven),
             refusal = None\<rparr>)"

section \<open>The decision's behaviour\<close>

abbreviation is_method :: "string \<Rightarrow> bool" where
  "is_method m \<equiv> m \<in> set (keys ACTIONS)"

lemma is_method_iff: "is_method m \<longleftrightarrow> (\<exists>a. map_of ACTIONS m = Some a)"
  by (metis list.set_map map_of_eq_None_iff not_Some_eq)

lemma evaluate_allowed_iff:
  "allowed (evaluate m sc su ge gp) \<longleftrightarrow>
     is_method m \<and> (m \<in> set SETUP_METHODS \<and> sc \<longrightarrow> m \<in> set SETUP_READS)"
  unfolding is_method_iff
  by (cases "map_of ACTIONS m") (auto simp: evaluate_def allowed_def)

lemma evaluate_guardian_iff:
  "needs_guardian (evaluate m sc su ge gp) \<longleftrightarrow>
     is_method m \<and> m \<notin> set SETUP_METHODS \<and> m \<in> set GUARDIAN_GATED \<and> ge \<and> \<not> gp"
  unfolding is_method_iff
  by (cases "map_of ACTIONS m") (auto simp: evaluate_def)

lemma evaluate_polkit_iff:
  "polkit_action (evaluate m sc su ge gp) = Some a \<longleftrightarrow>
     map_of ACTIONS m = Some a \<and> m \<notin> set SETUP_METHODS \<and> (m = ''Unlock'' \<or> \<not> su)"
  by (cases "map_of ACTIONS m") (auto simp: evaluate_def)

lemma evaluate_no_polkit_iff:
  "polkit_action (evaluate m sc su ge gp) = None \<longleftrightarrow>
     \<not> is_method m \<or> m \<in> set SETUP_METHODS \<or> (m \<noteq> ''Unlock'' \<and> su)"
  unfolding is_method_iff
  by (cases "map_of ACTIONS m") (auto simp: evaluate_def)

section \<open>The tables against each other\<close>

lemma gated_are_methods: "set GUARDIAN_GATED \<subseteq> set (keys ACTIONS)"
  by code_simp

lemma gated_not_setup: "set GUARDIAN_GATED \<inter> set SETUP_METHODS = {}"
  by code_simp

text \<open>The methods whose action every local account has without a password.\<close>

definition free_methods :: "string list" where
  "free_methods = [m. (m, a) \<leftarrow> ACTIONS, a \<in> set FREE_ACTIONS]"

lemma gated_not_free: "set GUARDIAN_GATED \<inter> set free_methods = {}"
  by code_simp

lemma gated_not_session_calls: "set GUARDIAN_GATED \<inter> {''Unlock'', ''Lock''} = {}"
  by code_simp

lemma not_free_methodD: "map_of ACTIONS m = Some a \<Longrightarrow> m \<notin> set free_methods \<Longrightarrow> a \<notin> set FREE_ACTIONS"
  by (auto simp: free_methods_def dest!: map_of_SomeD)

lemma gated_needs_admin_session:
  assumes "m \<in> set GUARDIAN_GATED"
  shows "needs_admin_session m"
proof -
  obtain a where "map_of ACTIONS m = Some a"
    using assms gated_are_methods is_method_iff by blast
  moreover have "m \<notin> set SETUP_METHODS" "m \<notin> set free_methods" "m \<notin> set [''Unlock'', ''Lock'']"
    using assms gated_not_setup gated_not_free gated_not_session_calls by auto
  ultimately show ?thesis
    using not_free_methodD by (simp add: needs_admin_session_def)
qed

lemma setup_methods_open_after_setup:
  "filter (\<lambda>m. m \<in> set SETUP_READS) SETUP_METHODS = SETUP_READS"
  by code_simp

lemma setup_are_methods: "set SETUP_METHODS \<subseteq> set (keys ACTIONS)"
  by code_simp

text \<open>
  No guardian-gated call is ever free: with the session locked, each of them
  meets a polkit action outside the actions every account has, whatever the guardian
  state; and once setup is complete the only first-boot calls left open are the two reads.
\<close>

theorem gated_calls_need_an_administrator:
  "list_all needs_admin_session GUARDIAN_GATED \<and>
   filter (\<lambda>m. allowed (evaluate m True False True False)) SETUP_METHODS = SETUP_READS"
proof
  show "list_all needs_admin_session GUARDIAN_GATED"
    by (auto simp: list_all_iff gated_needs_admin_session)
  have "filter (\<lambda>m. allowed (evaluate m True False True False)) SETUP_METHODS =
        filter (\<lambda>m. m \<in> set SETUP_READS) SETUP_METHODS"
    using setup_are_methods by (intro filter_cong) (auto simp: evaluate_allowed_iff)
  then show "filter (\<lambda>m. allowed (evaluate m True False True False)) SETUP_METHODS = SETUP_READS"
    by (simp add: setup_methods_open_after_setup)
qed

text \<open>
  Every guardian-gated call is written to the activity log except
  \<open>SetSsh\<close>, which is missing from \<open>CHANGES\<close> (and from \<open>PER_USER\<close>) although it is a
  change to the family's settings like its neighbours.
\<close>

theorem gated_call_not_logged:
  "filter (\<lambda>m. m \<notin> set CHANGES) GUARDIAN_GATED = [''SetSsh'']"
  by code_simp

end
