(* ===== verification/Sessions.thy ===== *)
theory Sessions
  imports Prelude Complex_Main
begin

text \<open>
  \<open>kosherd/src/kosherd/session.py\<close>: the admin sessions and guardian proofs kept in memory,
  each a sliding window of \<open>ttl\<close> seconds per uid.  Both are instances of one interface,
  the \<open>lease\<close> locale, whose laws give the behaviour of any sequence of checks.  The clock
  (a monotonic float) is a rational argument, read once per operation.
\<close>

type_synonym time = rat

section \<open>The store\<close>

record session_store =
  ttl :: time
  sessions :: "(int, time) dict"
  guardian_proofs :: "(int, time) dict"

definition DEFAULT_TTL_SECONDS :: time where
  "DEFAULT_TTL_SECONDS = 15 * 60"

definition new_store :: session_store where
  "new_store = \<lparr>ttl = DEFAULT_TTL_SECONDS, sessions = [], guardian_proofs = []\<rparr>"

definition unlock :: "int \<Rightarrow> time \<Rightarrow> session_store \<Rightarrow> session_store" where
  "unlock uid now s = s\<lparr>sessions := dict_set uid now (sessions s)\<rparr>"

definition is_unlocked :: "int \<Rightarrow> time \<Rightarrow> session_store \<Rightarrow> bool \<times> session_store" where
  "is_unlocked uid now s =
     (case map_of (sessions s) uid of
        None \<Rightarrow> (False, s)
      | Some l \<Rightarrow>
          if now - l > ttl s then
            (False, s\<lparr>sessions := dict_pop uid (sessions s),
                      guardian_proofs := dict_pop uid (guardian_proofs s)\<rparr>)
          else (True, s\<lparr>sessions := dict_set uid now (sessions s)\<rparr>))"

definition lock :: "int \<Rightarrow> session_store \<Rightarrow> session_store" where
  "lock uid s = s\<lparr>sessions := dict_pop uid (sessions s),
                  guardian_proofs := dict_pop uid (guardian_proofs s)\<rparr>"

definition grant_guardian :: "int \<Rightarrow> time \<Rightarrow> session_store \<Rightarrow> session_store" where
  "grant_guardian uid now s = s\<lparr>guardian_proofs := dict_set uid now (guardian_proofs s)\<rparr>"

definition has_guardian :: "int \<Rightarrow> time \<Rightarrow> session_store \<Rightarrow> bool \<times> session_store" where
  "has_guardian uid now s =
     (case map_of (guardian_proofs s) uid of
        None \<Rightarrow> (False, s)
      | Some l \<Rightarrow>
          if now - l > ttl s then
            (False, s\<lparr>guardian_proofs := dict_pop uid (guardian_proofs s)\<rparr>)
          else (True, s\<lparr>guardian_proofs := dict_set uid now (guardian_proofs s)\<rparr>))"

definition seconds_remaining :: "int \<Rightarrow> time \<Rightarrow> session_store \<Rightarrow> time" where
  "seconds_remaining uid now s =
     (case map_of (sessions s) uid of None \<Rightarrow> 0 | Some l \<Rightarrow> max 0 (ttl s - (now - l)))"

lemmas session_defs = unlock_def is_unlocked_def lock_def grant_guardian_def has_guardian_def

lemma ttl_simps [simp]:
  "ttl (unlock u t s) = ttl s" "ttl (snd (is_unlocked u t s)) = ttl s"
  "ttl (lock u s) = ttl s" "ttl (grant_guardian u t s) = ttl s"
  "ttl (snd (has_guardian u t s)) = ttl s"
  by (simp_all add: session_defs split: option.splits)

section \<open>Sliding leases\<close>

text \<open>
  Repeated checks at the times of a list, and the shape of a list of times in which every
  check follows the one before by at most \<open>w\<close>.
\<close>

fun poll :: "(time \<Rightarrow> 's \<Rightarrow> bool \<times> 's) \<Rightarrow> time list \<Rightarrow> 's \<Rightarrow> 's" where
  "poll check [] s = s"
| "poll check (t # ts) s = poll check ts (snd (check t s))"

fun gaps_within :: "time \<Rightarrow> time \<Rightarrow> time list \<Rightarrow> bool" where
  "gaps_within w l [] = True"
| "gaps_within w l (t # ts) \<longleftrightarrow> t - l \<le> w \<and> gaps_within w t ts"

text \<open>
  The interface: \<open>grant\<close> starts a lease, \<open>check\<close> reads and extends it, \<open>stamp\<close> is the last
  activity.  The client's lemmas: a lease once lapsed stays lapsed, and a lease is alive
  exactly while no gap between checks exceeds the window.
\<close>

locale lease =
  fixes grant :: "'k \<Rightarrow> time \<Rightarrow> 's \<Rightarrow> 's"
    and check :: "'k \<Rightarrow> time \<Rightarrow> 's \<Rightarrow> bool \<times> 's"
    and stamp :: "'s \<Rightarrow> 'k \<Rightarrow> time option"
    and window :: "'s \<Rightarrow> time"
  assumes stamp_grant: "stamp (grant k t s) = (stamp s)(k \<mapsto> t)"
    and check_iff: "fst (check k t s) \<longleftrightarrow> (\<exists>l. stamp s k = Some l \<and> t - l \<le> window s)"
    and stamp_check: "stamp (snd (check k t s)) =
          (stamp s)(k := if fst (check k t s) then Some t else None)"
    and window_grant: "window (grant k t s) = window s"
    and window_check: "window (snd (check k t s)) = window s"
begin

lemma lapsed_check: "stamp s k = None \<Longrightarrow> \<not> fst (check k t s)"
  by (simp add: check_iff)

lemma lapsed_poll: "stamp s k = None \<Longrightarrow> stamp (poll (check k) ts s) k = None"
  by (induction ts arbitrary: s) (simp_all add: stamp_check lapsed_check)

lemma other_check: "k' \<noteq> k \<Longrightarrow> stamp (snd (check k t s)) k' = stamp s k'"
  by (simp add: stamp_check)

lemma alive_poll_iff:
  "stamp s k = Some l \<Longrightarrow>
     fst (check k t (poll (check k) ts s)) \<longleftrightarrow> gaps_within (window s) l (ts @ [t])"
proof (induction ts arbitrary: s l)
  case Nil
  then show ?case by (simp add: check_iff)
next
  case (Cons u ts)
  show ?case
  proof (cases "u - l \<le> window s")
    case True
    with Cons.prems have "stamp (snd (check k u s)) k = Some u"
      by (simp add: stamp_check check_iff)
    with Cons.IH True show ?thesis by (simp add: window_check)
  next
    case False
    with Cons.prems have "stamp (snd (check k u s)) k = None"
      by (simp add: stamp_check check_iff)
    then have "\<not> fst (check k t (poll (check k) ts (snd (check k u s))))"
      by (intro lapsed_check lapsed_poll)
    with False show ?thesis by simp
  qed
qed

lemma granted_poll_iff:
  "fst (check k t (poll (check k) ts (grant k t0 s))) \<longleftrightarrow> gaps_within (window s) t0 (ts @ [t])"
  using alive_poll_iff [of "grant k t0 s" k t0] by (simp add: stamp_grant window_grant)

end

text \<open>Admin sessions and guardian proofs are both such leases.\<close>

interpretation admin_lease: lease unlock is_unlocked "\<lambda>s. map_of (sessions s)" ttl
  by unfold_locales (auto simp: session_defs split: option.splits)

interpretation guardian_lease: lease grant_guardian has_guardian "\<lambda>s. map_of (guardian_proofs s)" ttl
  by unfold_locales (auto simp: session_defs split: option.splits)

section \<open>Properties\<close>

text \<open>
  An admin session is one sliding window: after \<open>unlock\<close> at \<open>t0\<close> and any calls
  at the times \<open>ts\<close>, the caller is still unlocked at \<open>t\<close> exactly when no two consecutive
  times are more than \<open>ttl\<close> apart; and the same holds of a guardian proof.
\<close>

theorem sliding_window:
  "(fst (is_unlocked u t (poll (is_unlocked u) ts (unlock u t0 s))) \<longleftrightarrow>
      gaps_within (ttl s) t0 (ts @ [t])) \<and>
   (fst (has_guardian u t (poll (has_guardian u) ts (grant_guardian u t0 s))) \<longleftrightarrow>
      gaps_within (ttl s) t0 (ts @ [t]))"
  by (simp add: admin_lease.granted_poll_iff guardian_lease.granted_poll_iff)

lemma guardian_after_lapse:
  "u \<in> dom (map_of (sessions s)) \<Longrightarrow> \<not> fst (is_unlocked u t s) \<Longrightarrow>
     map_of (guardian_proofs (snd (is_unlocked u t s))) u = None"
  by (auto simp: is_unlocked_def split: if_splits)

text \<open>
  A guardian proof does not outlive the session it was given in: when a check
  finds the uid's session expired, the proof goes with it, and neither session nor proof
  comes back however often they are checked afterwards; the same holds after \<open>lock\<close>.
\<close>

theorem proof_dies_with_session:
  assumes "u \<in> dom (map_of (sessions s))" and "\<not> fst (is_unlocked u t s)"
    and "s' \<in> {snd (is_unlocked u t s), lock u s}"
  shows "\<not> fst (has_guardian u t' (poll (has_guardian u) ts s')) \<and>
         \<not> fst (is_unlocked u t' (poll (is_unlocked u) ts s'))"
proof -
  have "map_of (guardian_proofs s') u = None"
    using assms guardian_after_lapse by (auto simp: lock_def)
  moreover have "map_of (sessions s') u = None"
    using assms admin_lease.stamp_check [of u t s] by (auto simp: lock_def)
  ultimately show ?thesis
    by (simp add: admin_lease.lapsed_check admin_lease.lapsed_poll
        guardian_lease.lapsed_check guardian_lease.lapsed_poll)
qed

lemma proof_dies_with_session_witness:
  "\<not> fst (has_guardian 1000 901 (poll (has_guardian 1000) [901]
      (snd (is_unlocked 1000 901 (grant_guardian 1000 0 (unlock 1000 0 new_store))))))"
  using proof_dies_with_session
    [of 1000 "grant_guardian 1000 0 (unlock 1000 0 new_store)" 901
        "snd (is_unlocked 1000 901 (grant_guardian 1000 0 (unlock 1000 0 new_store)))" 901 "[901]"]
  by (simp add: session_defs new_store_def DEFAULT_TTL_SECONDS_def)

end
