(* ===== verification/GuardianAuth.thy ===== *)
theory GuardianAuth
  imports Prelude Complex_Main
begin

text \<open>
  \<open>kosherd/src/kosherd/guardian.py\<close>: the guardian password, with its count of wrong guesses
  and its lockout kept in a file.  libxcrypt (\<open>crypt\<close>, \<open>crypt_gensalt\<close>) is not code of the
  repository: \<open>check_hash\<close> and \<open>hash_password\<close> are arguments.  The state file is what
  \<open>json.loads\<close> and the \<open>int\<close>/\<open>float\<close> conversions of \<open>_read_state\<close> make of it: \<open>None\<close> when
  any of them raises.  Times are wall-clock seconds, which may move backwards.
\<close>

section \<open>State\<close>

record attempts =
  failures :: int
  first_failure :: rat
  locked_until :: rat

record guardian =
  shadow :: "string option"
  state_file :: "attempts option"

datatype guardian_error =
    NotSet
  | TooShort
  | CurrentIncorrect
  | HashingFailed
  | LockedOut int

definition MAX_FAILURES :: int where "MAX_FAILURES = 5"
definition LOCKOUT_SECONDS :: rat where "LOCKOUT_SECONDS = 15 * 60"
definition FAILURE_WINDOW_SECONDS :: rat where "FAILURE_WINDOW_SECONDS = 24 * 60 * 60"

definition cleared :: attempts where
  "cleared = \<lparr>failures = 0, first_failure = 0, locked_until = 0\<rparr>"

definition is_set :: "guardian \<Rightarrow> bool" where
  "is_set g \<longleftrightarrow> shadow g \<noteq> None"

section \<open>Operations\<close>

definition read_state :: "rat \<Rightarrow> guardian \<Rightarrow> attempts" where
  "read_state now g =
     (case state_file g of
        None \<Rightarrow> cleared
      | Some raw \<Rightarrow>
          let n = max 0 (failures raw);
              until = min (locked_until raw) (now + LOCKOUT_SECONDS);
              first = min (first_failure raw) now
          in if n \<noteq> 0 \<and> now - first > FAILURE_WINDOW_SECONDS
             then \<lparr>failures = 0, first_failure = 0, locked_until = until\<rparr>
             else \<lparr>failures = n, first_failure = first, locked_until = until\<rparr>)"

definition write_state :: "attempts \<Rightarrow> guardian \<Rightarrow> guardian" where
  "write_state a g = g\<lparr>state_file := Some a\<rparr>"

text \<open>The count after a wrong guess, and the lock the last one sets.\<close>

definition after_wrong :: "rat \<Rightarrow> attempts \<Rightarrow> attempts" where
  "after_wrong now a =
     (let a1 = (if failures a = 0 then a\<lparr>first_failure := now\<rparr> else a);
          a2 = a1\<lparr>failures := failures a1 + 1\<rparr>
      in if failures a2 \<ge> MAX_FAILURES then cleared\<lparr>locked_until := now + LOCKOUT_SECONDS\<rparr>
         else a2)"

definition verify :: "(string \<Rightarrow> string \<Rightarrow> bool) \<Rightarrow> string \<Rightarrow> rat \<Rightarrow> guardian \<Rightarrow>
    (guardian_error + bool) \<times> guardian" where
  "verify check_hash password now g =
     (case shadow g of
        None \<Rightarrow> (Inl NotSet, g)
      | Some stored \<Rightarrow>
          let state = read_state now g in
          if locked_until state > now
          then (Inl (LockedOut \<lfloor>locked_until state - now\<rfloor>), write_state state g)
          else if check_hash password stored
          then (Inr True, write_state cleared g)
          else (Inr False, write_state (after_wrong now state) g))"

definition set_password :: "(string \<Rightarrow> string \<Rightarrow> bool) \<Rightarrow> (string \<Rightarrow> string option) \<Rightarrow>
    string \<Rightarrow> string option \<Rightarrow> rat \<Rightarrow> guardian \<Rightarrow> (guardian_error + unit) \<times> guardian" where
  "set_password check_hash hash_password new old now g =
     (if length new < 6 then (Inl TooShort, g)
      else
        let (checked, g1) =
              (if is_set g
               then verify check_hash (case old of None \<Rightarrow> [] | Some p \<Rightarrow> p) now g
               else (Inr True, g))
        in case checked of
             Inl e \<Rightarrow> (Inl e, g1)
           | Inr False \<Rightarrow> (Inl CurrentIncorrect, g1)
           | Inr True \<Rightarrow>
               (case hash_password new of
                  None \<Rightarrow> (Inl HashingFailed, g1)
                | Some h \<Rightarrow> (Inr (), write_state cleared (g1\<lparr>shadow := Some h\<rparr>))))"

section \<open>What a read brings back to sane values\<close>

lemma read_state_bounds:
  "0 \<le> failures (read_state now g)"
  "0 \<le> now \<Longrightarrow> locked_until (read_state now g) \<le> now + LOCKOUT_SECONDS"
  "0 \<le> now \<Longrightarrow> first_failure (read_state now g) \<le> now"
  by (auto simp: read_state_def cleared_def Let_def LOCKOUT_SECONDS_def split: option.splits)

lemma shadow_verify [simp]: "shadow (snd (verify ch p t g)) = shadow g"
  by (auto simp: verify_def write_state_def Let_def split: option.splits)

lemma verify_locked:
  assumes "shadow g = Some h" and "locked_until (read_state now g) > now"
  shows "verify ch p now g =
    (Inl (LockedOut \<lfloor>locked_until (read_state now g) - now\<rfloor>), write_state (read_state now g) g)"
  using assms by (simp add: verify_def Let_def)

text \<open>
  During a lockout no password is checked: whatever is typed, right or wrong,
  the answer is the same refusal and the stored end of the lockout does not move later;
  it is never more than a quarter of an hour away, however far the clock was set back.
\<close>

theorem lockout_refuses_everything:
  assumes "shadow g = Some h" and "0 \<le> now" and "locked_until (read_state now g) > now"
  shows "verify ch p now g = verify ch' p' now g \<and>
     (\<exists>n. fst (verify ch p now g) = Inl (LockedOut n) \<and> 0 \<le> n \<and> n \<le> 900) \<and>
     (\<exists>a. state_file (snd (verify ch p now g)) = Some a \<and>
          locked_until a = locked_until (read_state now g) \<and> locked_until a \<le> now + 900)"
proof -
  let ?d = "locked_until (read_state now g) - now"
  have d: "0 < ?d" "?d \<le> 900"
    using assms(3) read_state_bounds(2) [OF assms(2), of g]
    by (simp_all add: LOCKOUT_SECONDS_def)
  then have "0 \<le> \<lfloor>?d\<rfloor>" and "\<lfloor>?d\<rfloor> \<le> 900"
    using floor_mono [of ?d 900] by simp_all
  then show ?thesis
    using d by (simp add: verify_locked [OF assms(1,3)] write_state_def)
qed

lemma lockout_refuses_everything_witness:
  "fst (verify (\<lambda>_ _. True) ''right'' 100
     \<lparr>shadow = Some ''h'', state_file = Some \<lparr>failures = 0, first_failure = 0, locked_until = 5000\<rparr>\<rparr>)
   \<noteq> Inr True"
  using lockout_refuses_everything
    [of "\<lparr>shadow = Some ''h'', state_file = Some \<lparr>failures = 0, first_failure = 0, locked_until = 5000\<rparr>\<rparr>"
        "''h''" 100 "\<lambda>_ _. True" "''right''" "\<lambda>_ _. True" "''right''"]
  by (auto simp: read_state_def LOCKOUT_SECONDS_def)

section \<open>Guessing\<close>

text \<open>
  A run of guesses at given times: the final state, and how many of them were compared
  with the stored hash rather than refused.
\<close>

fun guess_run :: "(string \<Rightarrow> string \<Rightarrow> bool) \<Rightarrow> (rat \<times> string) list \<Rightarrow> guardian \<Rightarrow> nat \<times> guardian"
where
  "guess_run ch [] g = (0, g)"
| "guess_run ch ((t, p) # gs) g =
     (let (r, g') = verify ch p t g; (n, g'') = guess_run ch gs g'
      in ((case r of Inr _ \<Rightarrow> Suc n | Inl _ \<Rightarrow> n), g''))"

text \<open>Guesses left before a lockout that outlasts the window starting at \<open>t0\<close>.\<close>

definition guesses_left :: "rat \<Rightarrow> attempts \<Rightarrow> int" where
  "guesses_left t0 a =
     (if locked_until a \<ge> t0 + LOCKOUT_SECONDS then 0
      else if failures a \<le> 0 \<or> first_failure a \<ge> t0 then max 1 (MAX_FAILURES - max 0 (failures a))
      else max MAX_FAILURES (2 * MAX_FAILURES - 1 - failures a))"

definition stored_attempts :: "guardian \<Rightarrow> attempts" where
  "stored_attempts g = (case state_file g of None \<Rightarrow> cleared | Some a \<Rightarrow> a)"

lemma guesses_left_nonneg: "0 \<le> guesses_left t0 a"
  by (simp add: guesses_left_def MAX_FAILURES_def le_max_iff_disj)

lemmas guardian_consts =
  MAX_FAILURES_def LOCKOUT_SECONDS_def FAILURE_WINDOW_SECONDS_def cleared_def

lemma guesses_left_step:
  assumes "shadow g = Some h" and "\<not> ch p h" and "0 \<le> t0" "t0 \<le> t" "t < t0 + LOCKOUT_SECONDS"
  shows "guesses_left t0 (stored_attempts (snd (verify ch p t g))) +
           (case fst (verify ch p t g) of Inr _ \<Rightarrow> 1 | Inl _ \<Rightarrow> 0)
         \<le> guesses_left t0 (stored_attempts g)"
proof (cases "state_file g")
  case None
  then show ?thesis
    using assms
    by (simp add: stored_attempts_def verify_def read_state_def after_wrong_def guesses_left_def
        Let_def write_state_def guardian_consts)
next
  case (Some a)
  then show ?thesis
    using assms
    by (auto simp: stored_attempts_def verify_def read_state_def after_wrong_def guesses_left_def
        Let_def write_state_def guardian_consts min_def max_def split: if_splits)
qed

lemma guess_run_bound:
  assumes "shadow g = Some h" and "0 \<le> t0"
    and "\<forall>(t, p) \<in> set gs. \<not> ch p h \<and> t0 \<le> t \<and> t < t0 + LOCKOUT_SECONDS"
  shows "int (fst (guess_run ch gs g)) \<le> guesses_left t0 (stored_attempts g)"
  using assms
proof (induction gs arbitrary: g)
  case Nil
  then show ?case by (simp add: guesses_left_nonneg)
next
  case (Cons x gs)
  obtain t p where x: "x = (t, p)" by fastforce
  let ?v = "verify ch p t g"
  have "guesses_left t0 (stored_attempts (snd ?v)) + (case fst ?v of Inr _ \<Rightarrow> 1 | Inl _ \<Rightarrow> 0)
        \<le> guesses_left t0 (stored_attempts g)"
    using Cons.prems x by (intro guesses_left_step) auto
  moreover have "int (fst (guess_run ch gs (snd ?v))) \<le> guesses_left t0 (stored_attempts (snd ?v))"
    using Cons by simp
  ultimately show ?case
    using x by (auto split: prod.splits sum.splits)
qed

text \<open>
  Property C9: in any quarter of an hour, at most eight wrong passwords are ever compared
  with the stored hash, whatever the file holds at the start, in any order of times within
  it (a clock that jumps about included); and at most five when no wrong guess is on record.
  Everything beyond that is refused unread.
\<close>

theorem guesses_per_quarter_hour:
  assumes "shadow g = Some h" and "0 \<le> t0"
    and "\<forall>(t, p) \<in> set gs. \<not> ch p h \<and> t0 \<le> t \<and> t < t0 + LOCKOUT_SECONDS"
  shows "fst (guess_run ch gs g) \<le> (if failures (stored_attempts g) \<le> 0 then 5 else 8)"
proof -
  have "int (fst (guess_run ch gs g)) \<le> guesses_left t0 (stored_attempts g)"
    using assms by (rule guess_run_bound)
  then show ?thesis
    by (auto simp: guesses_left_def MAX_FAILURES_def split: if_splits)
qed

lemma guesses_per_quarter_hour_witness:
  "fst (guess_run (\<lambda>p h. p = h) (map (\<lambda>t. (t, ''wrong'')) [0, 1, 2, 3, 4, 5, 6])
     \<lparr>shadow = Some ''right'', state_file = None\<rparr>) \<le> 5"
  using guesses_per_quarter_hour
    [of "\<lparr>shadow = Some ''right'', state_file = None\<rparr>" "''right''" 0
        "map (\<lambda>t. (t, ''wrong'')) [0, 1, 2, 3, 4, 5, 6]" "\<lambda>p h. p = h"]
  by (simp add: stored_attempts_def guardian_consts)

lemma five_then_locked:
  "fst (guess_run (\<lambda>p h. p = h) (map (\<lambda>t. (t, ''wrong'')) [0, 1, 2, 3, 4])
     \<lparr>shadow = Some ''right'', state_file = None\<rparr>) = 5"
  by (simp add: verify_def read_state_def after_wrong_def write_state_def guardian_consts Let_def)

text \<open>
  Property C10: replacing a guardian password that is set needs the current one: when
  \<open>set_password\<close> stores a new hash, either none was set or the old password given matched
  the stored hash outside any lockout; a refused replacement leaves the hash as it was.
\<close>

theorem set_password_needs_the_old_one:
  "(case set_password ch hp new old now g of
      (Inr _, g') \<Rightarrow>
        length new \<ge> 6 \<and> hp new = shadow g' \<and> stored_attempts g' = cleared \<and>
        (case shadow g of
           None \<Rightarrow> True
         | Some h \<Rightarrow> ch (case old of None \<Rightarrow> [] | Some p \<Rightarrow> p) h \<and>
                     locked_until (read_state now g) \<le> now)
    | (Inl _, g') \<Rightarrow> shadow g' = shadow g)"
  by (auto simp: set_password_def verify_def is_set_def write_state_def stored_attempts_def Let_def
      split: option.splits prod.splits sum.splits bool.splits if_splits)

end
