(* ===== verification/PolicyStore.thy ===== *)
theory PolicyStore
  imports Prelude
begin

text \<open>
  \<open>kosherd/src/kosherd/policy.py\<close>: the device policy, its accounts, and its document form.
  What a managed user and the guest have in common is the base record \<open>account\<close>, which
  both extend, as every per-account setter of the daemon treats them alike.  \<open>jsonschema\<close>
  is not code of the repository: \<open>validate\<close> is an argument of the loader and the saver,
  giving the schema's complaint if it has one.  A field whose type the schema fixes is read
  with an error branch for any other type.
\<close>

section \<open>Constants\<close>

definition MODES :: "string list" where
  "MODES = [''none'', ''whitelist'', ''dnsfilter'', ''filtered'', ''unfiltered'']"
definition INSPECTED_MODES :: "string list" where "INSPECTED_MODES = [''filtered'']"
definition SAFESEARCH_MODES :: "string list" where
  "SAFESEARCH_MODES = [''dnsfilter'', ''filtered'', ''whitelist'']"
definition UNFILTERED_MODES :: "string list" where "UNFILTERED_MODES = [''unfiltered'']"
definition MEDIA_LEVELS :: "string list" where
  "MEDIA_LEVELS = [''none'', ''nsfw'', ''suggestive'', ''immodest'', ''people'', ''all'']"
definition DEFAULT_MEDIA_LEVEL :: string where "DEFAULT_MEDIA_LEVEL = ''none''"
definition COVER_STYLES :: "string list" where "COVER_STYLES = [''frost'', ''skin'']"
definition DEFAULT_COVER_STYLE :: string where "DEFAULT_COVER_STYLE = ''frost''"
definition LAYOUTS :: "string list" where "LAYOUTS = [''classic'', ''tiling'', ''advanced'']"
definition DEFAULT_LAYOUT :: string where "DEFAULT_LAYOUT = ''classic''"
definition COMPOSITORS :: "string list" where "COMPOSITORS = [''niri'', ''hyprland'', ''umbriel'']"
definition DEFAULT_COMPOSITOR :: string where "DEFAULT_COMPOSITOR = ''niri''"
definition AUTO_UPDATE_SCHEDULES :: "string list" where
  "AUTO_UPDATE_SCHEDULES = [''off'', ''daily'', ''weekly'', ''biweekly'', ''monthly'']"
definition DEFAULT_AUTO_UPDATES :: string where "DEFAULT_AUTO_UPDATES = ''weekly''"
definition GUEST_USERNAME :: string where "GUEST_USERNAME = ''kosher-guest''"
definition LEGACY_MODES :: "(string, string) dict" where "LEGACY_MODES = [(''inspect'', ''filtered'')]"

definition BUILTIN_SYSTEM_WHITELIST :: "string list" where
  "BUILTIN_SYSTEM_WHITELIST =
     [''nmcheck.gnome.org'', ''*.fedoraproject.org'', ''ghcr.io'',
      ''pkg-containers.githubusercontent.com'', ''flathub.org'', ''dl.flathub.org'',
      ''*.cloudfront.net'']"

definition DEVELOPER_REGISTRIES :: "string list" where
  "DEVELOPER_REGISTRIES =
     [''registry.npmjs.org'', ''registry.yarnpkg.com'', ''bun.sh'', ''*.bun.sh'',
      ''pypi.org'', ''files.pythonhosted.org'', ''astral.sh'', ''*.astral.sh'',
      ''github.com'', ''objects.githubusercontent.com'',
      ''release-assets.githubusercontent.com'', ''raw.githubusercontent.com'',
      ''rubygems.org'', ''*.rubygems.org'',
      ''crates.io'', ''*.crates.io'', ''static.rust-lang.org'',
      ''deno.land'', ''*.deno.land'', ''jsr.io'', ''*.jsr.io'',
      ''proxy.golang.org'', ''sum.golang.org'', ''go.dev'', ''storage.googleapis.com'',
      ''cache.nixos.org'', ''channels.nixos.org'', ''api.github.com'', ''codeload.github.com'',
      ''devenv.cachix.org'', ''search.devbox.sh'',
      ''downloads.claude.ai'', ''downloads.cursor.com'', ''edgedl.me.gvt1.com'',
      ''docker.io'', ''registry-1.docker.io'', ''auth.docker.io'', ''index.docker.io'',
      ''production.cloudflare.docker.com'', ''quay.io'', ''*.quay.io'',
      ''mcr.microsoft.com'', ''*.data.mcr.microsoft.com'', ''registry.access.redhat.com'']"

lemmas policy_defaults =
  DEFAULT_MEDIA_LEVEL_def DEFAULT_COVER_STYLE_def DEFAULT_LAYOUT_def DEFAULT_COMPOSITOR_def
  DEFAULT_AUTO_UPDATES_def

definition YOUTUBE_CATEGORIES :: "(string, string) dict" where
  "YOUTUBE_CATEGORIES =
     [(''1'', ''Film & Animation''), (''2'', ''Autos & Vehicles''), (''10'', ''Music''),
      (''15'', ''Pets & Animals''), (''17'', ''Sports''), (''19'', ''Travel & Events''),
      (''20'', ''Gaming''), (''22'', ''People & Blogs''), (''23'', ''Comedy''),
      (''24'', ''Entertainment''), (''25'', ''News & Politics''), (''26'', ''How-to & Style''),
      (''27'', ''Education''), (''28'', ''Science & Technology''), (''29'', ''Nonprofits''),
      (''shorts'', ''Shorts'')]"

text \<open>\<open>"".join(ch for ch in s.lower() if ch.isalnum())\<close> on ASCII text.\<close>

definition alnum_key :: "string \<Rightarrow> string" where
  "alnum_key s =
     filter (\<lambda>c. let n = of_char c :: nat in 48 \<le> n \<and> n \<le> 57 \<or> 97 \<le> n \<and> n \<le> 122) (lower s)"

definition CATEGORY_KEY :: "(string, string) dict" where
  "CATEGORY_KEY = map (\<lambda>(code, label). (alnum_key label, code)) YOUTUBE_CATEGORIES"

definition youtube_category_id :: "string option \<Rightarrow> string option" where
  "youtube_category_id v =
     (case v of
        None \<Rightarrow> None
      | Some s \<Rightarrow>
          if s = [] then None
          else let text = strip is_space s in
            if text \<in> set (keys YOUTUBE_CATEGORIES) then Some text
            else map_of CATEGORY_KEY (alnum_key text))"

section \<open>Accounts\<close>

record account =
  mode :: string
  whitelist :: "string list"
  whitelist_bundles :: "string list"
  rules :: "doc list"
  blocked_categories :: "string list"
  media_level :: string
  language_filter :: string
  youtube :: doc
  calm :: doc
  cover_style :: string
  time :: doc

record user_policy = account +
  uid :: int
  username :: string
  admin :: bool
  apps :: "string list"
  can_install_apps :: bool
  app_access :: "string option"
  blocked_app_kinds :: "string list"
  blocked_apps :: "string list"
  layout :: string
  compositor :: string
  video_calls :: bool
  extra_ports :: "int list"
  ssh_hosts :: "string list"
  ssh_anywhere :: bool
  developer_tools :: bool
  ssh_in :: bool
  approved_apps :: "string list"
  syncthing_lan :: bool
  profile :: "string option"

record guest_policy = account +
  enabled :: bool
  guest_uid :: "int option"

text \<open>\<open>UserPolicy(uid=..., username=..., mode=...)\<close> and \<open>GuestPolicy()\<close>: the field defaults.\<close>

definition default_user :: "int \<Rightarrow> string \<Rightarrow> string \<Rightarrow> user_policy" where
  "default_user i name m =
     \<lparr>mode = m, whitelist = [], whitelist_bundles = [], rules = [], blocked_categories = [],
      media_level = DEFAULT_MEDIA_LEVEL, language_filter = ''off'', youtube = [], calm = [],
      cover_style = DEFAULT_COVER_STYLE, time = [],
      uid = i, username = name, admin = False, apps = [], can_install_apps = True,
      app_access = None, blocked_app_kinds = [], blocked_apps = [], layout = DEFAULT_LAYOUT,
      compositor = DEFAULT_COMPOSITOR, video_calls = True, extra_ports = [], ssh_hosts = [],
      ssh_anywhere = False, developer_tools = False, ssh_in = False, approved_apps = [],
      syncthing_lan = False, profile = None\<rparr>"

definition default_guest :: guest_policy where
  "default_guest =
     \<lparr>mode = ''whitelist'', whitelist = [], whitelist_bundles = [], rules = [],
      blocked_categories = [], media_level = DEFAULT_MEDIA_LEVEL, language_filter = ''off'',
      youtube = [], calm = [], cover_style = DEFAULT_COVER_STYLE, time = [],
      enabled = False, guest_uid = None\<rparr>"

section \<open>Documents: writing\<close>

declare map_of_append [simp del]

definition opt :: "bool \<Rightarrow> string \<Rightarrow> json \<Rightarrow> doc" where
  "opt b k v = (if b then [(k, v)] else [])"

lemma map_of_opt [simp]:
  "map_of (opt b k v @ d) k' = (if k = k' \<and> b then Some v else map_of d k')"
  by (simp add: opt_def)

lemma map_of_opt_last [simp]: "map_of (opt b k v) k' = (if k = k' \<and> b then Some v else None)"
  by (simp add: opt_def)

definition jstrs :: "string list \<Rightarrow> json" where "jstrs xs = JList (map JStr xs)"
definition jints :: "int list \<Rightarrow> json" where "jints xs = JList (map JInt xs)"
definition jobjs :: "doc list \<Rightarrow> json" where "jobjs ds = JList (map JObj ds)"
definition opt_str :: "string \<Rightarrow> string option \<Rightarrow> doc" where
  "opt_str k s = (case s of None \<Rightarrow> [] | Some x \<Rightarrow> opt (x \<noteq> []) k (JStr x))"

lemma map_of_opt_str [simp]:
  "map_of (opt_str k s @ d) k' =
     (if k = k' \<and> \<not> (s = None \<or> s = Some []) then map_option JStr s else map_of d k')"
  by (auto simp: opt_str_def split: option.splits)

definition opt_int :: "string \<Rightarrow> int option \<Rightarrow> doc" where
  "opt_int k i = (case i of None \<Rightarrow> [] | Some x \<Rightarrow> [(k, JInt x)])"

lemma map_of_opt_int [simp]:
  "map_of (opt_int k i @ d) k' = (if k = k' \<and> i \<noteq> None then map_option JInt i else map_of d k')"
  by (simp add: opt_int_def split: option.splits)

definition opt_bool :: "string \<Rightarrow> bool option \<Rightarrow> doc" where
  "opt_bool k b = (case b of None \<Rightarrow> [] | Some x \<Rightarrow> [(k, JBool x)])"

lemma map_of_opt_bool [simp]:
  "map_of (opt_bool k b @ d) k' = (if k = k' \<and> b \<noteq> None then map_option JBool b else map_of d k')"
  "map_of (opt_bool k b) k' = (if k = k' then map_option JBool b else None)"
  by (simp_all add: opt_bool_def split: option.splits)

definition user_to_dict :: "user_policy \<Rightarrow> doc" where
  "user_to_dict u =
     [(''uid'', JInt (uid u)), (''username'', JStr (username u)), (''mode'', JStr (mode u))]
     @ opt_str ''profile'' (profile u)
     @ opt (admin u) ''admin'' (JBool True)
     @ opt (whitelist u \<noteq> []) ''whitelist'' (jstrs (whitelist u))
     @ opt (whitelist_bundles u \<noteq> []) ''whitelist_bundles'' (jstrs (whitelist_bundles u))
     @ opt (rules u \<noteq> []) ''rules'' (jobjs (rules u))
     @ opt (blocked_categories u \<noteq> []) ''blocked_categories'' (jstrs (blocked_categories u))
     @ opt (media_level u \<noteq> DEFAULT_MEDIA_LEVEL) ''media_level'' (JStr (media_level u))
     @ opt (youtube u \<noteq> []) ''youtube'' (JObj (youtube u))
     @ opt (calm u \<noteq> []) ''calm'' (JObj (calm u))
     @ opt (language_filter u \<noteq> ''off'') ''language_filter'' (JStr (language_filter u))
     @ opt (apps u \<noteq> []) ''apps'' (jstrs (apps u))
     @ opt (\<not> can_install_apps u) ''can_install_apps'' (JBool False)
     @ opt_str ''app_access'' (app_access u)
     @ opt (blocked_app_kinds u \<noteq> []) ''blocked_app_kinds'' (jstrs (blocked_app_kinds u))
     @ opt (blocked_apps u \<noteq> []) ''blocked_apps'' (jstrs (blocked_apps u))
     @ opt (layout u \<noteq> DEFAULT_LAYOUT) ''layout'' (JStr (layout u))
     @ opt (compositor u \<noteq> DEFAULT_COMPOSITOR) ''compositor'' (JStr (compositor u))
     @ opt (cover_style u \<noteq> DEFAULT_COVER_STYLE) ''cover_style'' (JStr (cover_style u))
     @ opt (time u \<noteq> []) ''time'' (JObj (time u))
     @ opt (\<not> video_calls u) ''video_calls'' (JBool False)
     @ opt (extra_ports u \<noteq> []) ''extra_ports'' (jints (sorted_set (extra_ports u)))
     @ opt (ssh_hosts u \<noteq> []) ''ssh_hosts'' (jstrs (dedup (ssh_hosts u)))
     @ opt (ssh_anywhere u) ''ssh_anywhere'' (JBool True)
     @ opt (developer_tools u) ''developer_tools'' (JBool True)
     @ opt (ssh_in u) ''ssh_in'' (JBool True)
     @ opt (approved_apps u \<noteq> []) ''approved_apps'' (jstrs (sorted_set (approved_apps u)))
     @ opt (syncthing_lan u) ''syncthing_lan'' (JBool True)"

definition guest_to_dict :: "guest_policy \<Rightarrow> doc" where
  "guest_to_dict g =
     [(''enabled'', JBool (enabled g))]
     @ opt_int ''uid'' (guest_uid g)
     @ opt (mode g \<noteq> ''whitelist'') ''mode'' (JStr (mode g))
     @ opt (whitelist g \<noteq> []) ''whitelist'' (jstrs (whitelist g))
     @ opt (whitelist_bundles g \<noteq> []) ''whitelist_bundles'' (jstrs (whitelist_bundles g))
     @ opt (rules g \<noteq> []) ''rules'' (jobjs (rules g))
     @ opt (blocked_categories g \<noteq> []) ''blocked_categories'' (jstrs (blocked_categories g))
     @ opt (media_level g \<noteq> DEFAULT_MEDIA_LEVEL) ''media_level'' (JStr (media_level g))
     @ opt (language_filter g \<noteq> ''off'') ''language_filter'' (JStr (language_filter g))
     @ opt (youtube g \<noteq> []) ''youtube'' (JObj (youtube g))
     @ opt (calm g \<noteq> []) ''calm'' (JObj (calm g))
     @ opt (cover_style g \<noteq> DEFAULT_COVER_STYLE) ''cover_style'' (JStr (cover_style g))
     @ opt (time g \<noteq> []) ''time'' (JObj (time g))"

section \<open>Documents: reading\<close>

text \<open>
  \<open>d["k"]\<close> and \<open>d.get("k", default)\<close> for each type of field; the value read is given as the
  lookup's result, and a value of another type is the error the constructor would raise.
\<close>

definition bad_type :: string where "bad_type = ''unexpected type''"

definition need :: "'a option \<Rightarrow> 'a result" where
  "need v = (case v of None \<Rightarrow> Inl bad_type | Some a \<Rightarrow> Inr a)"

definition rd :: "(json \<Rightarrow> 'a option) \<Rightarrow> json option \<Rightarrow> 'a result" where
  "rd f v = (case v of None \<Rightarrow> Inl ''KeyError'' | Some j \<Rightarrow> need (f j))"

definition rd_def :: "(json \<Rightarrow> 'a option) \<Rightarrow> 'a \<Rightarrow> json option \<Rightarrow> 'a result" where
  "rd_def f x v = (case v of None \<Rightarrow> Inr x | Some j \<Rightarrow> need (f j))"

definition strs_of :: "json \<Rightarrow> string list option" where
  "strs_of j = Option.bind (as_list j) (\<lambda>xs. those (map as_str xs))"
definition ints_of :: "json \<Rightarrow> int list option" where
  "ints_of j = Option.bind (as_list j) (\<lambda>xs. those (map as_int xs))"
definition objs_of :: "json \<Rightarrow> doc list option" where
  "objs_of j = Option.bind (as_list j) (\<lambda>xs. those (map as_obj xs))"
text \<open>\<open>d.get("k") or None\<close> for a string.\<close>

definition str_or_none :: "json \<Rightarrow> string option option" where
  "str_or_none j = (if truthy j then map_option Some (as_str j) else Some None)"

lemma those_map_inverse: "(\<And>x. f (g x) = Some x) \<Longrightarrow> those (map f (map g xs)) = Some xs"
  by (induction xs) simp_all

lemma those_inverses [simp]:
  "those (map (as_str \<circ> JStr) xs) = Some xs" "those (map (as_int \<circ> JInt) is) = Some is"
  "those (map (as_obj \<circ> JObj) ds) = Some ds"
  by (simp_all add: those_map_inverse flip: map_map)

lemma of_j_inverses [simp]:
  "strs_of (jstrs xs) = Some xs" "ints_of (jints is) = Some is" "objs_of (jobjs ds) = Some ds"
  by (simp_all add: strs_of_def ints_of_def objs_of_def jstrs_def jints_def jobjs_def)

lemma rd_simps [simp]:
  "rd f (Some j) = need (f j)" "rd f None = Inl ''KeyError''"
  "rd_def f x None = Inr x" "rd_def f x (Some j) = need (f j)"
  "need (Some a) = Inr a" "need None = Inl bad_type"
  by (simp_all add: rd_def rd_def_def need_def)

definition user_from_dict :: "doc \<Rightarrow> user_policy result" where
  "user_from_dict d =
     bind_result (rd as_int (map_of d ''uid'')) (\<lambda>v_uid.
     bind_result (rd as_str (map_of d ''username'')) (\<lambda>v_username.
     bind_result (rd as_str (map_of d ''mode'')) (\<lambda>v_mode.
     bind_result (rd_def as_bool False (map_of d ''admin'')) (\<lambda>v_admin.
     bind_result (rd_def strs_of [] (map_of d ''whitelist'')) (\<lambda>v_whitelist.
     bind_result (rd_def strs_of [] (map_of d ''whitelist_bundles'')) (\<lambda>v_bundles.
     bind_result (rd_def strs_of [] (map_of d ''apps'')) (\<lambda>v_apps.
     bind_result (rd_def as_bool True (map_of d ''can_install_apps'')) (\<lambda>v_install.
     bind_result (rd_def str_or_none None (map_of d ''app_access'')) (\<lambda>v_access.
     bind_result (rd_def strs_of [] (map_of d ''blocked_app_kinds'')) (\<lambda>v_kinds.
     bind_result (rd_def strs_of [] (map_of d ''blocked_apps'')) (\<lambda>v_blocked.
     bind_result (rd_def objs_of [] (map_of d ''rules'')) (\<lambda>v_rules.
     bind_result (rd_def strs_of [] (map_of d ''blocked_categories'')) (\<lambda>v_cats.
     bind_result (rd_def as_str DEFAULT_MEDIA_LEVEL (map_of d ''media_level'')) (\<lambda>v_media.
     bind_result (rd_def as_obj [] (map_of d ''youtube'')) (\<lambda>v_youtube.
     bind_result (rd_def as_obj [] (map_of d ''calm'')) (\<lambda>v_calm.
     bind_result (rd_def as_str ''off'' (map_of d ''language_filter'')) (\<lambda>v_lang.
     bind_result (rd_def as_str DEFAULT_LAYOUT (map_of d ''layout'')) (\<lambda>v_layout.
     bind_result (rd_def as_str DEFAULT_COMPOSITOR (map_of d ''compositor'')) (\<lambda>v_comp.
     bind_result (rd_def as_str DEFAULT_COVER_STYLE (map_of d ''cover_style'')) (\<lambda>v_cover.
     bind_result (rd_def as_obj [] (map_of d ''time'')) (\<lambda>v_time.
     bind_result (rd_def ints_of [] (map_of d ''extra_ports'')) (\<lambda>v_ports.
     bind_result (rd_def strs_of [] (map_of d ''ssh_hosts'')) (\<lambda>v_ssh.
     bind_result (rd_def strs_of [] (map_of d ''approved_apps'')) (\<lambda>v_approved.
     bind_result (rd_def str_or_none None (map_of d ''profile'')) (\<lambda>v_profile.
     Inr \<lparr>mode = v_mode, whitelist = v_whitelist, whitelist_bundles = v_bundles,
          rules = v_rules, blocked_categories = v_cats, media_level = v_media,
          language_filter = v_lang, youtube = v_youtube, calm = v_calm,
          cover_style = v_cover, time = v_time,
          uid = v_uid, username = v_username, admin = v_admin, apps = v_apps,
          can_install_apps = v_install, app_access = v_access, blocked_app_kinds = v_kinds,
          blocked_apps = v_blocked, layout = v_layout, compositor = v_comp,
          video_calls = (case map_of d ''video_calls'' of None \<Rightarrow> True | Some j \<Rightarrow> truthy j),
          extra_ports = v_ports, ssh_hosts = v_ssh,
          ssh_anywhere = (case map_of d ''ssh_anywhere'' of None \<Rightarrow> False | Some j \<Rightarrow> truthy j),
          developer_tools = (case map_of d ''developer_tools'' of None \<Rightarrow> False | Some j \<Rightarrow> truthy j),
          ssh_in = (case map_of d ''ssh_in'' of None \<Rightarrow> False | Some j \<Rightarrow> truthy j),
          approved_apps = v_approved,
          syncthing_lan = (case map_of d ''syncthing_lan'' of None \<Rightarrow> False | Some j \<Rightarrow> truthy j),
          profile = v_profile\<rparr>)))))))))))))))))))))))))"

definition guest_from_dict :: "doc \<Rightarrow> guest_policy result" where
  "guest_from_dict d =
     bind_result (rd as_bool (map_of d ''enabled'')) (\<lambda>v_enabled.
     bind_result (rd_def (map_option Some \<circ> as_int) None (map_of d ''uid'')) (\<lambda>v_uid.
     bind_result (rd_def as_str ''whitelist'' (map_of d ''mode'')) (\<lambda>v_mode.
     bind_result (rd_def strs_of [] (map_of d ''whitelist'')) (\<lambda>v_whitelist.
     bind_result (rd_def strs_of [] (map_of d ''whitelist_bundles'')) (\<lambda>v_bundles.
     bind_result (rd_def objs_of [] (map_of d ''rules'')) (\<lambda>v_rules.
     bind_result (rd_def strs_of [] (map_of d ''blocked_categories'')) (\<lambda>v_cats.
     bind_result (rd_def as_str DEFAULT_MEDIA_LEVEL (map_of d ''media_level'')) (\<lambda>v_media.
     bind_result (rd_def as_str ''off'' (map_of d ''language_filter'')) (\<lambda>v_lang.
     bind_result (rd_def as_obj [] (map_of d ''youtube'')) (\<lambda>v_youtube.
     bind_result (rd_def as_obj [] (map_of d ''calm'')) (\<lambda>v_calm.
     bind_result (rd_def as_str DEFAULT_COVER_STYLE (map_of d ''cover_style'')) (\<lambda>v_cover.
     bind_result (rd_def as_obj [] (map_of d ''time'')) (\<lambda>v_time.
     Inr \<lparr>mode = v_mode, whitelist = v_whitelist, whitelist_bundles = v_bundles,
          rules = v_rules, blocked_categories = v_cats, media_level = v_media,
          language_filter = v_lang, youtube = v_youtube, calm = v_calm,
          cover_style = v_cover, time = v_time,
          enabled = v_enabled, guest_uid = v_uid\<rparr>)))))))))))))"

text \<open>What writing a user does to it: sorted ports and approvals, deduplicated SSH machines.\<close>

definition stored_form :: "user_policy \<Rightarrow> user_policy" where
  "stored_form u = u\<lparr>
     app_access := (if app_access u = Some [] then None else app_access u),
     profile := (if profile u = Some [] then None else profile u),
     extra_ports := sorted_set (extra_ports u),
     ssh_hosts := dedup (ssh_hosts u),
     approved_apps := sorted_set (approved_apps u)\<rparr>"

lemma rd_def_if [simp]:
  "rd_def f x (if b then Some v else None) = (if b then need (f v) else Inr x)"
  "rd_def f x (if b then None else Some v) = (if b then Inr x else need (f v))"
  by simp_all

lemma if_Inr [simp]: "(if b then Inr a else Inr x) = Inr (if b then a else x)"
  by simp

lemma rd_def_str_or_none [simp]:
  "s \<noteq> None \<Longrightarrow> s \<noteq> Some [] \<Longrightarrow> rd_def str_or_none None (map_option JStr s) = Inr s"
  by (cases s) (auto simp: str_or_none_def)

text \<open>What the reader of each field makes of a user's document.\<close>

lemma user_fields:
  "rd as_int (map_of (user_to_dict u) ''uid'') = Inr (uid u)"
  "rd as_str (map_of (user_to_dict u) ''username'') = Inr (username u)"
  "rd as_str (map_of (user_to_dict u) ''mode'') = Inr (mode u)"
  "rd_def str_or_none None (map_of (user_to_dict u) ''profile'') = Inr (if profile u = Some [] then None else profile u)"
  "rd_def as_bool False (map_of (user_to_dict u) ''admin'') = Inr (admin u)"
  "rd_def strs_of [] (map_of (user_to_dict u) ''whitelist'') = Inr (whitelist u)"
  "rd_def strs_of [] (map_of (user_to_dict u) ''whitelist_bundles'') = Inr (whitelist_bundles u)"
  "rd_def objs_of [] (map_of (user_to_dict u) ''rules'') = Inr (rules u)"
  "rd_def strs_of [] (map_of (user_to_dict u) ''blocked_categories'') = Inr (blocked_categories u)"
  "rd_def as_str DEFAULT_MEDIA_LEVEL (map_of (user_to_dict u) ''media_level'') = Inr (media_level u)"
  "rd_def as_obj [] (map_of (user_to_dict u) ''youtube'') = Inr (youtube u)"
  "rd_def as_obj [] (map_of (user_to_dict u) ''calm'') = Inr (calm u)"
  "rd_def as_str ''off'' (map_of (user_to_dict u) ''language_filter'') = Inr (language_filter u)"
  "rd_def strs_of [] (map_of (user_to_dict u) ''apps'') = Inr (apps u)"
  "rd_def as_bool True (map_of (user_to_dict u) ''can_install_apps'') = Inr (can_install_apps u)"
  "rd_def str_or_none None (map_of (user_to_dict u) ''app_access'') = Inr (if app_access u = Some [] then None else app_access u)"
  "rd_def strs_of [] (map_of (user_to_dict u) ''blocked_app_kinds'') = Inr (blocked_app_kinds u)"
  "rd_def strs_of [] (map_of (user_to_dict u) ''blocked_apps'') = Inr (blocked_apps u)"
  "rd_def as_str DEFAULT_LAYOUT (map_of (user_to_dict u) ''layout'') = Inr (layout u)"
  "rd_def as_str DEFAULT_COMPOSITOR (map_of (user_to_dict u) ''compositor'') = Inr (compositor u)"
  "rd_def as_str DEFAULT_COVER_STYLE (map_of (user_to_dict u) ''cover_style'') = Inr (cover_style u)"
  "rd_def as_obj [] (map_of (user_to_dict u) ''time'') = Inr (time u)"
  "(case map_of (user_to_dict u) ''video_calls'' of None \<Rightarrow> True | Some j \<Rightarrow> truthy j) = video_calls u"
  "rd_def ints_of [] (map_of (user_to_dict u) ''extra_ports'') = Inr (sorted_set (extra_ports u))"
  "rd_def strs_of [] (map_of (user_to_dict u) ''ssh_hosts'') = Inr (dedup (ssh_hosts u))"
  "(case map_of (user_to_dict u) ''ssh_anywhere'' of None \<Rightarrow> False | Some j \<Rightarrow> truthy j) = ssh_anywhere u"
  "(case map_of (user_to_dict u) ''developer_tools'' of None \<Rightarrow> False | Some j \<Rightarrow> truthy j) = developer_tools u"
  "(case map_of (user_to_dict u) ''ssh_in'' of None \<Rightarrow> False | Some j \<Rightarrow> truthy j) = ssh_in u"
  "rd_def strs_of [] (map_of (user_to_dict u) ''approved_apps'') = Inr (sorted_set (approved_apps u))"
  "(case map_of (user_to_dict u) ''syncthing_lan'' of None \<Rightarrow> False | Some j \<Rightarrow> truthy j) = syncthing_lan u"
  by (simp_all add: user_to_dict_def)

lemma user_roundtrip: "user_from_dict (user_to_dict u) = Inr (stored_form u)"
  by (simp add: user_from_dict_def user_fields stored_form_def)

lemma stored_form_idem [simp]: "stored_form (stored_form u) = stored_form u"
  by (simp add: stored_form_def dedup_id)

lemma guest_fields:
  "rd as_bool (map_of (guest_to_dict g) ''enabled'') = Inr (enabled g)"
  "rd_def (map_option Some \<circ> as_int) None (map_of (guest_to_dict g) ''uid'') = Inr (guest_uid g)"
  "rd_def as_str ''whitelist'' (map_of (guest_to_dict g) ''mode'') = Inr (mode g)"
  "rd_def strs_of [] (map_of (guest_to_dict g) ''whitelist'') = Inr (whitelist g)"
  "rd_def strs_of [] (map_of (guest_to_dict g) ''whitelist_bundles'') = Inr (whitelist_bundles g)"
  "rd_def objs_of [] (map_of (guest_to_dict g) ''rules'') = Inr (rules g)"
  "rd_def strs_of [] (map_of (guest_to_dict g) ''blocked_categories'') = Inr (blocked_categories g)"
  "rd_def as_str DEFAULT_MEDIA_LEVEL (map_of (guest_to_dict g) ''media_level'') = Inr (media_level g)"
  "rd_def as_obj [] (map_of (guest_to_dict g) ''youtube'') = Inr (youtube g)"
  "rd_def as_obj [] (map_of (guest_to_dict g) ''calm'') = Inr (calm g)"
  "rd_def as_str ''off'' (map_of (guest_to_dict g) ''language_filter'') = Inr (language_filter g)"
  "rd_def as_str DEFAULT_COVER_STYLE (map_of (guest_to_dict g) ''cover_style'') = Inr (cover_style g)"
  "rd_def as_obj [] (map_of (guest_to_dict g) ''time'') = Inr (time g)"
  by (cases "guest_uid g"; simp add: guest_to_dict_def)+

lemma guest_roundtrip: "guest_from_dict (guest_to_dict g) = Inr g"
  by (simp add: guest_from_dict_def guest_fields)


section \<open>The policy\<close>

record policy =
  revision :: int
  source :: string
  users :: "user_policy list"
  guardian_enabled :: bool
  adblock :: bool
  adblock_allowed :: "string list"
  auto_updates :: string
  update_notify :: bool
  tailscale :: "bool option"
  syncthing :: "bool option"
  keyd :: "bool option"
  system_whitelist :: "string list"
  guest :: guest_policy
  custom_profiles :: "doc list"
  build_sources_extra :: "string list"

definition default_policy :: policy where
  "default_policy =
     \<lparr>revision = 0, source = ''local'', users = [], guardian_enabled = False, adblock = True,
      adblock_allowed = [], auto_updates = DEFAULT_AUTO_UPDATES, update_notify = True,
      tailscale = None, syncthing = None, keyd = None, system_whitelist = [],
      guest = default_guest, custom_profiles = [], build_sources_extra = []\<rparr>"

text \<open>\<open>Policy.user\<close>: the first managed user with this uid.\<close>

definition find_user :: "int \<Rightarrow> policy \<Rightarrow> user_policy option" where
  "find_user i p = find (\<lambda>u. uid u = i) (users p)"

text \<open>Whether the guest exists and is what \<open>Policy.account\<close> finds for a uid.\<close>

definition guest_is :: "int \<Rightarrow> policy \<Rightarrow> bool" where
  "guest_is i p \<longleftrightarrow> enabled (guest p) \<and> guest_uid (guest p) = Some i"

definition guest_as_user :: "guest_policy \<Rightarrow> int \<Rightarrow> user_policy" where
  "guest_as_user g i = (default_user i GUEST_USERNAME (mode g))
     \<lparr>whitelist := whitelist g, whitelist_bundles := whitelist_bundles g,
      can_install_apps := False, rules := rules g, blocked_categories := blocked_categories g,
      media_level := media_level g, language_filter := language_filter g,
      youtube := youtube g, calm := calm g, cover_style := cover_style g, time := time g\<rparr>"

definition effective_users :: "policy \<Rightarrow> user_policy list" where
  "effective_users p = users p @
     (case guest_uid (guest p) of
        Some i \<Rightarrow> if enabled (guest p) then [guest_as_user (guest p) i] else []
      | None \<Rightarrow> [])"

definition effective_system_whitelist :: "policy \<Rightarrow> string list" where
  "effective_system_whitelist p = dedup (BUILTIN_SYSTEM_WHITELIST @ system_whitelist p)"

definition switched_off_apps :: "policy \<Rightarrow> string list" where
  "switched_off_apps p = (if syncthing p = Some True then [] else [''nixpkgs#syncthing''])"

definition developer_accounts :: "policy \<Rightarrow> user_policy list" where
  "developer_accounts p = filter (\<lambda>u. developer_tools u \<and> mode u \<noteq> ''none'') (effective_users p)"

definition ssh_in_accounts :: "policy \<Rightarrow> user_policy list" where
  "ssh_in_accounts p = filter ssh_in (developer_accounts p)"

definition advanced :: "policy \<Rightarrow> doc" where
  "advanced p = opt_bool ''tailscale'' (tailscale p) @ opt_bool ''syncthing'' (syncthing p)
                @ opt_bool ''keyd'' (keyd p)"

definition to_dict :: "policy \<Rightarrow> doc" where
  "to_dict p =
     [(''schema_version'', JInt 1), (''revision'', JInt (revision p)),
      (''source'', JStr (source p)), (''users'', jobjs (map user_to_dict (users p))),
      (''guardian'', JObj [(''enabled'', JBool (guardian_enabled p))]),
      (''adblock'', JObj ([(''enabled'', JBool (adblock p))]
          @ opt (adblock_allowed p \<noteq> []) ''allowed'' (jstrs (adblock_allowed p)))),
      (''updates'', JObj [(''auto'', JStr (auto_updates p)), (''notify'', JBool (update_notify p))])]
     @ opt (advanced p \<noteq> []) ''advanced'' (JObj (advanced p))
     @ opt (custom_profiles p \<noteq> []) ''custom_profiles'' (jobjs (custom_profiles p))
     @ [(''system_whitelist'', jstrs (system_whitelist p))]
     @ opt (build_sources_extra p \<noteq> []) ''developer''
         (JObj [(''build_sources_extra'', jstrs (build_sources_extra p))])
     @ [(''guest'', JObj (guest_to_dict (guest p)))]"

text \<open>\<open>migrate\<close>: what earlier policies called the modes, in the users and the guest.\<close>

definition legacy_mode :: "json option \<Rightarrow> json" where
  "legacy_mode m =
     (case m of
        Some (JStr s) \<Rightarrow> (case map_of LEGACY_MODES s of Some n \<Rightarrow> JStr n | None \<Rightarrow> JStr s)
      | Some j \<Rightarrow> j
      | None \<Rightarrow> JNull)"

fun migrate_user :: "json \<Rightarrow> json" where
  "migrate_user (JObj d) = JObj (dict_set ''mode'' (legacy_mode (map_of d ''mode'')) d)"
| "migrate_user j = j"

fun migrate_guest :: "json \<Rightarrow> json" where
  "migrate_guest (JObj d) =
     (if map_of d ''mode'' = None then JObj d
      else JObj (dict_set ''mode'' (legacy_mode (map_of d ''mode'')) d))"
| "migrate_guest j = j"

definition migrate_entry :: "string \<times> json \<Rightarrow> string \<times> json" where
  "migrate_entry e =
     (if fst e = ''users''
      then (case snd e of JList us \<Rightarrow> (fst e, JList (map migrate_user us)) | j \<Rightarrow> (fst e, j))
      else if fst e = ''guest'' then (fst e, migrate_guest (snd e))
      else e)"

definition migrate :: "doc \<Rightarrow> doc" where
  "migrate d = map migrate_entry d"

text \<open>\<open>d.get("k") or {}\<close>, and the fields \<open>from_dict\<close> reads out of the sub-documents.\<close>

definition sub_doc :: "doc \<Rightarrow> string \<Rightarrow> doc result" where
  "sub_doc d k =
     (case map_of d k of None \<Rightarrow> Inr [] | Some j \<Rightarrow> if truthy j then need (as_obj j) else Inr [])"

definition opt_field :: "doc \<Rightarrow> string \<Rightarrow> bool option result" where
  "opt_field d k = rd_def (map_option Some \<circ> as_bool) None (map_of d k)"

definition from_dict :: "(doc \<Rightarrow> string option) \<Rightarrow> doc \<Rightarrow> policy result" where
  "from_dict validate raw =
     (let d = migrate raw in
      case validate d of Some e \<Rightarrow> Inl e | None \<Rightarrow>
      bind_result (rd as_int (map_of d ''revision'')) (\<lambda>v_rev.
      bind_result (rd as_str (map_of d ''source'')) (\<lambda>v_source.
      bind_result (rd objs_of (map_of d ''users'')) (\<lambda>ds.
      bind_result (map_result user_from_dict ds) (\<lambda>v_users.
      bind_result (rd as_obj (map_of d ''guardian'')) (\<lambda>gd.
      bind_result (rd as_bool (map_of gd ''enabled'')) (\<lambda>v_guardian.
      bind_result (rd_def as_obj [] (map_of d ''adblock'')) (\<lambda>ad.
      bind_result (rd_def strs_of [] (map_of ad ''allowed'')) (\<lambda>v_allowed.
      bind_result (sub_doc d ''updates'') (\<lambda>up.
      bind_result (rd_def as_str DEFAULT_AUTO_UPDATES (map_of up ''auto'')) (\<lambda>v_auto.
      bind_result (sub_doc d ''advanced'') (\<lambda>adv.
      bind_result (opt_field adv ''tailscale'') (\<lambda>v_ts.
      bind_result (opt_field adv ''syncthing'') (\<lambda>v_st.
      bind_result (opt_field adv ''keyd'') (\<lambda>v_keyd.
      bind_result (rd_def objs_of [] (map_of d ''custom_profiles'')) (\<lambda>v_profiles.
      bind_result (rd_def strs_of [] (map_of d ''system_whitelist'')) (\<lambda>v_system.
      bind_result (sub_doc d ''developer'') (\<lambda>dev.
      bind_result (rd_def strs_of [] (map_of dev ''build_sources_extra'')) (\<lambda>v_build.
      bind_result (rd_def as_obj [(''enabled'', JBool False)] (map_of d ''guest'')) (\<lambda>guest_d.
      bind_result (guest_from_dict guest_d) (\<lambda>v_guest.
      Inr \<lparr>revision = v_rev, source = v_source, users = v_users, guardian_enabled = v_guardian,
           adblock = (case map_of ad ''enabled'' of None \<Rightarrow> True | Some j \<Rightarrow> truthy j),
           adblock_allowed = v_allowed, auto_updates = v_auto,
           update_notify = (case map_of up ''notify'' of None \<Rightarrow> True | Some j \<Rightarrow> truthy j),
           tailscale = v_ts, syncthing = v_st, keyd = v_keyd, system_whitelist = v_system,
           guest = v_guest, custom_profiles = v_profiles,
           build_sources_extra = v_build\<rparr>)))))))))))))))))))))"

text \<open>
  \<open>load\<close> reads the file if it exists; \<open>save\<close> bumps the revision, validates and replaces the
  file.  The file is its parsed document; \<open>save\<close> gives the new in-memory policy, and the
  document written, or the schema's complaint with the revision already bumped.
\<close>

definition load :: "(doc \<Rightarrow> string option) \<Rightarrow> doc option \<Rightarrow> policy result" where
  "load validate file = (case file of None \<Rightarrow> Inr default_policy | Some d \<Rightarrow> from_dict validate d)"

definition save :: "(doc \<Rightarrow> string option) \<Rightarrow> policy \<Rightarrow> doc result \<times> policy" where
  "save validate p =
     (let p' = p\<lparr>revision := revision p + 1\<rparr>; d = to_dict p' in
      (case validate d of Some e \<Rightarrow> Inl e | None \<Rightarrow> Inr d, p'))"

section \<open>Round trip\<close>

text \<open>What a policy becomes by being written and read: modes under their current names.\<close>

definition current_mode :: "string \<Rightarrow> string" where
  "current_mode m = (case map_of LEGACY_MODES m of Some n \<Rightarrow> n | None \<Rightarrow> m)"

definition stored_policy :: "policy \<Rightarrow> policy" where
  "stored_policy p = p\<lparr>
     users := map (\<lambda>u. (stored_form u)\<lparr>mode := current_mode (mode u)\<rparr>) (users p),
     guest := (guest p)\<lparr>mode := current_mode (mode (guest p))\<rparr>\<rparr>"

lemma legacy_mode_JStr [simp]: "legacy_mode (Some (JStr m)) = JStr (current_mode m)"
  by (simp add: legacy_mode_def current_mode_def split: option.splits)

lemma dict_set_same_key: "dict_set k v ((k, v') # d) = (k, v) # d"
  by simp

lemma migrate_user_to_dict [simp]:
  "migrate_user (JObj (user_to_dict u)) = JObj (user_to_dict (u\<lparr>mode := current_mode (mode u)\<rparr>))"
  by (simp add: user_to_dict_def)

lemma current_mode_whitelist [simp]: "current_mode m = ''whitelist'' \<longleftrightarrow> m = ''whitelist''"
  by (auto simp: current_mode_def LEGACY_MODES_def)

lemma migrate_guest_to_dict [simp]:
  "migrate_guest (JObj (guest_to_dict g)) = JObj (guest_to_dict (g\<lparr>mode := current_mode (mode g)\<rparr>))"
  by (cases "mode g = ''whitelist''"; cases "guest_uid g")
     (simp_all add: guest_to_dict_def, simp_all add: opt_def opt_int_def current_mode_def LEGACY_MODES_def)

definition renamed :: "policy \<Rightarrow> policy" where
  "renamed p = p\<lparr>
     users := map (\<lambda>u. u\<lparr>mode := current_mode (mode u)\<rparr>) (users p),
     guest := (guest p)\<lparr>mode := current_mode (mode (guest p))\<rparr>\<rparr>"

lemma migrate_append: "migrate (a @ b) = migrate a @ migrate b"
  by (simp add: migrate_def)

lemma migrate_opt [simp]:
  "k \<noteq> ''users'' \<Longrightarrow> k \<noteq> ''guest'' \<Longrightarrow> migrate (opt b k v) = opt b k v"
  by (simp add: migrate_def opt_def migrate_entry_def)

lemma migrate_to_dict: "migrate (to_dict p) = to_dict (renamed p)"
  unfolding to_dict_def migrate_append
  by (simp add: renamed_def advanced_def)
     (simp add: migrate_def migrate_entry_def jobjs_def
           del: migrate_user.simps migrate_guest.simps)

lemma current_mode_idem [simp]: "current_mode (current_mode m) = current_mode m"
  by (simp add: current_mode_def LEGACY_MODES_def)

lemma renamed_idem [simp]: "renamed (renamed p) = renamed p"
  by (simp add: renamed_def comp_def)

lemma renamed_stored [simp]: "renamed (stored_policy p) = stored_policy p"
  by (simp add: renamed_def comp_def stored_policy_def)

lemma policy_fields:
  "map_of (to_dict p) ''revision'' = Some (JInt (revision p))"
  "map_of (to_dict p) ''source'' = Some (JStr (source p))"
  "map_of (to_dict p) ''users'' = Some (jobjs (map user_to_dict (users p)))"
  "map_of (to_dict p) ''guardian'' = Some (JObj [(''enabled'', JBool (guardian_enabled p))])"
  "map_of (to_dict p) ''adblock'' = Some (JObj ([(''enabled'', JBool (adblock p))]
          @ opt (adblock_allowed p \<noteq> []) ''allowed'' (jstrs (adblock_allowed p))))"
  "sub_doc (to_dict p) ''updates'' = Inr [(''auto'', JStr (auto_updates p)), (''notify'', JBool (update_notify p))]"
  "sub_doc (to_dict p) ''advanced'' = Inr (advanced p)"
  "rd_def objs_of [] (map_of (to_dict p) ''custom_profiles'') = Inr (custom_profiles p)"
  "rd_def strs_of [] (map_of (to_dict p) ''system_whitelist'') = Inr (system_whitelist p)"
  "map_of (to_dict p) ''guest'' = Some (JObj (guest_to_dict (guest p)))"
  "bind_result (sub_doc (to_dict p) ''developer'') (\<lambda>dev. bind_result (rd_def strs_of [] (map_of dev ''build_sources_extra'')) F)
   = F (build_sources_extra p)"
  by (simp_all add: to_dict_def sub_doc_def)

lemma advanced_fields:
  "opt_field (advanced p) ''tailscale'' = Inr (tailscale p)"
  "opt_field (advanced p) ''syncthing'' = Inr (syncthing p)"
  "opt_field (advanced p) ''keyd'' = Inr (keyd p)"
  by (cases "tailscale p"; cases "syncthing p"; cases "keyd p"; simp add: advanced_def opt_field_def opt_bool_def)+

lemma users_fields: "map_result user_from_dict (map user_to_dict us) = Inr (map stored_form us)"
  by (rule map_result_map) (simp add: user_roundtrip)

lemma stored_form_mode: "current_mode (mode u) = mode u \<Longrightarrow> (stored_form u)\<lparr>mode := current_mode (mode u)\<rparr> = stored_form u"
  by (simp add: stored_form_def)

lemma user_to_dict_stored_form [simp]: "user_to_dict (stored_form u) = user_to_dict u"
  by (simp add: user_to_dict_def stored_form_def opt_str_def dedup_id opt_def
           split: option.splits)

lemma to_dict_stored_policy: "renamed p = p \<Longrightarrow> to_dict (stored_policy p) = to_dict p"
proof -
  assume p: "renamed p = p"
  have "user_to_dict ((stored_form u)\<lparr>mode := current_mode (mode u)\<rparr>) = user_to_dict u"
    if u: "u \<in> set (users p)" for u
  proof -
    have "map (\<lambda>u. u\<lparr>mode := current_mode (mode u)\<rparr>) (users p) = users p"
      using arg_cong [OF p, of users] by (simp add: renamed_def)
    then have "u\<lparr>mode := current_mode (mode u)\<rparr> = u"
      using u by (auto simp: map_idI dest: map_eq_conv [THEN iffD1, of _ _ id, simplified])
    then have "current_mode (mode u) = mode u"
      by (metis account.select_convs(1) account.surjective account.update_convs(1))
    then show ?thesis
      by (metis stored_form_mode user_to_dict_stored_form)
  qed
  moreover have "(guest p)\<lparr>mode := current_mode (mode (guest p))\<rparr> = guest p"
    using arg_cong [OF p, of guest] by (simp add: renamed_def)
  ultimately show ?thesis
    by (simp add: to_dict_def stored_policy_def comp_def advanced_def cong: map_cong)
qed

lemma policy_roundtrip:
  assumes "validate (to_dict (renamed p)) = None"
  shows "from_dict validate (to_dict p) = Inr (stored_policy p)"
  using assms
  by (simp add: from_dict_def migrate_to_dict policy_fields advanced_fields users_fields guest_roundtrip)
     (simp add: renamed_def stored_policy_def stored_form_def comp_def)
lemma map_of_migrate: "map_of (migrate d) k = map_option (\<lambda>j. snd (migrate_entry (k, j))) (map_of d k)"
proof (induction d)
  case (Cons e d)
  have "fst (migrate_entry e) = fst e"
    by (cases e) (simp add: migrate_entry_def split: json.split)
  then have "migrate_entry e = (fst e, snd (migrate_entry (fst e, snd e)))"
    by (metis prod.collapse)
  then have "map_of (migrate (e # d)) k =
      (if k = fst e then Some (snd (migrate_entry e)) else map_of (migrate d) k)"
    unfolding migrate_def by (metis (no_types) list.simps(9) map_of_Cons_code(2) prod.collapse)
  with Cons show ?case
    by (cases e) simp
qed (simp add: migrate_def)

lemma rd_InrD: "rd f v = Inr a \<Longrightarrow> \<exists>j. v = Some j \<and> f j = Some a"
  by (auto simp: rd_def need_def split: option.splits)

lemma rd_def_InrD: "rd_def f x v = Inr a \<Longrightarrow> v = None \<and> a = x \<or> (\<exists>j. v = Some j \<and> f j = Some a)"
  by (auto simp: rd_def_def need_def split: option.splits)

lemma as_str_SomeD: "as_str j = Some s \<Longrightarrow> j = JStr s"
  by (cases j) simp_all

lemma as_obj_SomeD: "as_obj j = Some d \<Longrightarrow> j = JObj d"
  by (cases j) simp_all

lemma user_from_dict_mode:
  "user_from_dict d = Inr u \<Longrightarrow> map_of d ''mode'' = Some (JStr (mode u))"
  unfolding user_from_dict_def
  apply (elim bind_InrE)
  apply (drule Inr_injD)
  apply (drule rd_InrD)+
  apply (auto dest: as_str_SomeD)
  done

lemma guest_from_dict_mode:
  "guest_from_dict d = Inr g \<Longrightarrow>
   map_of d ''mode'' = Some (JStr (mode g)) \<or> map_of d ''mode'' = None \<and> mode g = ''whitelist''"
  unfolding guest_from_dict_def
  apply (elim bind_InrE)
  apply (drule Inr_injD)
  apply (drule rd_def_InrD [of as_str "''whitelist''"])
  apply (auto dest: as_str_SomeD)
  done

lemma legacy_mode_current: "legacy_mode m = JStr s \<Longrightarrow> current_mode s = s"
  by (auto simp: legacy_mode_def current_mode_def LEGACY_MODES_def
           split: option.splits json.splits if_splits)

lemma migrated_user_mode:
  "migrate_user j = JObj d \<Longrightarrow> map_of d ''mode'' = Some (JStr s) \<Longrightarrow> current_mode s = s"
  by (cases j) (auto dest: legacy_mode_current)

lemma migrated_guest_mode:
  "migrate_guest j = JObj d \<Longrightarrow> map_of d ''mode'' = Some (JStr s) \<Longrightarrow> current_mode s = s"
  by (cases j) (auto dest: legacy_mode_current split: if_splits)

lemma objs_of_JList: "objs_of j = Some ds \<Longrightarrow> j = JList (map JObj ds)"
proof -
  have "those (map as_obj xs) = Some ds \<Longrightarrow> xs = map JObj ds" for xs
    by (induction xs arbitrary: ds) (auto split: option.splits elim!: as_obj.elims)
  then show "objs_of j = Some ds \<Longrightarrow> ?thesis"
    by (cases j) (auto simp: objs_of_def)
qed

lemma from_dict_fields:
  assumes "from_dict v raw = Inr p"
  shows "\<exists>ds. rd objs_of (map_of (migrate raw) ''users'') = Inr ds
             \<and> map_result user_from_dict ds = Inr (users p)"
    and "\<exists>gd. rd_def as_obj [(''enabled'', JBool False)] (map_of (migrate raw) ''guest'') = Inr gd
             \<and> guest_from_dict gd = Inr (guest p)"
proof -
  have valid: "v (migrate raw) = None"
    using assms by (simp add: from_dict_def Let_def split: option.splits)
  then show "\<exists>ds. rd objs_of (map_of (migrate raw) ''users'') = Inr ds
             \<and> map_result user_from_dict ds = Inr (users p)"
    and "\<exists>gd. rd_def as_obj [(''enabled'', JBool False)] (map_of (migrate raw) ''guest'') = Inr gd
             \<and> guest_from_dict gd = Inr (guest p)"
    using assms unfolding from_dict_def Let_def valid option.case
    apply -
    apply (elim bind_InrE)
    apply (drule Inr_injD)
    apply (rule exI, rule conjI, assumption)
    apply (drule arg_cong [of _ _ users])
    apply (unfold policy.select_convs)
    apply (erule ssubst, assumption)
    apply (elim bind_InrE)
    apply (drule Inr_injD)
    apply (rule exI, rule conjI, assumption)
    apply (drule arg_cong [of _ _ guest])
    apply (unfold policy.select_convs)
    apply (erule ssubst, assumption)
    done
qed

lemma from_dict_users:
  assumes "from_dict v raw = Inr p"
  obtains us ds where "map migrate_user us = map JObj ds"
    "list_all2 (\<lambda>d u. user_from_dict d = Inr u) ds (users p)"
proof -
  obtain ds where rd: "rd objs_of (map_of (migrate raw) ''users'') = Inr ds"
    and ds: "map_result user_from_dict ds = Inr (users p)"
    using from_dict_fields(1) [OF assms] by blast
  obtain j where "map_of raw ''users'' = Some j"
    and j: "snd (migrate_entry (''users'', j)) = JList (map JObj ds)"
    using rd_InrD [OF rd] by (auto simp: map_of_migrate dest: objs_of_JList)
  from j obtain us where "map migrate_user us = map JObj ds"
    by (auto simp: migrate_entry_def split: json.splits)
  with ds that show ?thesis by (simp add: map_result_Inr_iff)
qed

lemma from_dict_guest:
  assumes "from_dict v raw = Inr p"
  shows "(\<exists>j d. migrate_guest j = JObj d \<and> guest_from_dict d = Inr (guest p))
         \<or> guest_from_dict [(''enabled'', JBool False)] = Inr (guest p)"
proof -
  obtain gd where rd: "rd_def as_obj [(''enabled'', JBool False)] (map_of (migrate raw) ''guest'') = Inr gd"
    and g: "guest_from_dict gd = Inr (guest p)"
    using from_dict_fields(2) [OF assms] by blast
  from rd_def_InrD [OF rd] g show ?thesis
    by (auto simp: map_of_migrate migrate_entry_def dest!: as_obj_SomeD)
qed

lemma from_dict_current:
  assumes ld: "from_dict validate raw = Inr p"
  shows "renamed p = p"
proof -
  obtain us ds where us: "map migrate_user us = map JObj ds"
    and all: "list_all2 (\<lambda>d u. user_from_dict d = Inr u) ds (users p)"
    using from_dict_users [OF ld] by metis
  have "current_mode (mode u) = mode u" if u: "u \<in> set (users p)" for u
  proof -
    obtain d where "d \<in> set ds" and d: "user_from_dict d = Inr u"
      using list_all2_in_right [OF all u] by blast
    then have "JObj d \<in> set (map migrate_user us)" using us by simp
    then show ?thesis
      using migrated_user_mode [OF _ user_from_dict_mode [OF d]] by auto
  qed
  moreover have "current_mode (mode (guest p)) = mode (guest p)"
    using from_dict_guest [OF ld]
  proof (elim disjE exE conjE)
    fix j d
    assume "migrate_guest j = JObj d" and "guest_from_dict d = Inr (guest p)"
    then show ?thesis
      using migrated_guest_mode guest_from_dict_mode by (metis current_mode_whitelist)
  next
    assume "guest_from_dict [(''enabled'', JBool False)] = Inr (guest p)"
    from guest_from_dict_mode [OF this] show ?thesis by simp
  qed
  ultimately have "map (\<lambda>u. u\<lparr>mode := current_mode (mode u)\<rparr>) (users p) = users p"
      "(guest p)\<lparr>mode := current_mode (mode (guest p))\<rparr> = guest p"
    by (simp_all add: map_idI)
  then show ?thesis
    by (simp only: renamed_def) simp
qed

lemma stored_form_mode_upd: "stored_form (u\<lparr>mode := m\<rparr>) = (stored_form u)\<lparr>mode := m\<rparr>"
  by (simp add: stored_form_def)

lemma stored_policy_idem: "stored_policy (stored_policy p) = stored_policy p"
proof -
  have "(stored_form ((stored_form u)\<lparr>mode := m\<rparr>)) = (stored_form u)\<lparr>mode := m\<rparr>" for u m
    by (simp only: stored_form_mode_upd stored_form_idem)
  then show ?thesis
    by (simp add: stored_policy_def comp_def)
qed

lemma renamed_revision: "renamed p = p \<Longrightarrow> renamed (p\<lparr>revision := r\<rparr>) = p\<lparr>revision := r\<rparr>"
  by (cases p) (simp add: renamed_def)

lemma mode_update_id: "u\<lparr>mode := m\<rparr> = u \<Longrightarrow> mode u = m"
  by (metis account.select_convs(1) account.surjective account.update_convs(1))

lemma current_mode_not_legacy: "current_mode m = m \<Longrightarrow> m \<notin> set (keys LEGACY_MODES)"
  by (auto simp: current_mode_def LEGACY_MODES_def)

lemma renamed_not_legacy:
  assumes "renamed p = p"
  shows "\<forall>m \<in> mode ` set (users p) \<union> {mode (guest p)}. m \<notin> set (keys LEGACY_MODES)"
proof -
  have "map (\<lambda>u. u\<lparr>mode := current_mode (mode u)\<rparr>) (users p) = users p"
    using arg_cong [OF assms, of users] by (simp add: renamed_def)
  then have "\<forall>u \<in> set (users p). u\<lparr>mode := current_mode (mode u)\<rparr> = u"
    by (auto dest: map_idD)
  moreover have "(guest p)\<lparr>mode := current_mode (mode (guest p))\<rparr> = guest p"
    using arg_cong [OF assms, of guest] by (simp add: renamed_def)
  ultimately have ids: "\<forall>u \<in> set (users p). mode u = current_mode (mode u)"
      "mode (guest p) = current_mode (mode (guest p))"
    by (auto intro: mode_update_id)
  show ?thesis
  proof
    fix m assume "m \<in> mode ` set (users p) \<union> {mode (guest p)}"
    then have "current_mode m = m" using ids by auto
    then show "m \<notin> set (keys LEGACY_MODES)" by (rule current_mode_not_legacy)
  qed
qed

section \<open>Properties\<close>

text \<open>
  A policy read from disk has no account in a mode under an old name: whatever the
  document holds (a hand-edited or an old one), \<open>load\<close> gives modes that \<open>migrate\<close> leaves alone.
\<close>

theorem loaded_modes_are_current:
  assumes "load validate disk = Inr p"
  shows "\<forall>m \<in> mode ` set (users p) \<union> {mode (guest p)}. m \<notin> set (keys LEGACY_MODES)"
proof -
  have "renamed p = p"
    using assms from_dict_current
    by (cases disk) (auto simp: load_def renamed_def default_policy_def default_guest_def
                                current_mode_def LEGACY_MODES_def)
  then show ?thesis
    by (rule renamed_not_legacy)
qed

lemma loaded_modes_are_current_witness:
  "\<exists>p. load (\<lambda>_. None) (Some (to_dict (default_policy
       \<lparr>users := [default_user 1000 ''david'' ''inspect'']\<rparr>))) = Inr p
     \<and> (\<forall>m \<in> mode ` set (users p) \<union> {mode (guest p)}. m \<notin> set (keys LEGACY_MODES))
     \<and> map mode (users p) = [''filtered'']"
proof -
  let ?q = "default_policy\<lparr>users := [default_user 1000 ''david'' ''inspect'']\<rparr>"
  have l: "load (\<lambda>_. None) (Some (to_dict ?q)) = Inr (stored_policy ?q)"
    by (simp add: load_def policy_roundtrip)
  show ?thesis
    using loaded_modes_are_current [OF l] l
    by (intro exI [of _ "stored_policy ?q"])
       (simp add: stored_policy_def stored_form_def current_mode_def LEGACY_MODES_def
          default_user_def default_policy_def default_guest_def)
qed

text \<open>
  Property C11: What \<open>save\<close> writes, \<open>load\<close> reads back: the same policy under its bumped revision,
  with ports and approvals sorted and SSH machines deduplicated; and writing that again gives
  the document it came from, so a restart of the daemon changes nothing.
\<close>

theorem save_load_roundtrip:
  assumes "save validate p = (Inr d, p')" and "renamed p = p"
  shows "load validate (Some d) = Inr (stored_policy p') \<and> to_dict (stored_policy p') = d
         \<and> revision p' = revision p + 1 \<and> stored_policy (stored_policy p') = stored_policy p'"
proof -
  from assms(1) have p': "p' = p\<lparr>revision := revision p + 1\<rparr>" and d: "d = to_dict p'"
    and v: "validate (to_dict p') = None"
    by (auto simp: save_def Let_def split: option.splits)
  have r: "renamed p' = p'"
    using assms(2) by (simp add: p' renamed_revision)
  have "from_dict validate (to_dict p') = Inr (stored_policy p')"
    using policy_roundtrip [of validate p'] v by (simp only: r simp_thms)
  moreover have "revision p' = revision p + 1"
    by (simp add: p')
  ultimately show ?thesis
    by (simp add: d load_def to_dict_stored_policy [OF r] stored_policy_idem)
qed

lemma save_load_roundtrip_witness:
  "let p = default_policy\<lparr>users := [(default_user 1000 ''david'' ''filtered'')
             \<lparr>extra_ports := [8443, 25, 8443], ssh_hosts := [''b'', ''a'', ''b'']\<rparr>]\<rparr>;
       (r, p') = save (\<lambda>_. None) p
   in \<exists>d q. r = Inr d \<and> load (\<lambda>_. None) (Some d) = Inr q \<and> revision q = 1
        \<and> map extra_ports (users q) = [[25, 8443]] \<and> map ssh_hosts (users q) = [[''b'', ''a'']]"
proof -
  let ?p = "default_policy\<lparr>users := [(default_user 1000 ''david'' ''filtered'')
             \<lparr>extra_ports := [8443, 25, 8443], ssh_hosts := [''b'', ''a'', ''b'']\<rparr>]\<rparr>"
  let ?p' = "?p\<lparr>revision := 1\<rparr>"
  have s: "save (\<lambda>_. None) ?p = (Inr (to_dict ?p'), ?p')"
    by (simp add: save_def Let_def default_policy_def)
  have r: "renamed ?p = ?p"
    by (simp add: renamed_def current_mode_def LEGACY_MODES_def default_user_def default_policy_def
                  default_guest_def)
  have "load (\<lambda>_. None) (Some (to_dict ?p')) = Inr (stored_policy ?p')"
    using save_load_roundtrip [OF s r] by simp
  then show ?thesis
    unfolding s Let_def prod.case
    by (intro exI [of _ "to_dict ?p'"] exI [of _ "stored_policy ?p'"])
       (simp add: stored_policy_def stored_form_def default_policy_def default_user_def
          sorted_set_def dedup_def)
qed

text \<open>
  The accounts an SSH server is run for are exactly the managed users that have both
  switches on and some internet: never the guest, whatever its policy, and never an offline
  account whose switch was left on.
\<close>

theorem ssh_in_accounts_exact:
  "set (ssh_in_accounts p)
   = {u \<in> set (users p). ssh_in u \<and> developer_tools u \<and> mode u \<noteq> ''none''}"
  by (auto simp: ssh_in_accounts_def developer_accounts_def effective_users_def guest_as_user_def
                 default_user_def split: option.splits if_splits)

end
