(* ===== verification/AppAccess.thy ===== *)
theory AppAccess
  imports PolicyStore "HOL-Library.Product_Lexorder"
begin

text \<open>
  \<open>kosherd/src/kosherd/appkinds.py\<close> and \<open>appaccess.py\<close>: the kinds of app the store is sorted
  into, and which apps an account may install and run.  An app is a record of the keys the code
  reads, each optional where the code allows the key to be missing, with the remaining keys of
  its index entry (icon, summary, ...) in \<open>other_keys\<close>; a key that is present with \<open>None\<close> or
  an empty value is \<open>Some []\<close>.  Accounts are the daemon's \<open>user_policy\<close> records.
\<close>

section \<open>Kinds of app\<close>

record app =
  ref :: string
  name :: "string option"
  categories :: "string list option"
  rating :: "(string, string) dict option"
  known :: "bool option"
  other_keys :: doc

definition KINDS :: "(string \<times> string \<times> string list) list" where
  "KINDS =
     [(''internet'', ''Internet'',
       [''Network'', ''WebBrowser'', ''Email'', ''Chat'', ''News'', ''InstantMessaging'', ''IRCClient'',
        ''P2P'', ''FileTransfer'', ''Telephony'', ''VideoConference'', ''Feed'',
        ''RemoteAccess'', ''Dialup'', ''HamRadio'']),
      (''work'', ''Work'',
       [''Office'', ''Finance'', ''Spreadsheet'', ''WordProcessor'', ''Presentation'', ''Calendar'',
        ''ProjectManagement'', ''ContactManagement'', ''Database'', ''Chart'', ''Publishing'',
        ''FlowChart'', ''Dictionary'', ''Scanning'', ''OCR'', ''PDA'', ''Printing'']),
      (''learning'', ''Learning'',
       [''Education'', ''Science'', ''Languages'', ''Math'', ''Astronomy'', ''Geography'',
        ''Literature'', ''Chemistry'', ''Biology'', ''Physics'', ''History'', ''Humanities'',
        ''Electronics'', ''Robotics'', ''Construction'', ''ArtificialIntelligence'',
        ''ComputerScience'', ''Economy'', ''Geology'', ''Geoscience'', ''MedicalSoftware'',
        ''NumericalAnalysis'', ''ParallelComputing'', ''Spirituality'', ''Maps'']),
      (''games'', ''Games'',
       [''Game'', ''ArcadeGame'', ''BoardGame'', ''LogicGame'', ''KidsGame'', ''Puzzle'',
        ''Simulation'', ''Sports'', ''ActionGame'', ''AdventureGame'', ''RolePlaying'',
        ''StrategyGame'', ''ShooterGame'', ''SportsGame'', ''BlocksGame'', ''CardGame'',
        ''Emulator'', ''Amusement'']),
      (''music'', ''Music'',
       [''Audio'', ''Music'', ''Midi'', ''Mixer'', ''Sequencer'', ''Tuner'']),
      (''pictures'', ''Pictures & video'',
       [''Graphics'', ''Photography'', ''Video'', ''2DGraphics'', ''3DGraphics'', ''RasterGraphics'',
        ''VectorGraphics'', ''Viewer'', ''TV'', ''AudioVideoEditing'', ''DiscBurning'', ''Art'']),
      (''develop'', ''Developer tools'',
       [''Development'', ''IDE'', ''TextEditor'', ''Debugger'', ''WebDevelopment'', ''Building'',
        ''GUIDesigner'', ''Profiling'', ''RevisionControl'', ''Translation'', ''Documentation'']),
      (''utilities'', ''Utilities'',
       [''Utility'', ''System'', ''Settings'', ''Accessibility'', ''Archiving'', ''FileTools'',
        ''TerminalEmulator'', ''Security'', ''Compression'', ''Calculator'', ''Clock'',
        ''Monitor'', ''FileManager'', ''PackageManager'', ''TextTools'', ''Filesystem'',
        ''DesktopSettings'', ''HardwareSettings'']),
      (''fonts'', ''Fonts'',
       [''Font''])]"

definition GENERIC_MEDIA :: "string list" where
  "GENERIC_MEDIA = [''AudioVideo'', ''Player'', ''Recorder'']"

definition OTHER :: string where "OTHER = ''other''"
definition OTHER_LABEL :: string where "OTHER_LABEL = ''Everything else''"

definition KIND_KEYS :: "string list" where
  "KIND_KEYS = map fst KINDS @ [OTHER]"

definition KIND_LABELS :: "(string, string) dict" where
  "KIND_LABELS = map (\<lambda>(key, label, _). (key, label)) KINDS @ [(OTHER, OTHER_LABEL)]"

definition or_empty :: "'a list option \<Rightarrow> 'a list" where
  "or_empty v = (case v of None \<Rightarrow> [] | Some xs \<Rightarrow> xs)"

text \<open>The loop of \<open>kind_of\<close> over \<open>KINDS\<close>: the first kind that claims one of the categories.\<close>

definition kind_of :: "'z app_scheme \<Rightarrow> string" where
  "kind_of a =
     (let cs = or_empty (categories a) in
      if cs = [] then OTHER
      else case find (\<lambda>(_, _, claims). set cs \<inter> set claims \<noteq> {}) KINDS of
             Some (key, _, _) \<Rightarrow> key
           | None \<Rightarrow> if set cs \<inter> set GENERIC_MEDIA \<noteq> {} then ''pictures'' else OTHER)"

definition is_kind :: "string \<Rightarrow> bool" where
  "is_kind key \<longleftrightarrow> key \<in> set KIND_KEYS"

definition kind_label :: "string \<Rightarrow> string" where
  "kind_label key = dict_get KIND_LABELS key key"

section \<open>What is allowed\<close>

definition INTENSITY :: "(string, nat) dict" where
  "INTENSITY =
     [(''none'', 0),
      (''mild'', 1),
      (''moderate'', 2),
      (''intense'', 3)]"

definition CEILING :: "(string, string) dict" where
  "CEILING =
     [(''sex-nudity'', ''none''),
      (''sex-themes'', ''none''),
      (''sex-homosexuality'', ''none''),
      (''sex-prostitution'', ''none''),
      (''sex-adultery'', ''none''),
      (''sex-appearance'', ''none''),
      (''violence-sexual'', ''none''),
      (''violence-bloodshed'', ''none''),
      (''violence-desecration'', ''none''),
      (''violence-slavery'', ''mild''),
      (''violence-worship'', ''mild''),
      (''violence-realistic'', ''mild''),
      (''violence-fantasy'', ''moderate''),
      (''violence-cartoon'', ''moderate''),
      (''drugs-narcotics'', ''none''),
      (''drugs-tobacco'', ''mild''),
      (''drugs-alcohol'', ''mild''),
      (''language-profanity'', ''none''),
      (''language-humor'', ''mild''),
      (''language-discrimination'', ''none''),
      (''money-gambling'', ''none'')]"

definition ATTRIBUTE_WORDS :: "(string, string) dict" where
  "ATTRIBUTE_WORDS =
     [(''sex-nudity'', ''nudity''),
      (''sex-themes'', ''sexual themes''),
      (''sex-homosexuality'', ''sexual themes''),
      (''sex-prostitution'', ''sexual themes''),
      (''sex-adultery'', ''sexual themes''),
      (''sex-appearance'', ''sexualised appearance''),
      (''violence-sexual'', ''sexual violence''),
      (''violence-bloodshed'', ''graphic violence''),
      (''violence-desecration'', ''graphic violence''),
      (''violence-slavery'', ''slavery''),
      (''violence-worship'', ''violence''),
      (''violence-realistic'', ''realistic violence''),
      (''violence-fantasy'', ''violence''),
      (''violence-cartoon'', ''violence''),
      (''drugs-narcotics'', ''drugs''),
      (''drugs-tobacco'', ''tobacco''),
      (''drugs-alcohol'', ''alcohol''),
      (''language-profanity'', ''bad language''),
      (''language-humor'', ''crude humour''),
      (''language-discrimination'', ''discriminatory language''),
      (''money-gambling'', ''gambling'')]"

definition REASONS :: "(string, string) dict" where
  "REASONS =
     [(''off'', ''switched off on this computer''),
      (''blocked'', ''blocked for this account''),
      (''kind'', ''its kind of app is blocked for this account''),
      (''not-approved'', ''not on the approved list''),
      (''needs-approval'', ''waiting for an administrator to allow it for this account''),
      (''content'', ''rated above what this computer allows''),
      (''circumvention'', ''a tool for getting around the filter''),
      (''unknown'', ''not in the app list this computer has downloaded'')]"

definition CIRCUMVENTION :: "string list" where
  "CIRCUMVENTION =
     [''com.github.micahflee.torbrowser-launcher'', ''com.protonvpn.www'',
      ''com.windscribe.Windscribe'', ''net.mullvad.MullvadVPN'', ''org.onionshare.OnionShare'',
      ''org.torproject.torbrowser-launcher'']"

definition INDIVIDUAL_APPROVAL :: "string list" where
  "INDIVIDUAL_APPROVAL =
     [''nixpkgs#syncthing'']"

definition APP_ACCESS :: "string list" where
  "APP_ACCESS =
     [''approved'', ''store'']"

definition DEFAULT_APP_ACCESS :: string where "DEFAULT_APP_ACCESS = ''approved''"
definition ADMIN_APP_ACCESS :: string where "ADMIN_APP_ACCESS = ''store''"

definition needs_individual_approval :: "user_policy \<Rightarrow> bool" where
  "needs_individual_approval u \<longleftrightarrow> \<not> (admin u \<or> mode u = ''unfiltered'')"

definition individually_approved :: "user_policy \<Rightarrow> string \<Rightarrow> bool" where
  "individually_approved u r \<longleftrightarrow>
     (if r \<notin> set INDIVIDUAL_APPROVAL \<or> \<not> needs_individual_approval u then True
      else r \<in> set (approved_apps u))"

definition access_of :: "user_policy \<Rightarrow> string" where
  "access_of u =
     (case app_access u of
        Some chosen \<Rightarrow> if chosen \<in> set APP_ACCESS then chosen
                       else if admin u then ADMIN_APP_ACCESS else DEFAULT_APP_ACCESS
      | None \<Rightarrow> if admin u then ADMIN_APP_ACCESS else DEFAULT_APP_ACCESS)"

text \<open>\<open>INTENSITY.get(value, 0)\<close>; the limits of the ceiling are intensities themselves.\<close>

definition intensity :: "string \<Rightarrow> nat" where
  "intensity v = dict_get INTENSITY v 0"

definition above_ceiling :: "string \<Rightarrow> string \<Rightarrow> bool" where
  "above_ceiling attribute v =
     (case map_of CEILING attribute of
        None \<Rightarrow> False
      | Some limit \<Rightarrow> intensity v > intensity limit)"

definition content_reasons :: "'z app_scheme \<Rightarrow> string list" where
  "content_reasons a =
     map snd (rev (sort
       [(intensity v, attribute). (attribute, v) \<leftarrow> or_empty (rating a), above_ceiling attribute v]))"

definition content_words :: "'z app_scheme \<Rightarrow> string" where
  "content_words a =
     (let words = dedup (map (\<lambda>x. dict_get ATTRIBUTE_WORDS x x) (content_reasons a)) in
      case words of
        [] \<Rightarrow> []
      | [w] \<Rightarrow> w
      | _ \<Rightarrow> join '', '' (butlast words) @ '' and '' @ last words)"

definition decide :: "user_policy \<Rightarrow> 'z app_scheme \<Rightarrow> string list \<Rightarrow> string list \<Rightarrow> string option"
where
  "decide u a approved off =
     (if ref a \<in> set off then Some ''off''
      else if ref a \<in> set (blocked_apps u) then Some ''blocked''
      else if blocked_app_kinds u \<noteq> [] \<and> kind_of a \<in> set (blocked_app_kinds u) then Some ''kind''
      else if \<not> individually_approved u (ref a) then Some ''needs-approval''
      else if ref a \<in> set approved then None
      else if access_of u \<noteq> ''store'' then Some ''not-approved''
      else if ref a \<in> set CIRCUMVENTION then Some ''circumvention''
      else if \<not> (known a = Some True \<or> categories a \<noteq> None \<or> rating a \<noteq> None) then Some ''unknown''
      else if content_reasons a \<noteq> [] then Some ''content''
      else None)"

definition explain :: "string \<Rightarrow> 'z app_scheme \<Rightarrow> string" where
  "explain reason a =
     (let shown = (case name a of
                     Some n \<Rightarrow> if n \<noteq> [] then n else if ref a \<noteq> [] then ref a else ''This app''
                   | None \<Rightarrow> if ref a \<noteq> [] then ref a else ''This app'') in
      if reason = ''content''
      then shown @ '' is rated for '' @ content_words a @ '', which this computer does not allow''
      else shown @ '' is '' @ dict_get REASONS reason reason)"

section \<open>What the Store shows\<close>

record shown_app = app +
  kind :: string
  is_approved :: bool

text \<open>\<open>{**entry, **known}\<close>: every key the index entry has, else the approved entry's.\<close>

definition merge_apps :: "app \<Rightarrow> app \<Rightarrow> app" where
  "merge_apps entry k =
     \<lparr>ref = ref k,
      name = (if name k = None then name entry else name k),
      categories = (if categories k = None then categories entry else categories k),
      rating = (if rating k = None then rating entry else rating k),
      known = (if known k = None then known entry else known k),
      other_keys = fold (\<lambda>(x, v). dict_set x v) (other_keys k) (other_keys entry)\<rparr>"

text \<open>\<open>{a["ref"]: a for a in xs}\<close>.\<close>

definition by_ref :: "app list \<Rightarrow> (string, app) dict" where
  "by_ref xs = fold (\<lambda>a. dict_set (ref a) a) xs []"

definition with_categories :: "app \<Rightarrow> app" where
  "with_categories a = (if categories a = None then a\<lparr>categories := Some []\<rparr> else a)"

definition merged_entry :: "(string, app) dict \<Rightarrow> string \<Rightarrow> app \<Rightarrow> app" where
  "merged_entry indexed r entry =
     with_categories (case map_of indexed r of None \<Rightarrow> entry | Some k \<Rightarrow> merge_apps entry k)"

definition candidates :: "user_policy \<Rightarrow> app list \<Rightarrow> app list \<Rightarrow> (string, app) dict" where
  "candidates u index approved_entries =
     (let approved = by_ref approved_entries; indexed = by_ref index in
      fold (\<lambda>(r, entry). dict_set r (merged_entry indexed r entry)) approved
           (if access_of u = ''store'' then indexed else []))"

definition sort_name :: "'z app_scheme \<Rightarrow> string" where
  "sort_name a = lower (case name a of Some n \<Rightarrow> if n \<noteq> [] then n else ref a | None \<Rightarrow> ref a)"

definition visible :: "user_policy \<Rightarrow> app list \<Rightarrow> app list \<Rightarrow> string list \<Rightarrow> shown_app list" where
  "visible u index approved_entries off =
     (let approved = keys (by_ref approved_entries) in
      sort_key sort_name
        [app.extend a \<lparr>kind = kind_of a, is_approved = (r \<in> set approved)\<rparr>.
           (r, a) \<leftarrow> candidates u index approved_entries, decide u a approved off = None])"

section \<open>Lemmas\<close>

lemma kind_of_is_kind: "is_kind (kind_of a)"
proof -
  have "\<And>key l cs. (key, l, cs) \<in> set KINDS \<Longrightarrow> is_kind key"
    by (force simp: is_kind_def KIND_KEYS_def)
  moreover have "is_kind OTHER" "is_kind ''pictures''"
    by (simp_all add: is_kind_def KIND_KEYS_def KINDS_def)
  ultimately show ?thesis
    by (auto simp: kind_of_def Let_def split: option.splits dest!: find_SomeD)
qed

lemma set_content_reasons:
  "set (content_reasons a)
   = {attribute. \<exists>v. (attribute, v) \<in> set (or_empty (rating a)) \<and> above_ceiling attribute v}"
  by (force simp: content_reasons_def)

lemma content_reasons_Nil_iff:
  "content_reasons a = [] \<longleftrightarrow>
   (\<forall>(attribute, v) \<in> set (or_empty (rating a)). \<not> above_ceiling attribute v)"
  by (simp only: set_empty [symmetric] set_content_reasons) auto

lemma decide_None_iff:
  "decide u a approved off = None \<longleftrightarrow>
     ref a \<notin> set off \<and> ref a \<notin> set (blocked_apps u) \<and> kind_of a \<notin> set (blocked_app_kinds u) \<and>
     individually_approved u (ref a) \<and>
     (ref a \<in> set approved \<or>
      access_of u = ''store'' \<and> ref a \<notin> set CIRCUMVENTION \<and>
      (known a = Some True \<or> categories a \<noteq> None \<or> rating a \<noteq> None) \<and>
      (\<forall>(attribute, v) \<in> set (or_empty (rating a)). \<not> above_ceiling attribute v))"
  unfolding content_reasons_Nil_iff [symmetric] by (auto simp: decide_def)

lemma decide_extend [simp]: "decide u (app.extend a m) approved off = decide u a approved off"
  by (simp add: decide_def kind_of_def content_reasons_def app.defs)

text \<open>Dictionaries of apps by their own ref.\<close>

definition keyed :: "(string, app) dict \<Rightarrow> bool" where
  "keyed d \<longleftrightarrow> dict_ok d \<and> (\<forall>(r, a) \<in> set d. ref a = r)"

lemma set_dict_set_subset: "set (dict_set k v d) \<subseteq> insert (k, v) (set d)"
  by (induction k v d rule: dict_set.induct) auto

lemma keyed_dict_set: "keyed d \<Longrightarrow> ref a = r \<Longrightarrow> keyed (dict_set r a d)"
  using set_dict_set_subset [of r a d] by (auto simp: keyed_def)

lemma keyed_fold:
  "keyed d \<Longrightarrow> (\<And>x. x \<in> set xs \<Longrightarrow> ref (f x) = g x) \<Longrightarrow>
   keyed (fold (\<lambda>x. dict_set (g x) (f x)) xs d)"
  by (induction xs arbitrary: d) (simp_all add: keyed_dict_set)

lemma keyed_Nil: "keyed []"
  by (simp add: keyed_def)

lemma keyed_by_ref: "keyed (by_ref xs)"
  unfolding by_ref_def by (rule keyed_fold) (simp_all add: keyed_Nil)

lemma keyed_lookup: "keyed d \<Longrightarrow> map_of d r = Some a \<Longrightarrow> ref a = r"
  by (auto simp: keyed_def dest!: map_of_SomeD)

lemma keys_fold_dict_set:
  "fst ` set (fold (\<lambda>x. dict_set (g x) (f x)) xs d) = fst ` set d \<union> g ` set xs"
  by (induction xs arbitrary: d) auto

lemma keys_by_ref: "fst ` set (by_ref xs) = ref ` set xs"
  by (simp add: by_ref_def keys_fold_dict_set [of ref "\<lambda>a. a"])

lemma ref_merged_entry: "keyed indexed \<Longrightarrow> ref entry = r \<Longrightarrow> ref (merged_entry indexed r entry) = r"
  by (auto simp: merged_entry_def with_categories_def merge_apps_def keyed_lookup split: option.splits)

lemma candidates_fold:
  "candidates u index es =
   fold (\<lambda>x. dict_set (fst x) (merged_entry (by_ref index) (fst x) (snd x))) (by_ref es)
        (if access_of u = ''store'' then by_ref index else [])"
  by (simp only: candidates_def Let_def split_def)

lemma keyed_candidates: "keyed (candidates u index es)"
proof -
  have "keyed (if access_of u = ''store'' then by_ref index else [])"
    by (simp add: keyed_by_ref keyed_Nil)
  moreover have "ref (merged_entry (by_ref index) (fst x) (snd x)) = fst x" if "x \<in> set (by_ref es)" for x
    using that keyed_by_ref [of es] by (intro ref_merged_entry keyed_by_ref) (auto simp: keyed_def)
  ultimately show ?thesis
    unfolding candidates_fold by (rule keyed_fold)
qed

lemma keys_candidates:
  "fst ` set (candidates u index es) =
     ref ` set es \<union> (if access_of u = ''store'' then ref ` set index else {})"
  unfolding candidates_fold keys_fold_dict_set by (auto simp: keys_by_ref)

lemma keyed_ex:
  assumes "keyed d"
  shows "(\<exists>(r, a) \<in> set d. Q r a) \<longleftrightarrow> (\<exists>a. map_of d (ref a) = Some a \<and> Q (ref a) a)"
proof -
  have "map_of d (ref a) = Some a \<longleftrightarrow> (ref a, a) \<in> set d" for a
    using assms by (auto simp: keyed_def dest: map_of_SomeD)
  moreover have "(r, a) \<in> set d \<Longrightarrow> r = ref a" for r a
    using assms by (auto simp: keyed_def)
  ultimately show ?thesis by blast
qed

lemma visible_in:
  "s \<in> set (visible u index es off) \<longleftrightarrow>
   (\<exists>a. map_of (candidates u index es) (ref a) = Some a \<and>
        decide u a (keys (by_ref es)) off = None \<and>
        s = app.extend a \<lparr>kind = kind_of a, is_approved = (ref a \<in> ref ` set es)\<rparr>)"
proof -
  have "set (keys (by_ref es)) = ref ` set es"
    using keys_by_ref [of es] by simp
  then have "s \<in> set (visible u index es off) \<longleftrightarrow>
      (\<exists>(r, a) \<in> set (candidates u index es). decide u a (keys (by_ref es)) off = None \<and>
        s = app.extend a \<lparr>kind = kind_of a, is_approved = (r \<in> ref ` set es)\<rparr>)"
    unfolding visible_def Let_def set_sort set_concat by (force split: if_splits)
  then show ?thesis
    by (simp only: keyed_ex [OF keyed_candidates])
qed

lemma ref_extend [simp]: "ref (app.extend a m) = ref a"
  by (simp add: app.defs)

lemma kind_of_extend [simp]: "kind_of (app.extend a m) = kind_of a"
  by (simp add: app.defs kind_of_def)

lemma decide_cong_approved:
  "set xs = set ys \<Longrightarrow> decide u a xs off = decide u a ys off"
  by (simp add: decide_def)

lemma distinct_visible_refs: "distinct (map ref (visible u index es off))"
proof -
  let ?C = "candidates u index es" and ?P = "\<lambda>(r, a). decide u a (keys (by_ref es)) off = None"
  let ?f = "\<lambda>(r, a). app.extend a \<lparr>kind = kind_of a, is_approved = (r \<in> set (keys (by_ref es)))\<rparr>"
  have v: "visible u index es off = sort_key sort_name (map ?f (filter ?P ?C))"
    unfolding visible_def Let_def comprehension_filter_map by simp
  have "map ref (map ?f (filter ?P ?C)) = map fst (filter ?P ?C)"
    using keyed_candidates [of u index es] by (auto simp: keyed_def)
  moreover have "distinct (map fst (filter ?P ?C))"
    using keyed_candidates [of u index es] by (simp add: keyed_def distinct_map_filter)
  ultimately have "distinct (map ref (map ?f (filter ?P ?C)))" by (simp only:)
  then show ?thesis
    unfolding v distinct_map_sort_key .
qed

text \<open>An app for the examples.\<close>

definition chess :: app where
  "chess = \<lparr>ref = ''org.gnome.Chess'', name = Some ''Chess'', categories = Some [''Game''],
            rating = None, known = None, other_keys = []\<rparr>"

section \<open>Properties\<close>

text \<open>
  Tightening never lets an app in: if an account is allowed an app, so is every
  account with fewer blocks, more approvals, and at least its access to the store, on a computer
  with no more apps switched off; that is, adding a block or withdrawing an approval only ever
  takes apps away.
\<close>

theorem decide_monotone:
  assumes "decide u' a approved' off' = None"
    and "set off \<subseteq> set off'" and "set approved' \<subseteq> set approved"
    and "set (blocked_apps u) \<subseteq> set (blocked_apps u')"
    and "set (blocked_app_kinds u) \<subseteq> set (blocked_app_kinds u')"
    and "set (approved_apps u') \<subseteq> set (approved_apps u)"
    and "needs_individual_approval u \<longrightarrow> needs_individual_approval u'"
    and "access_of u' = ''store'' \<longrightarrow> access_of u = ''store''"
  shows "decide u a approved off = None"
  using assms unfolding decide_None_iff by (auto simp: individually_approved_def split: if_splits)

lemma decide_monotone_witness:
  "decide ((default_user 1000 ''david'' ''filtered'')\<lparr>blocked_app_kinds := [''music'']\<rparr>)
     chess [''org.gnome.Chess''] [] = None
   \<and> decide ((default_user 1000 ''david'' ''filtered'')\<lparr>blocked_app_kinds := [''games'']\<rparr>)
     chess [''org.gnome.Chess''] [] = Some ''kind''"
proof
  show "decide ((default_user 1000 ''david'' ''filtered'')\<lparr>blocked_app_kinds := [''games'']\<rparr>)
     chess [''org.gnome.Chess''] [] = Some ''kind''"
    by code_simp
  show "decide ((default_user 1000 ''david'' ''filtered'')\<lparr>blocked_app_kinds := [''music'']\<rparr>)
     chess [''org.gnome.Chess''] [] = None"
    by (rule decide_monotone
          [of "(default_user 1000 ''david'' ''filtered'')\<lparr>blocked_app_kinds := [''music'', ''work'']\<rparr>"
              _ "[''org.gnome.Chess'']" "[''org.gnome.Maps'']"])
       (code_simp, simp_all add: default_user_def access_of_def needs_individual_approval_def)
qed

text \<open>
  \<open>content_reasons\<close> names every attribute an app declares above the ceiling and no
  other, each once, worst first; an intensity the table does not know counts as none.
\<close>

theorem content_reasons_exact:
  assumes "rating a = Some r" and "dict_ok r"
  shows "set (content_reasons a)
           = {x. \<exists>limit. map_of CEILING x = Some limit \<and> intensity (dict_get r x ''none'') > intensity limit}
         \<and> distinct (content_reasons a)
         \<and> sorted_wrt (\<lambda>x y. intensity (dict_get r x ''none'') \<ge> intensity (dict_get r y ''none''))
             (content_reasons a)"
proof (intro conjI)
  let ?found = "[(intensity v, x). (x, v) \<leftarrow> r, above_ceiling x v]"
  have found: "(i, x) \<in> set ?found \<longleftrightarrow> (\<exists>v. map_of r x = Some v \<and> i = intensity v \<and> above_ceiling x v)"
    for i x using assms(2) by force
  have m: "(x, v) \<in> set r \<longleftrightarrow> map_of r x = Some v" for x v
    using assms(2) by simp
  have cr: "content_reasons a = map snd (rev (sort ?found))"
    by (simp add: content_reasons_def or_empty_def assms)
  have none: "intensity ''none'' = 0"
    by (simp add: intensity_def INTENSITY_def dict_get_def)
  show "set (content_reasons a)
      = {x. \<exists>limit. map_of CEILING x = Some limit \<and> intensity (dict_get r x ''none'') > intensity limit}"
    unfolding set_content_reasons assms(1) or_empty_def option.case m
    by (auto simp: above_ceiling_def dict_get_def none split: option.splits)
  have comp: "?found = map (\<lambda>(x, v). (intensity v, x)) (filter (\<lambda>(x, v). above_ceiling x v) r)"
    by (induction r) auto
  have "map snd ?found = map fst (filter (\<lambda>(x, v). above_ceiling x v) r)"
    unfolding comp by (simp add: split_def comp_def)
  then have d: "distinct (map snd ?found)"
    using assms(2) by (simp add: distinct_map_filter)
  have "distinct (map snd (sort ?found))"
    unfolding distinct_map_sort_key by (rule d)
  then show "distinct (content_reasons a)"
    unfolding cr rev_map [symmetric] distinct_rev .
  have "sorted_wrt (\<lambda>p q. fst p \<ge> fst q) (rev (sort ?found))"
    unfolding sorted_wrt_rev
    by (rule sorted_wrt_mono_rel [OF _ sorted_sort]) (auto simp: less_eq_prod_def)
  then have "sorted_wrt (\<lambda>p q. intensity (dict_get r (snd p) ''none'') \<ge> intensity (dict_get r (snd q) ''none''))
      (rev (sort ?found))"
    by (rule sorted_wrt_mono_rel [rotated]) (auto simp: found dict_get_def simp del: set_concat)
  then show "sorted_wrt (\<lambda>x y. intensity (dict_get r x ''none'') \<ge> intensity (dict_get r y ''none''))
      (content_reasons a)"
    unfolding cr by (simp add: sorted_wrt_map)
qed

lemma content_reasons_exact_witness:
  "distinct (content_reasons (chess\<lparr>rating := Some [(''violence-cartoon'', ''mild''),
      (''drugs-alcohol'', ''intense''), (''sex-nudity'', ''mild'')]\<rparr>))
   \<and> content_reasons (chess\<lparr>rating := Some [(''violence-cartoon'', ''mild''),
      (''drugs-alcohol'', ''intense''), (''sex-nudity'', ''mild'')]\<rparr>) = [''drugs-alcohol'', ''sex-nudity'']"
proof
  show "distinct (content_reasons (chess\<lparr>rating := Some [(''violence-cartoon'', ''mild''),
      (''drugs-alcohol'', ''intense''), (''sex-nudity'', ''mild'')]\<rparr>))"
    by (rule content_reasons_exact [THEN conjunct2, THEN conjunct1]) (rule app.select_convs app.update_convs refl | simp)+
  show "content_reasons (chess\<lparr>rating := Some [(''violence-cartoon'', ''mild''),
      (''drugs-alcohol'', ''intense''), (''sex-nudity'', ''mild'')]\<rparr>) = [''drugs-alcohol'', ''sex-nudity'']"
    by code_simp
qed

text \<open>
  The Store shows an account only what the installer would give it: every app in
  the answer passes \<open>decide\<close> as shown, carries its own kind and whether it is on the approved
  list, appears once, and the answer is in order of name; an approved-only account is shown
  nothing outside the approved list.
\<close>

theorem visible_sound:
  "list_all (\<lambda>s. decide u s (map ref es) off = None \<and> kind s = kind_of s \<and>
                 (is_approved s = (ref s \<in> ref ` set es)) \<and>
                 (access_of u = ''store'' \<or> is_approved s)) (visible u index es off)
   \<and> distinct (map ref (visible u index es off))
   \<and> sorted (map sort_name (visible u index es off))"
proof (intro conjI)
  have a: "decide u a (keys (by_ref es)) off = decide u a (map ref es) off" for a :: app
    using keys_by_ref [of es] by (intro decide_cong_approved) simp
  show "list_all (\<lambda>s. decide u s (map ref es) off = None \<and> kind s = kind_of s \<and>
                 (is_approved s = (ref s \<in> ref ` set es)) \<and>
                 (access_of u = ''store'' \<or> is_approved s)) (visible u index es off)"
    unfolding list_all_iff
  proof
    fix s assume "s \<in> set (visible u index es off)"
    then obtain b where b: "map_of (candidates u index es) (ref b) = Some b"
        "decide u b (map ref es) off = None"
      and s: "s = app.extend b \<lparr>kind = kind_of b, is_approved = (ref b \<in> ref ` set es)\<rparr>"
      unfolding visible_in a by blast
    have "ref b \<in> fst ` set (candidates u index es)"
      using b(1) by (metis map_of_eq_None_iff option.distinct(1))
    then have "access_of u = ''store'' \<or> ref b \<in> ref ` set es"
      unfolding keys_candidates by (auto split: if_splits)
    moreover have "kind s = kind_of b" "is_approved s = (ref b \<in> ref ` set es)"
      by (simp_all add: s app.defs)
    ultimately show "decide u s (map ref es) off = None \<and> kind s = kind_of s \<and>
                 (is_approved s = (ref s \<in> ref ` set es)) \<and>
                 (access_of u = ''store'' \<or> is_approved s)"
      using b(2) by (simp add: s)
  qed
  show "distinct (map ref (visible u index es off))"
    by (rule distinct_visible_refs)
  show "sorted (map sort_name (visible u index es off))"
    by (simp add: visible_def Let_def)
qed
text \<open>
  Every app on the approved list that is neither switched off, blocked, of a
  blocked kind nor waiting for its individual approval is shown, whether or not the machine has
  downloaded an app list that carries it.
\<close>

theorem visible_complete:
  assumes "e \<in> set es" and "ref e \<notin> set off" and "ref e \<notin> set (blocked_apps u)"
    and "individually_approved u (ref e)" and "blocked_app_kinds u = []"
  shows "\<exists>s \<in> set (visible u index es off). ref s = ref e \<and> is_approved s"
proof -
  have "ref e \<in> fst ` set (candidates u index es)"
    using assms(1) by (simp add: keys_candidates)
  then obtain a where a: "map_of (candidates u index es) (ref e) = Some a"
    by (metis domD dom_map_of_conv_image_fst)
  then have r: "ref a = ref e"
    by (rule keyed_lookup [OF keyed_candidates])
  have "ref a \<in> set (keys (by_ref es))"
    using assms(1) keys_by_ref [of es] by (simp add: r)
  then have "decide u a (keys (by_ref es)) off = None"
    using assms by (simp add: decide_None_iff r)
  moreover have "map_of (candidates u index es) (ref a) = Some a"
    using a by (simp add: r)
  ultimately have "app.extend a \<lparr>kind = kind_of a, is_approved = (ref a \<in> ref ` set es)\<rparr>
      \<in> set (visible u index es off)"
    unfolding visible_in by blast
  then show ?thesis
    using assms(1) by (intro bexI) (simp_all add: r app.defs)
qed

lemma visible_complete_witness:
  "\<exists>s \<in> set (visible (default_user 1000 ''david'' ''filtered'') [] [chess] []).
     ref s = ''org.gnome.Chess'' \<and> is_approved s"
  using visible_complete [of chess "[chess]" "[]" "default_user 1000 ''david'' ''filtered''" "[]"]
  by (simp add: chess_def default_user_def individually_approved_def INDIVIDUAL_APPROVAL_def)

text \<open>
  Every app has a kind of the table, and an app that declares no category (so one
  known only by its ref) is of the kind ``other'', as is one none of whose categories any kind
  claims; every other app is on a named shelf.
\<close>

theorem kind_of_total:
  "is_kind (kind_of a) \<and>
   (kind_of a = OTHER \<longleftrightarrow>
      set (or_empty (categories a)) \<inter>
        (\<Union> (set ` snd ` snd ` set KINDS) \<union> set GENERIC_MEDIA) = {})"
proof (rule conjI [OF kind_of_is_kind])
  let ?cs = "set (or_empty (categories a))"
  have other: "OTHER \<notin> fst ` set KINDS" "OTHER \<noteq> ''pictures''"
    by (simp_all add: OTHER_def KINDS_def)
  show "kind_of a = OTHER \<longleftrightarrow> ?cs \<inter> (\<Union> (set ` snd ` snd ` set KINDS) \<union> set GENERIC_MEDIA) = {}"
  proof (cases "find (\<lambda>(_, _, claims). ?cs \<inter> set claims \<noteq> {}) KINDS")
    case None
    then have "?cs \<inter> set claims = {}" if "(k, l, claims) \<in> set KINDS" for k l claims
      using that unfolding find_None_iff by fastforce
    then have "?cs \<inter> \<Union> (set ` snd ` snd ` set KINDS) = {}"
      by fastforce
    with None show ?thesis
      using other(2) by (simp add: kind_of_def Let_def Int_Un_distrib)
  next
    case (Some k)
    obtain key l claims where k: "k = (key, l, claims)" by (cases k)
    have "k \<in> set KINDS" "?cs \<inter> set claims \<noteq> {}"
      using find_SomeD [OF Some] by (auto simp: k)
    then have "key \<in> fst ` set KINDS" "claims \<in> snd ` snd ` set KINDS" "or_empty (categories a) \<noteq> []"
      by (force simp: k)+
    moreover have "kind_of a = key"
      using Some \<open>or_empty (categories a) \<noteq> []\<close> by (simp add: kind_of_def k)
    moreover have "?cs \<inter> (\<Union> (set ` snd ` snd ` set KINDS) \<union> set GENERIC_MEDIA) \<noteq> {}"
      using \<open>claims \<in> snd ` snd ` set KINDS\<close> \<open>?cs \<inter> set claims \<noteq> {}\<close> by blast
    moreover have "key \<noteq> OTHER"
      using other(1) \<open>key \<in> fst ` set KINDS\<close> by blast
    ultimately show ?thesis
      by (simp only:)
  qed
qed

text \<open>
  Property C12: The open store is safe on its own: an app nobody approved is allowed only to an
  account open to the whole store, is no circumvention tool, has something to be judged by, and
  declares nothing above the ceiling.
\<close>

theorem unapproved_within_ceiling:
  assumes "decide u a approved off = None" and "ref a \<notin> set approved"
  shows "access_of u = ''store'' \<and> ref a \<notin> set CIRCUMVENTION \<and>
         (known a = Some True \<or> categories a \<noteq> None \<or> rating a \<noteq> None) \<and>
         list_all (\<lambda>(x, v). case map_of CEILING x of None \<Rightarrow> True
                              | Some limit \<Rightarrow> intensity v \<le> intensity limit) (or_empty (rating a))"
  using assms unfolding decide_None_iff
  by (fastforce simp: list_all_iff above_ceiling_def not_less split: option.splits)

lemma unapproved_within_ceiling_witness:
  "access_of ((default_user 1000 ''david'' ''filtered'')\<lparr>app_access := Some ''store''\<rparr>) = ''store''"
  by (rule unapproved_within_ceiling
        [of "(default_user 1000 ''david'' ''filtered'')\<lparr>app_access := Some ''store''\<rparr>" chess
            "[]" "[]", THEN conjunct1]) code_simp+

end
