(* ===== verification/Categories.thy ===== *)
theory Categories
  imports Prelude
begin

text \<open>
  \<open>kosherd/src/kosherd/categories.py\<close>: the category lists, in memory (\<open>Bundle\<close>) and as a database
  (\<open>SqliteBundle\<close>), whose answers must agree.  SQLite is not code of the repository: a database is
  its \<open>meta\<close> table and the rows of its \<open>domains\<close> table, and a query is the filter its SQL states.
  A file is absent (\<open>None\<close>), unreadable (\<open>Inl\<close>) or its parsed contents.  \<open>str()\<close> of a JSON list or
  object is the argument \<open>repr\<close>.
\<close>

section \<open>The catalogue's tables\<close>

definition CATEGORY_LABELS :: "(string, string) dict" where
  "CATEGORY_LABELS =
     [(''adult'', ''Adult and pornography''), (''immodest'', ''Immodest imagery''),
      (''gambling'', ''Gambling and betting''), (''dating'', ''Dating and matchmaking''),
      (''social'', ''Social networks''), (''video'', ''Video and streaming''),
      (''sports'', ''Sports''), (''games'', ''Games''),
      (''shopping'', ''Shopping and marketplaces''), (''news'', ''News and media''),
      (''drugs'', ''Drugs''), (''violence'', ''Violence''),
      (''ads'', ''Advertising and trackers''), (''malware'', ''Malware and phishing''),
      (''proxy'', ''Proxies, VPNs and filter bypass'')]"

definition USER_FACING_CATEGORIES :: "string list" where
  "USER_FACING_CATEGORIES = keys CATEGORY_LABELS"

definition CALLS :: string where "CALLS = ''calls''"

definition DEFAULT_BLOCKED :: "string list" where
  "DEFAULT_BLOCKED = [''adult'', ''gambling'', ''dating'', ''malware'', ''proxy'']"

section \<open>Hosts and their suffixes\<close>

text \<open>\<open>(host or "").lower().strip(".")\<close>.\<close>

definition host_name :: "string \<Rightarrow> string" where
  "host_name h = strip (\<lambda>c. c = CHR ''.'') (lower h)"

text \<open>The candidates \<open>".".join(labels[start:])\<close> for every \<open>start\<close>, in order.\<close>

fun label_suffixes :: "string list \<Rightarrow> string list" where
  "label_suffixes [] = []"
| "label_suffixes (l # ls) = join ''.'' (l # ls) # label_suffixes ls"

section \<open>The list in memory\<close>

record category_list =
  version :: string
  bundle_source :: string
  domains :: "(string, string list) dict"

definition empty_bundle :: category_list where
  "empty_bundle = \<lparr>version = ''0'', bundle_source = [], domains = []\<rparr>"

definition bundle_categories :: "category_list \<Rightarrow> string set" where
  "bundle_categories b = set (concat (map snd (domains b)))"

definition categories_of :: "category_list \<Rightarrow> string \<Rightarrow> string set" where
  "categories_of b host =
     (let h = host_name host in
      if h = [] then {}
      else case first_some (map_of (domains b)) (label_suffixes (split_on CHR ''.'' h)) of
             Some found \<Rightarrow> set found
           | None \<Rightarrow> {})"

definition blocked_categories_of :: "category_list \<Rightarrow> string \<Rightarrow> string list \<Rightarrow> string set" where
  "blocked_categories_of b host blocked = categories_of b host \<inter> set blocked"

definition domains_in :: "category_list \<Rightarrow> string list \<Rightarrow> string list" where
  "domains_in b wanted = sort [d. (d, cats) \<leftarrow> domains b, set wanted \<inter> set cats \<noteq> {}]"

text \<open>\<open>str(v)\<close>.\<close>

fun py_str :: "(json \<Rightarrow> string) \<Rightarrow> json \<Rightarrow> string" where
  "py_str repr (JStr s) = s"
| "py_str repr (JInt i) = show_int i"
| "py_str repr (JBool b) = (if b then ''True'' else ''False'')"
| "py_str repr JNull = ''None''"
| "py_str repr j = repr j"

definition entry_name :: "(json \<Rightarrow> string) \<Rightarrow> json \<Rightarrow> string" where
  "entry_name repr e = strip (\<lambda>c. c = CHR ''.'' \<or> c = CHR '' '') (lower (py_str repr e))"

definition add_entry :: "string \<Rightarrow> string \<Rightarrow> (string, string list) dict \<Rightarrow> (string, string list) dict"
where
  "add_entry category n d =
     (if n = [] then d
      else let existing = dict_get d n [] in
        if category \<in> set existing then d else dict_set n (existing @ [category]) d)"

fun add_categories ::
  "(json \<Rightarrow> string) \<Rightarrow> doc \<Rightarrow> (string, string list) dict \<Rightarrow> (string, string list) dict result" where
  "add_categories repr [] d = Inr d"
| "add_categories repr ((category, JList entries) # cs) d =
     add_categories repr cs (fold (\<lambda>e. add_entry category (entry_name repr e)) entries d)"
| "add_categories repr ((category, _) # cs) d = Inl ''category must hold a list''"

definition parse :: "(json \<Rightarrow> string) \<Rightarrow> json \<Rightarrow> category_list result" where
  "parse repr j =
     (case j of
        JObj d \<Rightarrow>
          bind_result
            (case map_of d ''domains'' of
               None \<Rightarrow> Inr []
             | Some v \<Rightarrow> if \<not> truthy v then Inr []
                        else case v of JObj e \<Rightarrow> Inr e | _ \<Rightarrow> Inl ''AttributeError'')
            (\<lambda>lists. map_sum id
               (\<lambda>ds. \<lparr>version = (case map_of d ''version'' of None \<Rightarrow> ''0'' | Some v \<Rightarrow> py_str repr v),
                      bundle_source = (case map_of d ''source'' of None \<Rightarrow> [] | Some v \<Rightarrow> py_str repr v),
                      domains = ds\<rparr>)
               (add_categories repr lists []))
      | _ \<Rightarrow> Inl ''category bundle must be an object'')"

fun load_bundle :: "(json \<Rightarrow> string) \<Rightarrow> json result option list \<Rightarrow> category_list" where
  "load_bundle repr [] = empty_bundle"
| "load_bundle repr (f # fs) =
     (case f of
        None \<Rightarrow> load_bundle repr fs
      | Some (Inl _) \<Rightarrow> load_bundle repr fs
      | Some (Inr j) \<Rightarrow> (case parse repr j of Inl _ \<Rightarrow> load_bundle repr fs | Inr b \<Rightarrow> b))"

section \<open>The list as a database\<close>

record database =
  meta :: "(string, string) dict"
  rows :: "(string \<times> string) list"

definition db_count :: "database \<Rightarrow> nat" where
  "db_count db = (let count = dict_get (meta db) ''count'' [] in
     if is_digits count then nat_of_digits count else length (rows db))"

definition db_categories :: "database \<Rightarrow> string set" where
  "db_categories db =
     (case map_of (meta db) ''categories'' of
        Some named \<Rightarrow> set (filter (\<lambda>c. c \<noteq> []) (split_on CHR '','' named))
      | None \<Rightarrow> snd ` set (rows db))"

text \<open>\<open>SELECT category FROM domains WHERE domain = ?\<close>, as the loop uses it.\<close>

definition db_entry :: "database \<Rightarrow> string \<Rightarrow> string list option" where
  "db_entry db d =
     (let found = [c. (d', c) \<leftarrow> rows db, d' = d] in if found \<noteq> [] then Some found else None)"

text \<open>Unlike the list in memory, the loop stops before the last label.\<close>

definition db_categories_of :: "database \<Rightarrow> string \<Rightarrow> string set" where
  "db_categories_of db host =
     (let h = host_name host in
      if h = [] then {}
      else case first_some (db_entry db) (butlast (label_suffixes (split_on CHR ''.'' h))) of
             Some found \<Rightarrow> set found
           | None \<Rightarrow> {})"

definition db_blocked_categories_of :: "database \<Rightarrow> string \<Rightarrow> string list \<Rightarrow> string set" where
  "db_blocked_categories_of db host blocked = db_categories_of db host \<inter> set blocked"

definition db_domains_in :: "database \<Rightarrow> string list \<Rightarrow> string list" where
  "db_domains_in db wanted = sorted_set [d. (d, c) \<leftarrow> rows db, c \<in> set wanted]"

text \<open>\<open>load_any\<close>: per directory, the database if there is one that opens; else the JSON files.\<close>

definition load_any ::
  "(json \<Rightarrow> string) \<Rightarrow> (database result option \<times> json result option) list \<Rightarrow> database + category_list" where
  "load_any repr dirs =
     (case first_some (\<lambda>(db, _). case db of Some (Inr x) \<Rightarrow> Some x | _ \<Rightarrow> None) dirs of
        Some db \<Rightarrow> Inl db
      | None \<Rightarrow> Inr (load_bundle repr (map snd dirs)))"

section \<open>Suffixes\<close>

definition domain_suffix :: "string \<Rightarrow> string \<Rightarrow> bool" where
  "domain_suffix d h \<longleftrightarrow> d = h \<or> suffix (CHR ''.'' # d) h"

lemma suffix_label:
  "CHR ''.'' \<notin> set l \<Longrightarrow>
   suffix (CHR ''.'' # s) (l @ CHR ''.'' # j) \<longleftrightarrow> s = j \<or> suffix (CHR ''.'' # s) j"
  by (induction l) (auto simp: suffix_Cons)

lemma set_label_suffixes:
  assumes "ls \<noteq> []" and "\<And>l. l \<in> set ls \<Longrightarrow> CHR ''.'' \<notin> set l"
  shows "set (label_suffixes ls) = {d. domain_suffix d (join ''.'' ls)}"
  using assms
proof (induction ls)
  case (Cons l ls)
  show ?case
  proof (cases ls)
    case Nil
    with Cons.prems show ?thesis
      by (auto simp: domain_suffix_def dest: set_mono_suffix)
  next
    case (Cons m ms)
    with Cons.IH Cons.prems have "set (label_suffixes ls) = {d. domain_suffix d (join ''.'' ls)}"
      by simp
    moreover have "CHR ''.'' \<notin> set l" using Cons.prems by simp
    ultimately show ?thesis
      by (auto simp: Cons domain_suffix_def suffix_label)
  qed
qed simp

lemma set_suffixes_of: "set (label_suffixes (split_on CHR ''.'' h)) = {d. domain_suffix d h}"
  using set_label_suffixes [of "split_on CHR ''.'' h"] split_on_no_sep by fastforce

lemma length_join_le: "length (join ''.'' ls) \<le> length (join ''.'' (l # ls))"
  by (cases ls) simp_all

lemma label_suffixes_length:
  "s \<in> set (label_suffixes ls) \<Longrightarrow> length s \<le> length (join ''.'' ls)"
proof (induction ls)
  case (Cons l ls)
  then show ?case using length_join_le [of ls l] by auto
qed simp

lemma sorted_label_suffixes: "sorted_wrt (\<lambda>a b. length b < length a) (label_suffixes ls)"
proof (induction ls)
  case (Cons l ls)
  have "length s < length (join ''.'' (l # ls))" if "s \<in> set (label_suffixes ls)" for s
    using that label_suffixes_length [OF that] by (cases ls) auto
  with Cons show ?case by simp
qed simp

lemma label_suffixes_Nil_iff [simp]: "label_suffixes ls = [] \<longleftrightarrow> ls = []"
  by (cases ls) simp_all

section \<open>Both lists as a lookup by the longest suffix\<close>

text \<open>
  What the filter relies on, of either list: the answer for a host is what the longest of its
  suffixes that is listed says.
\<close>

locale suffix_lookup =
  fixes entry :: "'b \<Rightarrow> string \<Rightarrow> string list option"
    and answer :: "'b \<Rightarrow> string \<Rightarrow> string set"
    and candidates :: "string \<Rightarrow> string list"
  assumes answer_eq: "answer b host =
      (if host_name host = [] then {}
       else case first_some (entry b) (candidates (host_name host)) of
              Some found \<Rightarrow> set found | None \<Rightarrow> {})"
    and candidates_shrink: "sorted_wrt (\<lambda>a b. length b < length a) (candidates h)"
begin

lemma answer_longest:
  assumes "host_name host \<noteq> []" and "d \<in> set (candidates (host_name host))"
    and "entry b d = Some found"
    and "\<And>d'. d' \<in> set (candidates (host_name host)) \<Longrightarrow> entry b d' \<noteq> None \<Longrightarrow> length d' \<le> length d"
  shows "answer b host = set found"
  using first_some_sorted [where m = length and f = "entry b", OF candidates_shrink assms(2,3,4)] assms(1) by (simp add: answer_eq)

lemma answer_unlisted:
  "(\<And>d. d \<in> set (candidates (host_name host)) \<Longrightarrow> entry b d = None) \<Longrightarrow> answer b host = {}"
  by (auto simp: answer_eq first_some_None [THEN iffD2])

lemma answer_host_name: "host_name h = host_name h' \<Longrightarrow> answer b h = answer b h'"
  by (simp add: answer_eq)

end

lemma sorted_wrt_butlast: "sorted_wrt P xs \<Longrightarrow> sorted_wrt P (butlast xs)"
  by (induction xs) (auto dest: in_set_butlastD)

interpretation memory: suffix_lookup "\<lambda>b. map_of (domains b)" categories_of
    "\<lambda>h. label_suffixes (split_on CHR ''.'' h)"
  by unfold_locales (simp_all add: categories_of_def sorted_label_suffixes)

interpretation db: suffix_lookup db_entry db_categories_of
    "\<lambda>h. butlast (label_suffixes (split_on CHR ''.'' h))"
  by unfold_locales
     (simp_all add: db_categories_of_def sorted_label_suffixes sorted_wrt_butlast)

section \<open>The database holds the list\<close>

text \<open>\<open>db\<close> holds \<open>b\<close>: the rows are the pairs of the in-memory table.\<close>

definition holds :: "database \<Rightarrow> category_list \<Rightarrow> bool" where
  "holds db b \<longleftrightarrow> rows db = [(d, c). (d, cats) \<leftarrow> domains b, c \<leftarrow> cats]"

text \<open>What \<open>parse\<close> guarantees of a table.\<close>

definition table_ok :: "(string, string list) dict \<Rightarrow> bool" where
  "table_ok t \<longleftrightarrow> dict_ok t \<and>
     (\<forall>(d, cats) \<in> set t. cats \<noteq> [] \<and> distinct cats \<and> d \<noteq> [] \<and> lower d = d)"

definition list_ok :: "category_list \<Rightarrow> bool" where
  "list_ok b \<longleftrightarrow> table_ok (domains b)"

lemma rows_of_domain:
  "dict_ok ds \<Longrightarrow>
   [c. (d', c) \<leftarrow> [(d, c). (d, cats) \<leftarrow> ds, c \<leftarrow> cats], d' = x] =
   (case map_of ds x of None \<Rightarrow> [] | Some cats \<Rightarrow> cats)"
proof (induction ds)
  case (Cons e ds)
  obtain d cats where e: "e = (d, cats)" by (cases e)
  have "concat (map (\<lambda>(d', c). if d' = x then [c] else []) (map (Pair d) cats)) = (if d = x then cats else [])"
    by (induction cats) auto
  moreover have "concat (map (\<lambda>c. [(d, c)]) cats) = map (Pair d) cats"
    by (induction cats) auto
  moreover have "d = x \<Longrightarrow> map_of ds x = None"
    using Cons.prems by (auto simp: e map_of_eq_None_iff)
  ultimately show ?case
    using Cons by (auto simp: e split: option.splits)
qed simp

lemma db_entry_holds:
  assumes "holds db b" and "list_ok b"
  shows "db_entry db x = map_of (domains b) x"
proof -
  have "map_of (domains b) x \<noteq> Some []"
    using assms(2) by (auto simp: list_ok_def table_ok_def dest!: map_of_SomeD)
  then show ?thesis
    using assms rows_of_domain [of "domains b" x]
    unfolding holds_def list_ok_def table_ok_def db_entry_def by (auto split: option.splits simp del: map_concat)
qed

lemma first_some_append: "first_some f (xs @ ys) = (case first_some f xs of Some y \<Rightarrow> Some y | None \<Rightarrow> first_some f ys)"
  by (induction xs) (auto split: option.splits)

lemma last_label_suffixes: "ls \<noteq> [] \<Longrightarrow> last (label_suffixes ls) = last ls"
  by (induction ls) auto

lemma dotted_suffix:
  assumes "s \<in> set (butlast (label_suffixes ls))"
  shows "CHR ''.'' \<in> set s"
  using assms
proof (induction ls)
  case (Cons l ls)
  then show ?case by (cases ls) (auto split: if_splits)
qed simp

lemma map_of_filter_key: "map_of (filter (\<lambda>(k, v). P k) d) x = (if P x then map_of d x else None)"
  by (induction d) auto

section \<open>Reading a list\<close>

lemma lower_id: "(\<And>c. c \<in> set s \<Longrightarrow> lower_char c = c) \<Longrightarrow> lower s = s"
  by (simp add: lower_def map_idI)

lemma set_strip_subset: "set (strip f s) \<subseteq> set s"
  unfolding strip_def rstrip_def set_rev by (metis set_dropWhile_subset set_rev subset_trans)

lemma lower_entry_name: "lower (entry_name repr e) = entry_name repr e"
proof (rule lower_id)
  fix c assume "c \<in> set (entry_name repr e)"
  then have "c \<in> set (lower (py_str repr e))"
    using set_strip_subset unfolding entry_name_def by blast
  then show "lower_char c = c" by (auto simp: lower_def)
qed

abbreviation listed :: "(string, string list) dict \<Rightarrow> string \<Rightarrow> string \<Rightarrow> bool" where
  "listed t n c \<equiv> c \<in> set (dict_get t n [])"

lemma listed_add_entry:
  "listed (add_entry c n t) n' c' \<longleftrightarrow> listed t n' c' \<or> n' = n \<and> c' = c \<and> n \<noteq> []"
  by (auto simp: add_entry_def Let_def dict_get_def split: option.splits)

lemma table_ok_add_entry: "table_ok t \<Longrightarrow> lower n = n \<Longrightarrow> table_ok (add_entry c n t)"
proof -
  assume t: "table_ok t" and n: "lower n = n"
  have "distinct (dict_get t n [])"
    using t by (auto simp: table_ok_def dict_get_def split: option.splits dest!: map_of_SomeD)
  moreover have "set (dict_set n v t) \<subseteq> insert (n, v) (set t)" for v
    by (induction n v t rule: dict_set.induct) auto
  ultimately show ?thesis
    using t n by (fastforce simp: table_ok_def add_entry_def Let_def)
qed

lemma fold_entries:
  "table_ok t \<Longrightarrow> table_ok (fold (\<lambda>e. add_entry c (entry_name repr e)) es t)"
  "listed (fold (\<lambda>e. add_entry c (entry_name repr e)) es t) n c' \<longleftrightarrow>
     listed t n c' \<or> c' = c \<and> n \<noteq> [] \<and> n \<in> entry_name repr ` set es"
  by (induction es arbitrary: t)
     (auto simp: listed_add_entry table_ok_add_entry lower_entry_name)

lemma add_categories_ok:
  "add_categories repr cs t = Inr t' \<Longrightarrow> table_ok t \<Longrightarrow>
   table_ok t' \<and> (\<forall>n c. listed t' n c \<longleftrightarrow>
      listed t n c \<or> n \<noteq> [] \<and> (\<exists>es. (c, JList es) \<in> set cs \<and> n \<in> entry_name repr ` set es))"
  by (induction repr cs t rule: add_categories.induct) (auto simp: fold_entries)

section \<open>Properties\<close>

text \<open>
  Reading a list file keeps every entry and invents none: a domain is in a category
  exactly when the category's list has an entry that is that name once lower-cased and stripped;
  names are lower case and not empty, and no category is listed twice for a name.
\<close>

theorem parse_exact:
  assumes "parse repr (JObj d) = Inr b" and "map_of d ''domains'' = Some (JObj entries)"
  shows "list_ok b \<and>
    (\<forall>n c. c \<in> set (dict_get (domains b) n []) \<longleftrightarrow>
       n \<noteq> [] \<and> (\<exists>es. (c, JList es) \<in> set entries \<and> n \<in> entry_name repr ` set es))"
proof -
  have "add_categories repr entries [] = Inr (domains b)"
    using assms by (cases "add_categories repr entries []") (auto simp: parse_def split: if_splits)
  moreover have "table_ok []" by (simp add: table_ok_def)
  ultimately show ?thesis
    using add_categories_ok [of repr entries "[]"] by (simp add: list_ok_def dict_get_def)
qed

lemma parse_exact_witness:
  "\<exists>b. parse (\<lambda>_. []) (JObj [(''domains'', JObj [(''news'', JList [JStr ''.News.com'', JStr '' '']),
        (''ads'', JList [JStr ''news.com''])])]) = Inr b
     \<and> list_ok b \<and> domains b = [(''news.com'', [''news'', ''ads''])]"
proof -
  let ?d = "[(''domains'', JObj [(''news'', JList [JStr ''.News.com'', JStr '' '']),
        (''ads'', JList [JStr ''news.com''])])]"
  let ?b = "\<lparr>version = ''0'', bundle_source = [], domains = [(''news.com'', [''news'', ''ads''])]\<rparr>"
  have "parse (\<lambda>_. []) (JObj ?d) = Inr ?b" by code_simp
  moreover from this have "list_ok ?b" by (rule parse_exact [THEN conjunct1]) simp
  ultimately show ?thesis by (intro exI [of _ ?b]) simp
qed

text \<open>
  The list in memory answers for a host what the longest listed name that is the
  host or one of its parent domains says, whatever the case and the outer dots of the host as
  given: a listed subdomain beats its parent, and an unlisted one inherits from it.
\<close>

theorem most_specific_entry_wins:
  assumes "map_of (domains b) d = Some cats" and "domain_suffix d (host_name host)"
    and "host_name host \<noteq> []"
    and "\<And>d'. domain_suffix d' (host_name host) \<Longrightarrow> map_of (domains b) d' \<noteq> None \<Longrightarrow> length d' \<le> length d"
  shows "categories_of b host = set cats"
  using assms by (intro memory.answer_longest [of _ d]) (simp_all add: set_suffixes_of)

lemma most_specific_entry_wins_witness:
  "categories_of \<lparr>version = [], bundle_source = [], domains = [(''example.com'', [''news'']),
     (''ads.example.com'', [''ads''])]\<rparr> ''x.ADS.example.com.'' = {''ads''}"
proof -
  have h: "host_name ''x.ADS.example.com.'' = ''x.ads.example.com''"
    by code_simp
  have "categories_of \<lparr>version = [], bundle_source = [], domains = [(''example.com'', [''news'']),
     (''ads.example.com'', [''ads''])]\<rparr> ''x.ADS.example.com.'' = set [''ads'']"
    by (rule most_specific_entry_wins [of _ "''ads.example.com''"])
       (auto simp: h domain_suffix_def suffix_Cons split: if_splits)
  then show ?thesis by simp
qed

text \<open>
  Property C13: A database that holds a list gives the answers of the list in memory, except that
  it never looks at a name without a dot: its answer for a host, and for what of a host is
  blocked, is that of the list with those names left out, and the domains it gives for a set of
  categories are exactly those of the list.
\<close>

theorem database_refines_list:
  assumes "holds db b" and "list_ok b"
  shows "db_categories_of db host
           = categories_of (b\<lparr>domains := filter (\<lambda>(d, _). CHR ''.'' \<in> set d) (domains b)\<rparr>) host
         \<and> db_domains_in db wanted = domains_in b wanted"
proof
  let ?b = "b\<lparr>domains := filter (\<lambda>(d, _). CHR ''.'' \<in> set d) (domains b)\<rparr>"
  let ?ls = "split_on CHR ''.'' (host_name host)"
  let ?xs = "label_suffixes ?ls"
  have xs: "?xs = butlast ?xs @ [last ?ls]"
    by (metis append_butlast_last_id label_suffixes_Nil_iff last_label_suffixes split_on_not_Nil)
  have "CHR ''.'' \<notin> set (last ?ls)"
    by (rule split_on_no_sep [of _ _ "host_name host"]) simp
  then have "map_of (domains ?b) (last ?ls) = None"
    by (simp add: map_of_filter_key)
  then have "first_some (map_of (domains ?b)) ?xs = first_some (map_of (domains ?b)) (butlast ?xs)"
    by (subst xs) (simp add: first_some_append split: option.splits)
  also have "\<dots> = first_some (db_entry db) (butlast ?xs)"
    by (rule first_some_cong)
       (auto simp: db_entry_holds [OF assms] map_of_filter_key dest: dotted_suffix)
  finally show "db_categories_of db host = categories_of ?b host"
    unfolding db_categories_of_def categories_of_def Let_def by (simp only:)
  let ?found = "[d. (d, cats) \<leftarrow> domains b, set wanted \<inter> set cats \<noteq> {}]"
  have "?found = map fst (filter (\<lambda>(d, cats). set wanted \<inter> set cats \<noteq> {}) (domains b))"
    unfolding comprehension_filter_map by (simp add: case_prod_beta')
  then have "distinct ?found"
    using assms(2) by (simp add: list_ok_def table_ok_def distinct_map_filter)
  then have "domains_in b wanted = sorted_set ?found"
    by (simp add: domains_in_def sorted_set_def distinct_remdups_id)
  also have "\<dots> = db_domains_in db wanted"
    using assms(1) unfolding db_domains_in_def holds_def by (intro sorted_set_cong) (auto, blast)
  finally show "db_domains_in db wanted = domains_in b wanted" ..
qed

lemma database_refines_list_witness:
  "db_categories_of \<lparr>meta = [], rows = [(''example.com'', ''news''), (''com'', ''ads'')]\<rparr>
     ''shop.com'' = {}"
  by (subst database_refines_list [THEN conjunct1, of _ "\<lparr>version = [], bundle_source = [],
        domains = [(''example.com'', [''news'']), (''com'', [''ads''])]\<rparr>"])
     (simp_all add: holds_def list_ok_def table_ok_def, code_simp+)

end
