(* ===== verification/FamilyGroups.thy ===== *)
theory FamilyGroups
  imports AppAccess Categories
begin

text \<open>
  \<open>kosherd/src/kosherd/profiles.py\<close>: the settings a family names once and gives to several
  accounts.  A group is the record \<open>profile_settings\<close>; its document form is a JSON object.  Applying
  it to a \<open>UserPolicy\<close> and to a \<open>GuestPolicy\<close> are two definitions over their common base record
  (the code tells them apart by \<open>hasattr\<close>).  Python compares dictionaries without regard to the
  order of keys: that is \<open>json_eq\<close>.
\<close>

section \<open>Equality of documents\<close>

lemma size_map_of: "map_of d k = Some v \<Longrightarrow> size v < size (JObj d)"
proof (induction d)
  case (Cons e d)
  then show ?case by (cases e) (auto split: if_splits)
qed simp

function json_eq :: "json \<Rightarrow> json \<Rightarrow> bool" where
  "json_eq (JObj d) j =
     (case j of
        JObj e \<Rightarrow> set (keys d) = set (keys e) \<and>
          list_all (\<lambda>k. case map_of d k of None \<Rightarrow> True
                        | Some v \<Rightarrow> (case map_of e k of None \<Rightarrow> False | Some w \<Rightarrow> json_eq v w)) (keys d)
      | _ \<Rightarrow> False)"
| "json_eq (JList xs) j =
     (case j of
        JList ys \<Rightarrow> length xs = length ys \<and> list_all (\<lambda>(x, y). json_eq x y) (zip xs ys)
      | _ \<Rightarrow> False)"
| "json_eq JNull j = (j = JNull)"
| "json_eq (JStr s) j = (j = JStr s)"
| "json_eq (JBool b) j = (case j of JBool c \<Rightarrow> b = c | JInt i \<Rightarrow> i = of_bool b | _ \<Rightarrow> False)"
| "json_eq (JInt i) j = (case j of JInt k \<Rightarrow> i = k | JBool b \<Rightarrow> i = of_bool b | _ \<Rightarrow> False)"
  by pat_completeness auto
termination
proof (relation "measure (size \<circ> fst)", goal_cases)
  case (2 d j e k v w)
  then show ?case using size_map_of by simp
next
  case (3 xs j ys z x y)
  then have "x \<in> set xs" by (auto dest: set_zip_leftD)
  then show ?case by (simp add: less_Suc_eq_le size_list_estimation')
qed simp_all

lemma json_eq_refl [simp]: "json_eq j j"
proof (induction "size j" arbitrary: j rule: less_induct)
  case less
  show ?case
  proof (cases j)
    case (JObj d)
    then show ?thesis
      using less size_map_of by (auto simp: list_all_iff split: option.splits)
  next
    case (JList xs)
    then have "json_eq x x" if "x \<in> set xs" for x
      using less that by (simp add: less_Suc_eq_le size_list_estimation')
    then show ?thesis
      by (auto simp: JList list_all_iff zip_same)
  qed simp_all
qed

definition same_dict :: "doc \<Rightarrow> doc \<Rightarrow> bool" where
  "same_dict d e = json_eq (JObj d) (JObj e)"

lemma same_dict_refl [simp]: "same_dict d d"
  by (simp add: same_dict_def del: json_eq.simps)

section \<open>Groups\<close>

record profile_settings =
  key :: string
  label :: string
  description :: string
  p_mode :: string
  p_blocked_categories :: "string list"
  p_media_level :: string
  p_language_filter :: string
  p_youtube :: doc
  p_calm :: doc
  p_can_install_apps :: bool
  p_app_access :: string
  p_blocked_app_kinds :: "string list"
  p_blocked_apps :: "string list"

definition new_profile :: "string \<Rightarrow> string \<Rightarrow> string \<Rightarrow> string \<Rightarrow> profile_settings" where
  "new_profile k l descr m =
     \<lparr>key = k, label = l, description = descr, p_mode = m, p_blocked_categories = [],
      p_media_level = ''none'', p_language_filter = ''off'', p_youtube = [], p_calm = [],
      p_can_install_apps = True, p_app_access = ''approved'', p_blocked_app_kinds = [],
      p_blocked_apps = []\<rparr>"

definition DEFAULTS :: profile_settings where
  "DEFAULTS = (new_profile [] []
       (''The open web with content filtering: adult, gambling, dating, '' @
        ''social media and video are blocked, images are checked, and bad '' @
        ''language is cleaned up.'') ''filtered'')
     \<lparr>p_blocked_categories :=
        sorted_set (DEFAULT_BLOCKED @ [''social'', ''video'', ''immodest'', ''violence'', ''drugs'']),
      p_media_level := ''immodest'', p_language_filter := ''substitute'',
      p_youtube := [(''restrict'', JStr ''strict''),
                    (''blocked_categories'', jstrs [''24'', ''20'', ''10'', ''shorts''])],
      p_can_install_apps := False\<rparr>"

definition ADMIN_DEFAULTS :: profile_settings where
  "ADMIN_DEFAULTS =
     (new_profile [] [] ''Filtering for an adult: the floor, and the rest open.'' ''filtered'')
     \<lparr>p_blocked_categories := sort DEFAULT_BLOCKED, p_media_level := ''none'',
      p_language_filter := ''off'', p_youtube := [], p_can_install_apps := True,
      p_app_access := ''store''\<rparr>"

definition MODE_DEFAULTS :: "(string, profile_settings) dict" where
  "MODE_DEFAULTS =
     [(''none'', (new_profile [] [] ''No internet at all.'' ''none'')
        \<lparr>p_blocked_categories := sort DEFAULT_BLOCKED, p_media_level := ''all'',
         p_language_filter := ''substitute'', p_youtube := [(''restrict'', JStr ''strict'')],
         p_can_install_apps := False\<rparr>),
      (''whitelist'', (new_profile [] []
         (''A short list of approved sites and nothing else. No images from '' @
          ''the wider web, no YouTube, and apps chosen by you.'') ''whitelist'')
        \<lparr>p_blocked_categories :=
           sorted_set (DEFAULT_BLOCKED @ [''social'', ''video'', ''games'', ''shopping'', ''ads'']),
         p_media_level := ''all'', p_language_filter := ''substitute'',
         p_youtube := [(''restrict'', JStr ''strict''), (''allowed_channels'', JList [])],
         p_can_install_apps := False\<rparr>),
      (''filtered'', DEFAULTS),
      (''dnsfilter'', (new_profile [] []
         (''Blocks known bad sites and forces safe search, without reading '' @
          ''this person's connections. Weaker, but nothing is decrypted.'') ''dnsfilter'')
        \<lparr>p_blocked_categories := sort DEFAULT_BLOCKED, p_media_level := ''none'',
         p_language_filter := ''off'', p_youtube := [(''restrict'', JStr ''moderate'')],
         p_can_install_apps := True\<rparr>),
      (''unfiltered'', (new_profile [] [] ''No filtering of any kind for this account.'' ''unfiltered'')
        \<lparr>p_can_install_apps := True\<rparr>)]"

definition for_mode :: "string \<Rightarrow> profile_settings result" where
  "for_mode m = (case map_of MODE_DEFAULTS m of Some pr \<Rightarrow> Inr pr | None \<Rightarrow> Inl ''KeyError'')"

definition CUSTOM_PREFIX :: string where "CUSTOM_PREFIX = ''custom-''"

text \<open>
  \<open>re.sub(r"[^a-z0-9]+", "-", s)\<close>: each run of other characters becomes one hyphen; \<open>in_run\<close>
  says that the hyphen of the current run has been written.
\<close>

definition is_alnum :: "char \<Rightarrow> bool" where
  "is_alnum c = (let n = of_char c :: nat in 48 \<le> n \<and> n \<le> 57 \<or> 97 \<le> n \<and> n \<le> 122)"

fun hyphenate :: "bool \<Rightarrow> string \<Rightarrow> string" where
  "hyphenate in_run [] = []"
| "hyphenate in_run (c # s) =
     (if is_alnum c then c # hyphenate False s
      else if in_run then hyphenate True s
      else CHR ''-'' # hyphenate True s)"

definition slug :: "string \<Rightarrow> string" where
  "slug l =
     (let body = strip (\<lambda>c. c = CHR ''-'') (hyphenate False (lower (strip is_space l))) in
      CUSTOM_PREFIX @ (if body \<noteq> [] then body else ''group''))"

section \<open>Document form\<close>

definition profile_to_dict :: "profile_settings \<Rightarrow> doc" where
  "profile_to_dict pr =
     [(''key'', JStr (key pr)), (''label'', JStr (label pr)),
      (''description'', JStr (description pr)), (''mode'', JStr (p_mode pr)),
      (''blocked_categories'', jstrs (p_blocked_categories pr)),
      (''media_level'', JStr (p_media_level pr)),
      (''language_filter'', JStr (p_language_filter pr)),
      (''youtube'', JObj (p_youtube pr)), (''calm'', JObj (p_calm pr)),
      (''can_install_apps'', JBool (p_can_install_apps pr)),
      (''app_access'', JStr (p_app_access pr)),
      (''blocked_app_kinds'', jstrs (p_blocked_app_kinds pr)),
      (''blocked_apps'', jstrs (p_blocked_apps pr))]"

text \<open>\<open>doc.get(k) or default\<close>, for each type of field.\<close>

definition or_str :: "string \<Rightarrow> json option \<Rightarrow> string result" where
  "or_str x v = (case v of None \<Rightarrow> Inr x | Some j \<Rightarrow> if truthy j then need (as_str j) else Inr x)"
definition or_strs :: "json option \<Rightarrow> string list result" where
  "or_strs v = (case v of None \<Rightarrow> Inr [] | Some j \<Rightarrow> if truthy j then need (strs_of j) else Inr [])"
definition or_doc :: "json option \<Rightarrow> doc result" where
  "or_doc v = (case v of None \<Rightarrow> Inr [] | Some j \<Rightarrow> if truthy j then need (as_obj j) else Inr [])"

definition profile_from_dict :: "doc \<Rightarrow> profile_settings result" where
  "profile_from_dict d =
     bind_result (rd as_str (map_of d ''key'')) (\<lambda>v_key.
     bind_result (or_str v_key (map_of d ''label'')) (\<lambda>v_label.
     bind_result (or_str [] (map_of d ''description'')) (\<lambda>v_description.
     bind_result (rd as_str (map_of d ''mode'')) (\<lambda>v_mode.
     bind_result (or_strs (map_of d ''blocked_categories'')) (\<lambda>v_cats.
     bind_result (or_str ''none'' (map_of d ''media_level'')) (\<lambda>v_media.
     bind_result (or_str ''off'' (map_of d ''language_filter'')) (\<lambda>v_lang.
     bind_result (or_doc (map_of d ''youtube'')) (\<lambda>v_youtube.
     bind_result (or_doc (map_of d ''calm'')) (\<lambda>v_calm.
     bind_result (or_str ''approved'' (map_of d ''app_access'')) (\<lambda>v_access.
     bind_result (or_strs (map_of d ''blocked_app_kinds'')) (\<lambda>v_kinds.
     bind_result (or_strs (map_of d ''blocked_apps'')) (\<lambda>v_apps.
     Inr \<lparr>key = v_key, label = v_label, description = v_description, p_mode = v_mode,
          p_blocked_categories = sort v_cats, p_media_level = v_media,
          p_language_filter = v_lang, p_youtube = v_youtube, p_calm = v_calm,
          p_can_install_apps = (case map_of d ''can_install_apps'' of None \<Rightarrow> True | Some j \<Rightarrow> truthy j),
          p_app_access = v_access, p_blocked_app_kinds = sort v_kinds,
          p_blocked_apps = sort v_apps\<rparr>))))))))))))"

section \<open>Accounts and groups\<close>

definition from_user :: "user_policy \<Rightarrow> string \<Rightarrow> string \<Rightarrow> profile_settings" where
  "from_user u l descr =
     \<lparr>key = slug l, label = strip is_space l, description = strip is_space descr,
      p_mode = mode u, p_blocked_categories = sort (blocked_categories u),
      p_media_level = (if media_level u \<noteq> [] then media_level u else ''none''),
      p_language_filter = (if language_filter u \<noteq> [] then language_filter u else ''off''),
      p_youtube = youtube u, p_calm = calm u, p_can_install_apps = can_install_apps u,
      p_app_access = access_of u, p_blocked_app_kinds = sort (blocked_app_kinds u),
      p_blocked_apps = sort (blocked_apps u)\<rparr>"

text \<open>\<open>apply\<close>: the values every account has, and those only a user has.\<close>

definition apply_values :: "profile_settings \<Rightarrow> 'z account_scheme \<Rightarrow> 'z account_scheme" where
  "apply_values pr a = a
     \<lparr>mode := p_mode pr, blocked_categories := p_blocked_categories pr,
      media_level := p_media_level pr, language_filter := p_language_filter pr,
      youtube := p_youtube pr, calm := p_calm pr\<rparr>"

definition apply_app_values :: "profile_settings \<Rightarrow> user_policy \<Rightarrow> user_policy" where
  "apply_app_values pr u = u
     \<lparr>can_install_apps := p_can_install_apps pr, app_access := Some (p_app_access pr),
      blocked_app_kinds := p_blocked_app_kinds pr, blocked_apps := p_blocked_apps pr\<rparr>"

definition apply_user :: "profile_settings \<Rightarrow> user_policy \<Rightarrow> user_policy" where
  "apply_user pr u = apply_app_values pr (apply_values pr u)"

definition apply_guest :: "profile_settings \<Rightarrow> guest_policy \<Rightarrow> guest_policy" where
  "apply_guest pr g = apply_values pr g"

definition all_profiles :: "doc list \<Rightarrow> profile_settings list result" where
  "all_profiles custom = map_result profile_from_dict custom"

definition unknown_group :: "string \<Rightarrow> string" where
  "unknown_group k = ''unknown group '' @ k"

definition get_profile :: "string \<Rightarrow> doc list \<Rightarrow> profile_settings result" where
  "get_profile k custom =
     bind_result (all_profiles custom) (\<lambda>ps.
       case find (\<lambda>pr. key pr = k) ps of Some pr \<Rightarrow> Inr pr | None \<Rightarrow> Inl (unknown_group k))"

definition describe :: "doc list \<Rightarrow> doc list result" where
  "describe custom =
     bind_result (all_profiles custom) (\<lambda>ps.
       Inr (map (\<lambda>pr. dict_set ''custom'' (JBool True) (profile_to_dict pr)) ps))"

definition group_members :: "user_policy list \<Rightarrow> string \<Rightarrow> user_policy list" where
  "group_members us k = filter (\<lambda>u. profile u = Some k) us"

definition set_change :: "string \<Rightarrow> string list \<Rightarrow> string list \<Rightarrow> doc list" where
  "set_change field_name have want =
     (if set have \<noteq> set want
      then [[(''field'', JStr field_name),
             (''added'', jstrs (sorted_set (filter (\<lambda>x. x \<notin> set want) have))),
             (''removed'', jstrs (sorted_set (filter (\<lambda>x. x \<notin> set have) want)))]]
      else [])"

definition value_change :: "string \<Rightarrow> bool \<Rightarrow> json \<Rightarrow> json \<Rightarrow> doc list" where
  "value_change field_name differs ours theirs =
     (if differs then [[(''field'', JStr field_name), (''from'', ours), (''to'', theirs)]] else [])"

definition changes :: "user_policy \<Rightarrow> profile_settings \<Rightarrow> doc list" where
  "changes u pr =
     set_change ''blocked_categories'' (blocked_categories u) (p_blocked_categories pr)
     @ value_change ''mode'' (mode u \<noteq> p_mode pr) (JStr (p_mode pr)) (JStr (mode u))
     @ value_change ''media_level'' (media_level u \<noteq> p_media_level pr)
         (JStr (p_media_level pr)) (JStr (media_level u))
     @ value_change ''language_filter'' (language_filter u \<noteq> p_language_filter pr)
         (JStr (p_language_filter pr)) (JStr (language_filter u))
     @ value_change ''can_install_apps'' (can_install_apps u \<noteq> p_can_install_apps pr)
         (JBool (p_can_install_apps pr)) (JBool (can_install_apps u))
     @ value_change ''youtube'' (\<not> same_dict (youtube u) (p_youtube pr))
         (JObj (p_youtube pr)) (JObj (youtube u))
     @ value_change ''calm'' (\<not> same_dict (calm u) (p_calm pr)) (JObj (p_calm pr)) (JObj (calm u))
     @ value_change ''app_access'' (access_of u \<noteq> p_app_access pr)
         (JStr (p_app_access pr)) (JStr (access_of u))
     @ set_change ''blocked_app_kinds'' (blocked_app_kinds u) (p_blocked_app_kinds pr)
     @ set_change ''blocked_apps'' (blocked_apps u) (p_blocked_apps pr)"

text \<open>
  \<open>diff\<close>: only \<open>KeyError\<close> is caught; the group documents of a loaded policy have passed the
  schema, so \<open>all_profiles\<close> does not fail on them, and a failure is an error here.
\<close>

definition diff :: "user_policy \<Rightarrow> doc list \<Rightarrow> (string option \<times> doc list) result" where
  "diff u custom =
     (case profile u of
        None \<Rightarrow> Inr (None, [])
      | Some k \<Rightarrow>
          if k = [] then Inr (None, [])
          else bind_result (all_profiles custom) (\<lambda>ps.
            case find (\<lambda>pr. key pr = k) ps of
              None \<Rightarrow> Inr (None, [])
            | Some pr \<Rightarrow> Inr (Some k, changes u pr)))"

section \<open>Lemmas\<close>

lemma set_change_Nil_iff: "set_change f have want = [] \<longleftrightarrow> set have = set want"
  by (simp add: set_change_def)

lemma value_change_Nil_iff: "value_change f d x y = [] \<longleftrightarrow> \<not> d"
  by (simp add: value_change_def)

lemma changes_Nil_iff:
  "changes u pr = [] \<longleftrightarrow>
     mode u = p_mode pr \<and> set (blocked_categories u) = set (p_blocked_categories pr) \<and>
     media_level u = p_media_level pr \<and> language_filter u = p_language_filter pr \<and>
     same_dict (youtube u) (p_youtube pr) \<and> same_dict (calm u) (p_calm pr) \<and>
     can_install_apps u = p_can_install_apps pr \<and> access_of u = p_app_access pr \<and>
     set (blocked_app_kinds u) = set (p_blocked_app_kinds pr) \<and>
     set (blocked_apps u) = set (p_blocked_apps pr)"
  unfolding changes_def append_is_Nil_conv set_change_Nil_iff value_change_Nil_iff by blast

lemma access_of_valid: "access_of u \<in> set APP_ACCESS"
  by (simp add: access_of_def APP_ACCESS_def ADMIN_APP_ACCESS_def DEFAULT_APP_ACCESS_def
           split: option.splits)

lemma access_of_apply: "p_app_access pr \<in> set APP_ACCESS \<Longrightarrow> access_of (apply_user pr u) = p_app_access pr"
  by (simp add: apply_user_def apply_app_values_def access_of_def)

lemma changes_apply: "p_app_access pr \<in> set APP_ACCESS \<Longrightarrow> changes (apply_user pr u) pr = []"
  unfolding changes_Nil_iff by (simp add: access_of_apply) (simp add: apply_user_def apply_app_values_def apply_values_def)

lemma changes_profile [simp]: "changes (u\<lparr>profile := k\<rparr>) pr = changes u pr"
  by (simp add: changes_def access_of_def)

lemma or_str_JStr [simp]: "or_str x (Some (JStr s)) = Inr (if s = [] then x else s)"
  by (simp add: or_str_def)

lemma or_strs_jstrs [simp]: "or_strs (Some (jstrs xs)) = Inr xs"
  using of_j_inverses(1) [of xs] by (auto simp: or_strs_def jstrs_def)

lemma or_doc_JObj [simp]: "or_doc (Some (JObj d)) = Inr d"
  by (simp add: or_doc_def)

lemma profile_roundtrip:
  "profile_from_dict (profile_to_dict pr) = Inr (pr
     \<lparr>label := (if label pr = [] then key pr else label pr),
      p_blocked_categories := sort (p_blocked_categories pr),
      p_media_level := (if p_media_level pr = [] then ''none'' else p_media_level pr),
      p_language_filter := (if p_language_filter pr = [] then ''off'' else p_language_filter pr),
      p_app_access := (if p_app_access pr = [] then ''approved'' else p_app_access pr),
      p_blocked_app_kinds := sort (p_blocked_app_kinds pr),
      p_blocked_apps := sort (p_blocked_apps pr)\<rparr>)"
  unfolding profile_from_dict_def profile_to_dict_def by simp

lemma slug_not_Nil [simp]: "slug l \<noteq> []"
  by (simp add: slug_def CUSTOM_PREFIX_def Let_def)

lemma access_not_Nil [simp]: "access_of u \<noteq> []"
  using access_of_valid [of u] by (auto simp: APP_ACCESS_def)

lemma from_user_stored:
  "profile_from_dict (profile_to_dict (from_user u l descr)) =
     Inr ((from_user u l descr)\<lparr>label := (if strip is_space l = [] then slug l else strip is_space l)\<rparr>)"
  unfolding profile_roundtrip by (simp add: from_user_def sorted_sort_id)

lemma hyphenate_chars: "set (hyphenate r s) \<subseteq> {c. is_alnum c \<or> c = CHR ''-''}"
  by (induction r s rule: hyphenate.induct) auto

lemma hyphen_not_alnum: "\<not> is_alnum CHR ''-''"
  by (simp add: is_alnum_def)

lemma hyphenate_run: "hyphenate True s = [] \<or> hd (hyphenate True s) \<noteq> CHR ''-''"
  using hyphen_not_alnum by (induction s) auto

abbreviation single_hyphens :: "string \<Rightarrow> bool" where
  "single_hyphens s \<equiv> successively (\<lambda>a b. \<not> (a = CHR ''-'' \<and> b = CHR ''-'')) s"

lemma hyphenate_single: "single_hyphens (hyphenate r s)"
  using hyphen_not_alnum hyphenate_run
  by (induction r s rule: hyphenate.induct) (auto simp: successively_Cons)

lemma dropWhile_successively: "successively P xs \<Longrightarrow> successively P (dropWhile f xs)"
  by (induction xs) (auto simp: successively_Cons)

lemma single_hyphens_rev: "single_hyphens (rev s) \<longleftrightarrow> single_hyphens s"
  unfolding successively_rev by (simp add: conj_commute)

lemma single_hyphens_strip: "single_hyphens s \<Longrightarrow> single_hyphens (strip f s)"
  unfolding strip_def rstrip_def single_hyphens_rev
  by (rule dropWhile_successively) (simp only: single_hyphens_rev dropWhile_successively)

lemma hd_strip: "strip f s \<noteq> [] \<Longrightarrow> \<not> f (hd (strip f s)) \<and> \<not> f (last (strip f s))"
proof -
  assume n: "strip f s \<noteq> []"
  let ?d = "dropWhile f s"
  obtain p where p: "?d = strip f s @ p"
    unfolding strip_def rstrip_def
    by (metis rev_append rev_rev_ident takeWhile_dropWhile_id)
  then have "hd ?d = hd (strip f s)" "?d \<noteq> []" using n by auto
  moreover have "\<not> f (last (strip f s))"
    using n hd_dropWhile [of f "rev ?d"] by (simp add: strip_def rstrip_def last_rev)
  ultimately show ?thesis using hd_dropWhile [of f s] by simp
qed

section \<open>Properties\<close>

text \<open>
  The key made of a group's name is the prefix and a non-empty body of lower-case
  letters, digits and single hyphens, none of them at an end, whatever the name contains: it can
  stand in a file name, a URL or a policy document as it is.
\<close>

theorem slug_shape:
  "\<exists>body. slug l = CUSTOM_PREFIX @ body \<and> body \<noteq> [] \<and>
     set body \<subseteq> {c. is_alnum c \<or> c = CHR ''-''} \<and>
     hd body \<noteq> CHR ''-'' \<and> last body \<noteq> CHR ''-'' \<and>
     successively (\<lambda>a b. \<not> (a = CHR ''-'' \<and> b = CHR ''-'')) body"
proof -
  let ?h = "hyphenate False (lower (strip is_space l))"
  let ?b = "strip (\<lambda>c. c = CHR ''-'') ?h"
  show ?thesis
  proof (cases "?b = []")
    case True
    then show ?thesis
      by (intro exI [of _ "''group''"]) (simp add: slug_def is_alnum_def)
  next
    case False
    have "set ?b \<subseteq> {c. is_alnum c \<or> c = CHR ''-''}"
      using set_strip_subset hyphenate_chars by blast
    with False show ?thesis
      using hd_strip [OF False] single_hyphens_strip [OF hyphenate_single]
      by (intro exI [of _ ?b]) (simp add: slug_def)
  qed
qed

text \<open>The settings of a group, as they are on an account that was saved as one.\<close>

definition with_group_of :: "user_policy \<Rightarrow> user_policy \<Rightarrow> user_policy" where
  "with_group_of u v = v
     \<lparr>mode := mode u, blocked_categories := sort (blocked_categories u),
      media_level := (if media_level u = [] then ''none'' else media_level u),
      language_filter := (if language_filter u = [] then ''off'' else language_filter u),
      youtube := youtube u, calm := calm u, can_install_apps := can_install_apps u,
      app_access := Some (access_of u), blocked_app_kinds := sort (blocked_app_kinds u),
      blocked_apps := sort (blocked_apps u)\<rparr>"

text \<open>
  Property C14: A group saved from an account and given to another is that account's settings: the settings
  snapshotted from \<open>u\<close>, written to the policy's document among other groups, found again by the
  group's key and applied to \<open>v\<close> give \<open>v\<close> the mode, the blocked categories, the levels, YouTube, the
  calmer sites, and the rules about apps of \<open>u\<close>, and leave everything else of \<open>v\<close> as it was; and
  \<open>diff\<close> then has nothing to report for \<open>v\<close>, whatever its settings were.
\<close>

theorem saved_group_applies:
  assumes "all_profiles before = Inr ps" and "all_profiles after = Inr qs"
    and "slug l \<notin> key ` set ps"
    and "custom = before @ profile_to_dict (from_user u l descr) # after"
  shows "\<exists>pr. get_profile (slug l) custom = Inr pr \<and> apply_user pr v = with_group_of u v
    \<and> diff ((apply_user pr v)\<lparr>profile := Some (slug l)\<rparr>) custom = Inr (Some (slug l), [])"
proof -
  let ?pr = "(from_user u l descr)\<lparr>label := (if strip is_space l = [] then slug l else strip is_space l)\<rparr>"
  have all: "all_profiles custom = Inr (ps @ ?pr # qs)"
    using assms(1,2) unfolding all_profiles_def assms(4)
    by (auto simp: map_result_Inr_iff from_user_stored intro!: list_all2_appendI)
  have "find (\<lambda>pr. key pr = slug l) ps = None"
    using assms(3) unfolding find_None_iff by (metis imageI)
  then have f: "find (\<lambda>pr. key pr = slug l) (ps @ ?pr # qs) = Some ?pr"
    by (induction ps) (auto simp: from_user_def split: if_splits)
  have "get_profile (slug l) custom = Inr ?pr" by (simp add: get_profile_def all f)
  moreover have "apply_user ?pr v = with_group_of u v"
    by (simp add: apply_user_def apply_app_values_def apply_values_def from_user_def with_group_of_def)
  moreover have "p_app_access ?pr \<in> set APP_ACCESS"
    using access_of_valid [of u] by (simp add: from_user_def)
  then have "diff ((apply_user ?pr v)\<lparr>profile := Some (slug l)\<rparr>) custom = Inr (Some (slug l), [])"
    using f by (simp add: diff_def all changes_apply)
  ultimately show ?thesis by blast
qed

lemma saved_group_applies_witness:
  "let u = (default_user 1000 ''david'' ''filtered'')\<lparr>blocked_categories := [''social'', ''adult''], youtube := [(''restrict'', JStr ''strict'')]\<rparr>;
       v = default_user 1001 ''moshe'' ''unfiltered'';
       custom = [profile_to_dict (from_user u '' Kids! '' [])]
   in \<exists>pr. get_profile ''custom-kids'' custom = Inr pr \<and> apply_user pr v = with_group_of u v \<and>
        youtube (apply_user pr v) = [(''restrict'', JStr ''strict'')] \<and> uid (apply_user pr v) = 1001 \<and>
        diff ((apply_user pr v)\<lparr>profile := Some ''custom-kids''\<rparr>) custom = Inr (Some ''custom-kids'', [])"
proof -
  let ?u = "(default_user 1000 ''david'' ''filtered'')\<lparr>blocked_categories := [''social'', ''adult''], youtube := [(''restrict'', JStr ''strict'')]\<rparr>"
  let ?custom = "[profile_to_dict (from_user ?u '' Kids! '' [])]"
  have s: "slug '' Kids! '' = ''custom-kids''" by code_simp
  show ?thesis
    using saved_group_applies [of "[]" "[]" "[]" "[]" "'' Kids! ''" ?custom ?u "[]" "default_user 1001 ''moshe'' ''unfiltered''"]
    by (simp add: s all_profiles_def Let_def) (auto simp: with_group_of_def default_user_def)
qed

text \<open>
  Every kind of internet has complete defaults of that kind, and every one of them
  but the unfiltered one keeps the floor: adult content, gambling, dating, malware and filter
  bypasses blocked.
\<close>

theorem mode_defaults_complete:
  "set (keys MODE_DEFAULTS) = set MODES \<and> dict_ok MODE_DEFAULTS \<and>
   list_all (\<lambda>(m, pr). p_mode pr = m \<and>
       (m \<in> set UNFILTERED_MODES \<or> set DEFAULT_BLOCKED \<subseteq> set (p_blocked_categories pr)))
     MODE_DEFAULTS"
  by (simp add: MODE_DEFAULTS_def MODES_def UNFILTERED_MODES_def DEFAULTS_def new_profile_def
        DEFAULT_BLOCKED_def insert_commute)

end
