(* ===== verification/TimeLimits.thy ===== *)
theory TimeLimits
  imports PolicyStore Complex_Main
begin

text \<open>
  \<open>kosherd/src/kosherd/timelimits.py\<close>: how long, and when, an account may be signed in.  Clock
  values are rationals (Python floats), whole seconds integers.  The time zone is the system's:
  \<open>zone\<close> gives the UTC offset in force at a second and \<open>mktime\<close> on a local time, from which the
  calendar fields the code reads are computed; \<open>fixed_zone\<close> is a zone without clock changes.
  Text is UTF-8.  The weekly schedule is seven strings of 24 flags, as \<open>parse_time\<close> lets through;
  the readers index it as the code does.
\<close>

section \<open>Constants\<close>

definition HOURS :: nat where "HOURS = 24"
definition DAYS :: nat where "DAYS = 7"
definition ALWAYS :: string where "ALWAYS = replicate HOURS CHR ''1''"
definition NEVER :: string where "NEVER = replicate HOURS CHR ''0''"
definition PAM_DAYS :: "string list" where
  "PAM_DAYS = [''Mo'', ''Tu'', ''We'', ''Th'', ''Fr'', ''Sa'', ''Su'']"
definition LIMIT_PRESET_MINUTES :: "int list" where "LIMIT_PRESET_MINUTES = [30, 60, 120, 180, 0]"
definition MAX_DAILY_MINUTES :: int where "MAX_DAILY_MINUTES = 1440"

definition days_of :: "string \<Rightarrow> string \<Rightarrow> string list" where
  "days_of weekdays weekends = replicate 5 weekdays @ replicate 2 weekends"

definition hours_between :: "nat \<Rightarrow> nat \<Rightarrow> string" where
  "hours_between start end_hour =
     map (\<lambda>h. if start \<le> h \<and> h < end_hour then CHR ''1'' else CHR ''0'') [0..<HOURS]"

definition SCHEDULE_PRESETS :: "(string, string list) dict" where
  "SCHEDULE_PRESETS =
     [(''always'', replicate DAYS ALWAYS),
      (''after_school'', days_of (hours_between 15 20) (hours_between 9 20)),
      (''not_late'', replicate DAYS (hours_between 6 21)),
      (''weekdays'', days_of ALWAYS NEVER)]"

definition USAGE_KEEP_SECONDS :: int where "USAGE_KEEP_SECONDS = 2 * 24 * 3600"
definition WHY_LIMIT :: string where "WHY_LIMIT = ''time:limit''"
definition WHY_SCHEDULE :: string where "WHY_SCHEDULE = ''time:schedule''"
definition WHY_LOGIN :: string where "WHY_LOGIN = ''time:login''"

lemmas time_consts = HOURS_def DAYS_def ALWAYS_def NEVER_def

section \<open>The settings\<close>

definition is_always :: "string list \<Rightarrow> bool" where
  "is_always schedule \<longleftrightarrow> list_all (\<lambda>day. day = ALWAYS) schedule"

definition day_ok :: "json \<Rightarrow> bool" where
  "day_ok j = (case j of
     JStr day \<Rightarrow> length day = HOURS \<and> set day \<subseteq> {CHR ''0'', CHR ''1''} | _ \<Rightarrow> False)"

definition parse_minutes :: "doc \<Rightarrow> int result" where
  "parse_minutes d =
     (case map_of d ''daily_minutes'' of
        None \<Rightarrow> Inr 0
      | Some (JInt m) \<Rightarrow>
          if 0 \<le> m \<and> m \<le> MAX_DAILY_MINUTES then Inr m
          else Inl ''daily_minutes must be between 0 and 1440''
      | Some _ \<Rightarrow> Inl ''daily_minutes must be a whole number of minutes'')"

text \<open>\<open>None\<close> when the grid is missing, null or always allowed: nothing is stored then.\<close>

definition parse_allowed :: "doc \<Rightarrow> string list option result" where
  "parse_allowed d =
     (case map_of d ''allowed'' of
        None \<Rightarrow> Inr None
      | Some JNull \<Rightarrow> Inr None
      | Some (JList xs) \<Rightarrow>
          if length xs \<noteq> DAYS then Inl ''allowed must list 7 days''
          else if \<not> list_all day_ok xs then Inl ''each day must be 24 characters of 0 or 1''
          else (case those (map as_str xs) of
                  None \<Rightarrow> Inl ''each day must be 24 characters of 0 or 1''
                | Some grid \<Rightarrow> Inr (if is_always grid then None else Some grid))
      | Some _ \<Rightarrow> Inl ''allowed must list 7 days'')"

definition parse_time :: "json \<Rightarrow> doc result" where
  "parse_time j =
     (case j of
        JNull \<Rightarrow> Inr []
      | JObj d \<Rightarrow>
          let unknown = filter (\<lambda>k. k \<notin> set [''daily_minutes'', ''allowed'']) (keys d) in
          if unknown \<noteq> [] then Inl (''unknown time setting(s): '' @ join '', '' (sorted_set unknown))
          else bind_result (parse_minutes d) (\<lambda>minutes.
               bind_result (parse_allowed d) (\<lambda>allowed.
                 Inr ((if minutes \<noteq> 0 then [(''daily_minutes'', JInt minutes)] else []) @
                      (case allowed of None \<Rightarrow> [] | Some grid \<Rightarrow> [(''allowed'', jstrs grid)]))))
      | _ \<Rightarrow> Inl ''time settings must be an object'')"

definition daily_minutes :: "doc \<Rightarrow> int" where
  "daily_minutes settings =
     (case map_of settings ''daily_minutes'' of Some (JInt m) \<Rightarrow> m | _ \<Rightarrow> 0)"

definition grid :: "doc \<Rightarrow> string list" where
  "grid settings =
     (case Option.bind (map_of settings ''allowed'') strs_of of
        Some (day # days) \<Rightarrow> day # days
      | _ \<Rightarrow> replicate DAYS ALWAYS)"

definition is_limited :: "doc \<Rightarrow> bool" where
  "is_limited settings \<longleftrightarrow> daily_minutes settings \<noteq> 0 \<or> \<not> is_always (grid settings)"

section \<open>The clock\<close>

record zone =
  utc_offset :: "int \<Rightarrow> int"
  mktime :: "int \<Rightarrow> int"

definition fixed_zone :: "int \<Rightarrow> zone" where
  "fixed_zone o' = \<lparr>utc_offset = \<lambda>_. o', mktime = \<lambda>l. l - o'\<rparr>"

text \<open>The local clock reading at a moment, as seconds since the local epoch.\<close>

definition local_seconds :: "zone \<Rightarrow> rat \<Rightarrow> int" where
  "local_seconds z now = \<lfloor>now\<rfloor> + utc_offset z \<lfloor>now\<rfloor>"

text \<open>\<open>tm_wday\<close> (Monday is 0; the epoch was a Thursday) and \<open>tm_hour\<close>.\<close>

definition tm_wday :: "int \<Rightarrow> nat" where "tm_wday l = nat ((l div 86400 + 3) mod 7)"
definition tm_hour :: "int \<Rightarrow> nat" where "tm_hour l = nat (l mod 86400 div 3600)"

definition flag_at :: "string list \<Rightarrow> int \<Rightarrow> char" where
  "flag_at schedule l = schedule ! tm_wday l ! tm_hour l"

definition allowed_at :: "string list \<Rightarrow> int \<Rightarrow> bool" where
  "allowed_at schedule l \<longleftrightarrow> flag_at schedule l = CHR ''1''"

definition hour_start :: "zone \<Rightarrow> rat \<Rightarrow> int" where
  "hour_start z now = (let l = local_seconds z now in mktime z (l - l mod 3600))"

text \<open>The loop of \<open>_walk\<close>: the first of the hours \<open>start + k * 3600\<close> that shows \<open>want\<close>.\<close>

definition walk :: "zone \<Rightarrow> string list \<Rightarrow> rat \<Rightarrow> char \<Rightarrow> int option" where
  "walk z schedule now want =
     (let start = hour_start z now in
      find (\<lambda>t. flag_at schedule (local_seconds z (of_int t)) = want)
           (map (\<lambda>k. start + int k * 3600) [0..<DAYS * HOURS + 1]))"

definition block_end :: "zone \<Rightarrow> string list \<Rightarrow> rat \<Rightarrow> rat option" where
  "block_end z schedule now =
     (if is_always schedule then None
      else if \<not> allowed_at schedule (local_seconds z now) then Some now
      else map_option of_int (walk z schedule now CHR ''0''))"

definition next_allowed :: "zone \<Rightarrow> string list \<Rightarrow> rat \<Rightarrow> rat option" where
  "next_allowed z schedule now =
     (if allowed_at schedule (local_seconds z now) then Some now
      else map_option of_int (walk z schedule now CHR ''1''))"

text \<open>\<open>int(x)\<close> on a float.\<close>

definition trunc :: "rat \<Rightarrow> int" where
  "trunc x = (if x < 0 then - \<lfloor>- x\<rfloor> else \<lfloor>x\<rfloor>)"

record time_status =
  used :: int
  limit :: int
  left :: "int option"
  reason :: "string option"
  allowed_now :: bool
  blocked :: bool
  block_ends :: "int option"
  next_time :: "int option"
  limited :: bool

definition status :: "zone \<Rightarrow> doc \<Rightarrow> int \<Rightarrow> rat \<Rightarrow> time_status" where
  "status z settings used_s now =
     (let minutes = daily_minutes settings;
          schedule = grid settings;
          lim = minutes * 60;
          budget_left = (if lim \<noteq> 0 then Some (max 0 (lim - used_s)) else None);
          ok = allowed_at schedule (local_seconds z now);
          ends = block_end z schedule now;
          block_left = map_option (\<lambda>e. max 0 (trunc (e - now))) ends;
          (left1, reason1) = (case budget_left of
              Some b \<Rightarrow> (Some b, Some ''limit'') | None \<Rightarrow> (None, None));
          (left2, reason2) = (case block_left of
              Some b \<Rightarrow> if left1 = None \<or> b < the left1 then (Some b, Some ''schedule'')
                        else (left1, reason1)
            | None \<Rightarrow> (left1, reason1));
          reason3 = (if budget_left = Some 0 then Some ''limit''
                     else if \<not> ok then Some ''schedule'' else reason2)
      in \<lparr>used = used_s, limit = lim, left = left2, reason = reason3, allowed_now = ok,
          blocked = (budget_left = Some 0 \<or> \<not> ok),
          block_ends = (if ends = None \<or> \<not> ok then None else map_option trunc ends),
          next_time = (if ok then None else map_option trunc (next_allowed z schedule now)),
          limited = is_limited settings\<rparr>)"

section \<open>Words\<close>

text \<open>\<open>round(x)\<close>: to the nearest whole number, a tie to the even one.\<close>

definition py_round :: "rat \<Rightarrow> int" where
  "py_round x =
     (let f = \<lfloor>x\<rfloor>; r = x - of_int f in
      if r < 1/2 then f else if 1/2 < r then f + 1 else if even f then f else f + 1)"

definition duration_text :: "rat \<Rightarrow> string" where
  "duration_text seconds =
     (let minutes = max 0 (py_round (seconds / 60)); hours = minutes div 60; rest = minutes mod 60 in
      if hours \<noteq> 0 \<and> rest \<noteq> 0 then show_int hours @ '' h '' @ show_int rest @ '' min''
      else if hours \<noteq> 0 then show_int hours @ '' h''
      else show_int rest @ '' min'')"

definition two_digits :: "nat \<Rightarrow> string" where
  "two_digits n = (if n < 10 then ''0'' @ show_nat n else show_nat n)"

text \<open>
  The loop over \<open>enumerate(day + "0")\<close> in \<open>hours_text\<close> and in \<open>_pam_ranges\<close>: each run of
  allowed hours as its first hour and the hour after its last.
\<close>

fun runs :: "nat \<Rightarrow> nat option \<Rightarrow> string \<Rightarrow> (nat \<times> nat) list" where
  "runs hour start [] = []"
| "runs hour start (flag # flags) =
     (if flag = CHR ''1'' \<and> start = None then runs (Suc hour) (Some hour) flags
      else case start of
             Some s \<Rightarrow> if flag = CHR ''0'' then (s, hour) # runs (Suc hour) None flags
                       else runs (Suc hour) start flags
           | None \<Rightarrow> runs (Suc hour) None flags)"

definition day_runs :: "string \<Rightarrow> (nat \<times> nat) list" where
  "day_runs day = runs 0 None (day @ ''0'')"

definition EN_DASH :: string where "EN_DASH = [CHR 0xE2, CHR 0x80, CHR 0x93]"
definition EM_DASH :: string where "EM_DASH = [CHR 0xE2, CHR 0x80, CHR 0x94]"

definition hours_text :: "string \<Rightarrow> string" where
  "hours_text day =
     (if day = ALWAYS then ''All day''
      else if day = NEVER then ''Not at all''
      else join '', '' (map (\<lambda>(s, e). two_digits s @ '':00'' @ EN_DASH @ two_digits e @ '':00'')
                            (day_runs day)))"

section \<open>pam_time\<close>

definition pam_ranges :: "string \<Rightarrow> string list" where
  "pam_ranges day = map (\<lambda>(s, e). two_digits s @ ''00-'' @ two_digits e @ ''00'') (day_runs day)"

text \<open>The days of each pattern, in the order the patterns first appear; \<open>NEVER\<close> has no entry.\<close>

fun group_days :: "nat \<Rightarrow> string list \<Rightarrow> (string, nat list) dict \<Rightarrow> (string, nat list) dict" where
  "group_days i [] d = d"
| "group_days i (day # days) d =
     group_days (Suc i) days (if day \<noteq> NEVER then dict_set day (dict_get d day [] @ [i]) d else d)"

definition pam_times :: "string list \<Rightarrow> string" where
  "pam_times schedule =
     (if is_always schedule then []
      else let by_pattern = group_days 0 schedule [] in
        if by_pattern = [] then ''!Al0000-2400''
        else join ''|''
          [concat (map (\<lambda>i. PAM_DAYS ! i) indexes) @ slot.
             (pattern, indexes) \<leftarrow> by_pattern, slot \<leftarrow> pam_ranges pattern])"

definition time_conf_line :: "user_policy \<Rightarrow> string \<Rightarrow> string" where
  "time_conf_line u slots = ''*;*;'' @ username u @ '';'' @ slots"

definition render_time_conf :: "policy \<Rightarrow> int list \<Rightarrow> string" where
  "render_time_conf p exhausted =
     join [CHR 0x0A]
       ([''# Written by kosherd from the device policy; edits are overwritten.'',
         ''# services;ttys;users;times '' @ EM_DASH @ '' an account not named here may sign in.'']
        @ concat (map (\<lambda>u.
            if admin u then []
            else if uid u \<in> set exhausted then [time_conf_line u ''!Al0000-2400'']
            else let slots = pam_times (grid (time u)) in
              if slots \<noteq> [] then [time_conf_line u slots] else []) (effective_users p)))
     @ [CHR 0x0A]"

section \<open>The day's budget\<close>

definition day_start :: "zone \<Rightarrow> rat \<Rightarrow> int" where
  "day_start z now = (let l = local_seconds z now in mktime z (l - l mod 86400))"

text \<open>
  \<open>UsageStore\<close>: the entries in memory and the lines of the file (\<open>None\<close> for a line that does
  not parse; the whole is \<open>None\<close> when the file cannot be read).  The flag \<open>wrote\<close> says whether
  writing succeeds; a failure is logged and swallowed.
\<close>

type_synonym use_entry = "int \<times> int \<times> int"

record usage_store =
  loaded :: bool
  entries :: "use_entry list"
  usage_file :: "use_entry option list option"

definition new_usage :: "use_entry option list option \<Rightarrow> usage_store" where
  "new_usage f = \<lparr>loaded = False, entries = [], usage_file = f\<rparr>"

definition load_usage :: "usage_store \<Rightarrow> usage_store" where
  "load_usage s =
     (if loaded s then s
      else s\<lparr>loaded := True,
             entries := entries s @ (case usage_file s of
               None \<Rightarrow> [] | Some ls \<Rightarrow> List.map_filter id ls)\<rparr>)"

definition add_use :: "bool \<Rightarrow> int \<Rightarrow> int \<Rightarrow> rat \<Rightarrow> usage_store \<Rightarrow> usage_store" where
  "add_use wrote u seconds now s =
     (if seconds \<le> 0 then s
      else let s1 = load_usage s; e = (trunc now, u, seconds) in
        s1\<lparr>entries := entries s1 @ [e],
           usage_file := (if wrote
             then Some ((case usage_file s1 of None \<Rightarrow> [] | Some ls \<Rightarrow> ls) @ [Some e])
             else usage_file s1)\<rparr>)"

definition used_today :: "zone \<Rightarrow> int \<Rightarrow> rat \<Rightarrow> usage_store \<Rightarrow> int" where
  "used_today z u now s =
     (let since = day_start z now in
      sum_list (map (\<lambda>(t, u', n). n) (filter (\<lambda>(t, u', n). u' = u \<and> t \<ge> since) (entries (load_usage s)))))"

definition trim_use :: "bool \<Rightarrow> rat \<Rightarrow> usage_store \<Rightarrow> usage_store" where
  "trim_use wrote now s =
     (let s1 = load_usage s;
          cutoff = trunc now - USAGE_KEEP_SECONDS;
          kept = filter (\<lambda>(t, _, _). t \<ge> cutoff) (entries s1)
      in if length kept = length (entries s1) then s1
         else s1\<lparr>entries := kept,
                 usage_file := (if wrote then Some (map Some kept) else usage_file s1)\<rparr>)"

section \<open>Schedules\<close>

definition grid_ok :: "string list \<Rightarrow> bool" where
  "grid_ok g \<longleftrightarrow> length g = DAYS \<and>
     list_all (\<lambda>day. length day = HOURS \<and> set day \<subseteq> {CHR ''0'', CHR ''1''}) g"

lemma those_as_str: "those (map as_str xs) = Some ys \<longleftrightarrow> xs = map JStr ys"
proof (induction xs arbitrary: ys)
  case (Cons x xs)
  then show ?case
    by (cases x; cases ys) (auto split: option.splits)
qed auto

lemma day_ok_JStr [simp]: "day_ok (JStr s) \<longleftrightarrow> length s = HOURS \<and> set s \<subseteq> {CHR ''0'', CHR ''1''}"
  by (simp add: day_ok_def)

lemma grid_ok_days: "grid_ok g \<longleftrightarrow> length g = DAYS \<and> list_all day_ok (map JStr g)"
  by (simp add: grid_ok_def list_all_iff)

lemma parse_allowed_Some:
  "parse_allowed d = Inr (Some g) \<longleftrightarrow>
     map_of d ''allowed'' = Some (jstrs g) \<and> grid_ok g \<and> \<not> is_always g"
proof
  assume "parse_allowed d = Inr (Some g)"
  then obtain xs where "map_of d ''allowed'' = Some (JList xs)" "length xs = DAYS" "list_all day_ok xs"
    "those (map as_str xs) = Some g" "\<not> is_always g"
    by (auto simp: parse_allowed_def split: option.splits json.splits if_splits)
  then show "map_of d ''allowed'' = Some (jstrs g) \<and> grid_ok g \<and> \<not> is_always g"
    by (simp add: those_as_str grid_ok_days jstrs_def)
next
  assume "map_of d ''allowed'' = Some (jstrs g) \<and> grid_ok g \<and> \<not> is_always g"
  moreover have "those (map as_str (map JStr g)) = Some g" by (simp add: those_as_str)
  ultimately show "parse_allowed d = Inr (Some g)"
    by (simp add: parse_allowed_def jstrs_def grid_ok_days)
qed

lemma is_always_replicate [simp]: "is_always (replicate n ALWAYS)"
  by (simp add: is_always_def list_all_iff)

lemma flag_ok:
  assumes "grid_ok g"
  shows "flag_at g l = CHR ''0'' \<or> flag_at g l = CHR ''1''"
proof -
  have w: "tm_wday l < length g" and h: "tm_hour l < 24"
    using assms by (auto simp: tm_wday_def tm_hour_def grid_ok_def DAYS_def nat_less_iff)
  from w have "g ! tm_wday l \<in> set g" by simp
  then have "length (g ! tm_wday l) = 24" "set (g ! tm_wday l) \<subseteq> {CHR ''0'', CHR ''1''}"
    using assms by (auto simp: grid_ok_def list_all_iff HOURS_def)
  with h have "g ! tm_wday l ! tm_hour l \<in> {CHR ''0'', CHR ''1''}"
    by (metis nth_mem subsetD)
  then show ?thesis by (simp add: flag_at_def)
qed

lemma allowed_always:
  assumes "grid_ok g" and "is_always g"
  shows "allowed_at g l"
proof -
  have w: "tm_wday l < length g" and h: "tm_hour l < 24"
    using assms by (auto simp: tm_wday_def tm_hour_def grid_ok_def DAYS_def nat_less_iff)
  from w have "g ! tm_wday l = ALWAYS"
    using assms(2) by (simp add: is_always_def list_all_iff)
  with h show ?thesis
    by (simp add: allowed_at_def flag_at_def ALWAYS_def HOURS_def)
qed

lemma day_eq_replicate: "length day = n \<Longrightarrow> day \<noteq> replicate n c \<Longrightarrow> \<exists>i < n. day ! i \<noteq> c"
  by (metis nth_equalityI length_replicate nth_replicate)

section \<open>Runs\<close>

abbreviation covers :: "(nat \<times> nat) list \<Rightarrow> nat \<Rightarrow> bool" where
  "covers rs h \<equiv> list_ex (\<lambda>(a, b). a \<le> h \<and> h < b) rs"

definition flagged :: "nat \<Rightarrow> string \<Rightarrow> nat \<Rightarrow> bool" where
  "flagged hour flags h \<longleftrightarrow>
     hour \<le> h \<and> h < hour + length flags \<and> flags ! (h - hour) = CHR ''1''"

lemma flagged_Cons:
  "flagged hour (f # fs) h \<longleftrightarrow> (h = hour \<and> f = CHR ''1'') \<or> flagged (Suc hour) fs h"
  by (cases "h = hour") (auto simp: flagged_def nth_Cons' Suc_le_eq)

lemma flagged_Nil [simp]: "\<not> flagged hour [] h"
  by (simp add: flagged_def)

lemma flagged_later: "flagged (Suc hour) fs h \<Longrightarrow> hour < h"
  by (simp add: flagged_def)

lemma runs_cover:
  assumes "set flags \<subseteq> {CHR ''0'', CHR ''1''}"
  shows "(covers (runs hour None (flags @ ''0'')) h \<longleftrightarrow> flagged hour flags h) \<and>
    (\<forall>s < hour. covers (runs hour (Some s) (flags @ ''0'')) h \<longleftrightarrow>
       (s \<le> h \<and> h < hour) \<or> flagged hour flags h)"
  using assms
proof (induction flags arbitrary: hour)
  case (Cons f fs)
  from Cons.prems have f: "f = CHR ''0'' \<or> f = CHR ''1''" and fs: "set fs \<subseteq> {CHR ''0'', CHR ''1''}"
    by auto
  note IH = Cons.IH [OF fs, THEN conjunct1] Cons.IH [OF fs, THEN conjunct2, rule_format]
  from f show ?case
    by (elim disjE) (auto simp: IH flagged_Cons dest: flagged_later)
qed simp

lemma day_runs_cover:
  assumes "length day = HOURS" and "set day \<subseteq> {CHR ''0'', CHR ''1''}"
  shows "covers (day_runs day) h \<longleftrightarrow> h < HOURS \<and> day ! h = CHR ''1''"
  using assms runs_cover [where flags = day and hour = 0 and h = h]
  by (simp add: day_runs_def flagged_def)

text \<open>The ranges of a day come in order and never touch.\<close>

lemma runs_apart:
  assumes "\<And>s. start = Some s \<Longrightarrow> s < hour"
  shows "sorted_wrt (\<lambda>(a, b) (c, d). b < c) (runs hour start flags) \<and>
    (\<forall>(a, b) \<in> set (runs hour start flags).
        a < b \<and> b < hour + length flags \<and> (case start of None \<Rightarrow> hour \<le> a | Some s \<Rightarrow> s \<le> a))"
  using assms
proof (induction hour start flags rule: runs.induct)
  case (2 hour start flag flags)
  note IH = "2.IH" and prems = "2.prems"
  consider (a) "flag = CHR ''1''" "start = None" | (b) s where "start = Some s" "flag = CHR ''0''"
    | (c) s where "start = Some s" "flag \<noteq> CHR ''0''" | (d) "start = None" "flag \<noteq> CHR ''1''"
    by (cases start) auto
  then show ?case
  proof cases
    case a with IH(1) prems show ?thesis by fastforce
  next
    case b with IH(3) prems show ?thesis by fastforce
  next
    case c with IH(4) prems show ?thesis by fastforce
  next
    case d with IH(2) prems show ?thesis by fastforce
  qed
qed simp

lemma group_days_in:
  "k \<in> set (dict_get (group_days i days d) p []) \<longleftrightarrow>
     k \<in> set (dict_get d p []) \<or> p \<noteq> NEVER \<and> i \<le> k \<and> k < i + length days \<and> days ! (k - i) = p"
proof (induction i days d rule: group_days.induct)
  case (2 i day days d)
  have "i \<le> k \<and> k < i + length (day # days) \<and> (day # days) ! (k - i) = p \<longleftrightarrow>
      (k = i \<and> day = p) \<or> (Suc i \<le> k \<and> k < Suc i + length days \<and> days ! (k - Suc i) = p)"
    by (cases "k = i") (auto simp: nth_Cons' Suc_le_eq)
  then show ?case
    by (auto simp: 2)
qed auto

lemma group_days_keys:
  "dict_ok d \<Longrightarrow> dict_ok (group_days i days d) \<and>
     fst ` set (group_days i days d) = fst ` set d \<union> (set days - {NEVER})"
  by (induction i days d rule: group_days.induct) auto

text \<open>The entries of a pam_time list, before they are written: days, first hour, hour after the last.\<close>

definition pam_entries :: "string list \<Rightarrow> (nat list \<times> nat \<times> nat) list" where
  "pam_entries schedule =
     [(indexes, r). (pattern, indexes) \<leftarrow> group_days 0 schedule [], r \<leftarrow> day_runs pattern]"

definition pam_entry :: "nat list \<times> nat \<times> nat \<Rightarrow> string" where
  "pam_entry = (\<lambda>(days, a, b).
     concat (map ((!) PAM_DAYS) days) @ two_digits a @ ''00-'' @ two_digits b @ ''00'')"

lemma day_never:
  assumes "length day = HOURS" and "set day \<subseteq> {CHR ''0'', CHR ''1''}" and "day \<noteq> NEVER"
  shows "day_runs day \<noteq> []"
proof -
  obtain i where "i < HOURS" "day ! i \<noteq> CHR ''0''"
    using day_eq_replicate [of day HOURS "CHR ''0''"] assms(1,3) by (auto simp: NEVER_def)
  moreover from this have "day ! i \<in> {CHR ''0'', CHR ''1''}"
    using assms(1,2) by (metis nth_mem subsetD)
  ultimately have "covers (day_runs day) i"
    using assms by (auto simp: day_runs_cover)
  then show ?thesis by auto
qed

lemma pam_times_entries:
  assumes "grid_ok g" and "\<not> is_always g"
  shows "pam_times g = (if pam_entries g = [] then ''!Al0000-2400''
                        else join ''|'' (map pam_entry (pam_entries g)))"
proof -
  let ?G = "group_days 0 g []"
  have "fst ` set ?G \<subseteq> set g - {NEVER}"
    using group_days_keys [of "[]" 0 g] by auto
  then have "day_runs pattern \<noteq> []" if "(pattern, indexes) \<in> set ?G" for pattern indexes
    using that assms(1) by (intro day_never) (force simp: grid_ok_def list_all_iff)+
  then have "pam_entries g = [] \<longleftrightarrow> ?G = []"
    unfolding pam_entries_def by (cases ?G) auto
  moreover have "map pam_entry (pam_entries g) =
      [concat (map ((!) PAM_DAYS) indexes) @ slot. (pattern, indexes) \<leftarrow> ?G, slot \<leftarrow> pam_ranges pattern]"
    by (auto simp: pam_entries_def pam_ranges_def map_concat comp_def pam_entry_def split_def)
  ultimately show ?thesis
    using assms(2) by (simp add: pam_times_def Let_def)
qed

lemma pam_entries_cover:
  assumes "grid_ok g" and "d < DAYS"
  shows "(\<exists>(days, a, b) \<in> set (pam_entries g). d \<in> set days \<and> a \<le> h \<and> h < b) \<longleftrightarrow>
         h < HOURS \<and> g ! d ! h = CHR ''1''"
proof -
  let ?G = "group_days 0 g []"
  have ok: "dict_ok ?G" using group_days_keys [of "[]" 0 g] by simp
  have day: "length (g ! d) = HOURS" "set (g ! d) \<subseteq> {CHR ''0'', CHR ''1''}" "d < length g"
    using assms by (auto simp: grid_ok_def list_all_iff)
  have mem: "(\<exists>ix. (p, ix) \<in> set ?G \<and> d \<in> set ix) \<longleftrightarrow> p \<noteq> NEVER \<and> g ! d = p" for p
  proof -
    have "(\<exists>ix. (p, ix) \<in> set ?G \<and> d \<in> set ix) \<longleftrightarrow> d \<in> set (dict_get ?G p [])"
      using ok by (auto simp: dict_get_def split: option.splits dest: map_of_SomeD)
    then show ?thesis
      using day(3) by (simp add: group_days_in)
  qed
  have "(\<exists>(days, a, b) \<in> set (pam_entries g). d \<in> set days \<and> a \<le> h \<and> h < b) \<longleftrightarrow>
      (\<exists>p. (\<exists>ix. (p, ix) \<in> set ?G \<and> d \<in> set ix) \<and> covers (day_runs p) h)"
    by (fastforce simp: pam_entries_def list_ex_iff)
  also have "\<dots> \<longleftrightarrow> g ! d \<noteq> NEVER \<and> covers (day_runs (g ! d)) h"
    unfolding mem by auto
  also have "\<dots> \<longleftrightarrow> h < HOURS \<and> g ! d ! h = CHR ''1''"
    using day by (auto simp: day_runs_cover NEVER_def)
  finally show ?thesis .
qed

section \<open>Walking the schedule\<close>

text \<open>The flag of an hour, by its number since the local epoch: it repeats every week.\<close>

definition hour_flag :: "string list \<Rightarrow> int \<Rightarrow> char" where
  "hour_flag g h = g ! nat ((h div 24 + 3) mod 7) ! nat (h mod 24)"

lemma flag_at_hour: "flag_at g l = hour_flag g (l div 3600)"
proof -
  have a: "l div 86400 = l div 3600 div 24"
    using zdiv_zmult2_eq [of 24 l 3600] by simp
  have "l mod 86400 = 3600 * (l div 3600 mod 24) + l mod 3600"
    using zmod_zmult2_eq [of 24 l 3600] by simp
  then have "l mod 86400 div 3600 = l div 3600 mod 24 + l mod 3600 div 3600"
    by (simp only: div_mult_self4)
  then have b: "l mod 86400 div 3600 = l div 3600 mod 24"
    by (simp only: mod_div_trivial add_0_right)
  show ?thesis
    by (simp only: flag_at_def hour_flag_def tm_wday_def tm_hour_def a b)
qed

lemma int_div_less: "a < c * b \<Longrightarrow> 0 < b \<Longrightarrow> a div b < c" for a b c :: int
proof (rule ccontr)
  assume a: "a < c * b" and b: "0 < b" and "\<not> a div b < c"
  then have "c * b \<le> a div b * b" by simp
  also have "\<dots> \<le> a" using b div_mult_mod_eq [of a b] pos_mod_sign [of b a] by linarith
  finally show False using a by simp
qed

lemma hour_flag_week: "hour_flag g (h + 168 * w) = hour_flag g h"
proof -
  have h: "h + 168 * w = h + 24 * (7 * w)" by simp
  have "(h + 168 * w) mod 24 = h mod 24"
    unfolding h by (rule mod_mult_self2)
  moreover have "(h + 168 * w) div 24 = h div 24 + 7 * w"
    unfolding h by (subst div_mult_self2) simp_all
  moreover have "(h div 24 + 7 * w + 3) mod 7 = (h div 24 + 3) mod 7"
  proof -
    have "h div 24 + 7 * w + 3 = h div 24 + 3 + 7 * w" by (rule add.commute [THEN trans]) (simp only: ac_simps)
    then show ?thesis by (simp only: mod_mult_self2)
  qed
  ultimately show ?thesis by (simp only: hour_flag_def)
qed

lemma hour_flag_all:
  assumes "\<And>k. k < 169 \<Longrightarrow> hour_flag g (h + int k) \<noteq> c"
  shows "hour_flag g h' \<noteq> c"
proof -
  let ?k = "nat ((h' - h) mod 168)"
  have "h' = (h + int ?k) + 168 * ((h' - h) div 168)"
    by simp
  then have "hour_flag g h' = hour_flag g (h + int ?k)"
    by (metis hour_flag_week)
  moreover have "?k < 169" by (simp add: nat_less_iff)
  ultimately show ?thesis using assms by metis
qed

text \<open>A zone whose clock does not change: what the arithmetic of \<open>walk\<close> needs of it.\<close>

locale steady_zone =
  fixes z :: zone and offset :: int
  assumes steady: "utc_offset z t = offset" "mktime z l = l - offset"
begin

abbreviation flag_of :: "string list \<Rightarrow> rat \<Rightarrow> char" where
  "flag_of g t \<equiv> flag_at g (local_seconds z t)"

lemma flag_of_hour: "flag_of g t = hour_flag g ((\<lfloor>t\<rfloor> + offset) div 3600)"
  by (simp add: flag_at_hour local_seconds_def steady)

lemma walk_hours:
  "walk z g now c = map_option (\<lambda>k. ((\<lfloor>now\<rfloor> + offset) div 3600 + int k) * 3600 - offset)
     (find (\<lambda>k. hour_flag g ((\<lfloor>now\<rfloor> + offset) div 3600 + int k) = c) [0..<169])"
proof -
  let ?h = "(\<lfloor>now\<rfloor> + offset) div 3600"
  have start: "hour_start z now = ?h * 3600 - offset"
    by (simp add: hour_start_def local_seconds_def steady minus_mod_eq_div_mult [symmetric] Let_def)
  have "find P (map f xs) = map_option f (find (P \<circ> f) xs)" for P :: "int \<Rightarrow> bool" and f :: "nat \<Rightarrow> int" and xs
    by (induction xs) simp_all
  then show ?thesis
    by (simp add: walk_def start flag_at_hour local_seconds_def steady DAYS_def HOURS_def comp_def
          algebra_simps del: upt_Suc)
qed

lemma walk_spec:
  assumes "flag_of g now \<noteq> c"
  shows "case walk z g now c of
      None \<Rightarrow> \<forall>t. flag_of g t \<noteq> c
    | Some e \<Rightarrow> now < of_int e \<and> flag_of g (of_int e) = c \<and>
                (\<forall>t. now \<le> t \<longrightarrow> t < of_int e \<longrightarrow> flag_of g t \<noteq> c)"
proof -
  let ?h = "(\<lfloor>now\<rfloor> + offset) div 3600"
  let ?f = "find (\<lambda>k. hour_flag g (?h + int k) = c) [0..<169]"
  show ?thesis
  proof (cases ?f)
    case None
    then have "hour_flag g (?h + int k) \<noteq> c" if "k < 169" for k
      using that by (auto simp: find_None_iff simp del: upt_Suc)
    then show ?thesis
      using None hour_flag_all [of g ?h c] by (simp add: walk_hours flag_of_hour)
  next
    case (Some k)
    then have k: "hour_flag g (?h + int k) = c" and first: "\<And>j. j < k \<Longrightarrow> hour_flag g (?h + int j) \<noteq> c"
      by (auto simp: find_Some_iff simp del: upt_Suc)
    let ?e = "(?h + int k) * 3600 - offset"
    have hour: "(t + offset) div 3600 < ?h + int k" if "t < ?e" for t :: int
      using that by (intro int_div_less) simp_all
    have "k \<noteq> 0"
      using assms k by (cases k) (auto simp: flag_of_hour)
    have now: "now < of_int ?e"
    proof (rule ccontr)
      assume "\<not> now < of_int ?e"
      then have "?e \<le> \<lfloor>now\<rfloor>" by (simp only: not_less le_floor_iff)
      then have "\<lfloor>now\<rfloor> + offset \<ge> (?h + int k) * 3600" by simp
      then have "?h + int k \<le> ?h"
        using zdiv_mono1 [of "(?h + int k) * 3600" "\<lfloor>now\<rfloor> + offset" 3600] by simp
      with \<open>k \<noteq> 0\<close> show False by simp
    qed
    moreover have "flag_of g (of_int ?e) = c"
      using k by (simp only: flag_of_hour floor_of_int diff_add_cancel) simp
    moreover have "flag_of g t \<noteq> c" if "now \<le> t" "t < of_int ?e" for t
    proof -
      let ?ht = "(\<lfloor>t\<rfloor> + offset) div 3600"
      have "\<lfloor>t\<rfloor> < ?e" using that(2) by (simp only: floor_less_iff)
      then have "?ht < ?h + int k" by (rule hour)
      moreover have "?h \<le> ?ht"
        using that(1) by (intro zdiv_mono1) (simp_all add: floor_mono)
      ultimately have "hour_flag g (?h + int (nat (?ht - ?h))) \<noteq> c"
        by (intro first) (simp add: nat_less_iff)
      with \<open>?h \<le> ?ht\<close> show ?thesis by (simp add: flag_of_hour)
    qed
    moreover have "walk z g now c = Some ?e"
      by (simp only: walk_hours Some option.map)
    ultimately show ?thesis by (simp only: option.case) blast
  qed
qed

end

interpretation fixed: steady_zone "fixed_zone o'" o' for o'
  by unfold_locales (simp_all add: fixed_zone_def)

section \<open>The settings' lemmas\<close>

lemma parse_minutes_bounds: "parse_minutes d = Inr m \<Longrightarrow> 0 \<le> m \<and> m \<le> MAX_DAILY_MINUTES"
  by (auto simp: parse_minutes_def MAX_DAILY_MINUTES_def split: option.splits json.splits if_splits)

definition time_doc :: "int \<Rightarrow> string list option \<Rightarrow> doc" where
  "time_doc m a = (if m \<noteq> 0 then [(''daily_minutes'', JInt m)] else []) @
     (case a of None \<Rightarrow> [] | Some g \<Rightarrow> [(''allowed'', jstrs g)])"

lemma parse_time_doc:
  assumes "0 \<le> m" "m \<le> MAX_DAILY_MINUTES" and "\<And>g. a = Some g \<Longrightarrow> grid_ok g \<and> \<not> is_always g"
  shows "parse_time (JObj (time_doc m a)) = Inr (time_doc m a)"
proof -
  have "parse_minutes (time_doc m a) = Inr m"
    using assms(1,2) by (auto simp: parse_minutes_def time_doc_def jstrs_def split: option.splits)
  moreover have "parse_allowed (time_doc m a) = Inr a"
  proof (cases a)
    case None
    then show ?thesis by (simp add: parse_allowed_def time_doc_def)
  next
    case (Some g)
    then show ?thesis
      using assms(3) by (simp add: parse_allowed_Some) (simp add: time_doc_def)
  qed
  moreover have "filter (\<lambda>k. k \<notin> set [''daily_minutes'', ''allowed'']) (keys (time_doc m a)) = []"
    by (simp add: time_doc_def split: option.split)
  ultimately show ?thesis
    by (simp add: parse_time_def time_doc_def)
qed

lemma parse_time_shape:
  assumes "parse_time j = Inr out"
  shows "\<exists>m a. out = time_doc m a \<and> 0 \<le> m \<and> m \<le> MAX_DAILY_MINUTES \<and>
           (\<forall>g. a = Some g \<longrightarrow> grid_ok g \<and> \<not> is_always g)"
proof (cases j)
  case (JObj d)
  then obtain m a where "parse_minutes d = Inr m" "parse_allowed d = Inr a" "out = time_doc m a"
    using assms by (auto simp: parse_time_def Let_def bind_result_Inr_iff time_doc_def split: if_splits)
  then show ?thesis
    using parse_minutes_bounds parse_allowed_Some by blast
next
  case JNull
  then have "out = time_doc 0 None" using assms by (simp add: parse_time_def time_doc_def)
  then show ?thesis by (intro exI [of _ 0] exI [of _ None]) (simp add: MAX_DAILY_MINUTES_def)
qed (use assms in \<open>simp_all add: parse_time_def\<close>)

lemma grid_ok_always: "grid_ok (replicate DAYS ALWAYS)"
  by (simp add: grid_ok_def list_all_iff ALWAYS_def set_replicate_conv_if)

lemma grid_time_doc:
  "(\<And>g. a = Some g \<Longrightarrow> grid_ok g) \<Longrightarrow>
   grid (time_doc m a) = (case a of None \<Rightarrow> replicate DAYS ALWAYS | Some g \<Rightarrow> g)"
  by (cases a)
     (auto simp: grid_def time_doc_def grid_ok_def DAYS_def split: list.splits)

lemma daily_minutes_time_doc: "daily_minutes (time_doc m a) = m"
  by (simp add: daily_minutes_def time_doc_def jstrs_def split: option.splits)

section \<open>The day's budget's lemmas\<close>

datatype use_op = Add_use int int rat | Trim_use rat

fun op_time :: "use_op \<Rightarrow> rat" where
  "op_time (Add_use u n t) = t"
| "op_time (Trim_use t) = t"

fun do_use :: "use_op \<Rightarrow> usage_store \<Rightarrow> usage_store" where
  "do_use (Add_use u n t) s = add_use True u n t s"
| "do_use (Trim_use t) s = trim_use True t s"

text \<open>What an operation adds to the account's use since \<open>since\<close>.\<close>

fun counts :: "int \<Rightarrow> int \<Rightarrow> use_op \<Rightarrow> int" where
  "counts u since (Add_use u' n t) = (if u' = u \<and> 0 < n \<and> since \<le> trunc t then n else 0)"
| "counts u since (Trim_use t) = 0"

definition total :: "int \<Rightarrow> int \<Rightarrow> use_entry list \<Rightarrow> int" where
  "total u since es = sum_list (map (\<lambda>(t, u', n). n) (filter (\<lambda>(t, u', n). u' = u \<and> t \<ge> since) es))"

lemma total_simps [simp]:
  "total u since [] = 0"
  "total u since (es @ es') = total u since es + total u since es'"
  "total u since [(t, u', n)] = (if u' = u \<and> t \<ge> since then n else 0)"
  by (simp_all add: total_def)

lemma total_filter: "cutoff \<le> since \<Longrightarrow> total u since (filter (\<lambda>(t, _, _). t \<ge> cutoff) es) = total u since es"
  by (induction es) (auto simp: total_def)

abbreviation usage_of :: "usage_store \<Rightarrow> use_entry list" where
  "usage_of s \<equiv> entries (load_usage s)"

lemma used_today_total: "used_today z u now s = total u (day_start z now) (usage_of s)"
  by (simp add: used_today_def total_def)

lemma load_usage_loaded [simp]: "loaded (load_usage s)" "load_usage (load_usage s) = load_usage s"
  by (simp_all add: load_usage_def)

definition synced :: "usage_store \<Rightarrow> bool" where
  "synced s \<longleftrightarrow> usage_of (new_usage (usage_file s)) = usage_of s"

lemma usage_of_new: "usage_of (new_usage f) = (case f of None \<Rightarrow> [] | Some ls \<Rightarrow> List.map_filter id ls)"
  by (simp add: load_usage_def new_usage_def)

lemma usage_file_load [simp]: "usage_file (load_usage s) = usage_file s"
  by (simp add: load_usage_def)

lemma synced_new: "synced (new_usage f)"
  by (simp add: synced_def new_usage_def)

lemma map_filter_id: "List.map_filter id (xs @ [Some e]) = List.map_filter id xs @ [e]"
  "List.map_filter id (map Some es) = es"
  by (induction es) (simp_all add: map_filter_simps List.map_filter_def)

lemma load_usage_id [simp]: "loaded s \<Longrightarrow> load_usage s = s"
  by (simp add: load_usage_def)

lemma add_use_effect:
  "usage_of (add_use w u n t s) = usage_of s @ (if n \<le> 0 then [] else [(trunc t, u, n)])"
  "synced s \<Longrightarrow> synced (add_use True u n t s)"
  by (simp_all add: add_use_def Let_def synced_def usage_of_new map_filter_id)
     (auto simp: List.map_filter_def split: option.splits)

lemma length_filter_id: "length (filter P xs) = length xs \<Longrightarrow> filter P xs = xs"
  by (metis filter_id_conv length_filter_less less_irrefl)

lemma trim_use_effect:
  "usage_of (trim_use w t s) = filter (\<lambda>(t', _, _). t' \<ge> trunc t - USAGE_KEEP_SECONDS) (usage_of s)"
  "synced s \<Longrightarrow> synced (trim_use True t s)"
  by (simp_all add: trim_use_def Let_def synced_def usage_of_new map_filter_id length_filter_id)

lemma do_uses:
  assumes "\<forall>op \<in> set ops. trunc (op_time op) - USAGE_KEEP_SECONDS \<le> since" and "synced s"
  shows "synced (fold do_use ops s) \<and>
     total u since (usage_of (fold do_use ops s)) =
       total u since (usage_of s) + sum_list (map (counts u since) ops)"
  using assms
proof (induction ops arbitrary: s)
  case (Cons op ops)
  have "synced (do_use op s)"
    using Cons.prems(2) by (cases op) (simp_all add: add_use_effect trim_use_effect)
  moreover have "total u since (usage_of (do_use op s)) = total u since (usage_of s) + counts u since op"
    using Cons.prems(1) by (cases op) (auto simp: add_use_effect trim_use_effect total_filter)
  ultimately show ?case
    using Cons by simp
qed simp

lemma trunc_ceiling: "trunc x = (if x < 0 then \<lceil>x\<rceil> else \<lfloor>x\<rfloor>)"
  by (simp add: trunc_def ceiling_def)

lemma trunc_mono: "a \<le> b \<Longrightarrow> trunc a \<le> trunc b"
proof (cases "a < 0 \<and> \<not> b < 0")
  case True
  then have "\<lceil>a\<rceil> \<le> 0" "0 \<le> \<lfloor>b\<rfloor>" by simp_all
  then have "\<lceil>a\<rceil> \<le> \<lfloor>b\<rfloor>" by (rule order_trans)
  with True show ?thesis by (simp add: trunc_ceiling)
qed (auto simp: trunc_ceiling floor_mono ceiling_mono)

lemma day_start_recent: "trunc now - USAGE_KEEP_SECONDS \<le> day_start (fixed_zone o') now"
proof -
  let ?l = "\<lfloor>now\<rfloor> + o'"
  have "day_start (fixed_zone o') now = ?l - ?l mod 86400 - o'"
    by (simp add: day_start_def local_seconds_def fixed_zone_def)
  moreover have "?l mod 86400 < 86400" by simp
  moreover have "trunc now \<le> \<lfloor>now\<rfloor> + 1"
    by (simp add: trunc_def) linarith
  ultimately show ?thesis by (simp add: USAGE_KEEP_SECONDS_def)
qed

section \<open>Properties\<close>

text \<open>
  Property C15: The settings the policy stores are canonical: whatever document \<open>parse\<close> accepts,
  parsing its result again gives it back; the limit is between none and a whole day, the
  schedule is seven days of 24 flags, and the stored form is empty exactly when the account is
  not limited at all.
\<close>

theorem parse_time_canonical:
  assumes "parse_time j = Inr out"
  shows "parse_time (JObj out) = Inr out \<and> 0 \<le> daily_minutes out \<and>
         daily_minutes out \<le> MAX_DAILY_MINUTES \<and> grid_ok (grid out) \<and> (is_limited out \<longleftrightarrow> out \<noteq> [])"
proof -
  obtain m a where out: "out = time_doc m a" and m: "0 \<le> m" "m \<le> MAX_DAILY_MINUTES"
    and a: "\<And>g. a = Some g \<Longrightarrow> grid_ok g \<and> \<not> is_always g"
    using parse_time_shape [OF assms] by blast
  have g: "grid out = (case a of None \<Rightarrow> replicate DAYS ALWAYS | Some g \<Rightarrow> g)"
    unfolding out using a by (intro grid_time_doc) blast
  have "grid_ok (grid out)"
    using a by (auto simp: g grid_ok_always split: option.splits)
  moreover have "is_limited out \<longleftrightarrow> m \<noteq> 0 \<or> a \<noteq> None"
    using a by (cases a) (auto simp: is_limited_def g, simp_all add: out daily_minutes_time_doc)
  moreover have "out \<noteq> [] \<longleftrightarrow> m \<noteq> 0 \<or> a \<noteq> None"
    by (cases a) (simp_all add: out time_doc_def)
  ultimately show ?thesis
    using parse_time_doc [OF m a] m by (simp add: out daily_minutes_time_doc)
qed

lemma parse_time_canonical_witness:
  "parse_time (JObj [(''daily_minutes'', JInt 90), (''allowed'', JNull)]) = Inr [(''daily_minutes'', JInt 90)]
   \<and> is_limited [(''daily_minutes'', JInt 90)]"
proof
  show p: "parse_time (JObj [(''daily_minutes'', JInt 90), (''allowed'', JNull)]) = Inr [(''daily_minutes'', JInt 90)]"
    by code_simp
  show "is_limited [(''daily_minutes'', JInt 90)]"
    using parse_time_canonical [OF p] by simp
qed

text \<open>
  Property C16: The pam_time list written for a schedule says exactly what the schedule says: it is
  the text of day and hour ranges that cover an hour of a day if and only if that hour is
  painted, and of the refusal of everything when no hour is.
\<close>

theorem pam_times_exact:
  assumes "grid_ok g" and "\<not> is_always g"
  shows "pam_times g = (if pam_entries g = [] then ''!Al0000-2400''
                        else join ''|'' (map pam_entry (pam_entries g)))
    \<and> (\<forall>d < DAYS. \<forall>h. (\<exists>(days, a, b) \<in> set (pam_entries g). d \<in> set days \<and> a \<le> h \<and> h < b) \<longleftrightarrow>
                    h < HOURS \<and> g ! d ! h = CHR ''1'')"
  using pam_times_entries [OF assms] pam_entries_cover [OF assms(1)] by blast

lemma pam_times_exact_witness:
  "pam_times (days_of (hours_between 15 20) (hours_between 9 20)) =
     ''MoTuWeThFr1500-2000|SaSu0900-2000''"
proof -
  let ?g = "days_of (hours_between 15 20) (hours_between 9 20)"
  have "grid_ok ?g" "\<not> is_always ?g" by code_simp+
  note p = pam_times_exact [OF this, THEN conjunct1]
  have "pam_entries ?g = [([0, 1, 2, 3, 4], 15, 20), ([5, 6], 9, 20)]" by code_simp
  then show ?thesis
    unfolding p by (simp only:) code_simp
qed

text \<open>
  Property C17: Under a clock that does not change, the end of an allowed block is the first moment
  that is not allowed any more, and the next sign-in the first that is: everything before it
  from now on is as it is now, it is never now itself, and there is none only if the
  schedule never changes.
\<close>

theorem schedule_changes_exact:
  fixes o' now g
  defines "ok \<equiv> \<lambda>t. allowed_at g (local_seconds (fixed_zone o') t)"
  assumes "grid_ok g"
  shows "if ok now
    then next_allowed (fixed_zone o') g now = Some now \<and>
      (case block_end (fixed_zone o') g now of
         None \<Rightarrow> \<forall>t. ok t
       | Some e \<Rightarrow> now < e \<and> \<not> ok e \<and> (\<forall>t. now \<le> t \<longrightarrow> t < e \<longrightarrow> ok t))
    else block_end (fixed_zone o') g now = Some now \<and>
      (case next_allowed (fixed_zone o') g now of
         None \<Rightarrow> \<forall>t. \<not> ok t
       | Some e \<Rightarrow> now < e \<and> ok e \<and> (\<forall>t. now \<le> t \<longrightarrow> t < e \<longrightarrow> \<not> ok t))"
proof -
  let ?z = "fixed_zone o'"
  have flag: "ok t \<longleftrightarrow> flag_at g (local_seconds ?z t) \<noteq> CHR ''0''" for t
    using flag_ok [OF assms(2), of "local_seconds ?z t"] by (auto simp: ok_def allowed_at_def)
  have one: "ok t \<longleftrightarrow> flag_at g (local_seconds ?z t) = CHR ''1''" for t
    by (simp add: ok_def allowed_at_def)
  have always: "ok t" if "is_always g" for t
    using that assms(2) by (simp add: ok_def allowed_always)
  have all: "All ok \<longleftrightarrow> (\<forall>t. flag_at g (local_seconds ?z t) \<noteq> CHR ''0'')"
    by (subst flag [symmetric]) simp
  show ?thesis
  proof (cases "ok now")
    case True
    then have a: "allowed_at g (local_seconds ?z now)" by (simp add: ok_def)
    show ?thesis
      using True always fixed.walk_spec [of g o' now "CHR ''0''"]
      by (cases "is_always g")
         (simp_all add: next_allowed_def block_end_def a flag all split: option.splits)
  next
    case False
    then have a: "\<not> allowed_at g (local_seconds ?z now)" by (simp add: ok_def)
    then have "\<not> is_always g" using always False by blast
    then show ?thesis
      using False fixed.walk_spec [of g o' now "CHR ''1''"]
      by (simp add: next_allowed_def block_end_def a one split: option.splits)
  qed
qed

lemma schedule_changes_exact_witness:
  "\<not> allowed_at (replicate DAYS (hours_between 6 21)) (local_seconds (fixed_zone 7200) 68400) \<and>
   block_end (fixed_zone 7200) (replicate DAYS (hours_between 6 21)) 43200 = Some 68400"
proof -
  let ?g = "replicate DAYS (hours_between 6 21)"
  have g: "grid_ok ?g" by code_simp
  have b: "block_end (fixed_zone 7200) ?g 43200 = Some 68400" by code_simp
  have "allowed_at ?g (local_seconds (fixed_zone 7200) 43200)" by code_simp
  with b show ?thesis
    using schedule_changes_exact [OF g, of 7200 43200] by simp
qed

text \<open>
  An account may not be signed in exactly when it has a daily limit it has used up or
  the schedule forbids the hour; what then ends its session is given as now, with the budget
  named before the schedule; and whatever the time zone does, the time left is never negative.
\<close>

theorem status_exact:
  fixes z settings used_s now
  defines "st \<equiv> status z settings used_s now"
  defines "ok \<equiv> allowed_at (grid settings) (local_seconds z now)"
  defines "spent \<equiv> limit st \<noteq> 0 \<and> limit st \<le> used_s"
  assumes "grid_ok (grid settings)"
  shows "limit st = 60 * daily_minutes settings \<and> (blocked st \<longleftrightarrow> spent \<or> \<not> ok) \<and>
      (blocked st \<longrightarrow> left st = Some 0 \<and> reason st = Some (if spent then ''limit'' else ''schedule'')) \<and>
      (case left st of None \<Rightarrow> limit st = 0 | Some l \<Rightarrow> 0 \<le> l)"
proof (cases ok)
  case True
  then have a: "allowed_at (grid settings) (local_seconds z now)" by (simp add: ok_def)
  show ?thesis
    unfolding spent_def st_def ok_def status_def Let_def
    by (cases "block_end z (grid settings) now") (simp_all add: a max_def)
next
  case False
  then have a: "\<not> allowed_at (grid settings) (local_seconds z now)" by (simp add: ok_def)
  then have e: "block_end z (grid settings) now = Some now"
    using allowed_always [OF assms(4)] by (auto simp: block_end_def)
  show ?thesis
    unfolding spent_def st_def ok_def status_def Let_def e
    by (simp add: a max_def trunc_def)
qed

lemma status_exact_witness:
  "let st = status (fixed_zone 0) [(''daily_minutes'', JInt 2)] 130 1000
   in blocked st \<and> left st = Some 0 \<and> reason st = Some ''limit''"
proof -
  have g: "grid_ok (grid [(''daily_minutes'', JInt 2)])" by code_simp
  have b: "blocked (status (fixed_zone 0) [(''daily_minutes'', JInt 2)] 130 1000)" by code_simp
  show ?thesis
    using status_exact [OF g, of "fixed_zone 0" 130 1000] b
    by (simp add: Let_def daily_minutes_def)
qed

text \<open>
  Property C18: A restart does not hand the day back and a trim does not either: after any run of
  recordings and trims that reached the disk, up to now, the store reopened from its file gives
  the same use of today as the running one, which is what the file held at the start plus the
  positive seconds recorded for the account since midnight.
\<close>

theorem usage_survives_restart:
  assumes "\<forall>op \<in> set ops. op_time op \<le> now"
  shows "used_today (fixed_zone o') u now (new_usage (usage_file (fold do_use ops (new_usage f))))
           = used_today (fixed_zone o') u now (fold do_use ops (new_usage f))
       \<and> used_today (fixed_zone o') u now (fold do_use ops (new_usage f))
           = used_today (fixed_zone o') u now (new_usage f)
             + sum_list (map (counts u (day_start (fixed_zone o') now)) ops)"
proof -
  let ?since = "day_start (fixed_zone o') now"
  have "trunc (op_time op) - USAGE_KEEP_SECONDS \<le> ?since" if "op \<in> set ops" for op
    using trunc_mono [of "op_time op" now] assms that day_start_recent [of now o'] by force
  then show ?thesis
    using do_uses [of ops ?since "new_usage f" u] synced_new [of f]
    by (simp add: used_today_total synced_def)
qed

lemma usage_survives_restart_witness:
  "used_today (fixed_zone 0) 1000 500000
     (fold do_use [Add_use 1000 60 100, Add_use 1000 60 499000, Trim_use 499500] (new_usage None)) = 60"
proof -
  have "used_today (fixed_zone 0) 1000 500000
     (fold do_use [Add_use 1000 60 100, Add_use 1000 60 499000, Trim_use 499500] (new_usage None)) =
     used_today (fixed_zone 0) 1000 500000 (new_usage None) +
     sum_list (map (counts 1000 (day_start (fixed_zone 0) 500000))
       [Add_use 1000 60 100, Add_use 1000 60 499000, Trim_use 499500])"
    by (rule usage_survives_restart [THEN conjunct2]) simp
  also have "\<dots> = 60" by code_simp
  finally show ?thesis .
qed

end
