(* ===== verification/Timekeeping.thy ===== *)
theory Timekeeping
  imports TimeLimits "HOL-Library.Product_Lexorder"
begin

text \<open>
  \<open>kosherd/src/kosherd/timekeeper.py\<close>: the tick that counts, warns, locks and signs out.  What the
  daemon injects (warn, lock, terminate, record, write_conf) are the effects a tick gives, in
  order; the policy, logind's sessions, the clock and the time zone are its arguments.  The
  usage store and the sets and dictionaries of the object are the record \<open>keeper\<close>.
\<close>

section \<open>Constants and state\<close>

definition TICK_SECONDS :: int where "TICK_SECONDS = 60"
definition MAX_CHARGE_SECONDS :: int where "MAX_CHARGE_SECONDS = 2 * TICK_SECONDS"
definition WARN_AT :: "int list" where "WARN_AT = [15 * 60, 5 * 60]"
definition GRACE_SECONDS :: rat where "GRACE_SECONDS = 60"

lemmas tick_consts = TICK_SECONDS_def MAX_CHARGE_SECONDS_def WARN_AT_def GRACE_SECONDS_def

record session =
  session_id :: string
  session_uid :: int
  active :: bool
  idle :: bool

datatype effect =
    Warn int int "string option"
  | Record int string
  | Lock int
  | Terminate int
  | Write_conf int "int list"

type_synonym conf_key = "int \<times> int list \<times> (int \<times> string) list"

record keeper =
  usage :: usage_store
  last_tick :: "rat option"
  warned :: "(int, int list) dict"
  locked_at :: "(int, rat) dict"
  was_blocked :: "int list"
  seen_sessions :: "string list"
  conf :: "conf_key option"

definition new_keeper :: "usage_store \<Rightarrow> keeper" where
  "new_keeper us = \<lparr>usage = us, last_tick = None, warned = [], locked_at = [], was_blocked = [],
                    seen_sessions = [], conf = None\<rparr>"

definition present :: "session list \<Rightarrow> int list" where
  "present ss = map session_uid ss"

definition active_uids :: "session list \<Rightarrow> int list" where
  "active_uids ss = map session_uid (filter (\<lambda>s. active s \<and> \<not> idle s) ss)"

section \<open>One account\<close>

definition forget :: "int \<Rightarrow> keeper \<Rightarrow> keeper" where
  "forget i k = k\<lparr>warned := dict_pop i (warned k), locked_at := dict_pop i (locked_at k)\<rparr>"

definition enforce ::
  "int \<Rightarrow> time_status \<Rightarrow> session list \<Rightarrow> string list \<Rightarrow> rat \<Rightarrow> keeper \<Rightarrow> keeper \<times> effect list" where
  "enforce i st ss new_ids now k =
     (let why = (if reason st = Some ''limit'' then WHY_LIMIT else WHY_SCHEDULE);
          theirs = filter (\<lambda>s. session_uid s = i) ss;
          arrived = filter (\<lambda>s. session_id s \<in> set new_ids) theirs
      in if i \<notin> set (present ss) then (k\<lparr>locked_at := dict_pop i (locked_at k)\<rparr>, [])
         else if i \<in> set (was_blocked k) \<and> arrived \<noteq> [] \<and> length arrived = length theirs
         then (k, [Record i WHY_LOGIN, Terminate i])
         else (case map_of (locked_at k) i of
                 None \<Rightarrow> (k\<lparr>locked_at := dict_set i now (locked_at k)\<rparr>,
                          [Warn i 0 (reason st), Record i why, Lock i])
               | Some t \<Rightarrow> (k, if now - t \<ge> GRACE_SECONDS then [Terminate i] else [])))"

text \<open>\<open>math.ceil(left / 60)\<close>.\<close>

definition minutes_left :: "int \<Rightarrow> int" where
  "minutes_left l = max 1 (- ((- l) div 60))"

definition maybe_warn :: "int \<Rightarrow> time_status \<Rightarrow> session list \<Rightarrow> keeper \<Rightarrow> keeper \<times> effect list" where
  "maybe_warn i st ss k =
     (case left st of
        None \<Rightarrow> (k\<lparr>warned := dict_pop i (warned k)\<rparr>, [])
      | Some l \<Rightarrow>
          let kept = filter (\<lambda>t. t \<in> set WARN_AT \<and> l \<le> t) (dict_get (warned k) i []) in
          if i \<notin> set (present ss) then (k\<lparr>warned := dict_set i kept (warned k)\<rparr>, [])
          else (case find (\<lambda>t. l \<le> t \<and> t \<notin> set kept) WARN_AT of
                  None \<Rightarrow> (k\<lparr>warned := dict_set i kept (warned k)\<rparr>, [])
                | Some t \<Rightarrow> (k\<lparr>warned := dict_set i (kept @ [t]) (warned k)\<rparr>,
                            [Warn i (minutes_left l) (reason st)])))"

section \<open>One minute\<close>

text \<open>The sets \<open>tick\<close> builds over the accounts, with the effects so far.\<close>

record tick_acc =
  kept :: keeper
  effects :: "effect list"
  exhausted :: "int list"
  blocked_now :: "int list"

definition account_step ::
  "zone \<Rightarrow> bool \<Rightarrow> rat \<Rightarrow> int \<Rightarrow> session list \<Rightarrow> string list \<Rightarrow> user_policy \<Rightarrow> tick_acc \<Rightarrow> tick_acc"
where
  "account_step z wrote now elapsed ss new_ids u a =
     (let i = uid u; k = kept a in
      if admin u \<or> \<not> is_limited (time u) then a\<lparr>kept := forget i k\<rparr>
      else
        let us = (if i \<in> set (active_uids ss) \<and> elapsed \<noteq> 0
                  then add_use wrote i elapsed now (usage k) else usage k);
            st = status z (time u) (used_today z i now us) now;
            k1 = k\<lparr>usage := load_usage us\<rparr>;
            a1 = (if limit st \<noteq> 0 \<and> used st \<ge> limit st then a\<lparr>exhausted := exhausted a @ [i]\<rparr> else a)
        in if blocked st
           then (let (k2, es) = enforce i st ss new_ids now k1
                 in a1\<lparr>kept := k2, effects := effects a @ es, blocked_now := blocked_now a @ [i]\<rparr>)
           else (let (k2, es) = maybe_warn i st ss (k1\<lparr>locked_at := dict_pop i (locked_at k1)\<rparr>)
                 in a1\<lparr>kept := k2, effects := effects a @ es\<rparr>))"

definition elapsed_since :: "rat option \<Rightarrow> rat \<Rightarrow> int" where
  "elapsed_since since now =
     (case since of None \<Rightarrow> 0
      | Some t \<Rightarrow> trunc (min (max 0 (now - t)) (of_int MAX_CHARGE_SECONDS)))"

definition accounts_pass ::
  "zone \<Rightarrow> bool \<Rightarrow> rat \<Rightarrow> policy \<Rightarrow> session list \<Rightarrow> keeper \<Rightarrow> tick_acc" where
  "accounts_pass z wrote now p ss k =
     (let elapsed = elapsed_since (last_tick k) now;
          ids = map session_id ss;
          new_ids = filter (\<lambda>x. x \<notin> set (seen_sessions k)) ids
      in fold (account_step z wrote now elapsed ss new_ids) (effective_users p)
           \<lparr>kept = k\<lparr>last_tick := Some now, seen_sessions := ids\<rparr>, effects = [],
            exhausted = [], blocked_now = []\<rparr>)"

definition conf_key_of :: "policy \<Rightarrow> int list \<Rightarrow> conf_key" where
  "conf_key_of p ex =
     (revision p, sorted_set ex, sort (map (\<lambda>u. (uid u, username u)) (effective_users p)))"

definition tick ::
  "zone \<Rightarrow> bool \<Rightarrow> rat \<Rightarrow> policy \<Rightarrow> session list \<Rightarrow> keeper \<Rightarrow> keeper \<times> effect list" where
  "tick z wrote now p ss k =
     (let a = accounts_pass z wrote now p ss k;
          k1 = (kept a)\<lparr>was_blocked := blocked_now a\<rparr>;
          key = conf_key_of p (exhausted a);
          (k2, es) = (if Some key \<noteq> conf k1
                      then (k1\<lparr>conf := Some key\<rparr>, [Write_conf (revision p) (sorted_set (exhausted a))])
                      else (k1, []));
          k3 = (if trunc now mod 3600 < TICK_SECONDS then k2\<lparr>usage := trim_use wrote now (usage k2)\<rparr>
                else k2)
      in (k3, effects a @ es))"

definition policy_changed ::
  "zone \<Rightarrow> bool \<Rightarrow> rat \<Rightarrow> policy \<Rightarrow> session list \<Rightarrow> keeper \<Rightarrow> keeper \<times> effect list" where
  "policy_changed z wrote now p ss k = tick z wrote now p ss (k\<lparr>conf := None\<rparr>)"

text \<open>\<open>snapshot\<close>: an administrator's entry carries no status; \<open>None\<close> sessions: logind failed.\<close>

definition snapshot ::
  "zone \<Rightarrow> rat \<Rightarrow> policy \<Rightarrow> session list option \<Rightarrow> keeper \<Rightarrow> (string, time_status option \<times> bool) dict" where
  "snapshot z now p ss k =
     fold (\<lambda>u. dict_set (show_int (uid u))
             (if admin u then None
              else Some (status z (time u) (used_today z (uid u) now (usage k)) now),
              uid u \<in> set (case ss of None \<Rightarrow> [] | Some s \<Rightarrow> present s)))
       (effective_users p) []"

definition status_for ::
  "int \<Rightarrow> zone \<Rightarrow> rat \<Rightarrow> policy \<Rightarrow> session list option \<Rightarrow> keeper \<Rightarrow> (time_status option \<times> bool) option" where
  "status_for i z now p ss k = map_of (snapshot z now p ss k) (show_int i)"

section \<open>What one account's step does\<close>

fun target :: "effect \<Rightarrow> int option" where
  "target (Warn i m r) = Some i"
| "target (Record i w) = Some i"
| "target (Lock i) = Some i"
| "target (Terminate i) = Some i"
| "target (Write_conf r ex) = None"

text \<open>An account the clock may touch.\<close>

definition under_limits :: "user_policy \<Rightarrow> bool" where
  "under_limits u \<longleftrightarrow> \<not> admin u \<and> is_limited (time u)"

lemma enforce_targets:
  "e \<in> set (snd (enforce i st ss ids now k)) \<Longrightarrow> target e = Some i \<and> i \<in> set (present ss)"
  by (auto simp: enforce_def Let_def split: option.splits if_splits)

lemma maybe_warn_targets:
  "e \<in> set (snd (maybe_warn i st ss k)) \<Longrightarrow>
   \<exists>m r. e = Warn i m r \<and> i \<in> set (present ss) \<and> target e = Some i"
  by (auto simp: maybe_warn_def Let_def split: option.splits if_splits)

text \<open>
  The step's effects: nothing for an account without limits; otherwise those of \<open>enforce\<close> on a
  state with the same locks and the same blocked set, or a warning.
\<close>

lemma account_step_free: "\<not> under_limits u \<Longrightarrow>
  account_step z w now el ss ids u a = a\<lparr>kept := forget (uid u) (kept a)\<rparr>"
  by (simp add: account_step_def under_limits_def)

definition step_status :: "zone \<Rightarrow> bool \<Rightarrow> rat \<Rightarrow> int \<Rightarrow> session list \<Rightarrow> user_policy \<Rightarrow> keeper \<Rightarrow> time_status"
where
  "step_status z w now el ss u k =
     status z (time u) (used_today z (uid u) now
       (if uid u \<in> set (active_uids ss) \<and> el \<noteq> 0 then add_use w (uid u) el now (usage k) else usage k)) now"

lemma account_step_locked:
  assumes "under_limits u"
  shows "\<exists>k1. locked_at k1 = locked_at (kept a) \<and> was_blocked k1 = was_blocked (kept a) \<and>
    (if blocked (step_status z w now el ss u (kept a))
     then kept (account_step z w now el ss ids u a) =
            fst (enforce (uid u) (step_status z w now el ss u (kept a)) ss ids now k1) \<and>
          effects (account_step z w now el ss ids u a) = effects a @
            snd (enforce (uid u) (step_status z w now el ss u (kept a)) ss ids now k1)
     else locked_at (kept (account_step z w now el ss ids u a)) = dict_pop (uid u) (locked_at (kept a)) \<and>
          was_blocked (kept (account_step z w now el ss ids u a)) = was_blocked (kept a) \<and>
          (\<exists>es. effects (account_step z w now el ss ids u a) = effects a @ es \<and>
            (\<forall>e \<in> set es. \<exists>m r. e = Warn (uid u) m r \<and> uid u \<in> set (present ss) \<and> target e = Some (uid u))))"
proof -
  let ?us = "if uid u \<in> set (active_uids ss) \<and> el \<noteq> 0 then add_use w (uid u) el now (usage (kept a))
             else usage (kept a)"
  let ?k1 = "(kept a)\<lparr>usage := load_usage ?us\<rparr>"
  let ?st = "status z (time u) (used_today z (uid u) now ?us) now"
  have st: "step_status z w now el ss u (kept a) = ?st"
    by (simp add: step_status_def)
  have mw: "locked_at (fst (maybe_warn i st ss k)) = locked_at k"
    "was_blocked (fst (maybe_warn i st ss k)) = was_blocked k" for i st k
    by (auto simp: maybe_warn_def Let_def split: option.splits)
  have u: "\<not> admin u" "is_limited (time u)" using assms by (auto simp: under_limits_def)
  show ?thesis
  proof (cases "blocked ?st")
    case True
    then show ?thesis
      unfolding st by (intro exI [of _ ?k1]) (simp add: account_step_def u Let_def split_def)
  next
    case False
    then show ?thesis
      unfolding st
      by (intro exI [of _ ?k1])
         (simp add: account_step_def u Let_def split_def mw, blast dest: maybe_warn_targets)
  qed
qed

section \<open>Administrators and unlimited accounts\<close>

lemma account_step_targets:
  assumes "e \<in> set (effects (account_step z w now el ss ids u a))" and "e \<notin> set (effects a)"
  shows "under_limits u \<and> target e = Some (uid u) \<and> uid u \<in> set (present ss)"
proof -
  have u: "under_limits u"
    using assms account_step_free [of u z w now el ss ids a] by fastforce
  obtain k1 where "if blocked (step_status z w now el ss u (kept a))
     then kept (account_step z w now el ss ids u a) =
            fst (enforce (uid u) (step_status z w now el ss u (kept a)) ss ids now k1) \<and>
          effects (account_step z w now el ss ids u a) = effects a @
            snd (enforce (uid u) (step_status z w now el ss u (kept a)) ss ids now k1)
     else locked_at (kept (account_step z w now el ss ids u a)) = dict_pop (uid u) (locked_at (kept a)) \<and>
          was_blocked (kept (account_step z w now el ss ids u a)) = was_blocked (kept a) \<and>
          (\<exists>es. effects (account_step z w now el ss ids u a) = effects a @ es \<and>
            (\<forall>e \<in> set es. \<exists>m r. e = Warn (uid u) m r \<and> uid u \<in> set (present ss) \<and> target e = Some (uid u)))"
    using account_step_locked [OF u, where z = z and w = w and now = now and el = el and ss = ss and ids = ids and a = a]
    by blast
  with assms u show ?thesis
    by (auto split: if_splits dest: enforce_targets)
qed

lemma fold_targets:
  "e \<in> set (effects (fold (account_step z w now el ss ids) us a)) \<Longrightarrow> e \<notin> set (effects a) \<Longrightarrow>
   \<exists>u \<in> set us. under_limits u \<and> target e = Some (uid u) \<and> uid u \<in> set (present ss)"
proof (induction us arbitrary: a)
  case (Cons u us)
  show ?case
  proof (cases "e \<in> set (effects (account_step z w now el ss ids u a))")
    case True
    then show ?thesis using account_step_targets Cons.prems(2) by fastforce
  next
    case False
    then show ?thesis using Cons by auto
  qed
qed simp

section \<open>No sign-out without a lock\<close>

text \<open>Every run of the daemon: its keeper and the effects so far, each with its time.\<close>

inductive history :: "zone \<Rightarrow> keeper \<Rightarrow> (rat \<times> effect) list \<Rightarrow> bool" for z where
  start: "history z (new_keeper us) []"
| ticked: "history z k h \<Longrightarrow> tick z w now p ss k = (k', es) \<Longrightarrow> history z k' (h @ map (Pair now) es)"
| changed: "history z k h \<Longrightarrow> policy_changed z w now p ss k = (k', es) \<Longrightarrow>
    history z k' (h @ map (Pair now) es)"

definition locks_recorded :: "(rat \<times> effect) set \<Rightarrow> keeper \<Rightarrow> bool" where
  "locks_recorded H k \<longleftrightarrow> (\<forall>i t. map_of (locked_at k) i = Some t \<longrightarrow> (t, Lock i) \<in> H)"

definition justified :: "(rat \<times> effect) set \<Rightarrow> rat \<Rightarrow> int \<Rightarrow> bool" where
  "justified H now i \<longleftrightarrow>
     (now, Record i WHY_LOGIN) \<in> H \<or> (\<exists>t. (t, Lock i) \<in> H \<and> now - t \<ge> GRACE_SECONDS)"

lemma justified_mono: "justified H now i \<Longrightarrow> H \<subseteq> H' \<Longrightarrow> justified H' now i"
  by (auto simp: justified_def)

lemma locks_recorded_mono: "locks_recorded H k \<Longrightarrow> H \<subseteq> H' \<Longrightarrow> locks_recorded H' k"
  by (auto simp: locks_recorded_def)

definition pass_ok :: "(rat \<times> effect) set \<Rightarrow> rat \<Rightarrow> tick_acc \<Rightarrow> bool" where
  "pass_ok H now a \<longleftrightarrow> locks_recorded (H \<union> Pair now ` set (effects a)) (kept a) \<and>
     (\<forall>i. Terminate i \<in> set (effects a) \<longrightarrow> justified (H \<union> Pair now ` set (effects a)) now i)"

lemma enforce_ok:
  assumes "locks_recorded H k" and "enforce i st ss ids now k = (k', es)"
  shows "locks_recorded (H \<union> Pair now ` set es) k' \<and>
    (\<forall>j. Terminate j \<in> set es \<longrightarrow> justified (H \<union> Pair now ` set es) now j)"
  using assms
  by (auto simp: enforce_def Let_def locks_recorded_def justified_def split: if_splits option.splits)

lemma account_step_ok:
  assumes "pass_ok H now a"
  shows "pass_ok H now (account_step z w now el ss ids u a)"
proof (cases "under_limits u")
  case False
  then show ?thesis
    using assms by (auto simp: account_step_free pass_ok_def locks_recorded_def forget_def)
next
  case True
  let ?a' = "account_step z w now el ss ids u a" and ?st = "step_status z w now el ss u (kept a)"
  obtain k1 where k1: "locked_at k1 = locked_at (kept a)"
    and step: "if blocked ?st
     then kept ?a' = fst (enforce (uid u) ?st ss ids now k1) \<and>
          effects ?a' = effects a @ snd (enforce (uid u) ?st ss ids now k1)
     else locked_at (kept ?a') = dict_pop (uid u) (locked_at (kept a)) \<and>
          was_blocked (kept ?a') = was_blocked (kept a) \<and>
          (\<exists>es. effects ?a' = effects a @ es \<and>
            (\<forall>e \<in> set es. \<exists>m r. e = Warn (uid u) m r \<and> uid u \<in> set (present ss) \<and> target e = Some (uid u)))"
    using account_step_locked [OF True, where z = z and w = w and now = now and el = el and ss = ss and ids = ids and a = a]
    by blast
  let ?H = "H \<union> Pair now ` set (effects a)"
  show ?thesis
  proof (cases "blocked ?st")
    case True
    obtain k2 es where e: "enforce (uid u) ?st ss ids now k1 = (k2, es)" by fastforce
    have "locks_recorded ?H k1"
      using assms k1 by (simp add: pass_ok_def locks_recorded_def)
    note ok = enforce_ok [OF this e]
    have H: "H \<union> Pair now ` set (effects ?a') = ?H \<union> Pair now ` set es"
      using step True e by auto
    show ?thesis
      using ok assms step True e unfolding pass_ok_def H
      by (auto elim: justified_mono)
  next
    case False
    then obtain es where es: "effects ?a' = effects a @ es"
      "\<forall>e \<in> set es. \<exists>m r. e = Warn (uid u) m r"
      and l: "locked_at (kept ?a') = dict_pop (uid u) (locked_at (kept a))"
      using step by auto
    have "Terminate i \<notin> set es" for i using es(2) by blast
    then show ?thesis
      using assms unfolding pass_ok_def es(1) locks_recorded_def l
      by (auto elim!: justified_mono)
  qed
qed

lemma fold_ok: "pass_ok H now a \<Longrightarrow> pass_ok H now (fold (account_step z w now el ss ids) us a)"
  by (induction us arbitrary: a) (simp_all add: account_step_ok)

lemma tick_effects:
  "snd (tick z w now p ss k) = effects (accounts_pass z w now p ss k) @
     (if Some (conf_key_of p (exhausted (accounts_pass z w now p ss k))) \<noteq>
         conf ((kept (accounts_pass z w now p ss k)))
      then [Write_conf (revision p) (sorted_set (exhausted (accounts_pass z w now p ss k)))] else [])"
  by (simp add: tick_def Let_def split_def)

lemma tick_targets:
  "e \<in> set (snd (tick z w now p ss k)) \<Longrightarrow> target e = Some i \<Longrightarrow>
   \<exists>u \<in> set (effective_users p). under_limits u \<and> uid u = i \<and> i \<in> set (present ss)"
  by (auto simp: tick_effects accounts_pass_def Let_def split: if_splits dest!: fold_targets)

lemma tick_locked_at: "locked_at (fst (tick z w now p ss k)) = locked_at (kept (accounts_pass z w now p ss k))"
  by (simp add: tick_def Let_def split_def)

lemma tick_ok:
  assumes "locks_recorded H k" and "tick z w now p ss k = (k', es)"
  shows "locks_recorded (H \<union> Pair now ` set es) k' \<and>
    (\<forall>i. Terminate i \<in> set es \<longrightarrow> justified (H \<union> Pair now ` set es) now i)"
proof -
  let ?a = "accounts_pass z w now p ss k"
  have ok: "pass_ok H now ?a"
    unfolding accounts_pass_def Let_def
    by (rule fold_ok) (use assms(1) in \<open>simp add: pass_ok_def locks_recorded_def\<close>)
  have es: "es = snd (tick z w now p ss k)" and k': "k' = fst (tick z w now p ss k)"
    using assms(2) by simp_all
  have sub: "H \<union> Pair now ` set (effects ?a) \<subseteq> H \<union> Pair now ` set es"
    unfolding es tick_effects by auto
  have "locks_recorded (H \<union> Pair now ` set es) k'"
    using ok locks_recorded_mono [OF _ sub, of "kept ?a"]
    by (simp add: pass_ok_def locks_recorded_def k' tick_locked_at)
  moreover have "Terminate i \<in> set es \<longleftrightarrow> Terminate i \<in> set (effects ?a)" for i
    unfolding es tick_effects by auto
  ultimately show ?thesis
    using ok justified_mono [OF _ sub] by (auto simp: pass_ok_def)
qed

lemma history_ok:
  "history z k h \<Longrightarrow> locks_recorded (set h) k \<and> (\<forall>(t, e) \<in> set h. \<forall>i. e = Terminate i \<longrightarrow> justified (set h) t i)"
proof (induction rule: history.induct)
  case (start us)
  then show ?case by (simp add: locks_recorded_def new_keeper_def)
next
  case (ticked k h w now p ss k' es)
  then show ?case
    using tick_ok [of "set h" k z w now p ss k' es]
    by (auto elim!: justified_mono)
next
  case (changed k h w now p ss k' es)
  then show ?case
    using tick_ok [of "set h" "k\<lparr>conf := None\<rparr>" z w now p ss k' es]
    by (auto simp: policy_changed_def locks_recorded_def elim!: justified_mono)
qed

section \<open>A blocked account is signed out\<close>

lemma enforce_other: "i \<noteq> j \<Longrightarrow> map_of (locked_at (fst (enforce i st ss ids now k))) j = map_of (locked_at k) j"
  by (auto simp: enforce_def Let_def split: option.splits)

lemma enforce_was_blocked: "was_blocked (fst (enforce i st ss ids now k)) = was_blocked k"
  by (auto simp: enforce_def Let_def split: option.splits)

lemma account_step_frame:
  "was_blocked (kept (account_step z w now el ss ids u a)) = was_blocked (kept a) \<and>
   (uid u \<noteq> j \<longrightarrow> map_of (locked_at (kept (account_step z w now el ss ids u a))) j
                = map_of (locked_at (kept a)) j) \<and>
   set (effects a) \<subseteq> set (effects (account_step z w now el ss ids u a))"
proof (cases "under_limits u")
  case False
  then show ?thesis by (simp add: account_step_free forget_def)
next
  case True
  from account_step_locked [OF True, where z = z and w = w and now = now and el = el and ss = ss and ids = ids and a = a]
  show ?thesis
    by (auto simp: enforce_other enforce_was_blocked split: if_splits)
qed

lemma fold_frame:
  "was_blocked (kept (fold (account_step z w now el ss ids) us a)) = was_blocked (kept a) \<and>
   (j \<notin> uid ` set us \<longrightarrow> map_of (locked_at (kept (fold (account_step z w now el ss ids) us a))) j
                      = map_of (locked_at (kept a)) j) \<and>
   set (effects a) \<subseteq> set (effects (fold (account_step z w now el ss ids) us a))"
proof (induction us arbitrary: a)
  case (Cons u us)
  show ?case
    using Cons [of "account_step z w now el ss ids u a"]
      account_step_frame [of z w now el ss ids u a j] by auto
qed simp

text \<open>The hours that are not painted block whatever the use.\<close>

definition off_hours :: "zone \<Rightarrow> rat \<Rightarrow> user_policy \<Rightarrow> bool" where
  "off_hours z now u \<longleftrightarrow> under_limits u \<and> \<not> allowed_at (grid (time u)) (local_seconds z now)"

lemma off_hours_blocked: "off_hours z now u \<Longrightarrow> blocked (step_status z w now el ss u k)"
  by (auto simp: off_hours_def step_status_def status_def Let_def split: option.splits prod.splits)

lemma enforce_present:
  assumes "i \<in> set (present ss)" and "enforce i st ss ids now k = (k', es)"
  shows "Terminate i \<in> set es \<or>
    (case map_of (locked_at k) i of
       None \<Rightarrow> map_of (locked_at k') i = Some now
     | Some t \<Rightarrow> now - t < GRACE_SECONDS \<and> map_of (locked_at k') i = Some t)"
  using assms by (auto simp: enforce_def Let_def split: if_splits option.splits)

lemma tick_off_hours:
  assumes "distinct (map uid (effective_users p))" and "u \<in> set (effective_users p)"
    and "off_hours z now u" and "uid u \<in> set (present ss)" and "tick z w now p ss k = (k', es)"
  shows "Terminate (uid u) \<in> set es \<or>
    (case map_of (locked_at k) (uid u) of
       None \<Rightarrow> map_of (locked_at k') (uid u) = Some now
     | Some t \<Rightarrow> now - t < GRACE_SECONDS \<and> map_of (locked_at k') (uid u) = Some t)"
proof -
  obtain us vs where split: "effective_users p = us @ u # vs"
    using assms(2) by (meson split_list)
  then have us: "uid u \<notin> uid ` set us" and vs: "uid u \<notin> uid ` set vs"
    using assms(1) by auto
  let ?el = "elapsed_since (last_tick k) now" and ?ids = "filter (\<lambda>x. x \<notin> set (seen_sessions k)) (map session_id ss)"
  let ?step = "account_step z w now ?el ss ?ids"
  let ?a0 = "\<lparr>kept = k\<lparr>last_tick := Some now, seen_sessions := map session_id ss\<rparr>, effects = [],
      exhausted = [], blocked_now = []\<rparr>"
  let ?a1 = "fold ?step us ?a0"
  let ?a2 = "?step u ?a1"
  let ?a3 = "fold ?step vs ?a2"
  have pass: "accounts_pass z w now p ss k = ?a3"
    by (simp add: accounts_pass_def Let_def split)
  have u: "under_limits u" using assms(3) by (simp add: off_hours_def)
  have l1: "map_of (locked_at (kept ?a1)) (uid u) = map_of (locked_at k) (uid u)"
    using fold_frame [of z w now ?el ss ?ids us ?a0 "uid u"] us by simp
  have l3: "map_of (locked_at (kept ?a3)) (uid u) = map_of (locked_at (kept ?a2)) (uid u)"
    and e3: "set (effects ?a2) \<subseteq> set (effects ?a3)"
    using fold_frame [of z w now ?el ss ?ids vs ?a2 "uid u"] vs by auto
  let ?st = "step_status z w now ?el ss u (kept ?a1)"
  have b: "blocked ?st" using assms(3) by (rule off_hours_blocked)
  obtain k1 where k1: "locked_at k1 = locked_at (kept ?a1)"
    and step: "kept ?a2 = fst (enforce (uid u) ?st ss ?ids now k1)"
      "effects ?a2 = effects ?a1 @ snd (enforce (uid u) ?st ss ?ids now k1)"
    using account_step_locked [OF u, where z = z and w = w and now = now and el = ?el and ss = ss and ids = ?ids and a = ?a1] b
    by auto
  obtain k2 es2 where e: "enforce (uid u) ?st ss ?ids now k1 = (k2, es2)" by fastforce
  have es: "set (effects ?a3) \<subseteq> set es"
    using tick_effects [of z w now p ss k] assms(5) by (auto simp: pass)
  have k': "map_of (locked_at k') (uid u) = map_of (locked_at k2) (uid u)"
    using tick_locked_at [of z w now p ss k] assms(5) step(1) by (simp add: pass l3 e)
  from enforce_present [OF assms(4) e] show ?thesis
    using es e3 step(2) k' by (auto simp: e k1 l1 split: option.splits)
qed

section \<open>What a tick charges\<close>

lemma enforce_usage: "usage (fst (enforce i st ss ids now k)) = usage k"
  by (auto simp: enforce_def Let_def split: option.splits)

lemma maybe_warn_usage: "usage (fst (maybe_warn i st ss k)) = usage k"
  by (auto simp: maybe_warn_def Let_def split: option.splits)

lemma account_step_usage:
  "usage_of (usage (kept (account_step z w now el ss ids u a))) =
   usage_of (usage (kept a)) @
     (if under_limits u \<and> uid u \<in> set (active_uids ss) \<and> 0 < el then [(trunc now, uid u, el)] else [])"
  by (auto simp: account_step_def under_limits_def forget_def Let_def split_def enforce_usage
        maybe_warn_usage add_use_effect)

lemma fold_usage:
  "usage_of (usage (kept (fold (account_step z w now el ss ids) us a))) =
   usage_of (usage (kept a)) @
     map (\<lambda>u. (trunc now, uid u, el))
       (filter (\<lambda>u. under_limits u \<and> uid u \<in> set (active_uids ss) \<and> 0 < el) us)"
  by (induction us arbitrary: a) (auto simp: account_step_usage)

lemma elapsed_bounds: "0 \<le> elapsed_since t now \<and> elapsed_since t now \<le> MAX_CHARGE_SECONDS"
  by (auto simp: elapsed_since_def trunc_def tick_consts min_def max_def floor_le_iff le_floor_iff
           split: option.splits)

lemma tick_usage_subset:
  "set (usage_of (usage (fst (tick z w now p ss k)))) \<subseteq>
   set (usage_of (usage (kept (accounts_pass z w now p ss k))))"
  by (auto simp: tick_def Let_def split_def trim_use_effect)

section \<open>Warnings\<close>

text \<open>The minutes of an account at the keyboard, with the seconds left at each.\<close>

fun warn_run :: "int \<Rightarrow> session list \<Rightarrow> time_status \<Rightarrow> int list \<Rightarrow> keeper \<Rightarrow> effect list" where
  "warn_run i ss st [] k = []"
| "warn_run i ss st (l # ls) k =
     (let (k', es) = maybe_warn i (st\<lparr>left := Some l\<rparr>) ss k in es @ warn_run i ss st ls k')"

definition unwarned :: "int list \<Rightarrow> nat" where
  "unwarned w = length (filter (\<lambda>t. t \<notin> set w) WARN_AT)"

lemma unwarned_snoc: "t \<in> set WARN_AT \<Longrightarrow> t \<notin> set w \<Longrightarrow> Suc (unwarned (w @ [t])) = unwarned w"
  by (auto simp: unwarned_def WARN_AT_def)

lemma find_warn: "find (\<lambda>t. l \<le> t \<and> t \<notin> set w) WARN_AT = Some t \<Longrightarrow> t \<in> set WARN_AT \<and> l \<le> t \<and> t \<notin> set w"
  by (auto simp: WARN_AT_def split: if_splits)

lemma warn_run_bound:
  assumes "sorted_wrt (\<ge>) ls" and "i \<in> set (present ss)"
    and "\<And>l t. l \<in> set ls \<Longrightarrow> t \<in> set (dict_get (warned k) i []) \<Longrightarrow> t \<in> set WARN_AT \<and> l \<le> t"
  shows "length (warn_run i ss st ls k) \<le> unwarned (dict_get (warned k) i [])"
  using assms
proof (induction ls arbitrary: k)
  case (Cons l ls)
  let ?w = "dict_get (warned k) i []"
  have kept: "filter (\<lambda>t. t \<in> set WARN_AT \<and> l \<le> t) ?w = ?w"
    using Cons.prems(3) [of l] by (simp add: filter_id_conv)
  show ?case
  proof (cases "find (\<lambda>t. l \<le> t \<and> t \<notin> set ?w) WARN_AT")
    case None
    have m: "maybe_warn i (st\<lparr>left := Some l\<rparr>) ss k = (k\<lparr>warned := dict_set i ?w (warned k)\<rparr>, [])"
      using Cons.prems(2) None by (simp add: maybe_warn_def kept Let_def)
    let ?k' = "k\<lparr>warned := dict_set i ?w (warned k)\<rparr>"
    have "length (warn_run i ss st ls ?k') \<le> unwarned (dict_get (warned ?k') i [])"
      using Cons.prems by (intro Cons.IH) auto
    then show ?thesis by (simp add: m)
  next
    case (Some t)
    note t = find_warn [OF Some]
    let ?k' = "k\<lparr>warned := dict_set i (?w @ [t]) (warned k)\<rparr>"
    have m: "maybe_warn i (st\<lparr>left := Some l\<rparr>) ss k = (?k', [Warn i (minutes_left l) (reason st)])"
      using Cons.prems(2) Some by (simp add: maybe_warn_def kept Let_def)
    have "length (warn_run i ss st ls ?k') \<le> unwarned (dict_get (warned ?k') i [])"
      using Cons.prems t by (intro Cons.IH) auto
    then show ?thesis
      using unwarned_snoc [of t ?w] t by (simp add: m)
  qed
qed simp

lemma maybe_warn_filtered:
  "maybe_warn i (st\<lparr>left := Some l\<rparr>) ss k =
   maybe_warn i (st\<lparr>left := Some l\<rparr>) ss (k\<lparr>warned := dict_set i
      (filter (\<lambda>t. t \<in> set WARN_AT \<and> l \<le> t) (dict_get (warned k) i [])) (warned k)\<rparr>)"
proof -
  have "dict_set i v (dict_set i v' d) = dict_set i v d" for v v' :: "int list" and d
    by (induction i v d rule: dict_set.induct) auto
  then show ?thesis
    by (simp add: maybe_warn_def Let_def conj_commute cong: conj_cong option.case_cong)
qed

section \<open>Properties\<close>

text \<open>
  The clock never touches an administrator, an account without limits, or one that
  is not signed in: every warning, lock, sign-out and log entry of a tick is for an account that
  has limits, is no administrator, and has a session.
\<close>

theorem clock_touches_only_limited:
  "list_all (\<lambda>e. case target e of None \<Rightarrow> True | Some i \<Rightarrow>
       list_ex (\<lambda>u. uid u = i \<and> \<not> admin u \<and> is_limited (time u) \<and> i \<in> set (present ss))
         (effective_users p))
     (snd (tick z wrote now p ss k))"
  unfolding list_all_iff
proof
  fix e assume e: "e \<in> set (snd (tick z wrote now p ss k))"
  show "case target e of None \<Rightarrow> True | Some i \<Rightarrow>
       list_ex (\<lambda>u. uid u = i \<and> \<not> admin u \<and> is_limited (time u) \<and> i \<in> set (present ss))
         (effective_users p)"
    using tick_targets [OF e]
    by (auto simp: list_ex_iff under_limits_def split: option.splits)
qed

text \<open>
  Property C19: Nobody is signed out without notice: in any run of the daemon, through any policy
  changes and clock readings, an account is signed out only at the moment a refused sign-in is
  logged for it, or at least the grace period after its sessions were locked.
\<close>

theorem no_signout_without_lock:
  assumes "history z k h" and "(now, Terminate i) \<in> set h"
  shows "(now, Record i WHY_LOGIN) \<in> set h \<or> (\<exists>t. (t, Lock i) \<in> set h \<and> t + GRACE_SECONDS \<le> now)"
  using history_ok [OF assms(1)] assms(2) by (force simp: justified_def algebra_simps)

definition night_owl :: policy where
  "night_owl = default_policy\<lparr>users := [(default_user 1001 ''moshe'' ''filtered'')
     \<lparr>time := [(''allowed'', jstrs (replicate DAYS NEVER))]\<rparr>]\<rparr>"

definition desk :: session where
  "desk = \<lparr>session_id = ''1'', session_uid = 1001, active = True, idle = False\<rparr>"

definition after_one :: "keeper \<times> effect list" where
  "after_one = tick (fixed_zone 0) True 100 night_owl [desk] (new_keeper (new_usage None))"

definition after_two :: "keeper \<times> effect list" where
  "after_two = tick (fixed_zone 0) True 160 night_owl [desk] (fst after_one)"

lemma after_ticks:
  "tick (fixed_zone 0) True 100 night_owl [desk] (new_keeper (new_usage None)) = (fst after_one, snd after_one)"
  "tick (fixed_zone 0) True 160 night_owl [desk] (fst after_one) = (fst after_two, snd after_two)"
  by (simp_all add: after_one_def after_two_def)

lemma no_signout_without_lock_witness:
  "\<exists>h. history (fixed_zone 0) (fst after_two) h \<and> (160, Terminate 1001) \<in> set h \<and>
     ((160, Record 1001 WHY_LOGIN) \<in> set h \<or> (\<exists>t. (t, Lock 1001) \<in> set h \<and> t + GRACE_SECONDS \<le> 160))"
proof -
  let ?h = "([] @ map (Pair 100) (snd after_one)) @ map (Pair 160) (snd after_two)"
  have h: "history (fixed_zone 0) (fst after_two) ?h"
    by (rule history.ticked [OF history.ticked [OF history.start after_ticks(1)] after_ticks(2)])
  have "Terminate 1001 \<in> set (snd after_two)"
    by code_simp
  then have "(160, Terminate 1001) \<in> set ?h" by simp
  with h no_signout_without_lock [OF h this] show ?thesis by blast
qed

text \<open>
  Property C20: A person at the keyboard outside the allowed hours is signed out by the second of
  two ticks a grace period apart, at the latest; whatever the daily use, the sessions that come
  and go in between, and the settings of every other account.
\<close>

theorem off_hours_signed_out:
  assumes "off_hours z t1 u" "off_hours z t2 u" and "t1 + GRACE_SECONDS \<le> t2"
    and "u \<in> set (effective_users p)" "distinct (map uid (effective_users p))"
    and "uid u \<in> set (present ss1)" "uid u \<in> set (present ss2)"
    and "tick z w1 t1 p ss1 k = (k1, es1)" "tick z w2 t2 p ss2 k1 = (k2, es2)"
    and "\<And>t. map_of (locked_at k) (uid u) = Some t \<Longrightarrow> t \<le> t1"
  shows "Terminate (uid u) \<in> set es1 \<or> Terminate (uid u) \<in> set es2"
proof -
  have "Terminate (uid u) \<in> set es1 \<or> (\<exists>t. map_of (locked_at k1) (uid u) = Some t \<and> t \<le> t1)"
    using tick_off_hours [OF assms(5,4,1,6,8)] assms(10) by (auto split: option.splits)
  then show ?thesis
    using tick_off_hours [OF assms(5,4,2,7,9)] assms(3) by (auto split: option.splits)
qed

lemma off_hours_signed_out_witness:
  "Terminate 1001 \<in> set (snd after_one) \<or> Terminate 1001 \<in> set (snd after_two)"
proof -
  let ?u = "(default_user 1001 ''moshe'' ''filtered'')\<lparr>time := [(''allowed'', jstrs (replicate DAYS NEVER))]\<rparr>"
  have "effective_users night_owl = [?u]" "uid ?u = 1001"
    by (simp_all add: night_owl_def effective_users_def default_policy_def default_guest_def default_user_def)
  moreover have "off_hours (fixed_zone 0) 100 ?u" "off_hours (fixed_zone 0) 160 ?u"
    by code_simp+
  moreover have "1001 \<in> set (present [desk])"
    by (simp add: present_def desk_def)
  ultimately have "Terminate (uid ?u) \<in> set (snd after_one) \<or> Terminate (uid ?u) \<in> set (snd after_two)"
    by (intro off_hours_signed_out [OF _ _ _ _ _ _ _ after_ticks])
       (simp_all add: GRACE_SECONDS_def new_keeper_def)
  then show ?thesis by (simp add: default_user_def)
qed

text \<open>
  A tick charges a minute to nobody but the limited accounts at the keyboard, and
  never more than two minutes at once, so a machine that slept charges no sleep: whatever use
  the store holds after the tick, it held before or is such a charge.
\<close>

theorem tick_charges:
  "set (usage_of (usage (fst (tick z wrote now p ss k)))) \<subseteq>
     set (usage_of (usage k)) \<union>
     {(trunc now, uid u, n) | u n. u \<in> set (effective_users p) \<and> under_limits u \<and>
        uid u \<in> set (active_uids ss) \<and> 0 < n \<and> n \<le> MAX_CHARGE_SECONDS}"
  using tick_usage_subset [of z wrote now p ss k] elapsed_bounds [of "last_tick k" now]
  by (force simp: accounts_pass_def Let_def fold_usage)

text \<open>
  While the time left only shrinks, a person at the keyboard is warned at most twice,
  whatever warnings are on record at the start.
\<close>

theorem warned_at_most_twice:
  assumes "sorted_wrt (\<ge>) ls" and "i \<in> set (present ss)"
  shows "length (warn_run i ss st ls k) \<le> 2"
proof (cases ls)
  case (Cons l rest)
  let ?k = "k\<lparr>warned := dict_set i (filter (\<lambda>t. t \<in> set WARN_AT \<and> l \<le> t) (dict_get (warned k) i [])) (warned k)\<rparr>"
  have "warn_run i ss st ls k = warn_run i ss st ls ?k"
    using maybe_warn_filtered [where i = i and st = st and l = l and ss = ss and k = k] by (simp add: Cons)
  moreover have "length (warn_run i ss st ls ?k) \<le> unwarned (dict_get (warned ?k) i [])"
    using assms by (intro warn_run_bound) (auto simp: Cons)
  moreover have "unwarned w \<le> 2" for w
    by (simp add: unwarned_def WARN_AT_def)
  ultimately show ?thesis by (metis order_trans)
qed simp

lemma warned_at_most_twice_witness:
  "length (warn_run 1001 [desk] (status (fixed_zone 0) [] 0 0) [920, 860, 800, 300, 240]
     (new_keeper (new_usage None))) \<le> 2"
  by (rule warned_at_most_twice) (simp_all add: present_def desk_def)

end
