(* ===== verification/IpNet.thy ===== *)
theory IpNet
  imports Prelude
begin

text \<open>
  The part of Python's \<open>ipaddress\<close> that the daemon uses: \<open>ip_network(s, strict=False)\<close> with its
  text form, for IPv4 (a prefix length, a netmask or a host mask) and IPv6 (\<open>::\<close>, a trailing
  IPv4 address, a scope identifier), and membership of an address in a network.  Addresses are
  natural numbers.
\<close>

datatype family = IPv4 | IPv6

fun bits :: "family \<Rightarrow> nat" where
  "bits IPv4 = 32"
| "bits IPv6 = 128"

text \<open>A network: its family, its address with the host bits cleared, and its prefix length.\<close>

datatype net = Net (net_family: family) (net_addr: nat) (net_len: nat)

definition mk_net :: "family \<Rightarrow> nat \<Rightarrow> nat \<Rightarrow> net" where
  "mk_net f a l = Net f (a div 2 ^ (bits f - l) * 2 ^ (bits f - l)) l"

definition in_net :: "family \<Rightarrow> nat \<Rightarrow> net \<Rightarrow> bool" where
  "in_net f a n \<longleftrightarrow> f = net_family n \<and>
     a div 2 ^ (bits f - net_len n) = net_addr n div 2 ^ (bits f - net_len n)"

section \<open>IPv4\<close>

definition parse_octet :: "string \<Rightarrow> nat option" where
  "parse_octet s =
     (if is_digits s \<and> length s \<le> 3 \<and> (s = ''0'' \<or> hd s \<noteq> CHR ''0'') \<and> nat_of_digits s \<le> 255
      then Some (nat_of_digits s) else None)"

definition parse_ipv4 :: "string \<Rightarrow> nat option" where
  "parse_ipv4 s =
     (case split_on CHR ''.'' s of
        [a, b, c, d] \<Rightarrow>
          (case (parse_octet a, parse_octet b, parse_octet c, parse_octet d) of
             (Some w, Some x, Some y, Some z) \<Rightarrow> Some (((w * 256 + x) * 256 + y) * 256 + z)
           | _ \<Rightarrow> None)
      | _ \<Rightarrow> None)"

definition show_ipv4 :: "nat \<Rightarrow> string" where
  "show_ipv4 a = join ''.''
     (map (\<lambda>i. show_nat (a div 256 ^ i mod 256)) [3, 2, 1, 0])"

definition parse_prefix :: "family \<Rightarrow> string \<Rightarrow> nat option" where
  "parse_prefix f s =
     (if is_digits s \<and> nat_of_digits s \<le> bits f then Some (nat_of_digits s) else None)"

definition netmask :: "nat \<Rightarrow> nat" where
  "netmask l = 2 ^ 32 - 2 ^ (32 - l)"

definition parse_mask4 :: "string \<Rightarrow> nat option" where
  "parse_mask4 s =
     (case parse_prefix IPv4 s of
        Some l \<Rightarrow> Some l
      | None \<Rightarrow> (case parse_ipv4 s of
          None \<Rightarrow> None
        | Some m \<Rightarrow> (case find (\<lambda>l. netmask l = m) [0..<33] of
            Some l \<Rightarrow> Some l
          | None \<Rightarrow> find (\<lambda>l. netmask l = 2 ^ 32 - 1 - m) [0..<33])))"

section \<open>IPv6\<close>

definition hex_value :: "char \<Rightarrow> nat option" where
  "hex_value c =
     (let n = of_char c :: nat in
      if 48 \<le> n \<and> n \<le> 57 then Some (n - 48)
      else if 97 \<le> n \<and> n \<le> 102 then Some (n - 87)
      else if 65 \<le> n \<and> n \<le> 70 then Some (n - 55)
      else None)"

definition parse_hextet :: "string \<Rightarrow> nat option" where
  "parse_hextet s =
     (if s = [] \<or> length s > 4 then None
      else map_option (foldl (\<lambda>n d. 16 * n + d) 0) (those (map hex_value s)))"

definition hex_digit :: "nat \<Rightarrow> char" where
  "hex_digit d = (if d < 10 then char_of (48 + d) else char_of (87 + d))"

fun show_hex :: "nat \<Rightarrow> string" where
  "show_hex n = (if n < 16 then [hex_digit n] else show_hex (n div 16) @ [hex_digit (n mod 16)])"

declare show_hex.simps [simp del]

text \<open>The parts between colons, a trailing IPv4 address being two of them.\<close>

definition ipv6_parts :: "string \<Rightarrow> string list option" where
  "ipv6_parts s =
     (let parts = split_on CHR '':'' s in
      if length parts < 3 then None
      else if CHR ''.'' \<in> set (last parts)
      then (case parse_ipv4 (last parts) of
              None \<Rightarrow> None
            | Some a \<Rightarrow> Some (butlast parts @ [show_hex (a div 65536), show_hex (a mod 65536)]))
      else Some parts)"

definition empty_parts :: "string list \<Rightarrow> nat list" where
  "empty_parts ps = filter (\<lambda>i. ps ! i = []) [1..<length ps - 1]"

definition hextets_value :: "nat list \<Rightarrow> nat" where
  "hextets_value = foldl (\<lambda>n h. n * 65536 + h) 0"

definition parse_ipv6 :: "string \<Rightarrow> nat option" where
  "parse_ipv6 s =
     (case ipv6_parts s of
        None \<Rightarrow> None
      | Some ps \<Rightarrow>
          if length ps > 9 then None
          else (case empty_parts ps of
            [] \<Rightarrow>
              if length ps \<noteq> 8 then None
              else map_option hextets_value (those (map parse_hextet ps))
          | [skip] \<Rightarrow>
              (let hi = (if hd ps = [] then skip - 1 else skip);
                   lo = (if last ps = [] then length ps - skip - 2 else length ps - skip - 1) in
               if hd ps = [] \<and> hi \<noteq> 0 then None
               else if last ps = [] \<and> lo \<noteq> 0 then None
               else if hi + lo > 7 then None
               else (case (those (map parse_hextet (take hi ps)),
                           those (map parse_hextet (drop (length ps - lo) ps))) of
                       (Some hs, Some ls) \<Rightarrow>
                         Some (hextets_value (hs @ replicate (8 - (hi + lo)) 0 @ ls))
                     | _ \<Rightarrow> None))
          | _ \<Rightarrow> None))"

text \<open>\<open>fe80::1%eth0\<close>: the scope identifier is dropped, an empty or a second one refused.\<close>

definition drop_scope :: "string \<Rightarrow> string option" where
  "drop_scope s =
     (case split_on CHR ''%'' s of
        [a] \<Rightarrow> Some a
      | [a, scope] \<Rightarrow> if scope = [] then None else Some a
      | _ \<Rightarrow> None)"

text \<open>The run of zero hextets written as \<open>::\<close>: the first of the longest, if longer than one.\<close>

fun zero_run :: "string list \<Rightarrow> nat" where
  "zero_run [] = 0"
| "zero_run (h # hs) = (if h = ''0'' then Suc (zero_run hs) else 0)"

definition longest_zeros :: "string list \<Rightarrow> nat \<times> nat" where
  "longest_zeros hs =
     foldl (\<lambda>(s, n) i. if zero_run (drop i hs) > n then (i, zero_run (drop i hs)) else (s, n))
       (0, 0) [0..<length hs]"

definition show_ipv6 :: "nat \<Rightarrow> string" where
  "show_ipv6 a =
     (let hs = map (\<lambda>i. show_hex (a div 65536 ^ i mod 65536)) [7, 6, 5, 4, 3, 2, 1, 0];
          (s, n) = longest_zeros hs in
      if n > 1
      then join '':'' ((if s = 0 then [[]] else []) @ take s hs @ [[]] @ drop (s + n) hs
                       @ (if s + n = length hs then [[]] else []))
      else join '':'' hs)"

section \<open>Networks\<close>

text \<open>
  \<open>ip_network(s, strict=False)\<close>: IPv4 first, then IPv6; \<open>None\<close> is \<open>ValueError\<close>.
\<close>

definition parse_net4 :: "string \<Rightarrow> net option" where
  "parse_net4 s =
     (case split_on CHR ''/'' s of
        [a] \<Rightarrow> map_option (\<lambda>x. mk_net IPv4 x 32) (parse_ipv4 a)
      | [a, m] \<Rightarrow> (case (parse_ipv4 a, parse_mask4 m) of
          (Some x, Some l) \<Rightarrow> Some (mk_net IPv4 x l) | _ \<Rightarrow> None)
      | _ \<Rightarrow> None)"

definition parse_net6 :: "string \<Rightarrow> net option" where
  "parse_net6 s =
     (case split_on CHR ''/'' s of
        [a] \<Rightarrow> map_option (\<lambda>x. mk_net IPv6 x 128) (Option.bind (drop_scope a) parse_ipv6)
      | [a, m] \<Rightarrow> (case (Option.bind (drop_scope a) parse_ipv6, parse_prefix IPv6 m) of
          (Some x, Some l) \<Rightarrow> Some (mk_net IPv6 x l) | _ \<Rightarrow> None)
      | _ \<Rightarrow> None)"

definition ip_network :: "string \<Rightarrow> net option" where
  "ip_network s = (case parse_net4 s of Some n \<Rightarrow> Some n | None \<Rightarrow> parse_net6 s)"

definition show_net :: "net \<Rightarrow> string" where
  "show_net n =
     (case n of Net f a l \<Rightarrow>
        (case f of IPv4 \<Rightarrow> show_ipv4 a | IPv6 \<Rightarrow> show_ipv6 a) @ ''/'' @ show_nat l)"

section \<open>Membership\<close>

lemma in_net_mk_net: "in_net f a (mk_net f a l)"
  by (simp add: in_net_def mk_net_def)

lemma in_net_mono:
  "in_net f a (mk_net f b l) \<Longrightarrow> l' \<le> l \<Longrightarrow> l \<le> bits f \<Longrightarrow> in_net f a (mk_net f b l')"
proof -
  assume a: "in_net f a (mk_net f b l)" and l: "l' \<le> l" "l \<le> bits f"
  define k where "k = l - l'"
  have e: "2 ^ (bits f - l') = 2 ^ (bits f - l) * (2 :: nat) ^ k"
    using l by (simp add: k_def flip: power_add)
  have "a div 2 ^ (bits f - l) = b div 2 ^ (bits f - l)"
    using a by (simp add: in_net_def mk_net_def)
  then show ?thesis
    by (simp add: in_net_def mk_net_def e div_mult2_eq)
qed

end
