(* ===== verification/Firewall.thy ===== *)
theory Firewall
  imports AppAccess IpNet
begin

text \<open>
  \<open>kosherd/src/kosherd/nft.py\<close> (with \<open>devenvproxy.py\<close> and what it uses of \<open>syncthing.py\<close>): the
  policy rendered into the table \<open>inet kosher\<close>.  A rule is its list of matches and its action,
  as the line has them; \<open>show_rule\<close> writes it in nft's syntax, and \<open>ruleset\<close> is the rules of each
  chain in order.  The comments of the rendered file are left out.  The meaning of the rules,
  first match by first match, is in \<open>Filtering\<close>.
\<close>

section \<open>Constants\<close>

definition UID_MIN :: int where "UID_MIN = 1000"
definition TABLE :: string where "TABLE = ''inet kosher''"

definition MODE_CHAINS :: "(string, string) dict" where
  "MODE_CHAINS = [(''none'', ''mode_none''), (''whitelist'', ''mode_whitelist''),
     (''dnsfilter'', ''mode_dnsfilter''), (''filtered'', ''mode_filtered''),
     (''unfiltered'', ''mode_unfiltered'')]"

definition MITM_PORT :: int where "MITM_PORT = 8080"
definition MITM_PORT_BASE :: int where "MITM_PORT_BASE = 30000"
definition BUILDER_PORT :: int where "BUILDER_PORT = 29999"
definition SEARCH_PORT :: int where "SEARCH_PORT = 8888"
definition SEARCH_BACKEND_PORT :: int where "SEARCH_BACKEND_PORT = 8889"
definition OPEN_DNS_PORT :: int where "OPEN_DNS_PORT = 5354"
definition DNSFILTER_DNS_PORT :: int where "DNSFILTER_DNS_PORT = 5356"
definition LAN6 :: "string list" where "LAN6 = [''fc00::/7'', ''fe80::/10'']"

definition DEFAULT_DOH_BLOCK4 :: "string list" where
  "DEFAULT_DOH_BLOCK4 =
     [''1.1.1.1'', ''1.0.0.1'', ''8.8.8.8/31'', ''8.8.4.4'', ''9.9.9.9'', ''149.112.112.112'',
      ''208.67.222.222'', ''208.67.220.220'', ''94.140.14.0/24'', ''94.140.15.0/24'']"

definition LAN4 :: "string list" where
  "LAN4 = [''10.0.0.0/8'', ''172.16.0.0/12'', ''192.168.0.0/16'', ''169.254.0.0/16'']"

definition DIRECT_TCP_PORTS :: "int list" where "DIRECT_TCP_PORTS = [465, 587, 993]"
definition SERVER_FIRST_TCP_PORTS :: "int list" where "SERVER_FIRST_TCP_PORTS = [21, 22, 25, 110, 143]"
definition GIT_SSH_HOSTS :: "string list" where
  "GIT_SSH_HOSTS = [''github.com'', ''gitlab.com'', ''codeberg.org'', ''bitbucket.org'']"
definition GIT_SSH_PORT :: int where "GIT_SSH_PORT = 22"
definition SSH_PORT :: int where "SSH_PORT = 22"
definition SSH_PORTS_REFUSED :: "int list" where "SSH_PORTS_REFUSED = [53, 80, 443]"
definition TAILNET_RANGES4 :: "string list" where "TAILNET_RANGES4 = [''100.64.0.0/10'']"
definition TAILNET_RANGES6 :: "string list" where "TAILNET_RANGES6 = [''fd7a:115c:a1e0::/48'']"
definition UDP_HIGH :: int where "UDP_HIGH = 1024"
definition UDP_LOW_ALLOWED :: "int list" where "UDP_LOW_ALLOWED = [123]"

text \<open>From \<open>dns.py\<close>: the addresses of the safe-search hosts.\<close>

definition SAFESEARCH_ADDRESSES :: "(string, string) dict" where
  "SAFESEARCH_ADDRESSES =
     [(''forcesafesearch.google.com'', ''216.239.38.120''),
      (''strict.bing.com'', ''204.79.197.220''),
      (''safe.duckduckgo.com'', ''40.114.177.156''),
      (''restrictmoderate.youtube.com'', ''216.239.38.119''),
      (''restrict.youtube.com'', ''216.239.38.120'')]"

definition SAFESEARCH_ELEMENTS :: "string list" where
  "SAFESEARCH_ELEMENTS = sorted_set (map snd SAFESEARCH_ADDRESSES)"

text \<open>From \<open>syncthing.py\<close>.\<close>

definition SYNCTHING_REF :: string where "SYNCTHING_REF = ''nixpkgs#syncthing''"
definition OUT_TCP :: "int list" where "OUT_TCP = [22000, 22067]"
definition OUT_UDP :: "int list" where "OUT_UDP = [21027, 22000]"
definition DISCOVERY_PORT :: int where "DISCOVERY_PORT = 21027"
definition LISTEN_PORT_BASE :: int where "LISTEN_PORT_BASE = 22000"
definition SET_OUT :: string where "SET_OUT = ''syncthing_out''"
definition SET_LAN :: string where "SET_LAN = ''syncthing_lan''"
definition SYNCTHING_CGROUP :: string where "SYNCTHING_CGROUP = ''socket cgroupv2 level 3''"

definition syncthing_allowed :: "user_policy \<Rightarrow> bool" where
  "syncthing_allowed u \<longleftrightarrow>
     (if mode u = ''none'' then False
      else if SYNCTHING_REF \<in> set (blocked_apps u) then False
      else individually_approved u SYNCTHING_REF)"

definition syncthing_users :: "policy \<Rightarrow> user_policy list" where
  "syncthing_users p = (if syncthing p \<noteq> Some True then [] else filter syncthing_allowed (users p))"

text \<open>\<open>devenvproxy.ports\<close>.\<close>

definition DEVENV_BASE :: int where "DEVENV_BASE = 7100"
definition DEVENV_SLOTS :: int where "DEVENV_SLOTS = 400"

definition devenv_ports :: "int \<Rightarrow> int \<times> int" where
  "devenv_ports i = (let http = DEVENV_BASE + 2 * (i mod DEVENV_SLOTS) in (http, http + 1))"

section \<open>SSH machines\<close>

text \<open>\<open>s.partition(c)\<close> for a one-character separator.\<close>

definition partition_on :: "char \<Rightarrow> string \<Rightarrow> string \<times> bool \<times> string" where
  "partition_on c s =
     (takeWhile (\<lambda>x. x \<noteq> c) s, c \<in> set s, drop 1 (dropWhile (\<lambda>x. x \<noteq> c) s))"

definition ssh_port_error :: string where
  "ssh_port_error = ''the port must be a number from 1 to 65535''"

definition check_ssh_port :: "string \<Rightarrow> string option \<Rightarrow> (string \<times> int) result" where
  "check_ssh_port host port =
     (case port of
        None \<Rightarrow> Inr (host, SSH_PORT)
      | Some s \<Rightarrow>
          if \<not> is_digits s \<or> \<not> (1 \<le> nat_of_digits s \<and> nat_of_digits s \<le> 65535)
          then Inl ssh_port_error else Inr (host, int (nat_of_digits s)))"

definition ssh_entry :: "string \<Rightarrow> (string \<times> int) result" where
  "ssh_entry raw =
     (let e = lower (strip is_space raw) in
      if starts_with e ''[''
      then (case partition_on CHR '']'' (drop 1 e) of (host, _, rest) \<Rightarrow>
              if rest = [] then check_ssh_port host None
              else if \<not> starts_with rest '':''
              then Inl ''a port follows the brackets as :PORT''
              else check_ssh_port host (Some (drop 1 rest)))
      else (case split_on CHR '':'' e of
              [host, port] \<Rightarrow> check_ssh_port host (Some port)
            | _ \<Rightarrow> check_ssh_port e None))"

text \<open>
  The entries of a list that the daemon has accepted all parse; on another the code raises, which
  is the error of \<open>map_result\<close>.  A comprehension over a list is evaluated up to its first error.
\<close>

definition ssh_ports :: "string list \<Rightarrow> int list result" where
  "ssh_ports hosts =
     map_sum id (\<lambda>es. sort_key (\<lambda>p. (p \<noteq> SSH_PORT, p)) (sorted_set (map snd es)))
       (map_result ssh_entry hosts)"

datatype ssh_kind = Tailnet | V4 | V6 | Name

definition kind_of_host :: "string \<Rightarrow> ssh_kind" where
  "kind_of_host host =
     (if host = ''tailnet'' then Tailnet
      else case ip_network host of
             None \<Rightarrow> Name
           | Some n \<Rightarrow> (case net_family n of IPv4 \<Rightarrow> V4 | IPv6 \<Rightarrow> V6))"

definition ssh_entry_kind :: "string \<Rightarrow> ssh_kind result" where
  "ssh_entry_kind raw = map_sum id (\<lambda>(host, _). kind_of_host host) (ssh_entry raw)"

definition ssh_set_names :: "int \<Rightarrow> int \<Rightarrow> string \<times> string" where
  "ssh_set_names i port =
     (let suffix = (if port = SSH_PORT then [] else ''_'' @ show_int port) in
      (''ssh4_'' @ show_int i @ suffix, ''ssh6_'' @ show_int i @ suffix))"

text \<open>
  One entry's addresses.  \<open>ssh_entry_kind(host)\<close> reads the host as an entry again, and the text of
  the network is that of \<open>ip_network(host)\<close>, which is not stripped.
\<close>

definition network_text :: "string \<Rightarrow> string result" where
  "network_text host =
     (case ip_network host of
        None \<Rightarrow> Inl ''not an IPv4 or IPv6 network'' | Some n \<Rightarrow> Inr (show_net n))"

definition host_elements :: "string \<Rightarrow> (string list \<times> string list) result" where
  "host_elements host =
     bind_result (ssh_entry_kind host) (\<lambda>k.
       case k of
         Tailnet \<Rightarrow> Inr (TAILNET_RANGES4, TAILNET_RANGES6)
       | V4 \<Rightarrow> map_sum id (\<lambda>n. ([n], [])) (network_text host)
       | V6 \<Rightarrow> map_sum id (\<lambda>n. ([], [n])) (network_text host)
       | Name \<Rightarrow> Inr ([], []))"

definition ssh_set_elements :: "string list \<Rightarrow> int \<Rightarrow> (string list \<times> string list) result" where
  "ssh_set_elements hosts port =
     bind_result (map_result ssh_entry hosts) (\<lambda>es.
     bind_result (map_result host_elements (map fst (filter (\<lambda>(_, p). p = port) es))) (\<lambda>vs.
       Inr (dedup (concat (map fst vs)), dedup (concat (map snd vs)))))"

section \<open>Rules\<close>

datatype elem = One int | Span int int

datatype ports = Port int | Ports "int list" | Not_ports "int list" | From int

datatype target = Net_of string | Nets_of "string list" | Set_of string

datatype match_expr =
    Skuid "elem list"
  | Skuids "elem list"
  | Not_skuid "elem list"
  | Skuid_ge int
  | Skuid_lt int
  | Captive
  | Skgid int
  | Dport string ports
  | Daddr family target
  | Saddr family target
  | Oif_lo
  | Iif_lo
  | Ct "string list"
  | L4proto "string list"
  | Cgroup string

datatype action =
    Accept
  | Reject
  | Drop
  | Return
  | Redirect int
  | Jump string
  | Vmap "(elem \<times> string) list"

type_synonym rule = "match_expr list \<times> action"

record set_decl =
  set_name :: string
  set_type :: string
  set_elements :: "string list"
  set_flags :: "string list"

record chain_decl =
  hook :: string
  default_accept :: bool
  chain_rules :: "rule list"

record ruleset =
  sets :: "set_decl list"
  chains :: "(string, chain_decl) dict"

section \<open>What the renderer is given\<close>

record nft_inputs =
  dns_uid :: int
  mitm_uid :: "int option"
  search_uid :: "int option"
  build_gid :: "int option"
  subids :: "(int, (int \<times> int) list) dict"
  doh_block4 :: "string list"
  gui :: "(int, int) dict"
  listen :: "(int, int) dict"

definition by_uid :: "user_policy list \<Rightarrow> user_policy list" where
  "by_uid us = sort_key uid us"

definition mitm_ports :: "policy \<Rightarrow> (int, int) dict" where
  "mitm_ports p =
     (let inspected = sort (map uid (filter (\<lambda>u. mode u \<in> set INSPECTED_MODES) (effective_users p))) in
      fold (\<lambda>(k, i). dict_set i (MITM_PORT_BASE + int k)) (enumerate 0 inspected) [])"

text \<open>\<open>sorted(set(int(p) for p in ports))\<close>.\<close>

definition port_set :: "int list \<Rightarrow> int list" where
  "port_set ps = sorted_set ps"

definition owner :: "nft_inputs \<Rightarrow> int \<Rightarrow> elem list" where
  "owner x i = One i # map (\<lambda>(s, e). Span s e) (dict_get (subids x) i [])"

definition owners :: "nft_inputs \<Rightarrow> int list \<Rightarrow> elem list" where
  "owners x is = concat (map (owner x) is)"

text \<open>\<open>{u.uid: u for u in ...}.get(uid)\<close>, for its extra ports: the last user of that uid.\<close>

definition extras_of :: "policy \<Rightarrow> int \<Rightarrow> int list" where
  "extras_of p i = (case find (\<lambda>u. uid u = i) (rev (effective_users p)) of
     None \<Rightarrow> [] | Some u \<Rightarrow> extra_ports u)"

abbreviation loop4 :: match_expr where "loop4 \<equiv> Daddr IPv4 (Net_of ''127.0.0.0/8'')"
abbreviation loop6 :: match_expr where "loop6 \<equiv> Daddr IPv6 (Net_of ''::1'')"

section \<open>The groups of rules that depend on the policy\<close>

definition uids_where :: "policy \<Rightarrow> (user_policy \<Rightarrow> bool) \<Rightarrow> int list" where
  "uids_where p P = sort (map uid (filter P (effective_users p)))"

definition nix_build_rules :: "nft_inputs \<Rightarrow> rule list" where
  "nix_build_rules x = (case build_gid x of None \<Rightarrow> []
     | Some g \<Rightarrow> [([Skgid g], Jump ''nix_build'')])"

definition build_redirect :: "nft_inputs \<Rightarrow> rule list" where
  "build_redirect x = (case build_gid x of None \<Rightarrow> []
     | Some g \<Rightarrow> [([Skgid g, Dport ''tcp'' (Ports [80, 443])], Redirect BUILDER_PORT)])"

definition build_loopback :: "nft_inputs \<Rightarrow> rule list" where
  "build_loopback x = (case build_gid x of None \<Rightarrow> []
     | Some g \<Rightarrow>
        [([Skgid g, loop4, Dport ''tcp'' (Port BUILDER_PORT)], Accept),
         ([Skgid g, Daddr IPv4 (Net_of ''127.0.0.1''), Dport ''udp'' (Port 53)], Accept),
         ([Skgid g, Daddr IPv4 (Net_of ''127.0.0.1''), Dport ''tcp'' (Port 53)], Accept),
         ([Skgid g, Oif_lo], Reject),
         ([Skgid g, loop4], Reject),
         ([Skgid g, loop6], Reject)])"

text \<open>The dispatch; a mode without a chain is the \<open>KeyError\<close> of \<open>MODE_CHAINS[u.mode]\<close>.\<close>

definition mode_chain :: "string \<Rightarrow> string result" where
  "mode_chain m = (case map_of MODE_CHAINS m of None \<Rightarrow> Inl ''KeyError'' | Some c \<Rightarrow> Inr c)"

definition vmap_entries :: "nft_inputs \<Rightarrow> policy \<Rightarrow> (elem \<times> string) list result" where
  "vmap_entries x p =
     map_sum id concat
       (map_result (\<lambda>u. map_sum id (\<lambda>c. map (\<lambda>e. (e, c)) (owner x (uid u))) (mode_chain (mode u)))
                   (by_uid (effective_users p)))"

definition vmap_rule :: "(elem \<times> string) list \<Rightarrow> rule list" where
  "vmap_rule es = (if es = [] then [] else [([], Vmap es)])"

definition web_redirect :: "nft_inputs \<Rightarrow> policy \<Rightarrow> rule list" where
  "web_redirect x p =
     (if mitm_uid x = None then []
      else map (\<lambda>(i, port).
             ([Skuid (owner x i),
               Dport ''tcp'' (Not_ports (port_set
                 ([53] @ DIRECT_TCP_PORTS @ SERVER_FIRST_TCP_PORTS @ OUT_TCP @ extras_of p i)))],
              Redirect port)) (mitm_ports p))"

definition supervised :: "policy \<Rightarrow> user_policy list" where
  "supervised p = filter (\<lambda>u. mode u \<in> {''filtered'', ''dnsfilter''}) (effective_users p)"

definition extra_port_rules :: "nft_inputs \<Rightarrow> policy \<Rightarrow> rule list" where
  "extra_port_rules x p =
     map (\<lambda>u. ([Skuid (owner x (uid u)), Dport ''tcp'' (Ports (port_set (extra_ports u)))], Accept))
         (filter (\<lambda>u. extra_ports u \<noteq> []) (supervised p))"

definition git_ssh_uids :: "policy \<Rightarrow> int list" where
  "git_ssh_uids p =
     sort (map uid (filter (\<lambda>u. mode u \<notin> set UNFILTERED_MODES) (developer_accounts p)))"

definition git_ssh_rules :: "nft_inputs \<Rightarrow> policy \<Rightarrow> rule list" where
  "git_ssh_rules x p =
     (let is = git_ssh_uids p in
      if is = [] then []
      else [([Skuids (owners x is), Daddr IPv4 (Set_of ''git4''), Dport ''tcp'' (Port GIT_SSH_PORT)], Accept),
            ([Skuids (owners x is), Daddr IPv6 (Set_of ''git6''), Dport ''tcp'' (Port GIT_SSH_PORT)], Accept)])"

section \<open>Sets\<close>

text \<open>\<open>_set_block\<close>: a declared set, its elements and its flags.\<close>

definition set_block :: "string \<Rightarrow> string \<Rightarrow> string list \<Rightarrow> bool \<Rightarrow> bool \<Rightarrow> set_decl" where
  "set_block n t es interval timeout =
     \<lparr>set_name = n, set_type = ''type '' @ t, set_elements = es,
      set_flags = (if interval then [''interval''] else []) @ (if timeout then [''timeout''] else [])\<rparr>"

definition cgroup_set :: "string \<Rightarrow> set_decl" where
  "cgroup_set n = \<lparr>set_name = n, set_type = ''typeof '' @ SYNCTHING_CGROUP,
                   set_elements = [], set_flags = []\<rparr>"

text \<open>
  The SSH machines of one account: its sets, the rules of the output chain and the rules of the
  redirect chain, for each port of its list in turn.
\<close>

type_synonym ssh_parts = "set_decl list \<times> rule list \<times> rule list"

definition ssh_accept :: "nft_inputs \<Rightarrow> int \<Rightarrow> int \<Rightarrow> rule list" where
  "ssh_accept x i port =
     (case ssh_set_names i port of (s4, s6) \<Rightarrow>
        [([Skuid (owner x i), Daddr IPv4 (Set_of s4), Dport ''tcp'' (Port port)], Accept),
         ([Skuid (owner x i), Daddr IPv6 (Set_of s6), Dport ''tcp'' (Port port)], Accept)])"

definition ssh_one_port :: "nft_inputs \<Rightarrow> user_policy \<Rightarrow> int \<Rightarrow> ssh_parts result" where
  "ssh_one_port x u port =
     (case ssh_set_names (uid u) port of (s4, s6) \<Rightarrow>
      map_sum id (\<lambda>(e4, e6).
        ([set_block s4 ''ipv4_addr'' e4 True False, set_block s6 ''ipv6_addr'' e6 True False],
         ssh_accept x (uid u) port,
         if port \<noteq> SSH_PORT then ssh_accept x (uid u) port else []))
      (ssh_set_elements (ssh_hosts u) port))"

definition join_parts :: "ssh_parts list \<Rightarrow> ssh_parts" where
  "join_parts ps = (concat (map fst ps), concat (map (fst \<circ> snd) ps), concat (map (snd \<circ> snd) ps))"

definition ssh_account :: "nft_inputs \<Rightarrow> user_policy \<Rightarrow> ssh_parts result" where
  "ssh_account x u =
     (if mode u \<in> set UNFILTERED_MODES \<or> mode u = ''none'' then Inr ([], [], [])
      else if ssh_anywhere u
      then Inr ([], [([Skuid (owner x (uid u)), Dport ''tcp'' (Port SSH_PORT)], Accept)], [])
      else bind_result (ssh_ports (ssh_hosts u)) (\<lambda>ports.
             map_sum id join_parts (map_result (ssh_one_port x u) ports)))"

definition ssh_rules :: "nft_inputs \<Rightarrow> policy \<Rightarrow> ssh_parts result" where
  "ssh_rules x p = map_sum id join_parts (map_result (ssh_account x) (by_uid (effective_users p)))"

section \<open>Syncthing, devenv and the resolvers\<close>

definition st_match :: "policy \<Rightarrow> match_expr list" where
  "st_match p = [Skuids (map (One \<circ> uid) (by_uid (syncthing_users p))), Cgroup SET_OUT]"

definition held :: "policy \<Rightarrow> int list" where
  "held p = uids_where p (\<lambda>u. mode u \<notin> set UNFILTERED_MODES)"

definition syncthing_rules :: "nft_inputs \<Rightarrow> policy \<Rightarrow> rule list" where
  "syncthing_rules x p =
     (if syncthing_users p = [] then []
      else [(st_match p @ [Dport ''tcp'' (Ports (port_set OUT_TCP))], Accept),
            (st_match p @ [Dport ''udp'' (Ports (port_set OUT_UDP))], Accept),
            (st_match p @ [Daddr IPv4 (Set_of ''st4''), Dport ''tcp'' (Port 443)], Accept),
            (st_match p @ [Daddr IPv6 (Set_of ''st6''), Dport ''tcp'' (Port 443)], Accept)])
     @ (if held p = [] then []
        else [([Skuids (owners x (held p)), Dport ''tcp'' (Ports (port_set OUT_TCP))], Reject),
              ([Skuids (owners x (held p)), Dport ''udp'' (Ports (port_set OUT_UDP))], Reject)])"

definition syncthing_nat :: "policy \<Rightarrow> rule list" where
  "syncthing_nat p =
     (if syncthing_users p = [] then []
      else [(st_match p @ [Daddr IPv4 (Set_of ''st4''), Dport ''tcp'' (Port 443)], Return),
            (st_match p @ [Daddr IPv6 (Set_of ''st6''), Dport ''tcp'' (Port 443)], Return)])"

definition syncthing_gui :: "nft_inputs \<Rightarrow> rule list" where
  "syncthing_gui x =
     map (\<lambda>(i, port). ([loop4, Dport ''tcp'' (Port port), Not_skuid (owner x i), Skuid_ge UID_MIN], Reject))
         (sort_key id (gui x))"

definition developers :: "policy \<Rightarrow> user_policy list" where
  "developers p = by_uid (developer_accounts p)"

definition devenv_guard :: "nft_inputs \<Rightarrow> policy \<Rightarrow> rule list" where
  "devenv_guard x p =
     map (\<lambda>u. case devenv_ports (uid u) of (http, https) \<Rightarrow>
            ([loop4, Dport ''tcp'' (Ports [http, https]), Not_skuid (owner x (uid u)), Skuid_ge UID_MIN],
             Reject)) (developers p)"

definition devenv_redirect :: "nft_inputs \<Rightarrow> policy \<Rightarrow> rule list" where
  "devenv_redirect x p =
     concat (map (\<lambda>u. case devenv_ports (uid u) of (http, https) \<Rightarrow>
       [([Skuid (owner x (uid u)), loop4, Dport ''tcp'' (Port 80)], Redirect http),
        ([Skuid (owner x (uid u)), loop4, Dport ''tcp'' (Port 443)], Redirect https)])
       (developers p))"

definition lan_users :: "policy \<Rightarrow> user_policy list" where
  "lan_users p = filter syncthing_lan (syncthing_users p)"

definition ports_in :: "nft_inputs \<Rightarrow> policy \<Rightarrow> int list" where
  "ports_in x p = sorted_set (map (\<lambda>u. dict_get (listen x) (uid u) LISTEN_PORT_BASE) (lan_users p))"

definition syncthing_in :: "nft_inputs \<Rightarrow> policy \<Rightarrow> rule list" where
  "syncthing_in x p =
     (if lan_users p = [] then []
      else let tcp = Dport ''tcp'' (Ports (port_set (ports_in x p)));
               udp = Dport ''udp'' (Ports (port_set (DISCOVERY_PORT # ports_in x p))) in
        [([Saddr IPv4 (Set_of ''lan4''), tcp, Cgroup SET_LAN], Accept),
         ([Saddr IPv4 (Set_of ''lan4''), udp, Cgroup SET_LAN], Accept),
         ([Saddr IPv6 (Nets_of LAN6), tcp, Cgroup SET_LAN], Accept),
         ([Saddr IPv6 (Nets_of LAN6), udp, Cgroup SET_LAN], Accept)])"

definition no_video :: "nft_inputs \<Rightarrow> policy \<Rightarrow> rule list" where
  "no_video x p =
     (let is = sort (map uid (filter (\<lambda>u. \<not> video_calls u) (supervised p))) in
      if is = [] then [] else [([Skuids (owners x is), Dport ''udp'' (From UDP_HIGH)], Reject)])"

definition dns_to :: "nft_inputs \<Rightarrow> int list \<Rightarrow> int \<Rightarrow> rule list" where
  "dns_to x is port =
     (if is = [] then []
      else map (\<lambda>proto. ([Skuids (owners x is), Dport proto (Port 53)], Redirect port))
               [''udp'', ''tcp''])"

definition dnsfilter_dns :: "nft_inputs \<Rightarrow> policy \<Rightarrow> rule list" where
  "dnsfilter_dns x p = dns_to x (uids_where p (\<lambda>u. mode u = ''dnsfilter'')) DNSFILTER_DNS_PORT"

definition unfiltered_uids :: "policy \<Rightarrow> int list" where
  "unfiltered_uids p = uids_where p (\<lambda>u. mode u \<in> set UNFILTERED_MODES)"

definition open_dns :: "nft_inputs \<Rightarrow> policy \<Rightarrow> rule list" where
  "open_dns x p = dns_to x (unfiltered_uids p) OPEN_DNS_PORT"

definition backend_guard :: "nft_inputs \<Rightarrow> rule list" where
  "backend_guard x = (if search_uid x = None then []
     else [([Oif_lo, Dport ''tcp'' (Port SEARCH_BACKEND_PORT), Skuid_ge UID_MIN], Reject)])"

definition open_dns_guard :: "nft_inputs \<Rightarrow> policy \<Rightarrow> rule list" where
  "open_dns_guard x p =
     concat (map (\<lambda>i. map (\<lambda>proto.
       ([Skuid (owner x i), loop4, Dport proto (Port OPEN_DNS_PORT)], Accept)) [''udp'', ''tcp''])
       (unfiltered_uids p))
     @ concat (map (\<lambda>proto.
         [([loop4, Dport proto (Port OPEN_DNS_PORT), Skuid_ge UID_MIN], Reject),
          ([loop6, Dport proto (Port OPEN_DNS_PORT), Skuid_ge UID_MIN], Reject)]) [''udp'', ''tcp''])"

section \<open>The chains\<close>

definition exempt :: "nft_inputs \<Rightarrow> elem list" where
  "exempt x = [One 0, One (dns_uid x)]
     @ (case mitm_uid x of None \<Rightarrow> [] | Some i \<Rightarrow> [One i])
     @ (case search_uid x of None \<Rightarrow> [] | Some i \<Rightarrow> [One i])"

definition chain_dns_redirect :: "nft_inputs \<Rightarrow> policy \<Rightarrow> rule list \<Rightarrow> rule list" where
  "chain_dns_redirect x p ssh_nat =
     devenv_redirect x p @ dnsfilter_dns x p
     @ [([Oif_lo], Return), ([loop4], Return), ([loop6], Return),
        ([Skuids (exempt x)], Return)]
     @ build_redirect x @ open_dns x p
     @ [([Dport ''udp'' (Port 53)], Redirect 53), ([Dport ''tcp'' (Port 53)], Redirect 53)]
     @ syncthing_nat p @ ssh_nat @ web_redirect x p"

definition guards :: "nft_inputs \<Rightarrow> policy \<Rightarrow> rule list" where
  "guards x p = build_loopback x @ backend_guard x @ open_dns_guard x p
                @ syncthing_gui x @ devenv_guard x p"

definition per_user :: "nft_inputs \<Rightarrow> policy \<Rightarrow> rule list \<Rightarrow> rule list" where
  "per_user x p ssh =
     syncthing_rules x p @ extra_port_rules x p @ git_ssh_rules x p @ ssh @ no_video x p"

definition chain_output ::
    "nft_inputs \<Rightarrow> policy \<Rightarrow> rule list \<Rightarrow> (elem \<times> string) list \<Rightarrow> rule list" where
  "chain_output x p ssh entries =
     guards x p
     @ [([Oif_lo], Accept), ([loop4], Accept), ([loop6], Accept),
        ([Ct [''established'', ''related'']], Accept)]
     @ nix_build_rules x
     @ [([Skuid_lt UID_MIN], Accept), ([Captive], Accept), ([], Jump ''local_services'')]
     @ per_user x p ssh @ vmap_rule entries @ [([], Jump ''mode_none'')]"

definition chain_input :: "nft_inputs \<Rightarrow> policy \<Rightarrow> rule list" where
  "chain_input x p =
     [([Iif_lo], Accept), ([Ct [''established'', ''related'']], Accept), ([Ct [''invalid'']], Drop),
      ([L4proto [''icmp'', ''ipv6-icmp'']], Accept),
      ([Dport ''udp'' (Ports [68, 546])], Accept), ([Dport ''udp'' (Port 5353)], Accept)]
     @ syncthing_in x p @ [([Dport ''tcp'' (Port 22)], Accept)]"

definition local_services :: "rule list" where
  "local_services =
     [([Dport ''udp'' (Ports [67, 68])], Accept),
      ([Daddr IPv4 (Net_of ''224.0.0.251''), Dport ''udp'' (Port 5353)], Accept),
      ([Daddr IPv6 (Net_of ''ff02::fb''), Dport ''udp'' (Port 5353)], Accept),
      ([Daddr IPv4 (Set_of ''lan4''), Dport ''udp'' (Port 5353)], Accept),
      ([Daddr IPv4 (Set_of ''lan4''), Dport ''tcp'' (Ports [631, 9100])], Accept)]"

definition mode_none :: "rule list" where "mode_none = [([], Reject)]"

text \<open>\<open>ip daddr @<name>4 ... accept\<close> and \<open>ip6 daddr @<name>6 ... accept\<close>.\<close>

definition to_sets :: "string \<Rightarrow> ports \<Rightarrow> rule list" where
  "to_sets n ps =
     [([Daddr IPv4 (Set_of (n @ ''4'')), Dport ''tcp'' ps], Accept),
      ([Daddr IPv6 (Set_of (n @ ''6'')), Dport ''tcp'' ps], Accept)]"

definition mode_whitelist :: "rule list" where
  "mode_whitelist =
     [([], Jump ''evasion_block'')] @ to_sets ''wl'' (Ports [80, 443]) @ to_sets ''sys'' (Ports [80, 443])
     @ [([], Reject)]"

definition nix_build :: "rule list" where
  "nix_build = [([], Jump ''evasion_block''), ([], Reject)]"

definition dnsfilter_tcp :: "int list" where
  "dnsfilter_tcp = port_set ([80, 443] @ DIRECT_TCP_PORTS)"

definition mode_dnsfilter :: "rule list" where
  "mode_dnsfilter =
     [([], Jump ''evasion_block''),
      ([L4proto [''icmp'', ''ipv6-icmp'']], Accept),
      ([Daddr IPv4 (Set_of ''lan4'')], Reject),
      ([Daddr IPv6 (Nets_of LAN6)], Reject)]
     @ concat (map (\<lambda>n. to_sets n (Ports dnsfilter_tcp)) [''dns'', ''wl'', ''sys'', ''git'', ''st''])
     @ [([Dport ''udp'' (Ports (port_set UDP_LOW_ALLOWED))], Accept),
        ([Dport ''udp'' (From UDP_HIGH)], Accept), ([], Reject)]"

definition mode_filtered :: "rule list" where
  "mode_filtered =
     [([], Jump ''evasion_block''),
      ([L4proto [''icmp'', ''ipv6-icmp'']], Accept),
      ([Dport ''tcp'' (Ports (port_set DIRECT_TCP_PORTS))], Accept),
      ([Dport ''udp'' (Ports (port_set UDP_LOW_ALLOWED))], Accept),
      ([Dport ''udp'' (From UDP_HIGH)], Accept), ([], Reject)]"

definition mode_unfiltered :: "rule list" where "mode_unfiltered = [([], Accept)]"

definition evasion_block :: "rule list" where
  "evasion_block =
     [([Dport ''tcp'' (Port 853)], Reject), ([Dport ''udp'' (Port 853)], Reject),
      ([Dport ''udp'' (Port 443)], Reject), ([Daddr IPv4 (Set_of ''doh4'')], Reject)]"

definition table_sets :: "nft_inputs \<Rightarrow> set_decl list \<Rightarrow> set_decl list" where
  "table_sets x ssh_sets =
     [set_block ''wl4'' ''ipv4_addr'' [] False False, set_block ''wl6'' ''ipv6_addr'' [] False False,
      set_block ''sys4'' ''ipv4_addr'' [] False False, set_block ''sys6'' ''ipv6_addr'' [] False False,
      set_block ''git4'' ''ipv4_addr'' [] False False, set_block ''git6'' ''ipv6_addr'' [] False False]
     @ ssh_sets
     @ [set_block ''st4'' ''ipv4_addr'' [] False False, set_block ''st6'' ''ipv6_addr'' [] False False,
        cgroup_set SET_OUT, cgroup_set SET_LAN,
        set_block ''doh4'' ''ipv4_addr'' (doh_block4 x) True False,
        set_block ''lan4'' ''ipv4_addr'' LAN4 True False,
        set_block ''dns4'' ''ipv4_addr'' SAFESEARCH_ELEMENTS False False,
        set_block ''dns6'' ''ipv6_addr'' [] False False,
        set_block ''captive'' ''uid'' [] False True]"

definition regular :: "rule list \<Rightarrow> chain_decl" where
  "regular rs = \<lparr>hook = [], default_accept = True, chain_rules = rs\<rparr>"

definition ruleset_of ::
    "nft_inputs \<Rightarrow> policy \<Rightarrow> (elem \<times> string) list \<Rightarrow> ssh_parts \<Rightarrow> ruleset" where
  "ruleset_of x p entries parts =
     \<lparr>sets = table_sets x (fst parts),
      chains =
        [(''dns_redirect'', \<lparr>hook = ''nat hook output priority dstnat'', default_accept = True,
                            chain_rules = chain_dns_redirect x p (snd (snd parts))\<rparr>),
         (''output'', \<lparr>hook = ''filter hook output priority filter'', default_accept = True,
                      chain_rules = chain_output x p (fst (snd parts)) entries\<rparr>),
         (''input'', \<lparr>hook = ''filter hook input priority filter'', default_accept = False,
                     chain_rules = chain_input x p\<rparr>),
         (''local_services'', regular local_services),
         (''mode_none'', regular mode_none), (''mode_whitelist'', regular mode_whitelist),
         (''nix_build'', regular nix_build), (''mode_dnsfilter'', regular mode_dnsfilter),
         (''mode_filtered'', regular mode_filtered),
         (''mode_unfiltered'', regular mode_unfiltered),
         (''evasion_block'', regular evasion_block)]\<rparr>"

definition render :: "nft_inputs \<Rightarrow> policy \<Rightarrow> ruleset result" where
  "render x p =
     bind_result (vmap_entries x p) (\<lambda>entries.
     map_sum id (ruleset_of x p entries) (ssh_rules x p))"

end
