(* ===== verification/Filtering.thy ===== *)
theory Filtering
  imports Firewall
begin

text \<open>
  What the rendered ruleset of \<open>Firewall\<close> does with a packet.  A chain is read rule by rule, the
  first match of a terminal action deciding (nftables' documented behaviour); \<open>egress\<close> composes
  the two hooks an outgoing packet passes, the redirect chain and then the filter chain, and
  \<open>ingress\<close> is the inbound one.
\<close>

section \<open>Packets\<close>

record packet =
  p_uid :: int
  p_gid :: int
  p_fam :: family
  p_src :: nat
  p_dst :: nat
  p_l4 :: string
  p_dport :: int
  p_oif_lo :: bool
  p_iif_lo :: bool
  p_ct :: string
  p_cgroup :: string

text \<open>
  What the sets hold beyond the elements they are declared with: the addresses dnsmasq has put in
  them, the accounts with a captive-portal window, and the cgroups of the Syncthing services.
\<close>

record kernel =
  resolved :: "string \<Rightarrow> family \<Rightarrow> nat \<Rightarrow> bool"
  captive_now :: "int \<Rightarrow> bool"
  cgroup_in :: "string \<Rightarrow> string \<Rightarrow> bool"

fun elem_has :: "elem \<Rightarrow> int \<Rightarrow> bool" where
  "elem_has (One i) s \<longleftrightarrow> s = i"
| "elem_has (Span i j) s \<longleftrightarrow> i \<le> s \<and> s \<le> j"

definition has_any :: "elem list \<Rightarrow> int \<Rightarrow> bool" where
  "has_any es s \<longleftrightarrow> list_ex (\<lambda>e. elem_has e s) es"

fun in_ports :: "ports \<Rightarrow> int \<Rightarrow> bool" where
  "in_ports (Port n) d \<longleftrightarrow> d = n"
| "in_ports (Ports ns) d \<longleftrightarrow> d \<in> set ns"
| "in_ports (Not_ports ns) d \<longleftrightarrow> d \<notin> set ns"
| "in_ports (From n) d \<longleftrightarrow> n \<le> d"

definition in_text :: "family \<Rightarrow> nat \<Rightarrow> string \<Rightarrow> bool" where
  "in_text f a s = (case ip_network s of None \<Rightarrow> False | Some n \<Rightarrow> in_net f a n)"

definition in_set_named :: "kernel \<Rightarrow> set_decl list \<Rightarrow> string \<Rightarrow> family \<Rightarrow> nat \<Rightarrow> bool" where
  "in_set_named k ss n f a \<longleftrightarrow>
     resolved k n f a \<or> list_ex (\<lambda>d. set_name d = n \<and> list_ex (in_text f a) (set_elements d)) ss"

fun in_target :: "kernel \<Rightarrow> set_decl list \<Rightarrow> family \<Rightarrow> nat \<Rightarrow> target \<Rightarrow> bool" where
  "in_target k ss f a (Net_of s) = in_text f a s"
| "in_target k ss f a (Nets_of xs) = list_ex (in_text f a) xs"
| "in_target k ss f a (Set_of n) = in_set_named k ss n f a"

fun matches :: "kernel \<Rightarrow> set_decl list \<Rightarrow> packet \<Rightarrow> match_expr \<Rightarrow> bool" where
  "matches k ss q (Skuid es) \<longleftrightarrow> has_any es (p_uid q)"
| "matches k ss q (Skuids es) \<longleftrightarrow> has_any es (p_uid q)"
| "matches k ss q (Not_skuid es) \<longleftrightarrow> \<not> has_any es (p_uid q)"
| "matches k ss q (Skuid_ge i) \<longleftrightarrow> i \<le> p_uid q"
| "matches k ss q (Skuid_lt i) \<longleftrightarrow> p_uid q < i"
| "matches k ss q Captive \<longleftrightarrow> captive_now k (p_uid q)"
| "matches k ss q (Skgid g) \<longleftrightarrow> p_gid q = g"
| "matches k ss q (Dport proto ps) \<longleftrightarrow> p_l4 q = proto \<and> in_ports ps (p_dport q)"
| "matches k ss q (Daddr f t) \<longleftrightarrow> p_fam q = f \<and> in_target k ss f (p_dst q) t"
| "matches k ss q (Saddr f t) \<longleftrightarrow> p_fam q = f \<and> in_target k ss f (p_src q) t"
| "matches k ss q Oif_lo \<longleftrightarrow> p_oif_lo q"
| "matches k ss q Iif_lo \<longleftrightarrow> p_iif_lo q"
| "matches k ss q (Ct cs) \<longleftrightarrow> p_ct q \<in> set cs"
| "matches k ss q (L4proto ps) \<longleftrightarrow> p_l4 q \<in> set ps"
| "matches k ss q (Cgroup n) \<longleftrightarrow> cgroup_in k n (p_cgroup q)"

definition applies :: "kernel \<Rightarrow> set_decl list \<Rightarrow> packet \<Rightarrow> rule \<Rightarrow> bool" where
  "applies k ss q r \<longleftrightarrow> list_all (matches k ss q) (fst r)"

section \<open>Chains\<close>

datatype verdict = Accepted | Rejected | Dropped | Redirected int | Returned | Fell

text \<open>
  The rules of a chain from the first, with at most \<open>n\<close> jumps inside one another.  \<open>None\<close> is a jump
  deeper than that, or to a chain that is not there.
\<close>

definition after_jump :: "verdict option \<Rightarrow> verdict option \<Rightarrow> verdict option" where
  "after_jump v rest =
     (case v of None \<Rightarrow> None | Some Fell \<Rightarrow> rest | Some Returned \<Rightarrow> rest | Some w \<Rightarrow> Some w)"

fun dispatch :: "(elem \<times> string) list \<Rightarrow> int \<Rightarrow> string option" where
  "dispatch [] s = None"
| "dispatch ((e, c) # es) s = (if elem_has e s then Some c else dispatch es s)"

function run :: "kernel \<Rightarrow> ruleset \<Rightarrow> packet \<Rightarrow> nat \<Rightarrow> rule list \<Rightarrow> verdict option" where
  "run k r q n [] = Some Fell"
| "run k r q n ((ms, a) # rs) =
     (if \<not> applies k (sets r) q (ms, a) then run k r q n rs
      else case a of
        Accept \<Rightarrow> Some Accepted
      | Reject \<Rightarrow> Some Rejected
      | Drop \<Rightarrow> Some Dropped
      | Return \<Rightarrow> Some Returned
      | Redirect port \<Rightarrow> Some (Redirected port)
      | Jump c \<Rightarrow> (case (n, map_of (chains r) c) of
            (Suc m, Some d) \<Rightarrow> after_jump (run k r q m (chain_rules d)) (run k r q n rs)
          | _ \<Rightarrow> None)
      | Vmap es \<Rightarrow> (case dispatch es (p_uid q) of
            None \<Rightarrow> run k r q n rs
          | Some c \<Rightarrow> (case (n, map_of (chains r) c) of
              (Suc m, Some d) \<Rightarrow> after_jump (run k r q m (chain_rules d)) (run k r q n rs)
            | _ \<Rightarrow> None)))"
  by pat_completeness auto

termination
  by (relation "measures [\<lambda>(k, r, q, n, rs). n, \<lambda>(k, r, q, n, rs). length rs]") auto

declare run.simps(2) [simp del]

text \<open>The kernel refuses to load a table whose jumps nest deeper than this.\<close>

definition JUMP_DEPTH :: nat where "JUMP_DEPTH = 16"

definition base_chain :: "kernel \<Rightarrow> ruleset \<Rightarrow> packet \<Rightarrow> string \<Rightarrow> verdict option" where
  "base_chain k r q c =
     (case map_of (chains r) c of
        None \<Rightarrow> None
      | Some d \<Rightarrow> (case run k r q JUMP_DEPTH (chain_rules d) of
            None \<Rightarrow> None
          | Some Fell \<Rightarrow> Some (if default_accept d then Accepted else Dropped)
          | Some Returned \<Rightarrow> Some (if default_accept d then Accepted else Dropped)
          | Some v \<Rightarrow> Some v))"

section \<open>The hooks\<close>

definition loopback_address :: "family \<Rightarrow> nat" where
  "loopback_address f = (case f of IPv4 \<Rightarrow> 2130706433 | IPv6 \<Rightarrow> 1)"

text \<open>\<open>redirect to :port\<close> on the output hook: this machine, the route's interface still the first.\<close>

definition redirected :: "packet \<Rightarrow> int \<Rightarrow> packet" where
  "redirected q port = q\<lparr>p_dst := loopback_address (p_fam q), p_dport := port\<rparr>"

datatype outcome = Sent packet | Refused

definition filtered_out :: "kernel \<Rightarrow> ruleset \<Rightarrow> packet \<Rightarrow> outcome option" where
  "filtered_out k r q =
     map_option (\<lambda>v. if v = Accepted then Sent q else Refused) (base_chain k r q ''output'')"

text \<open>The redirect chain sees the first packet of a connection only.\<close>

definition egress :: "kernel \<Rightarrow> ruleset \<Rightarrow> packet \<Rightarrow> outcome option" where
  "egress k r q =
     (if p_ct q \<noteq> ''new'' then filtered_out k r q
      else case base_chain k r q ''dns_redirect'' of
        None \<Rightarrow> None
      | Some Accepted \<Rightarrow> filtered_out k r q
      | Some (Redirected port) \<Rightarrow> filtered_out k r (redirected q port)
      | Some _ \<Rightarrow> Some Refused)"

definition ingress :: "kernel \<Rightarrow> ruleset \<Rightarrow> packet \<Rightarrow> outcome option" where
  "ingress k r q =
     map_option (\<lambda>v. if v = Accepted then Sent q else Refused) (base_chain k r q ''input'')"

section \<open>Reading a chain\<close>

lemma run_Cons_skip [simp]:
  "\<not> applies k (sets r) q (ms, a) \<Longrightarrow> run k r q n ((ms, a) # rs) = run k r q n rs"
  by (simp add: run.simps)

lemma run_skip: "(\<And>rl. rl \<in> set rs \<Longrightarrow> \<not> applies k (sets r) q rl) \<Longrightarrow> run k r q n rs = Some Fell"
  by (induction rs) auto

definition or_else :: "verdict option \<Rightarrow> verdict option \<Rightarrow> verdict option" where
  "or_else v w = (case v of Some Fell \<Rightarrow> w | _ \<Rightarrow> v)"

lemma or_else_simps [simp]:
  "or_else None w = None" "or_else (Some Fell) w = w" "c \<noteq> Fell \<Longrightarrow> or_else (Some c) w = Some c"
  "or_else v (Some Fell) = v"
  by (auto simp: or_else_def split: option.split verdict.split)

lemma after_jump_or_else: "after_jump v (or_else a b) = or_else (after_jump v a) b"
  by (auto simp: after_jump_def or_else_def split: option.split verdict.split)

lemma run_append: "run k r q n (rs @ rs') = or_else (run k r q n rs) (run k r q n rs')"
proof (induction rs)
  case (Cons rl rs)
  obtain ms a where rl: "rl = (ms, a)" by (cases rl)
  show ?case
    by (cases a; cases n)
       (insert Cons.IH, auto simp: rl run.simps after_jump_or_else split: option.split)
qed simp

lemma run_append_skip:
  "(\<And>rl. rl \<in> set rs \<Longrightarrow> \<not> applies k (sets r) q rl) \<Longrightarrow> run k r q n (rs @ rs') = run k r q n rs'"
  by (simp add: run_append run_skip)

section \<open>The networks the rules name\<close>

lemma replicate_numeral: "replicate (numeral n) x = x # replicate (pred_numeral n) x"
  by (simp add: numeral_eq_Suc)

lemmas net_parse = ip_network_def parse_net4_def parse_net6_def mk_net_def parse_ipv4_def
  parse_octet_def parse_mask4_def parse_prefix_def is_digits_def nat_of_digits_def netmask_def
  drop_scope_def parse_ipv6_def ipv6_parts_def empty_parts_def parse_hextet_def hex_value_def
  hextets_value_def upt_rec replicate_numeral

lemma network_texts [simp]:
  "ip_network ''127.0.0.0/8'' = Some (Net IPv4 2130706432 8)"
  "ip_network ''127.0.0.1'' = Some (Net IPv4 2130706433 32)"
  "ip_network ''::1'' = Some (Net IPv6 1 128)"
  "ip_network ''10.0.0.0/8'' = Some (Net IPv4 167772160 8)"
  "ip_network ''172.16.0.0/12'' = Some (Net IPv4 2886729728 12)"
  "ip_network ''192.168.0.0/16'' = Some (Net IPv4 3232235520 16)"
  "ip_network ''169.254.0.0/16'' = Some (Net IPv4 2851995648 16)"
  "ip_network ''fc00::/7'' = Some (Net IPv6 (252 * 2 ^ 120) 7)"
  "ip_network ''fe80::/10'' = Some (Net IPv6 (65152 * 2 ^ 112) 10)"
  "ip_network ''224.0.0.251'' = Some (Net IPv4 3758096635 32)"
  "ip_network ''ff02::fb'' = Some (Net IPv6 (65282 * 2 ^ 112 + 251) 128)"
  by (simp_all add: net_parse Let_def)

lemma in_loopback [simp]:
  "in_text f a ''127.0.0.0/8'' \<longleftrightarrow> f = IPv4 \<and> a div 16777216 = 127"
  "in_text f a ''::1'' \<longleftrightarrow> f = IPv6 \<and> a = 1"
  by (cases f; simp add: in_text_def in_net_def)+

section \<open>The account of a packet\<close>

definition accounts_of :: "nft_inputs \<Rightarrow> policy \<Rightarrow> int \<Rightarrow> user_policy list" where
  "accounts_of x p s = filter (\<lambda>u. has_any (owner x (uid u)) s) (effective_users p)"

definition ordinary :: "nft_inputs \<Rightarrow> kernel \<Rightarrow> packet \<Rightarrow> bool" where
  "ordinary x k q \<longleftrightarrow> p_ct q = ''new'' \<and> UID_MIN \<le> p_uid q \<and> \<not> captive_now k (p_uid q)
                      \<and> build_gid x \<noteq> Some (p_gid q)"

definition on_loopback :: "packet \<Rightarrow> bool" where
  "on_loopback q \<longleftrightarrow> p_oif_lo q \<or>
     (case p_fam q of IPv4 \<Rightarrow> p_dst q div 16777216 = 127 | IPv6 \<Rightarrow> p_dst q = 1)"

definition services_below :: "nft_inputs \<Rightarrow> bool" where
  "services_below x \<longleftrightarrow> (\<forall>i \<in> set ([dns_uid x] @ (case mitm_uid x of None \<Rightarrow> [] | Some i \<Rightarrow> [i])
     @ (case search_uid x of None \<Rightarrow> [] | Some i \<Rightarrow> [i])). i < UID_MIN)"

definition dns_port :: "user_policy list \<Rightarrow> int" where
  "dns_port us =
     (if \<exists>u \<in> set us. mode u = ''dnsfilter'' then DNSFILTER_DNS_PORT
      else if \<exists>u \<in> set us. mode u \<in> set UNFILTERED_MODES then OPEN_DNS_PORT else 53)"

lemma has_any_simps [simp]:
  "has_any [] s = False" "has_any (e # es) s \<longleftrightarrow> elem_has e s \<or> has_any es s"
  "has_any (es @ es') s \<longleftrightarrow> has_any es s \<or> has_any es' s"
  by (auto simp: has_any_def)

lemma has_any_owners: "has_any (owners x is) s \<longleftrightarrow> (\<exists>i \<in> set is. has_any (owner x i) s)"
  by (induction "is") (auto simp: owners_def)

lemma has_any_uids_where:
  "has_any (owners x (uids_where p P)) s \<longleftrightarrow> (\<exists>u \<in> set (accounts_of x p s). P u)"
  by (auto simp: has_any_owners uids_where_def accounts_of_def)

lemma exempt_below:
  "services_below x \<Longrightarrow> UID_MIN \<le> s \<Longrightarrow> \<not> has_any (exempt x) s"
  by (auto simp: services_below_def exempt_def UID_MIN_def split: option.splits)

section \<open>The redirect chain\<close>

lemma applies_simps [simp]:
  "applies k ss q ([], a)" "applies k ss q (m # ms, a) \<longleftrightarrow> matches k ss q m \<and> applies k ss q (ms, a)"
  by (auto simp: applies_def)

lemma renderE:
  assumes "render x p = Inr r"
  obtains entries parts where "vmap_entries x p = Inr entries" "ssh_rules x p = Inr parts"
    "r = ruleset_of x p entries parts"
  using assms by (cases "ssh_rules x p") (auto simp: render_def elim!: bind_InrE)

lemma ruleset_chains [simp]:
  "sets (ruleset_of x p es parts) = table_sets x (fst parts)"
  "map_of (chains (ruleset_of x p es parts)) ''dns_redirect'' =
     Some \<lparr>hook = ''nat hook output priority dstnat'', default_accept = True,
           chain_rules = chain_dns_redirect x p (snd (snd parts))\<rparr>"
  "map_of (chains (ruleset_of x p es parts)) ''output'' =
     Some \<lparr>hook = ''filter hook output priority filter'', default_accept = True,
           chain_rules = chain_output x p (fst (snd parts)) es\<rparr>"
  "map_of (chains (ruleset_of x p es parts)) ''input'' =
     Some \<lparr>hook = ''filter hook input priority filter'', default_accept = False,
           chain_rules = chain_input x p\<rparr>"
  "map_of (chains (ruleset_of x p es parts)) ''local_services'' = Some (regular local_services)"
  "map_of (chains (ruleset_of x p es parts)) ''mode_none'' = Some (regular mode_none)"
  "map_of (chains (ruleset_of x p es parts)) ''mode_whitelist'' = Some (regular mode_whitelist)"
  "map_of (chains (ruleset_of x p es parts)) ''nix_build'' = Some (regular nix_build)"
  "map_of (chains (ruleset_of x p es parts)) ''mode_dnsfilter'' = Some (regular mode_dnsfilter)"
  "map_of (chains (ruleset_of x p es parts)) ''mode_filtered'' = Some (regular mode_filtered)"
  "map_of (chains (ruleset_of x p es parts)) ''mode_unfiltered'' = Some (regular mode_unfiltered)"
  "map_of (chains (ruleset_of x p es parts)) ''evasion_block'' = Some (regular evasion_block)"
  by (simp_all add: ruleset_of_def)

lemma regular_rules [simp]: "chain_rules (regular rs) = rs" "default_accept (regular rs)"
  by (simp_all add: regular_def)

lemma devenv_redirect_skip:
  "\<not> on_loopback q \<Longrightarrow> rl \<in> set (devenv_redirect x p) \<Longrightarrow> \<not> applies k ss q rl"
  by (auto simp: devenv_redirect_def on_loopback_def split: prod.splits)

lemma build_redirect_skip:
  "ordinary x k q \<Longrightarrow> rl \<in> set (build_redirect x) \<Longrightarrow> \<not> applies k ss q rl"
  by (auto simp: build_redirect_def ordinary_def split: option.splits)

lemma run_dns_to:
  "run k r q n (dns_to x is port) =
     (if has_any (owners x is) (p_uid q) \<and> p_l4 q \<in> {''udp'', ''tcp''} \<and> p_dport q = 53
      then Some (Redirected port) else Some Fell)"
proof (cases "is = []")
  case True
  then show ?thesis by (simp add: dns_to_def owners_def)
next
  case False
  then show ?thesis by (auto simp: dns_to_def run.simps)
qed

lemma run_dns_redirect:
  assumes "ordinary x k q" "services_below x" "\<not> on_loopback q"
  shows "run k r q n (chain_dns_redirect x p sn) =
     (if p_l4 q \<in> {''udp'', ''tcp''} \<and> p_dport q = 53
      then Some (Redirected (dns_port (accounts_of x p (p_uid q))))
      else run k r q n (syncthing_nat p @ sn @ web_redirect x p))"
proof -
  have "run k r q n (devenv_redirect x p) = Some Fell" "run k r q n (build_redirect x) = Some Fell"
    using assms by (auto intro!: run_skip dest: devenv_redirect_skip build_redirect_skip)
  moreover have "\<not> has_any (exempt x) (p_uid q)"
    using assms exempt_below [of x "p_uid q"] by (auto simp: ordinary_def)
  ultimately show ?thesis
    using assms(3)
    by (auto simp: chain_dns_redirect_def run_append run_dns_to dnsfilter_dns_def open_dns_def
        unfiltered_uids_def has_any_uids_where dns_port_def run.simps on_loopback_def)
qed


lemma base_dns_redirect:
  assumes "render x p = Inr r" "ordinary x k q" "services_below x" "\<not> on_loopback q"
    and "p_l4 q \<in> {''udp'', ''tcp''}" "p_dport q = 53"
  shows "base_chain k r q ''dns_redirect'' =
           Some (Redirected (dns_port (accounts_of x p (p_uid q))))"
  by (rule renderE [OF assms(1)]) (use assms in \<open>simp add: base_chain_def run_dns_redirect\<close>)

section \<open>Proxy ports\<close>

definition inspected :: "policy \<Rightarrow> int list" where
  "inspected p = sort (map uid (filter (\<lambda>u. mode u \<in> set INSPECTED_MODES) (effective_users p)))"

lemma fold_ports:
  "map_of (fold (\<lambda>(k, i). dict_set i (b + int k)) (enumerate n is) d) i = Some v \<Longrightarrow>
     map_of d i = Some v \<or> (\<exists>j < length is. v = b + int (n + j) \<and> is ! j = i)"
proof (induction "is" arbitrary: n d)
  case (Cons a "is")
  from Cons.IH [of "Suc n" "dict_set a (b + int n) d"] Cons.prems
  consider "map_of (dict_set a (b + int n) d) i = Some v"
    | j where "j < length is" "v = b + int (Suc n + j)" "is ! j = i"
    by auto
  then show ?case
  proof cases
    case 1
    then show ?thesis by (auto simp: map_of_dict_set split: if_splits)
  next
    case 2
    then have "Suc j < length (a # is)" "v = b + int (n + Suc j)" "(a # is) ! Suc j = i" by auto
    then show ?thesis by blast
  qed
qed simp

lemma fold_ports_dom:
  "i \<in> set is \<or> map_of d i \<noteq> None \<Longrightarrow>
     map_of (fold (\<lambda>(k, i). dict_set i (b + int k)) (enumerate n is) d) i \<noteq> None"
proof (induction "is" arbitrary: n d)
  case (Cons a "is")
  then have "i \<in> set is \<or> map_of (dict_set a (b + int n) d) i \<noteq> None"
    by (auto simp: map_of_dict_set)
  from Cons.IH [OF this] show ?case by simp
qed simp

lemma mitm_ports_inspected:
  "mitm_ports p = fold (\<lambda>(k, i). dict_set i (MITM_PORT_BASE + int k)) (enumerate 0 (inspected p)) []"
  by (simp add: mitm_ports_def inspected_def Let_def)

lemma mitm_port_SomeD:
  assumes "map_of (mitm_ports p) i = Some v"
  shows "\<exists>j < length (inspected p). v = MITM_PORT_BASE + int j \<and> inspected p ! j = i"
  using fold_ports [OF assms [unfolded mitm_ports_inspected]] by simp

lemma mitm_port_exists: "i \<in> set (inspected p) \<Longrightarrow> map_of (mitm_ports p) i \<noteq> None"
  unfolding mitm_ports_inspected by (rule fold_ports_dom) simp

lemma mitm_port_iff: "map_of (mitm_ports p) i \<noteq> None \<longleftrightarrow> i \<in> set (inspected p)"
proof
  assume "map_of (mitm_ports p) i \<noteq> None"
  then obtain v where "map_of (mitm_ports p) i = Some v" by auto
  from mitm_port_SomeD [OF this] show "i \<in> set (inspected p)" by auto
qed (rule mitm_port_exists)

lemma run_redirects:
  assumes "\<And>i port. (i, port) \<in> set d \<Longrightarrow> P i \<longleftrightarrow> i = j"
    and "\<And>i port. applies k (sets r) q (f i, Redirect port) \<longleftrightarrow> P i \<and> Q i"
  shows "run k r q n (map (\<lambda>(i, port). (f i, Redirect port)) d) =
     (if Q j then (case map_of d j of None \<Rightarrow> Some Fell | Some port \<Rightarrow> Some (Redirected port))
      else Some Fell)"
  using assms(1)
proof (induction d)
  case (Cons a d)
  obtain i port where a: "a = (i, port)" by (cases a)
  have "P i \<longleftrightarrow> i = j" using Cons.prems by (auto simp: a)
  moreover have "run k r q n (map (\<lambda>(i, port). (f i, Redirect port)) d) =
     (if Q j then (case map_of d j of None \<Rightarrow> Some Fell | Some port \<Rightarrow> Some (Redirected port))
      else Some Fell)"
    by (rule Cons.IH) (use Cons.prems in auto)
  ultimately show ?case by (simp add: a run.simps assms(2))
qed simp

lemma accounts_ofD:
  "accounts_of x p s = [u] \<Longrightarrow> v \<in> set (effective_users p) \<Longrightarrow> has_any (owner x (uid v)) s \<Longrightarrow> v = u"
  "accounts_of x p s = [u] \<Longrightarrow> u \<in> set (effective_users p) \<and> has_any (owner x (uid u)) s"
proof -
  assume a: "accounts_of x p s = [u]"
  then have s: "set (accounts_of x p s) = {u}" by simp
  show "u \<in> set (effective_users p) \<and> has_any (owner x (uid u)) s"
    using s by (auto simp: accounts_of_def)
  assume "v \<in> set (effective_users p)" "has_any (owner x (uid v)) s"
  then show "v = u" using s by (auto simp: accounts_of_def)
qed

lemma extras_of_account:
  assumes "accounts_of x p s = [u]"
  shows "extras_of p (uid u) = extra_ports u"
proof -
  have "find (\<lambda>v. uid v = uid u) (rev (effective_users p)) \<noteq> None"
    using accounts_ofD(2) [OF assms] by (auto simp: find_None_iff)
  then obtain v where v: "find (\<lambda>v. uid v = uid u) (rev (effective_users p)) = Some v" by auto
  then have "v \<in> set (effective_users p)" "uid v = uid u"
    using find_SomeD [OF v] by auto
  then have "v = u"
    using accounts_ofD(1) [OF assms, of v] accounts_ofD(2) [OF assms] by simp
  then show ?thesis using v by (simp add: extras_of_def)
qed

definition unread_ports :: "user_policy \<Rightarrow> int list" where
  "unread_ports u = [53] @ DIRECT_TCP_PORTS @ SERVER_FIRST_TCP_PORTS @ OUT_TCP @ extra_ports u"

lemma run_web_redirect:
  assumes a: "accounts_of x p (p_uid q) = [u]"
  shows "run k r q n (web_redirect x p) =
     (if mitm_uid x \<noteq> None \<and> mode u \<in> set INSPECTED_MODES \<and> p_l4 q = ''tcp''
         \<and> p_dport q \<notin> set (unread_ports u)
      then Some (Redirected (the (map_of (mitm_ports p) (uid u)))) else Some Fell)"
proof (cases "mitm_uid x = None")
  case True
  then show ?thesis by (simp add: web_redirect_def)
next
  case False
  have ins: "uid v \<in> set (inspected p) \<longleftrightarrow> mode v \<in> set INSPECTED_MODES"
    if "v \<in> set (effective_users p)" "has_any (owner x (uid v)) (p_uid q)" for v
  proof -
    have "w = v" if "w \<in> set (effective_users p)" "uid w = uid v" for w
      using accounts_ofD(1) [OF a, of w] accounts_ofD(1) [OF a, of v] that
        \<open>v \<in> set (effective_users p)\<close> \<open>has_any (owner x (uid v)) (p_uid q)\<close> by simp
    then show ?thesis using that by (auto simp: inspected_def)
  qed
  have key: "has_any (owner x i) (p_uid q) \<longleftrightarrow> i = uid u" if "(i, port) \<in> set (mitm_ports p)" for i port
  proof -
    have "map_of (mitm_ports p) i \<noteq> None" using weak_map_of_SomeI [OF that] by simp
    then have "i \<in> set (inspected p)" by (simp add: mitm_port_iff del: not_None_eq)
    then obtain v where "v \<in> set (effective_users p)" "uid v = i" by (auto simp: inspected_def)
    then show ?thesis using accounts_ofD(1) [OF a, of v] accounts_ofD(2) [OF a] by blast
  qed
  have u: "u \<in> set (effective_users p)" "has_any (owner x (uid u)) (p_uid q)"
    using accounts_ofD(2) [OF a] by auto
  have dom: "map_of (mitm_ports p) (uid u) \<noteq> None \<longleftrightarrow> mode u \<in> set INSPECTED_MODES"
    using ins [OF u] by (simp add: mitm_port_iff del: not_None_eq)
  have "run k r q n (web_redirect x p) =
     (if p_l4 q = ''tcp'' \<and> p_dport q \<notin> set (unread_ports u)
      then (case map_of (mitm_ports p) (uid u) of None \<Rightarrow> Some Fell | Some port \<Rightarrow> Some (Redirected port))
      else Some Fell)"
  proof -
    have "run k r q n (web_redirect x p) =
       run k r q n (map (\<lambda>(i, port).
         ([Skuid (owner x i),
           Dport ''tcp'' (Not_ports (port_set
             ([53] @ DIRECT_TCP_PORTS @ SERVER_FIRST_TCP_PORTS @ OUT_TCP @ extras_of p i)))],
          Redirect port)) (mitm_ports p))"
      using False by (simp only: web_redirect_def if_False)
    also have "\<dots> = (if p_l4 q = ''tcp'' \<and> p_dport q \<notin> set (unread_ports u)
      then (case map_of (mitm_ports p) (uid u) of None \<Rightarrow> Some Fell | Some port \<Rightarrow> Some (Redirected port))
      else Some Fell)"
      by (subst run_redirects [where j = "uid u" and
            P = "\<lambda>i. has_any (owner x i) (p_uid q)" and
            Q = "\<lambda>i. p_l4 q = ''tcp'' \<and> p_dport q \<notin> set ([53] @ DIRECT_TCP_PORTS
                      @ SERVER_FIRST_TCP_PORTS @ OUT_TCP @ extras_of p i)"])
         (use key extras_of_account [OF a] in \<open>auto simp: port_set_def sorted_set_def unread_ports_def\<close>)
    finally show ?thesis .
  qed
  then show ?thesis using False dom by (auto split: option.splits)
qed


section \<open>What an account has been granted\<close>

definition to_either :: "kernel \<Rightarrow> set_decl list \<Rightarrow> string \<Rightarrow> packet \<Rightarrow> bool" where
  "to_either k ss n q \<longleftrightarrow>
     in_set_named k ss (n @ (if p_fam q = IPv4 then ''4'' else ''6'')) (p_fam q) (p_dst q)"

definition to_lan :: "kernel \<Rightarrow> set_decl list \<Rightarrow> packet \<Rightarrow> bool" where
  "to_lan k ss q \<longleftrightarrow> p_fam q = IPv4 \<and> in_set_named k ss ''lan4'' IPv4 (p_dst q)"

definition local_service :: "kernel \<Rightarrow> set_decl list \<Rightarrow> packet \<Rightarrow> bool" where
  "local_service k ss q \<longleftrightarrow>
     p_l4 q = ''udp'' \<and> p_dport q \<in> {67, 68}
     \<or> p_fam q = IPv4 \<and> in_text IPv4 (p_dst q) ''224.0.0.251'' \<and> p_l4 q = ''udp'' \<and> p_dport q = 5353
     \<or> p_fam q = IPv6 \<and> in_text IPv6 (p_dst q) ''ff02::fb'' \<and> p_l4 q = ''udp'' \<and> p_dport q = 5353
     \<or> to_lan k ss q \<and> p_l4 q = ''udp'' \<and> p_dport q = 5353
     \<or> to_lan k ss q \<and> p_l4 q = ''tcp'' \<and> p_dport q \<in> {631, 9100}"

definition ssh_granted :: "kernel \<Rightarrow> set_decl list \<Rightarrow> user_policy \<Rightarrow> packet \<Rightarrow> bool" where
  "ssh_granted k ss u q \<longleftrightarrow> mode u \<noteq> ''none'' \<and> p_l4 q = ''tcp'' \<and>
     (if ssh_anywhere u then p_dport q = SSH_PORT
      else (\<exists>h \<in> set (ssh_hosts u). \<exists>m. ssh_entry h = Inr (m, p_dport q))
           \<and> (case ssh_set_names (uid u) (p_dport q) of (s4, s6) \<Rightarrow>
                in_set_named k ss (if p_fam q = IPv4 then s4 else s6) (p_fam q) (p_dst q)))"

definition syncthing_granted ::
    "kernel \<Rightarrow> set_decl list \<Rightarrow> policy \<Rightarrow> user_policy \<Rightarrow> packet \<Rightarrow> bool" where
  "syncthing_granted k ss p u q \<longleftrightarrow> u \<in> set (syncthing_users p) \<and> cgroup_in k SET_OUT (p_cgroup q) \<and>
     (p_l4 q = ''tcp'' \<and> (p_dport q \<in> set OUT_TCP \<or> p_dport q = 443 \<and> to_either k ss ''st'' q)
      \<or> p_l4 q = ''udp'' \<and> p_dport q \<in> set OUT_UDP)"

definition granted :: "kernel \<Rightarrow> set_decl list \<Rightarrow> policy \<Rightarrow> user_policy \<Rightarrow> packet \<Rightarrow> bool" where
  "granted k ss p u q \<longleftrightarrow>
     p_l4 q = ''tcp'' \<and> mode u \<in> {''filtered'', ''dnsfilter''} \<and> p_dport q \<in> set (extra_ports u)
     \<or> p_l4 q = ''tcp'' \<and> mode u \<noteq> ''none'' \<and> developer_tools u \<and> p_dport q = GIT_SSH_PORT
        \<and> to_either k ss ''git'' q
     \<or> ssh_granted k ss u q \<or> syncthing_granted k ss p u q"

definition evades :: "kernel \<Rightarrow> set_decl list \<Rightarrow> packet \<Rightarrow> bool" where
  "evades k ss q \<longleftrightarrow> p_l4 q \<in> {''tcp'', ''udp''} \<and> p_dport q = 853
     \<or> p_l4 q = ''udp'' \<and> p_dport q = 443
     \<or> p_fam q = IPv4 \<and> in_set_named k ss ''doh4'' IPv4 (p_dst q)"

definition is_icmp :: "packet \<Rightarrow> bool" where
  "is_icmp q \<longleftrightarrow> p_l4 q \<in> {''icmp'', ''ipv6-icmp''}"

definition udp_allowed :: "user_policy \<Rightarrow> packet \<Rightarrow> bool" where
  "udp_allowed u q \<longleftrightarrow> p_l4 q = ''udp'' \<and>
     (p_dport q \<in> set UDP_LOW_ALLOWED \<or> UDP_HIGH \<le> p_dport q \<and> video_calls u)"

text \<open>What the account's mode lets out directly, not through the proxy.\<close>

definition mode_allows :: "kernel \<Rightarrow> set_decl list \<Rightarrow> user_policy \<Rightarrow> packet \<Rightarrow> bool" where
  "mode_allows k ss u q \<longleftrightarrow> \<not> evades k ss q \<and>
     (if mode u = ''whitelist''
      then p_l4 q = ''tcp'' \<and> p_dport q \<in> {80, 443} \<and> (to_either k ss ''wl'' q \<or> to_either k ss ''sys'' q)
      else if mode u = ''dnsfilter''
      then is_icmp q
        \<or> \<not> to_lan k ss q \<and> \<not> (p_fam q = IPv6 \<and> list_ex (in_text IPv6 (p_dst q)) LAN6)
          \<and> (p_l4 q = ''tcp'' \<and> p_dport q \<in> set ([80, 443] @ DIRECT_TCP_PORTS)
               \<and> (\<exists>n \<in> {''dns'', ''wl'', ''sys'', ''git'', ''st''}. to_either k ss n q)
             \<or> udp_allowed u q)
      else if mode u = ''filtered''
      then is_icmp q \<or> p_l4 q = ''tcp'' \<and> p_dport q \<in> set DIRECT_TCP_PORTS \<or> udp_allowed u q
      else False)"

section \<open>Lists of accepting and refusing rules\<close>

lemma run_simple:
  assumes "\<And>rl. rl \<in> set rs \<Longrightarrow> snd rl \<in> {Accept, Reject}"
  obtains (accepted) rl where "run k r q n rs = Some Accepted" "rl \<in> set rs" "snd rl = Accept"
      "applies k (sets r) q rl"
    | (rejected) rl where "run k r q n rs = Some Rejected" "rl \<in> set rs" "snd rl = Reject"
      "applies k (sets r) q rl"
    | (fell) "run k r q n rs = Some Fell" "\<And>rl. rl \<in> set rs \<Longrightarrow> \<not> applies k (sets r) q rl"
proof -
  have "(\<exists>rl \<in> set rs. run k r q n rs = Some Accepted \<and> snd rl = Accept \<and> applies k (sets r) q rl)
      \<or> (\<exists>rl \<in> set rs. run k r q n rs = Some Rejected \<and> snd rl = Reject \<and> applies k (sets r) q rl)
      \<or> run k r q n rs = Some Fell \<and> (\<forall>rl \<in> set rs. \<not> applies k (sets r) q rl)"
    using assms
  proof (induction rs)
    case (Cons a rs)
    obtain ms b where a: "a = (ms, b)" by (cases a)
    have b: "b = Accept \<or> b = Reject" using Cons.prems [of a] by (auto simp: a)
    show ?case
    proof (cases "applies k (sets r) q a")
      case True
      then show ?thesis using b by (auto simp: a run.simps)
    next
      case False
      then have "run k r q n (a # rs) = run k r q n rs" by (simp add: a)
      then show ?thesis using Cons False by auto
    qed
  qed simp
  then show ?thesis using that by blast
qed

section \<open>The rules of one account\<close>

lemma map_sum_InrE:
  "map_sum h f r = Inr y \<Longrightarrow> (\<And>z. r = Inr z \<Longrightarrow> y = f z \<Longrightarrow> thesis) \<Longrightarrow> thesis"
  by (cases r) auto

lemma map_result_memD:
  "map_result f xs = Inr ys \<Longrightarrow> y \<in> set ys \<Longrightarrow> \<exists>x \<in> set xs. f x = Inr y"
  by (auto simp: map_result_Inr_iff dest: list_all2_in_right)

lemma ssh_ports_memD:
  "ssh_ports hs = Inr ps \<Longrightarrow> port \<in> set ps \<Longrightarrow> \<exists>h \<in> set hs. \<exists>m. ssh_entry h = Inr (m, port)"
  by (fastforce simp: ssh_ports_def elim!: map_sum_InrE dest: map_result_memD)

lemma join_partsD:
  "join_parts ps = (ds, out, rn) \<Longrightarrow> rl \<in> set out \<union> set rn \<Longrightarrow>
     \<exists>ds' out' rn'. (ds', out', rn') \<in> set ps \<and> rl \<in> set out' \<union> set rn'"
  by (fastforce simp: join_parts_def)

lemma ssh_one_portD:
  "ssh_one_port x u port = Inr (ds, out, rn) \<Longrightarrow> rl \<in> set out \<union> set rn \<Longrightarrow>
     rl \<in> set (ssh_accept x (uid u) port)"
  by (auto simp: ssh_one_port_def elim!: map_sum_InrE split: if_splits prod.splits)

lemma ssh_accountD:
  assumes "ssh_account x u = Inr (ds, out, rn)" and "rl \<in> set out \<union> set rn"
  shows "mode u \<notin> set UNFILTERED_MODES" "mode u \<noteq> ''none''"
    and "if ssh_anywhere u then rl = ([Skuid (owner x (uid u)), Dport ''tcp'' (Port SSH_PORT)], Accept)
         else \<exists>port. (\<exists>h \<in> set (ssh_hosts u). \<exists>m. ssh_entry h = Inr (m, port))
                     \<and> rl \<in> set (ssh_accept x (uid u) port)"
proof -
  show m: "mode u \<notin> set UNFILTERED_MODES" "mode u \<noteq> ''none''"
    using assms by (auto simp: ssh_account_def)
  show "if ssh_anywhere u then rl = ([Skuid (owner x (uid u)), Dport ''tcp'' (Port SSH_PORT)], Accept)
         else \<exists>port. (\<exists>h \<in> set (ssh_hosts u). \<exists>m. ssh_entry h = Inr (m, port))
                     \<and> rl \<in> set (ssh_accept x (uid u) port)"
  proof (cases "ssh_anywhere u")
    case True
    then show ?thesis using assms m by (auto simp: ssh_account_def)
  next
    case False
    then obtain ps parts where ps: "ssh_ports (ssh_hosts u) = Inr ps"
      and parts: "map_result (ssh_one_port x u) ps = Inr parts" "join_parts parts = (ds, out, rn)"
      using assms(1) m by (auto simp: ssh_account_def elim!: bind_InrE map_sum_InrE)
    from join_partsD [OF parts(2) assms(2)] obtain ds' out' rn'
      where d: "(ds', out', rn') \<in> set parts" "rl \<in> set out' \<union> set rn'" by blast
    from map_result_memD [OF parts(1) d(1)] obtain port
      where "port \<in> set ps" "ssh_one_port x u port = Inr (ds', out', rn')" by blast
    then show ?thesis
      using False ssh_ports_memD [OF ps, of port] ssh_one_portD [OF _ d(2), of x u port ds'] by auto
  qed
qed

lemma ssh_rulesD:
  assumes "ssh_rules x p = Inr (ds, out, rn)" and "rl \<in> set out \<union> set rn"
  obtains u ds' out' rn' where "u \<in> set (effective_users p)"
    "ssh_account x u = Inr (ds', out', rn')" "rl \<in> set out' \<union> set rn'"
proof -
  obtain parts where parts: "map_result (ssh_account x) (by_uid (effective_users p)) = Inr parts"
      "join_parts parts = (ds, out, rn)"
    using assms(1) by (auto simp: ssh_rules_def elim!: map_sum_InrE)
  from join_partsD [OF parts(2) assms(2)] obtain ds' out' rn'
    where d: "(ds', out', rn') \<in> set parts" "rl \<in> set out' \<union> set rn'" by blast
  from map_result_memD [OF parts(1) d(1)] d(2) that show ?thesis by (auto simp: by_uid_def)
qed

lemma ssh_rule_granted:
  assumes "ssh_rules x p = Inr (ds, out, rn)" and "rl \<in> set out \<union> set rn"
    and "accounts_of x p (p_uid q) = [u]" and "applies k ss q rl"
  shows "snd rl = Accept \<and> ssh_granted k ss u q"
proof -
  obtain v ds' out' rn' where v: "v \<in> set (effective_users p)"
    "ssh_account x v = Inr (ds', out', rn')" "rl \<in> set out' \<union> set rn'"
    using ssh_rulesD [OF assms(1,2)] .
  note d = ssh_accountD [OF v(2,3)]
  show ?thesis
  proof (cases "ssh_anywhere v")
    case True
    then have rl: "rl = ([Skuid (owner x (uid v)), Dport ''tcp'' (Port SSH_PORT)], Accept)"
      using d(3) by simp
    then have "has_any (owner x (uid v)) (p_uid q)" using assms(4) by simp
    then have "v = u" using accounts_ofD(1) [OF assms(3) v(1)] by simp
    then show ?thesis using rl assms(4) d(2) True by (simp add: ssh_granted_def)
  next
    case False
    then obtain port h m where port: "h \<in> set (ssh_hosts v)" "ssh_entry h = Inr (m, port)"
      and rl: "rl \<in> set (ssh_accept x (uid v) port)" using d(3) by auto
    then have "has_any (owner x (uid v)) (p_uid q)"
      using assms(4) by (auto simp: ssh_accept_def split: prod.splits)
    then have "v = u" using accounts_ofD(1) [OF assms(3) v(1)] by simp
    moreover have "p_dport q = port" "p_l4 q = ''tcp''" "snd rl = Accept"
      "case ssh_set_names (uid v) port of (s4, s6) \<Rightarrow>
         in_set_named k ss (if p_fam q = IPv4 then s4 else s6) (p_fam q) (p_dst q)"
      using rl assms(4) by (auto simp: ssh_accept_def split: prod.splits)
    ultimately show ?thesis using d(2) False port unfolding ssh_granted_def by auto
  qed
qed

lemma ssh_rules_accept:
  assumes "ssh_rules x p = Inr (ds, out, rn)" and "rl \<in> set out \<union> set rn"
  shows "snd rl = Accept"
proof -
  obtain v ds' out' rn' where v: "v \<in> set (effective_users p)"
    "ssh_account x v = Inr (ds', out', rn')" "rl \<in> set out' \<union> set rn'"
    using ssh_rulesD [OF assms] .
  from ssh_accountD(3) [OF v(2,3)] show ?thesis
    by (auto simp: ssh_accept_def split: if_splits prod.splits)
qed

lemma st_matchD:
  assumes "list_all (matches k ss q) (st_match p)" "accounts_of x p (p_uid q) = [u]"
  shows "u \<in> set (syncthing_users p) \<and> cgroup_in k SET_OUT (p_cgroup q)"
proof -
  have "\<exists>v \<in> set (syncthing_users p). uid v = p_uid q" and c: "cgroup_in k SET_OUT (p_cgroup q)"
    using assms(1) by (auto simp: st_match_def has_any_def list_ex_iff by_uid_def)
  then obtain v where v: "v \<in> set (syncthing_users p)" "uid v = p_uid q" by blast
  then have "v \<in> set (effective_users p)"
    by (auto simp: syncthing_users_def effective_users_def split: if_splits)
  moreover have "has_any (owner x (uid v)) (p_uid q)" using v by (simp add: owner_def)
  ultimately have "v = u" using accounts_ofD(1) [OF assms(2)] by simp
  then show ?thesis using v c by simp
qed

lemma per_user_actions:
  assumes "ssh_rules x p = Inr (ds, out, rn)" "rl \<in> set (per_user x p out)"
  shows "snd rl \<in> {Accept, Reject}"
  using assms(2) ssh_rules_accept [OF assms(1), of rl]
  by (auto simp: per_user_def syncthing_rules_def extra_port_rules_def git_ssh_rules_def no_video_def
      Let_def split: if_splits)

lemma applies_append: "applies k ss q (ms @ ms', a) \<longleftrightarrow> list_all (matches k ss q) ms \<and> applies k ss q (ms', a)"
  by (simp add: applies_def)

lemma syncthing_rule_granted:
  assumes "rl \<in> set (syncthing_rules x p)" "snd rl = Accept" "applies k ss q rl"
    and "accounts_of x p (p_uid q) = [u]"
  shows "syncthing_granted k ss p u q"
proof -
  from assms(1,2) obtain ms where rl: "rl = (st_match p @ ms, Accept)"
    and ms: "ms \<in> {[Dport ''tcp'' (Ports (port_set OUT_TCP))], [Dport ''udp'' (Ports (port_set OUT_UDP))],
                   [Daddr IPv4 (Set_of ''st4''), Dport ''tcp'' (Port 443)],
                   [Daddr IPv6 (Set_of ''st6''), Dport ''tcp'' (Port 443)]}"
    by (auto simp: syncthing_rules_def split: if_splits)
  from assms(3) have m: "list_all (matches k ss q) (st_match p)" and a: "applies k ss q (ms, Accept)"
    by (simp_all add: rl applies_append)
  from ms a st_matchD [OF m assms(4)] show ?thesis
    by (auto simp: syncthing_granted_def to_either_def port_set_def sorted_set_def)
qed

lemma per_user_granted:
  assumes "ssh_rules x p = Inr (ds, out, rn)" "rl \<in> set (per_user x p out)" "snd rl = Accept"
    and "applies k ss q rl" "accounts_of x p (p_uid q) = [u]"
  shows "granted k ss p u q"
proof -
  consider "rl \<in> set (syncthing_rules x p)" | "rl \<in> set (extra_port_rules x p)"
    | "rl \<in> set (git_ssh_rules x p)" | "rl \<in> set out"
    using assms(2,3) by (auto simp: per_user_def no_video_def Let_def split: if_splits)
  then show ?thesis
  proof cases
    case 1
    then show ?thesis using syncthing_rule_granted [OF _ assms(3-5)] by (simp add: granted_def)
  next
    case 2
    then obtain v where v: "v \<in> set (supervised p)"
      "rl = ([Skuid (owner x (uid v)), Dport ''tcp'' (Ports (port_set (extra_ports v)))], Accept)"
      by (auto simp: extra_port_rules_def)
    then have "v = u" using accounts_ofD(1) [OF assms(5), of v] assms(4) by (simp add: supervised_def)
    then show ?thesis using v assms(4) by (auto simp: granted_def supervised_def port_set_def sorted_set_def)
  next
    case 3
    have "has_any (owners x (git_ssh_uids p)) (p_uid q) \<and> p_l4 q = ''tcp'' \<and> p_dport q = GIT_SSH_PORT
          \<and> to_either k ss ''git'' q"
      using 3 assms(4) by (auto simp: git_ssh_rules_def Let_def to_either_def split: if_splits)
    moreover from this obtain v where v: "v \<in> set (developer_accounts p)" "has_any (owner x (uid v)) (p_uid q)"
      by (auto simp: has_any_owners git_ssh_uids_def)
    moreover from v have "v = u"
      using accounts_ofD(1) [OF assms(5), of v] by (auto simp: developer_accounts_def)
    ultimately show ?thesis by (auto simp: granted_def developer_accounts_def)
  next
    case 4
    then show ?thesis using ssh_rule_granted [OF assms(1) _ assms(5,4)] by (simp add: granted_def)
  qed
qed

lemma no_video_applies:
  assumes "accounts_of x p (p_uid q) = [u]" "mode u \<in> {''filtered'', ''dnsfilter''}" "\<not> video_calls u"
    and "p_l4 q = ''udp''" "UDP_HIGH \<le> p_dport q"
  shows "\<exists>rl \<in> set (no_video x p). applies k ss q rl"
proof -
  let ?is = "sort (map uid (filter (\<lambda>u. \<not> video_calls u) (supervised p)))"
  have u: "uid u \<in> set ?is" "has_any (owner x (uid u)) (p_uid q)"
    using accounts_ofD(2) [OF assms(1)] assms(2,3) by (auto simp: supervised_def)
  then have "has_any (owners x ?is) (p_uid q)" by (auto simp: has_any_owners)
  moreover have "?is \<noteq> []" using u(1) by (metis empty_iff list.set(1))
  ultimately show ?thesis using assms(4,5) by (simp add: no_video_def Let_def)
qed

section \<open>The dispatch\<close>

lemma dispatch_append:
  "dispatch (es @ es') s = (case dispatch es s of None \<Rightarrow> dispatch es' s | Some c \<Rightarrow> Some c)"
  by (induction es s rule: dispatch.induct) auto

lemma dispatch_owned:
  "dispatch (map (\<lambda>e. (e, c)) es) s = (if has_any es s then Some c else None)"
  by (induction es) auto

lemma dispatch_accounts:
  assumes "map_result (\<lambda>u. map_sum id (\<lambda>c. map (\<lambda>e. (e, c)) (owner x (uid u))) (mode_chain (mode u))) us
           = Inr parts"
  shows "dispatch (concat parts) s =
     (case filter (\<lambda>u. has_any (owner x (uid u)) s) us of
        [] \<Rightarrow> None | u # _ \<Rightarrow> map_of MODE_CHAINS (mode u))"
  using assms
proof (induction us arbitrary: parts)
  case (Cons u us)
  from Cons.prems obtain c parts' where c: "mode_chain (mode u) = Inr c"
    and parts: "parts = map (\<lambda>e. (e, c)) (owner x (uid u)) # parts'"
    and parts': "map_result (\<lambda>u. map_sum id (\<lambda>c. map (\<lambda>e. (e, c)) (owner x (uid u)))
                   (mode_chain (mode u))) us = Inr parts'"
    by (auto simp: id_def elim!: bind_InrE map_sum_InrE)
  note IH = Cons.IH [OF parts']
  have "map_of MODE_CHAINS (mode u) = Some c"
    using c by (auto simp: mode_chain_def split: option.splits)
  then show ?case by (simp add: parts dispatch_append dispatch_owned IH split: option.split)
qed simp

lemma dispatch_account:
  assumes "vmap_entries x p = Inr es"
  shows "accounts_of x p s = [u] \<Longrightarrow> dispatch es s = map_of MODE_CHAINS (mode u)"
    and "accounts_of x p s = [] \<Longrightarrow> dispatch es s = None"
  using assms
  by (auto simp: vmap_entries_def dispatch_accounts accounts_of_def filter_sort by_uid_def
      elim!: map_sum_InrE)


section \<open>The filter chain\<close>

lemma guards_skip:
  assumes "ordinary x k q" "\<not> on_loopback q" "rl \<in> set (guards x p)"
  shows "\<not> applies k ss q rl"
proof -
  have l: "\<not> matches k ss q loop4" "\<not> matches k ss q loop6" "\<not> matches k ss q Oif_lo"
    using assms(2) by (auto simp: on_loopback_def)
  consider "rl \<in> set (build_loopback x)" | "rl \<in> set (backend_guard x)" | "rl \<in> set (open_dns_guard x p)"
    | "rl \<in> set (syncthing_gui x)" | "rl \<in> set (devenv_guard x p)"
    using assms(3) by (auto simp: guards_def)
  then show ?thesis
  proof cases
    case 1
    then show ?thesis using assms(1) by (auto simp: build_loopback_def ordinary_def split: option.splits)
  next
    case 2
    then show ?thesis using l by (auto simp: backend_guard_def split: if_splits)
  next
    case 3
    then show ?thesis using l by (auto simp: open_dns_guard_def)
  next
    case 4
    then show ?thesis using l by (auto simp: syncthing_gui_def)
  next
    case 5
    then show ?thesis using l by (auto simp: devenv_guard_def split: prod.splits)
  qed
qed

lemma run_accepts:
  "run k r q n (map (\<lambda>ms. (ms, Accept)) mss) =
     Some (if \<exists>ms \<in> set mss. list_all (matches k (sets r) q) ms then Accepted else Fell)"
  by (induction mss) (auto simp: run.simps(2) applies_def)

lemma local_services_run:
  "run k r q n local_services = Some (if local_service k (sets r) q then Accepted else Fell)"
proof -
  have e: "local_services = map (\<lambda>ms. (ms, Accept))
     [[Dport ''udp'' (Ports [67, 68])],
      [Daddr IPv4 (Net_of ''224.0.0.251''), Dport ''udp'' (Port 5353)],
      [Daddr IPv6 (Net_of ''ff02::fb''), Dport ''udp'' (Port 5353)],
      [Daddr IPv4 (Set_of ''lan4''), Dport ''udp'' (Port 5353)],
      [Daddr IPv4 (Set_of ''lan4''), Dport ''tcp'' (Ports [631, 9100])]]"
    by (simp add: local_services_def)
  show ?thesis
    unfolding e run_accepts by (simp add: local_service_def to_lan_def)
qed

lemma evasion_run:
  "run k r q n evasion_block = Some (if evades k (sets r) q then Rejected else Fell)"
  by (auto simp: evasion_block_def evades_def run.simps)

definition mode_rules :: "string \<Rightarrow> rule list" where
  "mode_rules m = (if m = ''none'' then mode_none else if m = ''whitelist'' then mode_whitelist
     else if m = ''dnsfilter'' then mode_dnsfilter else if m = ''filtered'' then mode_filtered
     else mode_unfiltered)"

lemma mode_chain_rules:
  assumes "map_of MODE_CHAINS m = Some c"
  shows "map_of (chains (ruleset_of x p es parts)) c = Some (regular (mode_rules m))"
  using assms by (auto simp: MODE_CHAINS_def mode_rules_def split: if_splits)

lemma to_sets_run:
  "run k r q n (to_sets m ps) =
     Some (if p_l4 q = ''tcp'' \<and> in_ports ps (p_dport q) \<and> to_either k (sets r) m q then Accepted else Fell)"
  by (cases "p_fam q") (auto simp: to_sets_def to_either_def run.simps)

lemma all_sets_run:
  "run k r q n (concat (map (\<lambda>n. to_sets n ps) ns)) =
     Some (if p_l4 q = ''tcp'' \<and> in_ports ps (p_dport q) \<and> (\<exists>m \<in> set ns. to_either k (sets r) m q)
           then Accepted else Fell)"
  by (induction ns) (auto simp: run_append to_sets_run)

lemma whitelist_run:
  assumes "map_of (chains r) ''evasion_block'' = Some (regular evasion_block)"
  shows "run k r q (Suc n) mode_whitelist =
    Some (if \<not> evades k (sets r) q \<and> p_l4 q = ''tcp'' \<and> p_dport q \<in> {80, 443}
              \<and> (to_either k (sets r) ''wl'' q \<or> to_either k (sets r) ''sys'' q)
          then Accepted else Rejected)"
proof -
  let ?sets = "concat (map (\<lambda>n. to_sets n (Ports [80, 443])) [''wl'', ''sys''])"
  have e: "mode_whitelist = ([], Jump ''evasion_block'') # (?sets @ [([], Reject)])"
    unfolding mode_whitelist_def by simp
  have t: "run k r q m (?sets @ [([], Reject)]) =
     Some (if p_l4 q = ''tcp'' \<and> p_dport q \<in> {80, 443}
              \<and> (to_either k (sets r) ''wl'' q \<or> to_either k (sets r) ''sys'' q)
           then Accepted else Rejected)" for m
    by (simp only: run_append all_sets_run in_ports.simps) (auto simp: run.simps(2))
  show ?thesis
    unfolding e
    by (simp only: run.simps(2) applies_simps t assms action.case option.case prod.case nat.case
          regular_rules evasion_run after_jump_def) auto
qed

lemma filtered_run:
  assumes "map_of (chains r) ''evasion_block'' = Some (regular evasion_block)"
  shows "run k r q (Suc n) mode_filtered =
    Some (if \<not> evades k (sets r) q \<and> (is_icmp q \<or> p_l4 q = ''tcp'' \<and> p_dport q \<in> set DIRECT_TCP_PORTS
              \<or> p_l4 q = ''udp'' \<and> (p_dport q \<in> set UDP_LOW_ALLOWED \<or> UDP_HIGH \<le> p_dport q))
          then Accepted else Rejected)"
  by (auto simp: mode_filtered_def assms run.simps(2) after_jump_def evasion_run is_icmp_def port_set_def)

lemma dnsfilter_run:
  assumes "map_of (chains r) ''evasion_block'' = Some (regular evasion_block)"
  shows "run k r q (Suc n) mode_dnsfilter =
    Some (if \<not> evades k (sets r) q \<and> (is_icmp q
              \<or> \<not> to_lan k (sets r) q \<and> \<not> (p_fam q = IPv6 \<and> list_ex (in_text IPv6 (p_dst q)) LAN6)
                \<and> (p_l4 q = ''tcp'' \<and> p_dport q \<in> set ([80, 443] @ DIRECT_TCP_PORTS)
                     \<and> (\<exists>n \<in> {''dns'', ''wl'', ''sys'', ''git'', ''st''}. to_either k (sets r) n q)
                   \<or> p_l4 q = ''udp'' \<and> (p_dport q \<in> set UDP_LOW_ALLOWED \<or> UDP_HIGH \<le> p_dport q)))
          then Accepted else Rejected)"
proof -
  let ?tail = "[([Dport ''udp'' (Ports (port_set UDP_LOW_ALLOWED))], Accept),
            ([Dport ''udp'' (From UDP_HIGH)], Accept), ([], Reject)]"
  let ?sets = "concat (map (\<lambda>n. to_sets n (Ports dnsfilter_tcp)) [''dns'', ''wl'', ''sys'', ''git'', ''st''])"
  have e: "mode_dnsfilter = ([], Jump ''evasion_block'') # ([L4proto [''icmp'', ''ipv6-icmp'']], Accept)
      # ([Daddr IPv4 (Set_of ''lan4'')], Reject) # ([Daddr IPv6 (Nets_of LAN6)], Reject)
      # (?sets @ ?tail)"
    unfolding mode_dnsfilter_def by simp
  have p: "in_ports (Ports dnsfilter_tcp) d \<longleftrightarrow> d \<in> set ([80, 443] @ DIRECT_TCP_PORTS)" for d
    by (simp add: dnsfilter_tcp_def port_set_def)
  have "run k r q m ?tail =
     Some (if p_l4 q = ''udp'' \<and> (p_dport q \<in> set UDP_LOW_ALLOWED \<or> UDP_HIGH \<le> p_dport q)
           then Accepted else Rejected)" for m
    by (auto simp: run.simps(2) port_set_def)
  then have t: "run k r q m (?sets @ ?tail) =
     Some (if p_l4 q = ''tcp'' \<and> p_dport q \<in> set ([80, 443] @ DIRECT_TCP_PORTS)
              \<and> (\<exists>n \<in> {''dns'', ''wl'', ''sys'', ''git'', ''st''}. to_either k (sets r) n q)
            \<or> p_l4 q = ''udp'' \<and> (p_dport q \<in> set UDP_LOW_ALLOWED \<or> UDP_HIGH \<le> p_dport q)
           then Accepted else Rejected)" for m
    by (simp only: run_append all_sets_run p) auto
  show ?thesis
    unfolding e
    by (simp only: run.simps(2) applies_simps applies_append matches.simps in_target.simps t assms
          action.case option.case prod.case nat.case regular_rules evasion_run after_jump_def)
       (auto simp: is_icmp_def to_lan_def)
qed


lemma mode_rules_run:
  "run k (ruleset_of x p es parts) q (Suc n) (mode_rules m) \<in> {Some Accepted, Some Rejected}"
  by (simp add: mode_rules_def whitelist_run dnsfilter_run filtered_run mode_none_def mode_unfiltered_def
      run.simps(2))

lemma mode_rules_allow:
  assumes "run k (ruleset_of x p es parts) q (Suc n) (mode_rules (mode u)) = Some Accepted"
    and "mode u \<in> {''none'', ''whitelist'', ''dnsfilter'', ''filtered''}"
    and "mode u \<in> {''filtered'', ''dnsfilter''} \<Longrightarrow> p_l4 q = ''udp'' \<Longrightarrow> UDP_HIGH \<le> p_dport q \<Longrightarrow> video_calls u"
  shows "mode_allows k (table_sets x (fst parts)) u q"
proof -
  from assms(2) consider "mode u = ''none''" | "mode u = ''whitelist''" | "mode u = ''dnsfilter''"
    | "mode u = ''filtered''" by blast
  then show ?thesis
  proof cases
    case 1
    then show ?thesis using assms(1) by (simp add: mode_rules_def mode_none_def run.simps(2))
  next
    case 2
    then show ?thesis using assms(1)
      by (simp add: mode_rules_def whitelist_run mode_allows_def split: if_splits)
  next
    case 3
    then show ?thesis using assms(1,3)
      by (simp add: mode_rules_def dnsfilter_run mode_allows_def udp_allowed_def split: if_splits) blast
  next
    case 4
    then show ?thesis using assms(1,3)
      by (simp add: mode_rules_def filtered_run mode_allows_def udp_allowed_def split: if_splits) blast
  qed
qed

lemma run_vmap:
  assumes "vmap_entries x p = Inr es"
  shows "accounts_of x p (p_uid q) = [u] \<Longrightarrow>
           run k (ruleset_of x p es parts) q (Suc (Suc n)) (vmap_rule es)
             = run k (ruleset_of x p es parts) q (Suc n) (mode_rules (mode u))"
    and "accounts_of x p (p_uid q) = [] \<Longrightarrow> run k (ruleset_of x p es parts) q n' (vmap_rule es) = Some Fell"
proof -
  let ?r = "ruleset_of x p es parts"
  assume a: "accounts_of x p (p_uid q) = [u]"
  from assms obtain us where us: "map_result (\<lambda>u. map_sum id (\<lambda>c. map (\<lambda>e. (e, c)) (owner x (uid u)))
       (mode_chain (mode u))) (by_uid (effective_users p)) = Inr us"
    by (auto simp: vmap_entries_def elim!: map_sum_InrE)
  have "u \<in> set (by_uid (effective_users p))" using accounts_ofD(2) [OF a] by (simp add: by_uid_def)
  then obtain c where c: "mode_chain (mode u) = Inr c"
    using us by (auto simp: map_result_Inr_iff list_all2_conv_all_nth in_set_conv_nth
                   elim!: map_sum_InrE dest!: spec)
  then have mc: "map_of MODE_CHAINS (mode u) = Some c"
    by (simp add: mode_chain_def split: option.splits)
  then have d: "dispatch es (p_uid q) = Some c" using dispatch_account(1) [OF assms a] by simp
  then have "es \<noteq> []" by auto
  then have v: "vmap_rule es = [([], Vmap es)]" by (simp add: vmap_rule_def)
  show "run k ?r q (Suc (Suc n)) (vmap_rule es) = run k ?r q (Suc n) (mode_rules (mode u))"
    using mode_rules_run [of k x p es parts q n "mode u"]
    by (auto simp: v run.simps(2) d mode_chain_rules [OF mc] after_jump_def)
next
  assume "accounts_of x p (p_uid q) = []"
  then show "run k (ruleset_of x p es parts) q n' (vmap_rule es) = Some Fell"
    using dispatch_account(2) [OF assms] by (simp add: vmap_rule_def run.simps(2))
qed

lemma output_direct:
  assumes "ordinary x k q" "\<not> on_loopback q" "r = ruleset_of x p es parts"
  shows "run k r q (Suc n) (chain_output x p out es) =
     (if local_service k (sets r) q then Some Accepted
      else or_else (run k r q (Suc n) (per_user x p out))
             (or_else (run k r q (Suc n) (vmap_rule es)) (Some Rejected)))"
proof -
  have g: "run k r q (Suc n) (guards x p) = Some Fell"
    by (rule run_skip) (rule guards_skip [OF assms(1,2)])
  have b: "run k r q (Suc n) (nix_build_rules x) = Some Fell"
    using assms(1) by (auto simp: nix_build_rules_def ordinary_def run.simps(2) split: option.split)
  have m: "run k r q (Suc n) [([], Jump ''mode_none'')] = Some Rejected"
    by (simp add: assms(3) run.simps(2) after_jump_def mode_none_def)
  let ?pre = "[([Oif_lo], Accept), ([loop4], Accept), ([loop6], Accept), ([Ct [''established'', ''related'']], Accept)]"
  have p: "run k r q (Suc n) ?pre = Some Fell"
    using assms(1,2) by (auto simp: ordinary_def on_loopback_def run.simps(2) split: family.splits)
  let ?mid = "[([Skuid_lt UID_MIN], Accept), ([Captive], Accept), ([], Jump ''local_services'')]"
  have l: "run k r q (Suc n) ?mid = Some (if local_service k (sets r) q then Accepted else Fell)"
  proof -
    have "\<not> matches k (sets r) q (Skuid_lt UID_MIN)" "\<not> matches k (sets r) q Captive"
      using assms(1) by (auto simp: ordinary_def)
    moreover have "map_of (chains r) ''local_services'' = Some (regular local_services)"
      by (simp add: assms(3))
    ultimately show ?thesis by (simp add: run.simps(2) after_jump_def local_services_run)
  qed
  show ?thesis
    unfolding chain_output_def run_append g p b l m by simp
qed


section \<open>Accounts nobody has set up\<close>

lemma unowned:
  "accounts_of x p s = [] \<Longrightarrow> u \<in> set (effective_users p) \<Longrightarrow> \<not> has_any (owner x (uid u)) s"
  by (auto simp: accounts_of_def filter_empty_conv)

lemma unowned_uids:
  "accounts_of x p s = [] \<Longrightarrow> is \<subseteq> uid ` set (effective_users p) \<Longrightarrow> set js = is \<Longrightarrow>
     \<not> has_any (owners x js) s"
  by (auto simp: has_any_owners dest: unowned)

lemma ssh_rule_owner:
  assumes "ssh_rules x p = Inr (ds, out, rn)" "rl \<in> set out \<union> set rn" "applies k ss q rl"
  shows "accounts_of x p (p_uid q) \<noteq> []"
proof -
  obtain v ds' out' rn' where v: "v \<in> set (effective_users p)"
    "ssh_account x v = Inr (ds', out', rn')" "rl \<in> set out' \<union> set rn'"
    using ssh_rulesD [OF assms(1,2)] .
  have "has_any (owner x (uid v)) (p_uid q)"
    using ssh_accountD(3) [OF v(2,3)] assms(3)
    by (auto simp: ssh_accept_def split: if_splits prod.splits)
  then show ?thesis using unowned v(1) by auto
qed

lemma st_match_owner:
  assumes "list_all (matches k ss q) (st_match p)"
  shows "accounts_of x p (p_uid q) \<noteq> []"
proof -
  have "\<exists>v \<in> set (syncthing_users p). uid v = p_uid q"
    using assms(1) by (auto simp: st_match_def has_any_def list_ex_iff by_uid_def)
  then obtain v where v: "v \<in> set (syncthing_users p)" "uid v = p_uid q" by blast
  then have "v \<in> set (effective_users p)"
    by (auto simp: syncthing_users_def effective_users_def split: if_splits)
  moreover have "has_any (owner x (uid v)) (p_uid q)" using v by (simp add: owner_def)
  ultimately show ?thesis using unowned by blast
qed

lemma per_user_owner:
  assumes "ssh_rules x p = Inr (ds, out, rn)" "rl \<in> set (per_user x p out)" "applies k ss q rl"
  shows "accounts_of x p (p_uid q) \<noteq> []"
proof
  assume a: "accounts_of x p (p_uid q) = []"
  have sub: "set (held p) \<subseteq> uid ` set (effective_users p)"
    "set (git_ssh_uids p) \<subseteq> uid ` set (effective_users p)"
    "set (sort (map uid (filter (\<lambda>u. \<not> video_calls u) (supervised p)))) \<subseteq> uid ` set (effective_users p)"
    by (auto simp: held_def uids_where_def git_ssh_uids_def developer_accounts_def supervised_def)
  note no = unowned_uids [OF a sub(1) refl] unowned_uids [OF a sub(2) refl] unowned_uids [OF a sub(3) refl]
  have st: "\<not> applies k ss q (st_match p @ ms, b)" for ms b
    using st_match_owner [of k ss q p x] a by (auto simp: applies_append)
  consider "rl \<in> set (syncthing_rules x p)" | "rl \<in> set (extra_port_rules x p)"
    | "rl \<in> set (git_ssh_rules x p)" | "rl \<in> set out" | "rl \<in> set (no_video x p)"
    using assms(2) by (auto simp: per_user_def)
  then show False
  proof cases
    case 1
    then show False using assms(3) no(1) st by (auto simp: syncthing_rules_def split: if_splits)
  next
    case 2
    then show False using assms(3) unowned [OF a] by (auto simp: extra_port_rules_def supervised_def)
  next
    case 3
    then show False using assms(3) no(2) by (auto simp: git_ssh_rules_def Let_def split: if_splits)
  next
    case 4
    then show False using ssh_rule_owner [OF assms(1) _ assms(3)] a by blast
  next
    case 5
    then show False using assms(3) no(3) by (auto simp: no_video_def Let_def split: if_splits)
  qed
qed

lemma nat_rules_owner:
  assumes "ssh_rules x p = Inr (ds, out, rn)"
    and "rl \<in> set (syncthing_nat p @ rn @ web_redirect x p)" "applies k ss q rl"
  shows "accounts_of x p (p_uid q) \<noteq> []"
proof
  assume a: "accounts_of x p (p_uid q) = []"
  have st: "\<not> applies k ss q (st_match p @ ms, b)" for ms b
    using st_match_owner [of k ss q p x] a by (auto simp: applies_append)
  consider "rl \<in> set (syncthing_nat p)" | "rl \<in> set rn" | "rl \<in> set (web_redirect x p)"
    using assms(2) by auto
  then show False
  proof cases
    case 1
    then show False using assms(3) st by (auto simp: syncthing_nat_def split: if_splits)
  next
    case 2
    then show False using ssh_rule_owner [OF assms(1) _ assms(3)] a by blast
  next
    case 3
    then obtain i port where i: "(i, port) \<in> set (mitm_ports p)" "has_any (owner x i) (p_uid q)"
      using assms(3) by (auto simp: web_redirect_def split: if_splits)
    then have "map_of (mitm_ports p) i \<noteq> None" using weak_map_of_SomeI by fastforce
    then have "i \<in> set (inspected p)" by (simp add: mitm_port_iff del: not_None_eq)
    then show False using unowned [OF a] i(2) by (auto simp: inspected_def)
  qed
qed

text \<open>
  An account nobody has set up fails closed: but for DNS, which is
  redirected, it reaches the local services and nothing else.
\<close>

theorem unknown_account_refused:
  assumes "render x p = Inr r" "services_below x" "ordinary x k q" "\<not> on_loopback q"
    and "accounts_of x p (p_uid q) = []" "\<not> (p_l4 q \<in> {''udp'', ''tcp''} \<and> p_dport q = 53)"
  shows "egress k r q = Some (if local_service k (sets r) q then Sent q else Refused)"
proof -
  obtain es parts where es: "vmap_entries x p = Inr es" and parts: "ssh_rules x p = Inr parts"
    and r: "r = ruleset_of x p es parts" using renderE [OF assms(1)] .
  obtain ds out rn where "parts = (ds, out, rn)" by (cases parts)
  with parts have ssh: "ssh_rules x p = Inr (ds, out, rn)" "fst (snd parts) = out" "snd (snd parts) = rn"
    by simp_all
  note c = ruleset_chains [of x p es parts, folded r]
  have "run k r q n (syncthing_nat p @ rn @ web_redirect x p) = Some Fell" for n
    by (rule run_skip) (use nat_rules_owner [OF ssh(1)] assms(5) in blast)
  then have "base_chain k r q ''dns_redirect'' = Some Accepted"
    using assms(6) by (auto simp: base_chain_def c run_dns_redirect [OF assms(3,2,4)] ssh(3))
  moreover have "base_chain k r q ''output'' = Some (if local_service k (sets r) q then Accepted else Rejected)"
  proof -
    have "run k r q n (per_user x p out) = Some Fell" for n
      by (rule run_skip) (use per_user_owner [OF ssh(1)] assms(5) in blast)
    then show ?thesis
      using output_direct [OF assms(3,4) r, where n = 15 and out = out] run_vmap(2) [OF es assms(5), where k = k and parts = parts, folded r]
      by (simp add: base_chain_def c JUMP_DEPTH_def ssh(2))
  qed
  ultimately show ?thesis
    using assms(3) by (simp add: egress_def filtered_out_def ordinary_def)
qed


section \<open>Supervised accounts\<close>

lemma nat_direct:
  assumes "ssh_rules x p = Inr (ds, out, rn)" "accounts_of x p (p_uid q) = [u]"
    and "sets r = table_sets x ds" "mode u \<notin> set UNFILTERED_MODES"
  shows "run k r q n (syncthing_nat p @ rn @ web_redirect x p) \<in> {Some Returned, Some Accepted}
           \<and> granted k (sets r) p u q
         \<or> run k r q n (syncthing_nat p @ rn @ web_redirect x p) =
             (if mitm_uid x \<noteq> None \<and> mode u \<in> set INSPECTED_MODES \<and> p_l4 q = ''tcp''
                 \<and> p_dport q \<notin> set (unread_ports u)
              then Some (Redirected (the (map_of (mitm_ports p) (uid u)))) else Some Fell)"
proof -
  have s: "run k r q n (syncthing_nat p) = Some Returned \<and> granted k (sets r) p u q
      \<or> run k r q n (syncthing_nat p) = Some Fell"
  proof -
    have "granted k (sets r) p u q"
      if "list_all (matches k (sets r) q) (st_match p)" "p_l4 q = ''tcp''" "p_dport q = 443"
        "to_either k (sets r) ''st'' q"
      using st_matchD [OF that(1) assms(2)] that(2-4) by (simp add: granted_def syncthing_granted_def)
    then show ?thesis
      by (auto simp: syncthing_nat_def run.simps(2) applies_append to_either_def)
  qed
  have rn: "run k r q n rn = Some Accepted \<and> granted k (sets r) p u q \<or> run k r q n rn = Some Fell"
  proof -
    have acts: "\<And>rl. rl \<in> set rn \<Longrightarrow> snd rl \<in> {Accept, Reject}"
      using ssh_rules_accept [OF assms(1)] by blast
    then show ?thesis
    proof (rule run_simple [of rn])
      fix rl
      assume "run k r q n rn = Some Accepted" "rl \<in> set rn" "applies k (sets r) q rl"
      then show ?thesis using ssh_rule_granted [OF assms(1) _ assms(2), of rl] by (simp add: granted_def)
    next
      fix rl
      assume "rl \<in> set rn" "snd rl = Reject"
      then show ?thesis using ssh_rules_accept [OF assms(1), of rl] by simp
    qed auto
  qed
  show ?thesis
    using s rn by (auto simp: run_append run_web_redirect [OF assms(2)])
qed

lemma direct_allowed:
  assumes "ssh_rules x p = Inr (ds, out, rn)" "vmap_entries x p = Inr es"
    and r: "r = ruleset_of x p es (ds, out, rn)"
    and "ordinary x k q" "\<not> on_loopback q" "accounts_of x p (p_uid q) = [u]"
    and "mode u \<in> {''none'', ''whitelist'', ''dnsfilter'', ''filtered''}"
    and "filtered_out k r q = Some (Sent s)"
  shows "s = q \<and> (local_service k (sets r) q \<or> granted k (sets r) p u q \<or> mode_allows k (sets r) u q)"
proof -
  note c = ruleset_chains [of x p es "(ds, out, rn)", folded r, simplified]
  have "run k r q JUMP_DEPTH (chain_output x p out es) = Some Accepted \<or>
        run k r q JUMP_DEPTH (chain_output x p out es) \<in> {Some Fell, Some Returned}" and s: "s = q"
    using assms(8) by (auto simp: filtered_out_def base_chain_def c split: option.splits verdict.splits if_splits)
  then have "local_service k (sets r) q \<or>
      or_else (run k r q JUMP_DEPTH (per_user x p out))
        (or_else (run k r q JUMP_DEPTH (vmap_rule es)) (Some Rejected))
      \<in> {Some Accepted, Some Fell, Some Returned}"
    using output_direct [OF assms(4,5) r, where n = 15 and out = out] by (auto simp: JUMP_DEPTH_def split: if_splits)
  moreover have "granted k (sets r) p u q \<or> mode_allows k (sets r) u q"
    if "or_else (run k r q JUMP_DEPTH (per_user x p out))
        (or_else (run k r q JUMP_DEPTH (vmap_rule es)) (Some Rejected)) \<in> {Some Accepted, Some Fell, Some Returned}"
  proof (rule run_simple [of "per_user x p out" k r q JUMP_DEPTH])
    show "snd rl \<in> {Accept, Reject}" if "rl \<in> set (per_user x p out)" for rl
      using per_user_actions [OF assms(1) that] .
  next
    fix rl
    assume "rl \<in> set (per_user x p out)" "snd rl = Accept" "applies k (sets r) q rl"
    then show ?thesis using per_user_granted [OF assms(1) _ _ _ assms(6)] by blast
  next
    assume "run k r q JUMP_DEPTH (per_user x p out) = Some Rejected"
    then show ?thesis using that by simp
  next
    assume fell: "run k r q JUMP_DEPTH (per_user x p out) = Some Fell"
      "\<And>rl. rl \<in> set (per_user x p out) \<Longrightarrow> \<not> applies k (sets r) q rl"
    have v: "run k r q JUMP_DEPTH (vmap_rule es) = run k r q 15 (mode_rules (mode u))"
      using run_vmap(1) [OF assms(2,6), where k = k and parts = "(ds, out, rn)" and n = 14, folded r] by (simp add: JUMP_DEPTH_def)
    have "run k r q 15 (mode_rules (mode u)) = Some Accepted"
      using that mode_rules_run [of k x p es "(ds, out, rn)" q 14 "mode u", folded r] fell(1) by (auto simp: v)
    moreover have "video_calls u"
      if "mode u \<in> {''filtered'', ''dnsfilter''}" "p_l4 q = ''udp''" "UDP_HIGH \<le> p_dport q"
    proof (rule ccontr)
      assume "\<not> video_calls u"
      from no_video_applies [OF assms(6) that(1) this that(2,3), of k "sets r"]
      obtain rl where "rl \<in> set (no_video x p)" "applies k (sets r) q rl" by blast
      then show False using fell(2) [of rl] by (simp add: per_user_def)
    qed
    ultimately show ?thesis
      using mode_rules_allow [of k x p es "(ds, out, rn)" q 14 u, folded r] assms(7) by (simp add: c)
  qed
  ultimately show ?thesis using s by blast
qed


text \<open>
  Property C21: what a supervised account opens outside this computer goes to the account's
  own resolver or its own proxy port, or it leaves as it was aimed because it is a local service,
  something the account was granted, or something its mode lets out; a filtered account's TCP leaves
  unread only to the mail ports or to what was granted.
\<close>

theorem supervised_default_deny:
  assumes "render x p = Inr r" "services_below x" "ordinary x k q" "\<not> on_loopback q"
    and "accounts_of x p (p_uid q) = [u]"
    and "mode u \<in> {''none'', ''whitelist'', ''dnsfilter'', ''filtered''}"
    and "egress k r q = Some (Sent s)"
  shows "s = redirected q (dns_port [u]) \<and> p_l4 q \<in> {''udp'', ''tcp''} \<and> p_dport q = 53
       \<or> s = redirected q (the (map_of (mitm_ports p) (uid u))) \<and> mode u = ''filtered'' \<and> p_l4 q = ''tcp''
       \<or> s = q \<and> (local_service k (sets r) q \<or> granted k (sets r) p u q \<or> mode_allows k (sets r) u q)
           \<and> (mode u = ''filtered'' \<and> mitm_uid x \<noteq> None \<and> p_l4 q = ''tcp''
              \<longrightarrow> p_dport q \<in> set DIRECT_TCP_PORTS \<or> granted k (sets r) p u q)"
proof -
  obtain es parts where es: "vmap_entries x p = Inr es" and parts: "ssh_rules x p = Inr parts"
    and r': "r = ruleset_of x p es parts" using renderE [OF assms(1)] .
  obtain ds out rn where p3: "parts = (ds, out, rn)" by (cases parts)
  note ssh = parts [unfolded p3] and r = r' [unfolded p3]
  note c = ruleset_chains [of x p es "(ds, out, rn)", folded r, simplified]
  have new: "p_ct q = ''new''" using assms(3) by (simp add: ordinary_def)
  have un: "mode u \<notin> set UNFILTERED_MODES" using assms(6) by (auto simp: UNFILTERED_MODES_def)
  have sent: "t = q'" if "filtered_out k r q' = Some (Sent t)" for q' t
    using that by (auto simp: filtered_out_def split: if_splits)
  note direct = direct_allowed [OF ssh es r assms(3-6)]
  let ?rest = "run k r q JUMP_DEPTH (syncthing_nat p @ rn @ web_redirect x p)"
  show ?thesis
  proof (cases "p_l4 q \<in> {''udp'', ''tcp''} \<and> p_dport q = 53")
    case True
    then have "base_chain k r q ''dns_redirect'' = Some (Redirected (dns_port [u]))"
      using base_dns_redirect [OF assms(1,3,2,4)] assms(5) by simp
    then show ?thesis using assms(7) new True sent by (auto simp: egress_def)
  next
    case False
    then have b: "base_chain k r q ''dns_redirect'' =
        (case ?rest of None \<Rightarrow> None | Some Fell \<Rightarrow> Some Accepted | Some Returned \<Rightarrow> Some Accepted | v \<Rightarrow> v)"
      by (auto simp: base_chain_def c run_dns_redirect [OF assms(3,2,4)])
    from nat_direct [OF ssh assms(5) c(1) un, of k JUMP_DEPTH] show ?thesis
    proof
      assume n: "?rest \<in> {Some Returned, Some Accepted} \<and> granted k (sets r) p u q"
      then have "filtered_out k r q = Some (Sent s)"
        using assms(7) b new by (auto simp: egress_def)
      then show ?thesis using direct n by blast
    next
      assume n: "?rest = (if mitm_uid x \<noteq> None \<and> mode u \<in> set INSPECTED_MODES \<and> p_l4 q = ''tcp''
                 \<and> p_dport q \<notin> set (unread_ports u)
              then Some (Redirected (the (map_of (mitm_ports p) (uid u)))) else Some Fell)"
      show ?thesis
      proof (cases "mitm_uid x \<noteq> None \<and> mode u \<in> set INSPECTED_MODES \<and> p_l4 q = ''tcp''
                 \<and> p_dport q \<notin> set (unread_ports u)")
        case True
        then have "filtered_out k r (redirected q (the (map_of (mitm_ports p) (uid u)))) = Some (Sent s)"
          using assms(7) b new n by (simp add: egress_def)
        then show ?thesis using sent True by (auto simp: INSPECTED_MODES_def)
      next
        case no: False
        have "?rest = Some Fell" using n unfolding if_not_P [OF no] .
        then have "filtered_out k r q = Some (Sent s)" using assms(7) b new by (simp add: egress_def)
        note d = direct [OF this]
        have "p_dport q \<in> set DIRECT_TCP_PORTS \<or> granted k (sets r) p u q"
          if "mode u = ''filtered''" "mitm_uid x \<noteq> None" "p_l4 q = ''tcp''"
        proof -
          have "p_dport q \<in> set (unread_ports u)" using no that by (auto simp: INSPECTED_MODES_def)
          moreover have "granted k (sets r) p u q" if "p_dport q \<in> set (extra_ports u)"
            using that \<open>mode u = ''filtered''\<close> \<open>p_l4 q = ''tcp''\<close> by (simp add: granted_def)
          moreover have "p_dport q \<notin> {53}" using False that(3) by simp
          ultimately consider "p_dport q \<in> set DIRECT_TCP_PORTS \<or> granted k (sets r) p u q"
            | "p_dport q \<in> set (SERVER_FIRST_TCP_PORTS @ OUT_TCP)"
            unfolding unread_ports_def by auto
          then show ?thesis
          proof cases
            case 2
            then have "\<not> local_service k (sets r) q"
              using that(3) by (auto simp: local_service_def SERVER_FIRST_TCP_PORTS_def OUT_TCP_def)
            moreover have "mode_allows k (sets r) u q \<Longrightarrow> p_dport q \<in> set DIRECT_TCP_PORTS"
              using that by (auto simp: mode_allows_def is_icmp_def udp_allowed_def)
            ultimately show ?thesis using d by blast
          qed
        qed
        then show ?thesis using d by blast
      qed
    qed
  qed
qed

section \<open>Every packet gets an answer\<close>

definition targets :: "rule list \<Rightarrow> string set" where
  "targets rs = {c. \<exists>ms. (ms, Jump c) \<in> set rs} \<union> {c. \<exists>ms es e. (ms, Vmap es) \<in> set rs \<and> (e, c) \<in> set es}"

lemma dispatch_mem: "dispatch es s = Some c \<Longrightarrow> \<exists>e. (e, c) \<in> set es"
  by (induction es s rule: dispatch.induct) (auto split: if_splits)

lemma run_total:
  assumes "\<And>c. c \<in> targets rs \<Longrightarrow>
      \<exists>d m. n = Suc m \<and> map_of (chains r) c = Some d \<and> run k r q m (chain_rules d) \<noteq> None"
  shows "run k r q n rs \<noteq> None"
  using assms
proof (induction rs)
  case (Cons rl rs)
  obtain ms a where rl: "rl = (ms, a)" by (cases rl)
  have IH: "run k r q n rs \<noteq> None"
  proof (rule Cons.IH)
    fix c
    assume "c \<in> targets rs"
    then have "c \<in> targets (rl # rs)" by (auto simp: targets_def)
    then show "\<exists>d m. n = Suc m \<and> map_of (chains r) c = Some d \<and> run k r q m (chain_rules d) \<noteq> None"
      by (rule Cons.prems)
  qed
  have t: "\<exists>d m. n = Suc m \<and> map_of (chains r) c = Some d \<and> run k r q m (chain_rules d) \<noteq> None"
    if "a = Jump c \<or> (\<exists>es. a = Vmap es \<and> dispatch es (p_uid q) = Some c)" for c
  proof (rule Cons.prems)
    from that consider "a = Jump c" | es e where "a = Vmap es" "(e, c) \<in> set es"
      using dispatch_mem by blast
    then show "c \<in> targets (rl # rs)"
      by cases (auto simp: targets_def rl)
  qed
  show ?case
    using IH t by (cases a) (fastforce simp: rl run.simps(2) after_jump_def split: option.splits verdict.splits)+
qed simp


lemma targets_simps [simp]:
  "targets [] = {}"
  "targets ((ms, a) # rs) = (case a of Jump c \<Rightarrow> {c} | Vmap es \<Rightarrow> snd ` set es | _ \<Rightarrow> {}) \<union> targets rs"
  "targets (rs @ rs') = targets rs \<union> targets rs'"
  by (auto simp: targets_def image_iff split: action.split) force+

definition terminal :: "action \<Rightarrow> bool" where
  "terminal a \<longleftrightarrow> (case a of Jump _ \<Rightarrow> False | Vmap _ \<Rightarrow> False | _ \<Rightarrow> True)"

lemma terminal_simps [simp]:
  "terminal Accept" "terminal Reject" "terminal Drop" "terminal Return" "terminal (Redirect port)"
  by (simp_all add: terminal_def)

lemma targets_terminal: "(\<And>rl. rl \<in> set rs \<Longrightarrow> terminal (snd rl)) \<Longrightarrow> targets rs = {}"
  by (fastforce simp: targets_def terminal_def)

lemma run_terminal: "(\<And>rl. rl \<in> set rs \<Longrightarrow> terminal (snd rl)) \<Longrightarrow> run k r q n rs \<noteq> None"
  by (rule run_total) (simp add: targets_terminal)

lemma dns_redirect_terminal:
  assumes "ssh_rules x p = Inr (ds, out, rn)" "rl \<in> set (chain_dns_redirect x p rn)"
  shows "terminal (snd rl)"
  using assms(2) ssh_rules_accept [OF assms(1), of rl]
  by (auto simp: chain_dns_redirect_def devenv_redirect_def dnsfilter_dns_def dns_to_def build_redirect_def
      open_dns_def syncthing_nat_def web_redirect_def split: prod.splits option.splits if_splits)

lemma input_terminal: "rl \<in> set (chain_input x p) \<Longrightarrow> terminal (snd rl)"
  by (auto simp: chain_input_def syncthing_in_def Let_def split: if_splits)

lemma guards_terminal: "rl \<in> set (guards x p) \<Longrightarrow> snd rl \<in> {Accept, Reject}"
  by (auto simp: guards_def build_loopback_def backend_guard_def open_dns_guard_def syncthing_gui_def
      devenv_guard_def split: option.splits prod.splits if_splits)

lemma mode_rules_total: "run k (ruleset_of x p es parts) q (Suc n) (mode_rules m) \<noteq> None"
  using mode_rules_run [of k x p es parts q n m] by auto

lemma vmap_targets:
  assumes "vmap_entries x p = Inr es"
  shows "targets (vmap_rule es) \<subseteq> {c. \<exists>m. map_of MODE_CHAINS m = Some c}"
proof -
  from assms obtain us where us: "map_result (\<lambda>u. map_sum id (\<lambda>c. map (\<lambda>e. (e, c)) (owner x (uid u)))
       (mode_chain (mode u))) (by_uid (effective_users p)) = Inr us" and es: "es = concat us"
    by (auto simp: vmap_entries_def elim!: map_sum_InrE)
  have "\<exists>m. map_of MODE_CHAINS m = Some c" if "(e, c) \<in> set es" for e c
  proof -
    obtain l where l: "l \<in> set us" "(e, c) \<in> set l" using \<open>(e, c) \<in> set es\<close> by (auto simp: es)
    from map_result_memD [OF us l(1)] l(2) show ?thesis
      by (auto simp: mode_chain_def elim!: map_sum_InrE split: option.splits) blast
  qed
  then show ?thesis by (auto simp: vmap_rule_def)
qed

lemma output_total:
  assumes "ssh_rules x p = Inr (ds, out, rn)" "vmap_entries x p = Inr es"
  shows "run k (ruleset_of x p es (ds, out, rn)) q (Suc (Suc n)) (chain_output x p out es) \<noteq> None"
proof (rule run_total)
  let ?r = "ruleset_of x p es (ds, out, rn)"
  fix c
  assume "c \<in> targets (chain_output x p out es)"
  moreover have "targets (guards x p) = {}"
    by (rule targets_terminal) (use guards_terminal in fastforce)
  moreover have "targets (per_user x p out) = {}"
    by (rule targets_terminal) (use per_user_actions [OF assms(1)] in fastforce)
  moreover have "targets (nix_build_rules x) \<subseteq> {''nix_build''}"
    by (auto simp: nix_build_rules_def split: option.splits)
  ultimately consider "c \<in> {''nix_build'', ''local_services'', ''mode_none''}"
    | m where "map_of MODE_CHAINS m = Some c"
    using vmap_targets [OF assms(2)] unfolding chain_output_def by fastforce
  then show "\<exists>d m. Suc (Suc n) = Suc m \<and> map_of (chains ?r) c = Some d
                \<and> run k ?r q m (chain_rules d) \<noteq> None"
  proof cases
    case 1
    have "run k ?r q (Suc n) nix_build \<noteq> None"
      by (simp add: nix_build_def run.simps(2) after_jump_def evasion_run)
    moreover have "run k ?r q (Suc n) mode_none \<noteq> None" by (simp add: mode_none_def run.simps(2))
    ultimately show ?thesis using 1 by (auto simp: local_services_run)
  next
    case (2 m)
    then show ?thesis using mode_rules_total [of k x p es "(ds, out, rn)" q n m]
      by (simp add: mode_chain_rules [OF 2])
  qed
qed

lemma base_chain_total:
  assumes "render x p = Inr r" "c \<in> {''dns_redirect'', ''output'', ''input''}"
  shows "base_chain k r q c \<noteq> None"
proof -
  obtain es parts where es: "vmap_entries x p = Inr es" and parts: "ssh_rules x p = Inr parts"
    and r': "r = ruleset_of x p es parts" using renderE [OF assms(1)] .
  obtain ds out rn where p3: "parts = (ds, out, rn)" by (cases parts)
  note ssh = parts [unfolded p3] and r = r' [unfolded p3]
  note ch = ruleset_chains [of x p es "(ds, out, rn)", folded r, simplified]
  have "run k r q JUMP_DEPTH (chain_dns_redirect x p rn) \<noteq> None"
    by (rule run_terminal) (rule dns_redirect_terminal [OF ssh])
  moreover have "run k r q JUMP_DEPTH (chain_input x p) \<noteq> None"
    by (rule run_terminal) (rule input_terminal)
  ultimately have "\<exists>d. map_of (chains r) c = Some d \<and> run k r q JUMP_DEPTH (chain_rules d) \<noteq> None"
    using assms(2) output_total [OF ssh es, of k q 14, folded r]
    by (auto simp: ch JUMP_DEPTH_def)
  then show ?thesis by (auto simp: base_chain_def split: option.splits verdict.splits)
qed

text \<open>
  Property C22: whatever the policy, the rendered chains decide every packet: no jump leads
  nowhere or nests deeper than the kernel allows.
\<close>

theorem every_packet_answered:
  assumes "render x p = Inr r"
  shows "(\<exists>v. egress k r q = Some v) \<and> (\<exists>v. ingress k r q = Some v)"
proof -
  have f: "\<exists>v. filtered_out k r q' = Some v" for q'
    using base_chain_total [OF assms, of "''output''" k q'] by (simp add: filtered_out_def)
  have n: "base_chain k r q ''dns_redirect'' \<noteq> None" "base_chain k r q ''input'' \<noteq> None"
    by (rule base_chain_total [OF assms], simp)+
  show ?thesis
    using f n by (auto simp: egress_def ingress_def split: verdict.split option.split)
qed


section \<open>Ports of one account\<close>

lemma run_accepted:
  assumes "\<And>rl. rl \<in> set rs \<Longrightarrow> terminal (snd rl)" "run k r q n rs = Some Accepted"
  shows "\<exists>rl \<in> set rs. snd rl = Accept \<and> applies k (sets r) q rl"
  using assms
proof (induction rs)
  case (Cons rl rs)
  obtain ms a where rl: "rl = (ms, a)" by (cases rl)
  have "terminal a" using Cons.prems(1) [of rl] by (simp add: rl)
  then show ?case
    using Cons by (cases a) (auto simp: rl run.simps(2) terminal_def split: if_splits)
qed simp

lemma guard_accepts:
  assumes "rl \<in> set (guards x p)" "snd rl = Accept" "applies k ss q rl" "build_gid x \<noteq> Some (p_gid q)"
  shows "p_fam q = IPv4 \<and> p_dst q div 16777216 = 127 \<and> p_dport q = OPEN_DNS_PORT
         \<and> (\<exists>u \<in> set (accounts_of x p (p_uid q)). mode u \<in> set UNFILTERED_MODES)"
proof -
  from assms(1,2,3,4) have "rl \<in> set (open_dns_guard x p)"
    by (auto simp: guards_def build_loopback_def backend_guard_def syncthing_gui_def devenv_guard_def
        split: option.splits prod.splits if_splits)
  then obtain i where i: "i \<in> set (unfiltered_uids p)" "has_any (owner x i) (p_uid q)"
    "p_fam q = IPv4 \<and> p_dst q div 16777216 = 127 \<and> p_dport q = OPEN_DNS_PORT"
    using assms(2,3) by (auto simp: open_dns_guard_def)
  then have "has_any (owners x (unfiltered_uids p)) (p_uid q)" by (auto simp: has_any_owners)
  then show ?thesis using i(3) by (simp add: unfiltered_uids_def has_any_uids_where)
qed

lemma sent_guards:
  assumes "render x p = Inr r" "filtered_out k r q = Some (Sent s)" "build_gid x \<noteq> Some (p_gid q)"
  shows "(\<forall>rl \<in> set (guards x p). \<not> applies k (sets r) q rl)
       \<or> p_fam q = IPv4 \<and> p_dst q div 16777216 = 127 \<and> p_dport q = OPEN_DNS_PORT
         \<and> (\<exists>u \<in> set (accounts_of x p (p_uid q)). mode u \<in> set UNFILTERED_MODES)"
proof -
  obtain es parts where r: "r = ruleset_of x p es parts" using renderE [OF assms(1)] .
  let ?g = "run k r q JUMP_DEPTH (guards x p)"
  have rej: "?g \<noteq> Some Rejected"
  proof
    assume "?g = Some Rejected"
    then have "base_chain k r q ''output'' = Some Rejected"
      using ruleset_chains(3) [of x p es parts, folded r]
      by (simp add: base_chain_def chain_output_def run_append)
    then show False using assms(2) by (simp add: filtered_out_def)
  qed
  show ?thesis
  proof (rule run_simple [of "guards x p" k r q JUMP_DEPTH])
    show "snd rl \<in> {Accept, Reject}" if "rl \<in> set (guards x p)" for rl using guards_terminal [OF that] .
  next
    fix rl
    assume "rl \<in> set (guards x p)" "snd rl = Accept" "applies k (sets r) q rl"
    then show ?thesis using guard_accepts [OF _ _ _ assms(3)] by blast
  next
    assume "?g = Some Rejected"
    then show ?thesis using rej by simp
  qed blast
qed

text \<open>
  Loopback is open, but for the ports that belong to somebody: the search engine behind the search
  page, the plain resolver, each account's Syncthing page and its devenv proxy.
\<close>

definition at_loopback :: "packet \<Rightarrow> bool" where
  "at_loopback q \<longleftrightarrow> (case p_fam q of IPv4 \<Rightarrow> p_dst q div 16777216 = 127 | IPv6 \<Rightarrow> p_dst q = 1)"

lemma devenv_ports_range: "devenv_ports i = (h, h') \<Longrightarrow> 7100 \<le> h \<and> h' < 7900 \<and> h' = h + 1"
  by (auto simp: devenv_ports_def DEVENV_BASE_def DEVENV_SLOTS_def Let_def)

text \<open>
  Property C23: loopback is open but for the ports that belong to somebody: the search
  engine behind the search page is nobody's, the plain resolver answers unfiltered accounts only
  (and by IPv4 only), a Syncthing page and a devenv proxy answer their owner.
\<close>

theorem loopback_ports_guarded:
  assumes "render x p = Inr r" "UID_MIN \<le> p_uid q" "build_gid x \<noteq> Some (p_gid q)"
    and "filtered_out k r q = Some (Sent s)"
  shows "\<not> (search_uid x \<noteq> None \<and> p_oif_lo q \<and> p_l4 q = ''tcp'' \<and> p_dport q = SEARCH_BACKEND_PORT)
    \<and> (p_l4 q \<in> {''udp'', ''tcp''} \<and> p_dport q = OPEN_DNS_PORT \<and> at_loopback q
        \<longrightarrow> p_fam q = IPv4 \<and> (\<exists>u \<in> set (accounts_of x p (p_uid q)). mode u \<in> set UNFILTERED_MODES))
    \<and> (\<forall>(i, port) \<in> set (gui x).
         p_l4 q = ''tcp'' \<and> p_dport q = port \<and> port \<noteq> OPEN_DNS_PORT \<and> p_fam q = IPv4 \<and> at_loopback q
         \<longrightarrow> has_any (owner x i) (p_uid q))
    \<and> (\<forall>v \<in> set (developer_accounts p).
         p_l4 q = ''tcp'' \<and> p_dport q \<in> {fst (devenv_ports (uid v)), snd (devenv_ports (uid v))}
         \<and> p_fam q = IPv4 \<and> at_loopback q \<longrightarrow> has_any (owner x (uid v)) (p_uid q))"
proof -
  note g = sent_guards [OF assms(1,4,3)]
  have free: "\<not> applies k (sets r) q rl" if "rl \<in> set (guards x p)" "p_dport q \<noteq> OPEN_DNS_PORT" for rl
    using g that by blast
  have backend: "\<not> (search_uid x \<noteq> None \<and> p_oif_lo q \<and> p_l4 q = ''tcp'' \<and> p_dport q = SEARCH_BACKEND_PORT)"
  proof
    assume a: "search_uid x \<noteq> None \<and> p_oif_lo q \<and> p_l4 q = ''tcp'' \<and> p_dport q = SEARCH_BACKEND_PORT"
    let ?rl = "([Oif_lo, Dport ''tcp'' (Port SEARCH_BACKEND_PORT), Skuid_ge UID_MIN], Reject)"
    have "?rl \<in> set (guards x p)" using a by (auto simp: guards_def backend_guard_def)
    from free [OF this] show False
      using a assms(2) by (simp add: SEARCH_BACKEND_PORT_def OPEN_DNS_PORT_def)
  qed
  have plain: "p_fam q = IPv4 \<and> (\<exists>u \<in> set (accounts_of x p (p_uid q)). mode u \<in> set UNFILTERED_MODES)"
    if a: "p_l4 q \<in> {''udp'', ''tcp''}" "p_dport q = OPEN_DNS_PORT" "at_loopback q"
  proof -
    let ?l = "if p_fam q = IPv4 then loop4 else loop6"
    let ?rl = "([?l, Dport (p_l4 q) (Port OPEN_DNS_PORT), Skuid_ge UID_MIN], Reject)"
    have "?rl \<in> set (guards x p)" using a(1) by (auto simp: guards_def open_dns_guard_def)
    moreover have "applies k (sets r) q ?rl"
      using a assms(2) by (auto simp: at_loopback_def split: family.splits)
    ultimately show ?thesis using g by blast
  qed
  have page: "has_any (owner x i) (p_uid q)"
    if a: "(i, port) \<in> set (gui x)" "p_l4 q = ''tcp''" "p_dport q = port" "port \<noteq> OPEN_DNS_PORT"
      "p_fam q = IPv4" "at_loopback q" for i port
  proof (rule ccontr)
    assume n: "\<not> has_any (owner x i) (p_uid q)"
    let ?rl = "([loop4, Dport ''tcp'' (Port port), Not_skuid (owner x i), Skuid_ge UID_MIN], Reject)"
    have "?rl \<in> set (guards x p)" using a(1) by (force simp: guards_def syncthing_gui_def)
    from free [OF this] show False using a n assms(2) by (simp add: at_loopback_def)
  qed
  have dev: "has_any (owner x (uid v)) (p_uid q)"
    if a: "v \<in> set (developer_accounts p)" "p_l4 q = ''tcp''"
      "p_dport q \<in> {fst (devenv_ports (uid v)), snd (devenv_ports (uid v))}" "p_fam q = IPv4" "at_loopback q" for v
  proof (rule ccontr)
    assume n: "\<not> has_any (owner x (uid v)) (p_uid q)"
    obtain h h' where h: "devenv_ports (uid v) = (h, h')" by (cases "devenv_ports (uid v)")
    let ?rl = "([loop4, Dport ''tcp'' (Ports [h, h']), Not_skuid (owner x (uid v)), Skuid_ge UID_MIN], Reject)"
    have "?rl \<in> set (guards x p)"
      using a(1) h by (force simp: guards_def devenv_guard_def developers_def by_uid_def)
    from free [OF this] show False
      using a h n assms(2) devenv_ports_range [OF h] by (auto simp: at_loopback_def OPEN_DNS_PORT_def)
  qed
  show ?thesis using backend plain page dev by blast
qed

section \<open>Inbound\<close>

definition invited :: "kernel \<Rightarrow> set_decl list \<Rightarrow> nft_inputs \<Rightarrow> policy \<Rightarrow> packet \<Rightarrow> bool" where
  "invited k ss x p q \<longleftrightarrow>
     is_icmp q \<or> p_l4 q = ''udp'' \<and> p_dport q \<in> {68, 546, 5353} \<or> p_l4 q = ''tcp'' \<and> p_dport q = 22
     \<or> lan_users p \<noteq> [] \<and> cgroup_in k SET_LAN (p_cgroup q)
        \<and> (if p_fam q = IPv4 then in_set_named k ss ''lan4'' IPv4 (p_src q)
           else list_ex (in_text IPv6 (p_src q)) LAN6)
        \<and> (p_dport q \<in> set (ports_in x p) \<and> p_l4 q \<in> {''tcp'', ''udp''}
           \<or> p_dport q = DISCOVERY_PORT \<and> p_l4 q = ''udp'')"

text \<open>
  A connection from outside is let in only for ICMP, DHCP, mDNS and SSH, and, from
  the home network, into a Syncthing service whose account allows it.
\<close>

theorem inbound_closed:
  assumes "render x p = Inr r" "p_ct q = ''new''" "\<not> p_iif_lo q" "ingress k r q = Some (Sent s)"
  shows "s = q \<and> invited k (sets r) x p q"
proof -
  obtain es parts where r: "r = ruleset_of x p es parts" using renderE [OF assms(1)] .
  have acc: "run k r q JUMP_DEPTH (chain_input x p) = Some Accepted" and s: "s = q"
    using assms(4) ruleset_chains(4) [of x p es parts, folded r]
    by (auto simp: ingress_def base_chain_def split: option.splits verdict.splits if_splits)
  obtain rl where rl: "rl \<in> set (chain_input x p)" "snd rl = Accept" "applies k (sets r) q rl"
    using run_accepted [of "chain_input x p" k r q JUMP_DEPTH] input_terminal acc by blast
  consider "rl \<in> set (syncthing_in x p)" | "rl \<in> set (chain_input x p)" "rl \<notin> set (syncthing_in x p)"
    using rl(1) by blast
  then have "invited k (sets r) x p q"
  proof cases
    case 1
    then have lan: "lan_users p \<noteq> []" by (auto simp: syncthing_in_def)
    let ?tcp = "Dport ''tcp'' (Ports (port_set (ports_in x p)))"
    let ?udp = "Dport ''udp'' (Ports (port_set (DISCOVERY_PORT # ports_in x p)))"
    from 1 lan consider "rl = ([Saddr IPv4 (Set_of ''lan4''), ?tcp, Cgroup SET_LAN], Accept)"
      | "rl = ([Saddr IPv4 (Set_of ''lan4''), ?udp, Cgroup SET_LAN], Accept)"
      | "rl = ([Saddr IPv6 (Nets_of LAN6), ?tcp, Cgroup SET_LAN], Accept)"
      | "rl = ([Saddr IPv6 (Nets_of LAN6), ?udp, Cgroup SET_LAN], Accept)"
      by (auto simp: syncthing_in_def Let_def)
    then show ?thesis using rl(3) lan
      by cases (simp_all add: invited_def port_set_def, blast+)
  next
    case 2
    then consider "rl = ([Iif_lo], Accept)" | "rl = ([Ct [''established'', ''related'']], Accept)"
      | "rl = ([Ct [''invalid'']], Drop)" | "rl = ([L4proto [''icmp'', ''ipv6-icmp'']], Accept)"
      | "rl = ([Dport ''udp'' (Ports [68, 546])], Accept)" | "rl = ([Dport ''udp'' (Port 5353)], Accept)"
      | "rl = ([Dport ''tcp'' (Port 22)], Accept)"
      unfolding chain_input_def by (simp only: set_append Un_iff list.set insert_iff empty_iff) blast
    then show ?thesis using rl(2,3) assms(2,3)
      by cases (simp_all add: invited_def is_icmp_def, blast)
  qed
  then show ?thesis using s by simp
qed

section \<open>The proxy knows the account by its port\<close>

text \<open>
  The proxy's port is the account: no two accounts share one, every port belongs
  to an inspected account, and none is the builders'.
\<close>

theorem proxy_port_identifies:
  assumes "map_of (mitm_ports p) i = Some v" "map_of (mitm_ports p) j = Some w"
  shows "(v = w \<longleftrightarrow> i = j) \<and> MITM_PORT_BASE \<le> v \<and> v < MITM_PORT_BASE + int (length (effective_users p))
         \<and> v \<noteq> BUILDER_PORT \<and> (\<exists>u \<in> set (effective_users p). uid u = i \<and> mode u \<in> set INSPECTED_MODES)"
proof -
  obtain a b where a: "a < length (inspected p)" "v = MITM_PORT_BASE + int a" "inspected p ! a = i"
    and b: "b < length (inspected p)" "w = MITM_PORT_BASE + int b" "inspected p ! b = j"
    using mitm_port_SomeD [OF assms(1)] mitm_port_SomeD [OF assms(2)] by blast
  have "length (inspected p) \<le> length (effective_users p)" by (simp add: inspected_def)
  moreover have "i \<in> set (inspected p)" using a by auto
  then have "\<exists>u \<in> set (effective_users p). uid u = i \<and> mode u \<in> set INSPECTED_MODES"
    by (auto simp: inspected_def)
  moreover have "v = w \<Longrightarrow> i = j" using a b by simp
  moreover have "i = j \<Longrightarrow> v = w" using assms by simp
  moreover have "v \<noteq> BUILDER_PORT" using a(2) by (simp add: MITM_PORT_BASE_def BUILDER_PORT_def)
  ultimately show ?thesis
    using a(1,2) by (intro conjI) (blast, simp_all)
qed


definition example_policy :: policy where
  "example_policy = default_policy
     \<lparr>users := [default_user 1000 ''parent'' ''unfiltered'', default_user 1001 ''child'' ''filtered'']\<rparr>"

definition example_inputs :: nft_inputs where
  "example_inputs =
     \<lparr>dns_uid = 990, mitm_uid = Some 991, search_uid = Some 992, build_gid = Some 30000,
      subids = [], doh_block4 = [], gui = [], listen = []\<rparr>"

definition example_kernel :: kernel where
  "example_kernel = \<lparr>resolved = (\<lambda>_ _ _. False), captive_now = (\<lambda>_. False), cgroup_in = (\<lambda>_ _. False)\<rparr>"

definition example_packet :: "int \<Rightarrow> string \<Rightarrow> int \<Rightarrow> packet" where
  "example_packet i proto port =
     \<lparr>p_uid = i, p_gid = i, p_fam = IPv4, p_src = 3232235777, p_dst = 1572395042, p_l4 = proto,
      p_dport = port, p_oif_lo = False, p_iif_lo = False, p_ct = ''new'', p_cgroup = []\<rparr>"

lemmas example_defs = example_policy_def example_inputs_def example_kernel_def example_packet_def

definition example_ruleset :: ruleset where
  "example_ruleset = ruleset_of example_inputs example_policy
     [(One 1000, ''mode_unfiltered''), (One 1001, ''mode_filtered'')] ([], [], [])"

lemmas policy_eval = effective_users_def default_policy_def default_user_def default_guest_def
  UNFILTERED_MODES_def INSPECTED_MODES_def by_uid_def owner_def syncthing_users_def developer_accounts_def
  supervised_def

lemma example_render: "render example_inputs example_policy = Inr example_ruleset"
  by (simp add: render_def example_ruleset_def example_defs vmap_entries_def ssh_rules_def mode_chain_def
      MODE_CHAINS_def ssh_account_def ssh_ports_def sorted_set_def join_parts_def policy_eval)

lemma example_users:
  "effective_users example_policy = [default_user 1000 ''parent'' ''unfiltered'', default_user 1001 ''child'' ''filtered'']"
  by (simp add: effective_users_def example_policy_def default_policy_def default_guest_def)

lemma example_accounts [simp]:
  "accounts_of example_inputs example_policy 1001 = [default_user 1001 ''child'' ''filtered'']"
  "accounts_of example_inputs example_policy 1002 = []"
  by (simp_all add: accounts_of_def example_users owner_def example_inputs_def default_user_def)

lemma example_ordinary [simp]:
  "1000 \<le> i \<Longrightarrow> i \<noteq> 30000 \<Longrightarrow> ordinary example_inputs example_kernel (example_packet i proto port)"
  "services_below example_inputs" "\<not> on_loopback (example_packet i proto port)"
  by (simp_all add: ordinary_def services_below_def on_loopback_def example_defs UID_MIN_def)

lemma example_local_service [simp]:
  "\<not> local_service example_kernel ss (example_packet i ''tcp'' 443)"
  by (simp add: local_service_def example_packet_def)

lemma example_packet_sel [simp]:
  "p_uid (example_packet i proto port) = i" "p_l4 (example_packet i proto port) = proto"
  "p_dport (example_packet i proto port) = port" "p_ct (example_packet i proto port) = ''new''"
  "p_fam (example_packet i proto port) = IPv4" "p_gid (example_packet i proto port) = i"
  by (simp_all add: example_packet_def)

theorem unknown_account_refused_witness:
  "egress example_kernel example_ruleset (example_packet 1002 ''tcp'' 443) = Some Refused"
  using unknown_account_refused [OF example_render, of example_kernel "example_packet 1002 ''tcp'' 443"]
  by simp

lemma example_port: "map_of (mitm_ports example_policy) 1001 = Some 30000"
  by (simp add: mitm_ports_inspected inspected_def example_users INSPECTED_MODES_def default_user_def MITM_PORT_BASE_def)

lemma example_redirect:
   "base_chain example_kernel example_ruleset (example_packet 1001 ''tcp'' 443) ''dns_redirect'' = Some (Redirected 30000)"
proof -
  have u: "default_user 1001 ''child'' ''filtered'' = u \<Longrightarrow> uid u = 1001 \<and> mode u = ''filtered'' \<and> extra_ports u = []" for u
    by (auto simp: default_user_def)
  have "syncthing_nat example_policy = []"
    by (simp add: syncthing_nat_def syncthing_users_def example_policy_def default_policy_def)
  then have "run example_kernel example_ruleset (example_packet 1001 ''tcp'' 443) JUMP_DEPTH (syncthing_nat example_policy @ [] @ web_redirect example_inputs example_policy) = Some (Redirected 30000)"
    using u [OF refl]
    by (simp add: run_web_redirect [where u = "default_user 1001 ''child'' ''filtered''"] example_port INSPECTED_MODES_def
    unread_ports_def DIRECT_TCP_PORTS_def SERVER_FIRST_TCP_PORTS_def OUT_TCP_def) (simp add: example_inputs_def)
  then show ?thesis by (simp add: base_chain_def example_ruleset_def run_dns_redirect)
qed

lemma loopback_open:
  assumes "r = ruleset_of x p es parts" "at_loopback q"
    and "\<And>rl. rl \<in> set (guards x p) \<Longrightarrow> \<not> applies k (sets r) q rl"
  shows "filtered_out k r q = Some (Sent q)"
proof -
  have g: "run k r q n (guards x p) = Some Fell" for n by (rule run_skip) (rule assms(3))
  have "run k r q n (([Oif_lo], Accept) # ([loop4], Accept) # ([loop6], Accept) # rs) = Some Accepted" for n rs
    using assms(2) by (cases "p_fam q") (simp_all add: run.simps(2) at_loopback_def)
  then have "run k r q n (chain_output x p (fst (snd parts)) es) = Some Accepted" for n
    unfolding chain_output_def by (simp add: run_append g)
  then show ?thesis
    using ruleset_chains(3) [of x p es parts, folded assms(1)]
    by (simp add: filtered_out_def base_chain_def)
qed

lemma example_sent:
  "filtered_out example_kernel example_ruleset (redirected (example_packet 1001 ''tcp'' 443) 30000) =
     Some (Sent (redirected (example_packet 1001 ''tcp'' 443) 30000))"
proof (rule loopback_open [OF example_ruleset_def])
  show "at_loopback (redirected (example_packet 1001 ''tcp'' 443) 30000)"
    by (simp add: at_loopback_def redirected_def loopback_address_def)
next
  fix rl
  assume "rl \<in> set (guards example_inputs example_policy)"
  then show "\<not> applies example_kernel (sets example_ruleset) (redirected (example_packet 1001 ''tcp'' 443) 30000) rl"
    by (auto simp: guards_def build_loopback_def backend_guard_def open_dns_guard_def syncthing_gui_def
        devenv_guard_def developers_def developer_accounts_def example_users by_uid_def default_user_def
        example_inputs_def redirected_def example_packet_def OPEN_DNS_PORT_def SEARCH_BACKEND_PORT_def
        split: if_splits)
qed

theorem supervised_default_deny_witness:
  "egress example_kernel example_ruleset (example_packet 1001 ''tcp'' 443) =
     Some (Sent (redirected (example_packet 1001 ''tcp'' 443) 30000))
   \<and> map_of (mitm_ports example_policy) 1001 = Some 30000"
proof -
  have e: "egress example_kernel example_ruleset (example_packet 1001 ''tcp'' 443) =
     Some (Sent (redirected (example_packet 1001 ''tcp'' 443) 30000))"
    by (simp add: egress_def example_redirect example_sent)
  show ?thesis
    using supervised_default_deny [OF example_render _ _ _ _ _ e] e
    by (simp add: example_port default_user_def)
qed

lemma example_dns [simp]: "dns_port [default_user 1001 ''child'' ''filtered''] = 53"
  by (simp add: dns_port_def default_user_def UNFILTERED_MODES_def)

text \<open>
  No account picks its resolver: a query to port 53 anywhere outside this computer is
  redirected to the resolver of the account's mode, whatever its address.
\<close>

theorem dns_forced:
  assumes "render x p = Inr r" "ordinary x k q" "services_below x" "\<not> on_loopback q"
    and "p_l4 q \<in> {''udp'', ''tcp''}" "p_dport q = 53"
  shows "base_chain k r q ''dns_redirect'' =
           Some (Redirected (dns_port (accounts_of x p (p_uid q))))"
  using assms by (rule base_dns_redirect)

theorem dns_forced_witness:
  "base_chain example_kernel example_ruleset (example_packet 1001 ''udp'' 53) ''dns_redirect'' =
     Some (Redirected 53)"
  using dns_forced [OF example_render, of example_kernel "example_packet 1001 ''udp'' 53"] by simp

theorem every_packet_answered_witness:
  "render example_inputs example_policy = Inr example_ruleset \<and>
   (\<exists>v. egress example_kernel example_ruleset (example_packet 1000 ''udp'' 443) = Some v)"
  using every_packet_answered [OF example_render, of example_kernel "example_packet 1000 ''udp'' 443"]
    example_render by blast

theorem loopback_ports_guarded_witness:
  "filtered_out example_kernel example_ruleset (redirected (example_packet 1001 ''tcp'' 443) 30000) \<noteq> None
   \<and> p_dport (redirected (example_packet 1001 ''tcp'' 443) 30000) \<noteq> SEARCH_BACKEND_PORT"
  using loopback_ports_guarded [OF example_render _ _ example_sent] example_sent
  by (simp add: redirected_def UID_MIN_def example_inputs_def SEARCH_BACKEND_PORT_def)

theorem inbound_closed_witness:
  "ingress example_kernel example_ruleset (example_packet 0 ''tcp'' 22) = Some (Sent (example_packet 0 ''tcp'' 22))
   \<and> invited example_kernel (sets example_ruleset) example_inputs example_policy (example_packet 0 ''tcp'' 22)"
proof -
  have "run example_kernel example_ruleset (example_packet 0 ''tcp'' 22) n
          (chain_input example_inputs example_policy) = Some Accepted" for n
    by (simp add: chain_input_def syncthing_in_def lan_users_def syncthing_users_def example_policy_def
        default_policy_def run.simps(2) example_packet_def)
  then have s: "ingress example_kernel example_ruleset (example_packet 0 ''tcp'' 22)
                  = Some (Sent (example_packet 0 ''tcp'' 22))"
    by (simp add: ingress_def base_chain_def example_ruleset_def)
  show ?thesis using inbound_closed [OF example_render _ _ s] s by (simp add: example_packet_def)
qed

theorem proxy_port_identifies_witness:
  "map_of (mitm_ports example_policy) 1001 = Some 30000 \<and> (30000::int) \<noteq> BUILDER_PORT"
  using proxy_port_identifies [OF example_port example_port] example_port by simp

end
