(* ===== verification/Whitelists.thy ===== *)
theory Whitelists
  imports PolicyStore Categories
begin

text \<open>
  \<open>kosherd/src/kosherd/whitelists.py\<close>: the ready-made lists a Whitelist account can have switched
  on, and what it may reach with them; and \<open>paymentsecurity.py\<close>: the hosts a checkout needs, which
  no block list refuses.  What is read of a file is the argument; the cache is the state that is
  passed on.
\<close>

section \<open>Reading the lists\<close>

text \<open>One file: its modification time and its document, \<open>None\<close> when it does not parse.\<close>

type_synonym list_file = "(int \<times> json option) option"

type_synonym list_cache = "(int \<times> doc) option"

definition read_bundles :: "json option \<Rightarrow> doc option" where
  "read_bundles content =
     (case content of
        Some (JObj d) \<Rightarrow> (case map_of d ''bundles'' of Some (JList _) \<Rightarrow> Some d | _ \<Rightarrow> None)
      | _ \<Rightarrow> None)"

definition no_bundles :: doc where
  "no_bundles = [(''bundles'', JList []), (''shared'', JObj [(''domains'', JList [])])]"

text \<open>The override first, then the image's own.\<close>

fun load_bundles :: "list_file list \<Rightarrow> list_cache \<Rightarrow> doc \<times> list_cache" where
  "load_bundles [] cache = (no_bundles, cache)"
| "load_bundles (None # files) cache = load_bundles files cache"
| "load_bundles (Some (mtime, content) # files) cache =
     (case cache of
        Some (t, d) \<Rightarrow>
          if t = mtime then (d, cache)
          else (case read_bundles content of
                  Some d' \<Rightarrow> (d', Some (mtime, d')) | None \<Rightarrow> load_bundles files cache)
      | None \<Rightarrow>
          (case read_bundles content of
             Some d' \<Rightarrow> (d', Some (mtime, d')) | None \<Rightarrow> load_bundles files cache))"

section \<open>Looking into a document\<close>

definition not_iterable :: string where "not_iterable = ''object is not iterable''"
definition no_attribute :: string where "no_attribute = ''object has no attribute get''"

text \<open>\<open>for d in v or []\<close>: a string gives its characters, a dictionary its keys.\<close>

definition items_of :: "json \<Rightarrow> json list result" where
  "items_of v =
     (if \<not> truthy v then Inr []
      else case v of
        JList vs \<Rightarrow> Inr vs
      | JStr s \<Rightarrow> Inr (map (\<lambda>c. JStr [c]) s)
      | JObj d \<Rightarrow> Inr (map (JStr \<circ> fst) d)
      | _ \<Rightarrow> Inl not_iterable)"

definition get_field :: "json \<Rightarrow> string \<Rightarrow> json result" where
  "get_field v k = (case v of JObj d \<Rightarrow> Inr (dict_get d k JNull) | _ \<Rightarrow> Inl no_attribute)"

definition bundles_in :: "doc \<Rightarrow> json list" where
  "bundles_in d = (case map_of d ''bundles'' of Some (JList bs) \<Rightarrow> bs | _ \<Rightarrow> [])"

text \<open>\<open>str(d).strip().lower()\<close> for each domain that \<open>v\<close> lists.\<close>

definition clean :: "string \<Rightarrow> string" where
  "clean s = lower (strip is_space s)"

definition domain_list :: "(json \<Rightarrow> string) \<Rightarrow> json \<Rightarrow> string list result" where
  "domain_list repr v = map_sum id (map (clean \<circ> py_str repr)) (items_of v)"

text \<open>\<open>str(bundle.get(k) or default)\<close>.\<close>

definition or_str :: "(json \<Rightarrow> string) \<Rightarrow> json \<Rightarrow> string \<Rightarrow> string" where
  "or_str repr v other = (if truthy v then py_str repr v else other)"

section \<open>The lists\<close>

record bundle_info =
  info_key :: string
  info_label :: string
  info_description :: string
  info_domains :: nat

definition describe_one :: "(json \<Rightarrow> string) \<Rightarrow> json \<Rightarrow> bundle_info option result" where
  "describe_one repr b =
     bind_result (get_field b ''key'') (\<lambda>kv.
       let k = or_str repr kv [] in
       if k = [] then Inr None
       else bind_result (get_field b ''label'') (\<lambda>l.
            bind_result (get_field b ''description'') (\<lambda>d.
            bind_result (get_field b ''domains'') (\<lambda>ds.
            bind_result (items_of ds) (\<lambda>xs.
              Inr (Some \<lparr>info_key = k, info_label = or_str repr l k,
                         info_description = or_str repr d [], info_domains = length xs\<rparr>))))))"

definition describe :: "(json \<Rightarrow> string) \<Rightarrow> doc \<Rightarrow> bundle_info list result" where
  "describe repr d =
     map_sum id (\<lambda>infos. [i. Some i \<leftarrow> infos]) (map_result (describe_one repr) (bundles_in d))"

definition bundle_keys :: "(json \<Rightarrow> string) \<Rightarrow> doc \<Rightarrow> string set result" where
  "bundle_keys repr d = map_sum id (\<lambda>infos. set (map info_key infos)) (describe repr d)"

definition chosen_domains :: "(json \<Rightarrow> string) \<Rightarrow> string list \<Rightarrow> json \<Rightarrow> string list result" where
  "chosen_domains repr wanted b =
     bind_result (get_field b ''key'') (\<lambda>k.
       if py_str repr k \<in> set wanted
       then bind_result (get_field b ''domains'') (domain_list repr)
       else Inr [])"

definition shared_domains :: "(json \<Rightarrow> string) \<Rightarrow> doc \<Rightarrow> string list result" where
  "shared_domains repr d =
     (let shared = dict_get d ''shared'' JNull in
      bind_result (get_field (if truthy shared then shared else JObj []) ''domains'') (domain_list repr))"

definition whitelist_domains :: "(json \<Rightarrow> string) \<Rightarrow> doc \<Rightarrow> string list \<Rightarrow> string list result" where
  "whitelist_domains repr d chosen =
     (if chosen = [] then Inr []
      else bind_result (map_result (chosen_domains repr chosen) (bundles_in d)) (\<lambda>found.
           bind_result (shared_domains repr d) (\<lambda>shared.
             Inr (sorted_set (filter (\<lambda>x. x \<noteq> []) (concat found @ shared))))))"

definition effective_whitelist :: "(json \<Rightarrow> string) \<Rightarrow> doc \<Rightarrow> user_policy \<Rightarrow> string list result" where
  "effective_whitelist repr d u =
     map_sum id (\<lambda>ds. sorted_set (map clean (whitelist u) @ ds))
       (whitelist_domains repr d (whitelist_bundles u))"

section \<open>Hosts a checkout needs\<close>

definition PAYMENT_SECURITY_HOSTS :: "string list" where
  "PAYMENT_SECURITY_HOSTS =
     [''*.online-metrix.net'', ''*.signifyd.com'', ''*.forter.com'', ''*.riskified.com'',
      ''*.sift.com'', ''*.siftscience.com'', ''*.kaxsdc.com'', ''*.kount.net'', ''*.accertify.net'',
      ''*.iovation.com'', ''*.iesnare.com'', ''*.nudatasecurity.com'', ''*.cybersource.com'',
      ''c.paypal.com'', ''m.stripe.com'', ''m.stripe.network'', ''r.stripe.com'',
      ''*.braintreegateway.com'', ''*.braintree-api.com'', ''*.adyen.com'',
      ''*.cardinalcommerce.com'', ''*.arcot.com'',
      ''*.perimeterx.net'', ''*.px-cdn.net'', ''*.px-cloud.net'', ''*.datadome.co'',
      ''*.hcaptcha.com'', ''*.arkoselabs.com'', ''*.funcaptcha.com'']"

text \<open>
  The shapes of names the regular expressions accept.  A label is a letter or digit, up to 61 of
  those and hyphens, and a letter or digit; \<open>$\<close> also matches before a newline that ends the text.
\<close>

definition is_lower_letter :: "char \<Rightarrow> bool" where
  "is_lower_letter c \<longleftrightarrow> (let n = of_char c :: nat in 97 \<le> n \<and> n \<le> 122)"

definition is_alnum :: "char \<Rightarrow> bool" where
  "is_alnum c \<longleftrightarrow> is_lower_letter c \<or> (let n = of_char c :: nat in 48 \<le> n \<and> n \<le> 57)"

definition is_label :: "string \<Rightarrow> bool" where
  "is_label s \<longleftrightarrow> s \<noteq> [] \<and> length s \<le> 63 \<and> is_alnum (hd s) \<and> is_alnum (last s)
     \<and> list_all (\<lambda>c. is_alnum c \<or> c = CHR ''-'') s"

definition newline :: char where "newline = CHR 0x0A"

definition drop_final_newline :: "string \<Rightarrow> string" where
  "drop_final_newline s = (if s \<noteq> [] \<and> last s = newline then butlast s else s)"

definition is_dns_name :: "nat \<Rightarrow> string \<Rightarrow> bool" where
  "is_dns_name longest s \<longleftrightarrow>
     (let ls = split_on CHR ''.'' s in
      length ls \<ge> 2 \<and> list_all is_label (butlast ls)
      \<and> 2 \<le> length (last ls) \<and> length (last ls) \<le> longest \<and> list_all is_lower_letter (last ls))"

definition entry_matches :: "string \<Rightarrow> bool" where
  "entry_matches s \<longleftrightarrow>
     (let t = drop_final_newline s in is_dns_name (length t) (remove_prefix ''*.'' t))"

text \<open>\<open>text.split("://", 1)[1]\<close> and \<open>text.split("/", 1)[0]\<close>.\<close>

fun after_scheme :: "string \<Rightarrow> string option" where
  "after_scheme [] = None"
| "after_scheme (c # cs) = (if prefix ''://'' (c # cs) then Some (drop 3 (c # cs)) else after_scheme cs)"

definition normalize :: "string \<Rightarrow> string result" where
  "normalize entry =
     (let t = lower (strip is_space entry);
          t = (case after_scheme t of Some rest \<Rightarrow> rest | None \<Rightarrow> t);
          t = rstrip (\<lambda>c. c = CHR ''.'') (takeWhile (\<lambda>c. c \<noteq> CHR ''/'') t) in
      if entry_matches t then Inr t else Inl ''not a host name'')"

definition is_builtin :: "string \<Rightarrow> bool" where
  "is_builtin e \<longleftrightarrow> e \<in> set PAYMENT_SECURITY_HOSTS"

definition combined :: "string list \<Rightarrow> string list" where
  "combined extra = dedup (PAYMENT_SECURITY_HOSTS @ extra)"

definition entry_covers :: "string \<Rightarrow> string \<Rightarrow> bool" where
  "entry_covers n e =
     (let e = lower e in
      if starts_with e ''*.'' then n = drop 2 e \<or> ends_with n (''.'' @ drop 2 e) else n = e)"

definition payment_covers :: "string \<Rightarrow> string list \<Rightarrow> bool" where
  "payment_covers host entries =
     (let n = rstrip (\<lambda>c. c = CHR ''.'') (lower (strip is_space host)) in
      n \<noteq> [] \<and> list_ex (entry_covers n) entries)"

end
