(* ===== verification/Resolver.thy ===== *)
theory Resolver
  imports Firewall Whitelists
begin

text \<open>
  \<open>kosherd/src/kosherd/dns.py\<close>: the policy rendered into dnsmasq's configuration.  Which names go
  into which address sets of the firewall, the safe-search answers, the blocked categories, the
  tailnet's names and the ad list.  A rendered file is its list of lines; the category list is an
  argument, as the function \<open>domains_in\<close> of either of its forms, and the tailnet's names are given.
\<close>

section \<open>Names and sets\<close>

definition RESOLVER_NEVER_BLOCKED :: "string list" where
  "RESOLVER_NEVER_BLOCKED = [''syncthing.net'']"

definition SYNCTHING_HOSTS :: "string list" where
  "SYNCTHING_HOSTS =
     [''discovery.syncthing.net'', ''discovery-v4.syncthing.net'',
      ''discovery-v6.syncthing.net'', ''relays.syncthing.net'']"

definition SAFESEARCH_CNAMES :: "(string, string list) dict" where
  "SAFESEARCH_CNAMES =
     [(''forcesafesearch.google.com'',
       [''google.com'', ''www.google.com'', ''google.co.il'', ''www.google.co.il'',
        ''google.co.uk'', ''www.google.co.uk'', ''google.ca'', ''www.google.ca'']),
      (''strict.bing.com'', [''bing.com'', ''www.bing.com'']),
      (''safe.duckduckgo.com'', [''duckduckgo.com'', ''www.duckduckgo.com'']),
      (''restrictmoderate.youtube.com'',
       [''youtube.com'', ''www.youtube.com'', ''m.youtube.com'',
        ''youtubei.googleapis.com'', ''youtube.googleapis.com'', ''www.youtube-nocookie.com''])]"

type_synonym set_pair = "string \<times> string"

definition nftset_line :: "string \<Rightarrow> set_pair list \<Rightarrow> string" where
  "nftset_line domain pairs =
     ''nftset=/'' @ remove_prefix ''*.'' domain @ ''/''
     @ join '','' (map (\<lambda>(s4, s6). ''4#inet#kosher#'' @ s4 @ '',6#inet#kosher#'' @ s6) pairs)"

definition covers :: "string \<Rightarrow> string \<Rightarrow> bool" where
  "covers pattern n \<longleftrightarrow> n = pattern \<or> ends_with n (''.'' @ pattern)"

definition bare :: "string \<Rightarrow> string" where
  "bare d = remove_prefix ''*.'' d"

text \<open>The lists whose names go into sets: a heading, the sets, and the names.\<close>

record name_group =
  heading :: string
  group_sets :: set_pair
  names :: "string list"

definition user_domains :: "(json \<Rightarrow> string) \<Rightarrow> doc \<Rightarrow> policy \<Rightarrow> string list result" where
  "user_domains repr bundles p =
     map_sum id (\<lambda>dss. sorted_set (map bare (concat dss)))
       (map_result (\<lambda>u. map_sum id (\<lambda>ds. ds @ (if developer_tools u then DEVELOPER_REGISTRIES else []))
                              (effective_whitelist repr bundles u))
                   (filter (\<lambda>u. mode u = ''whitelist'') (effective_users p)))"

definition system_domains :: "policy \<Rightarrow> string list \<Rightarrow> string list" where
  "system_domains p tailnet = sorted_set (map bare (effective_system_whitelist p @ tailnet))"

definition ssh_names :: "string list \<Rightarrow> int \<Rightarrow> string list result" where
  "ssh_names hosts port =
     bind_result (map_result ssh_entry hosts) (\<lambda>es.
     map_sum id (\<lambda>kinds. sorted_set (map bare [h. (h, Name) \<leftarrow> kinds]))
       (map_result (\<lambda>h. map_sum id (\<lambda>k. (h, k)) (ssh_entry_kind h))
                   (map fst (filter (\<lambda>(_, p). p = port) es))))"

definition ssh_heading :: "int \<Rightarrow> set_pair \<Rightarrow> string" where
  "ssh_heading i pair =
     ''# SSH machines of uid '' @ show_int i @ '' -> '' @ fst pair @ ''/'' @ snd pair"

definition ssh_port_group :: "user_policy \<Rightarrow> int \<Rightarrow> name_group list result" where
  "ssh_port_group u port =
     map_sum id (\<lambda>ns. if ns = [] then []
        else [\<lparr>heading = ssh_heading (uid u) (ssh_set_names (uid u) port),
               group_sets = ssh_set_names (uid u) port, names = ns\<rparr>])
       (ssh_names (ssh_hosts u) port)"

definition ssh_groups_of :: "user_policy \<Rightarrow> name_group list result" where
  "ssh_groups_of u =
     (if mode u \<in> set UNFILTERED_MODES \<or> mode u = ''none'' \<or> ssh_anywhere u then Inr []
      else bind_result (ssh_ports (ssh_hosts u)) (\<lambda>ports.
             map_sum id concat (map_result (ssh_port_group u) ports)))"

definition ssh_groups :: "policy \<Rightarrow> name_group list result" where
  "ssh_groups p = map_sum id concat (map_result ssh_groups_of (by_uid (effective_users p)))"

definition resolver_groups ::
    "(json \<Rightarrow> string) \<Rightarrow> doc \<Rightarrow> policy \<Rightarrow> string list \<Rightarrow> name_group list result" where
  "resolver_groups repr bundles p tailnet =
     bind_result (user_domains repr bundles p) (\<lambda>ds.
     bind_result (ssh_groups p) (\<lambda>ssh.
       Inr ([\<lparr>heading = ''# System domains (updates, connectivity check, portal) -> sys4/sys6'',
              group_sets = (''sys4'', ''sys6''), names = system_domains p tailnet\<rparr>,
             \<lparr>heading = ''# User whitelists -> wl4/wl6'',
              group_sets = (''wl4'', ''wl6''), names = ds\<rparr>,
             \<lparr>heading = ''# Git over SSH for developer accounts -> git4/git6'',
              group_sets = (''git4'', ''git6''), names = sort GIT_SSH_HOSTS\<rparr>,
             \<lparr>heading = ''# Syncthing'' @ [CHR 0x27] @ ''s discovery and relay list -> st4/st6'',
              group_sets = (''st4'', ''st6''), names = sort SYNCTHING_HOSTS\<rparr>] @ ssh)))"

section \<open>The lines\<close>

datatype item = Blank | Heading string | Entry string "set_pair list"

definition pairs_for :: "name_group list \<Rightarrow> string \<Rightarrow> set_pair list" where
  "pairs_for gs n = map group_sets (filter (\<lambda>g. list_ex (\<lambda>p. covers p n) (names g)) gs)"

text \<open>The names of one group, after those already done; then the groups in turn.\<close>

fun render_names :: "name_group list \<Rightarrow> string list \<Rightarrow> string set \<Rightarrow> item list \<times> string set" where
  "render_names gs [] done = ([], done)"
| "render_names gs (n # ns) done =
     (if n \<in> done then render_names gs ns done
      else case render_names gs ns (insert n done) of
             (items, done') \<Rightarrow> (Entry n (pairs_for gs n) # items, done'))"

fun render_groups :: "name_group list \<Rightarrow> name_group list \<Rightarrow> string set \<Rightarrow> item list" where
  "render_groups gs [] done = []"
| "render_groups gs (g # rest) done =
     (case render_names gs (names g) done of
        (items, done') \<Rightarrow> Blank # Heading (heading g) # items @ render_groups gs rest done')"

fun show_item :: "item \<Rightarrow> string" where
  "show_item Blank = []"
| "show_item (Heading h) = h"
| "show_item (Entry n pairs) = nftset_line n pairs"

definition revision_line :: "policy \<Rightarrow> string" where
  "revision_line p = ''# Rendered by kosherd from policy revision '' @ show_int (revision p)
                     @ ''. DO NOT EDIT.''"

definition whitelist_items ::
    "(json \<Rightarrow> string) \<Rightarrow> doc \<Rightarrow> policy \<Rightarrow> string list \<Rightarrow> item list result" where
  "whitelist_items repr bundles p tailnet =
     map_sum id (\<lambda>gs. render_groups gs gs {}) (resolver_groups repr bundles p tailnet)"

definition render_whitelist ::
    "(json \<Rightarrow> string) \<Rightarrow> doc \<Rightarrow> policy \<Rightarrow> string list \<Rightarrow> string list result" where
  "render_whitelist repr bundles p tailnet =
     map_sum id (\<lambda>is. revision_line p # map show_item is) (whitelist_items repr bundles p tailnet)"

section \<open>Safe search\<close>

definition wants_safesearch :: "policy \<Rightarrow> bool" where
  "wants_safesearch p \<longleftrightarrow> list_ex (\<lambda>u. mode u \<in> set SAFESEARCH_MODES) (effective_users p)"

definition render_safesearch :: "policy \<Rightarrow> string list" where
  "render_safesearch p =
     (if \<not> wants_safesearch p then [revision_line p, ''# No user needs safe search.'']
      else [revision_line p, ''# Safe search is forced for every user of this resolver.'',
            ''# host-record first: dnsmasq will not resolve a cname target it does not already know.'']
        @ [''host-record='' @ t @ '','' @ a. (t, a) \<leftarrow> SAFESEARCH_ADDRESSES,
             t \<in> set (Prelude.keys SAFESEARCH_CNAMES)]
        @ [[]]
        @ [''cname='' @ n @ '','' @ t. (t, ns) \<leftarrow> SAFESEARCH_CNAMES,
             t \<in> set (Prelude.keys SAFESEARCH_ADDRESSES), n \<leftarrow> ns])"

section \<open>Blocked categories and ads\<close>

definition never_blocked :: "string \<Rightarrow> string list \<Rightarrow> bool" where
  "never_blocked domain allowed \<longleftrightarrow> list_ex (\<lambda>n. covers (bare n) domain) allowed"

definition adblock_never_blocked :: "policy \<Rightarrow> string list" where
  "adblock_never_blocked p = combined (adblock_allowed p)"

definition ADBLOCK_CATEGORY :: string where "ADBLOCK_CATEGORY = ''ads''"

definition wanted_categories :: "policy \<Rightarrow> string set" where
  "wanted_categories p =
     (\<Union>u \<in> set (filter (\<lambda>u. mode u \<notin> set INSPECTED_MODES \<and> mode u \<noteq> ''whitelist'') (effective_users p)).
        set (blocked_categories u))"

definition upstream_covered :: "string set" where "upstream_covered = {''adult'', ''malware''}"

definition rendered_categories :: "policy \<Rightarrow> string set" where
  "rendered_categories p =
     wanted_categories p - upstream_covered - (if adblock p then {ADBLOCK_CATEGORY} else {})"

definition blocked_domains :: "(string set \<Rightarrow> string list) \<Rightarrow> policy \<Rightarrow> string list \<Rightarrow> string list" where
  "blocked_domains domains_of p tailnet =
     filter (\<lambda>d. \<not> never_blocked d (tailnet @ RESOLVER_NEVER_BLOCKED @ adblock_never_blocked p))
       (domains_of (rendered_categories p))"

definition render_category_blocks ::
    "(string set \<Rightarrow> string list) \<Rightarrow> policy \<Rightarrow> string list \<Rightarrow> string list" where
  "render_category_blocks domains_of p tailnet =
     (if wanted_categories p = {}
      then [revision_line p, ''# No uninspected user blocks a category.'']
      else revision_line p
        # (if wanted_categories p \<inter> upstream_covered \<noteq> {}
           then [''# adult/malware are blocked by the upstream family resolver for every query.'']
           else [])
        @ (if rendered_categories p \<noteq> {}
           then [''# Blocking '' @ join '', '' (sorted_list_of_set (rendered_categories p))
                 @ '' for users the proxy does not see.''] else [])
        @ concat (map (\<lambda>d. [''address=/'' @ d @ ''/0.0.0.0'', ''address=/'' @ d @ ''/::''])
                      (blocked_domains domains_of p tailnet)))"

definition ad_domains :: "(string set \<Rightarrow> string list) \<Rightarrow> policy \<Rightarrow> string list" where
  "ad_domains domains_of p =
     filter (\<lambda>d. \<not> never_blocked d (adblock_never_blocked p)) (domains_of {ADBLOCK_CATEGORY})"

definition render_adblock :: "(string set \<Rightarrow> string list) \<Rightarrow> policy \<Rightarrow> string list" where
  "render_adblock domains_of p =
     (if \<not> adblock p then [revision_line p, ''# Ad blocking is switched off.'']
      else let all_ads = domains_of {ADBLOCK_CATEGORY}; kept = ad_domains domains_of p in
        [revision_line p,
         ''# '' @ show_nat (length kept) @ '' advertising and tracker domains, for every account.'']
        @ (if length kept \<noteq> length all_ads
           then [''# '' @ show_nat (length all_ads - length kept) @ '' left reachable: payment and ''
                 @ ''fraud-check hosts a checkout needs (paymentsecurity.py).''] else [])
        @ map (\<lambda>d. ''address=/'' @ d @ ''/'') kept)"

section \<open>The tailnet\<close>

definition TAILNET_RESOLVER :: string where "TAILNET_RESOLVER = ''100.100.100.100''"

text \<open>\<open>_SUFFIX\<close>: its \<open>$\<close> also matches before a newline that ends the name.\<close>

definition suffix_matches :: "string \<Rightarrow> bool" where
  "suffix_matches s \<longleftrightarrow>
     (let t = drop_final_newline s in 1 \<le> length t \<and> length t \<le> 253 \<and> is_dns_name 63 t)"

definition suffix_name :: "string option \<Rightarrow> string" where
  "suffix_name s =
     lower (rstrip (\<lambda>c. c = CHR ''.'') (strip is_space (case s of None \<Rightarrow> [] | Some x \<Rightarrow> x)))"

definition tailnet_name :: "string option \<Rightarrow> string option" where
  "tailnet_name s =
     (let n = suffix_name s in
      if n = [] then None else if \<not> suffix_matches n then None else Some n)"

definition render_tailnet :: "string option \<Rightarrow> string list" where
  "render_tailnet s =
     ''# Rendered by kosherd from the tailnet this computer is signed in to. DO NOT EDIT.''
     # (let n = suffix_name s in
        if n = [] then [''# Not signed in to a tailnet.'']
        else if \<not> suffix_matches n
        then [''# The tailnet'' @ [CHR 0x27] @ ''s name was not a DNS name; nothing is forwarded.'']
        else [''server=/'' @ n @ ''/'' @ TAILNET_RESOLVER])"

section \<open>One line per name loses nothing\<close>

text \<open>
  dnsmasq uses the one line whose name is the longest that covers a host; \<open>fills\<close> is the sets its
  addresses then go into.
\<close>

fun longest :: "item list \<Rightarrow> string \<Rightarrow> (string \<times> set_pair list) option" where
  "longest [] h = None"
| "longest (Entry n ps # is) h =
     (if \<not> covers n h then longest is h
      else case longest is h of
             Some (m, qs) \<Rightarrow> if length n < length m then Some (m, qs) else Some (n, ps)
           | None \<Rightarrow> Some (n, ps))"
| "longest (_ # is) h = longest is h"

definition fills :: "item list \<Rightarrow> string \<Rightarrow> set_pair set" where
  "fills is h = (case longest is h of None \<Rightarrow> {} | Some (_, ps) \<Rightarrow> set ps)"

lemma covers_iff: "covers p n \<longleftrightarrow> domain_suffix p n"
  by (auto simp: covers_def domain_suffix_def ends_with_def)

lemma covers_refl [simp]: "covers n n"
  by (simp add: covers_def)

lemma covers_trans: "covers p m \<Longrightarrow> covers m h \<Longrightarrow> covers p h"
  by (auto simp: covers_def ends_with_def suffix_def)

lemma covers_length: "covers p h \<Longrightarrow> length p \<le> length h"
  by (auto simp: covers_def ends_with_def dest: suffix_length_le)

lemma covers_same_length: "covers p h \<Longrightarrow> length p = length h \<Longrightarrow> p = h"
  by (auto simp: covers_def ends_with_def dest: suffix_length_le)

lemma covers_chain:
  assumes "covers p h" "covers m h" "length p \<le> length m"
  shows "covers p m"
proof -
  consider "m = h" | "p = h" | "suffix (CHR ''.'' # p) h" "suffix (CHR ''.'' # m) h"
    using assms(1,2) unfolding covers_def ends_with_def by auto
  then show ?thesis
  proof cases
    case 2
    then have "length m = length h" using assms(3) covers_length [OF assms(2)] by simp
    then show ?thesis using covers_same_length [OF assms(2)] 2 by simp
  next
    case 3
    then have "suffix (CHR ''.'' # p) (CHR ''.'' # m)"
      by (rule suffix_length_suffix) (use assms(3) in simp)
    then have "p = m \<or> suffix (CHR ''.'' # p) m" unfolding suffix_Cons by simp
    then show ?thesis unfolding covers_def ends_with_def append_Cons append_Nil by blast
  qed (use assms in simp)
qed

fun answering :: "item list \<Rightarrow> string \<Rightarrow> (string \<times> set_pair list) list" where
  "answering [] h = []"
| "answering (Entry n qs # is) h = (if covers n h then (n, qs) # answering is h else answering is h)"
| "answering (_ # is) h = answering is h"

lemma set_answering: "(n, qs) \<in> set (answering is h) \<longleftrightarrow> Entry n qs \<in> set is \<and> covers n h"
proof (induction "is")
  case (Cons i "is")
  then show ?case by (cases i) auto
qed simp

lemma longest_answers:
  "case longest is h of
     None \<Rightarrow> answering is h = []
   | Some (m, ps) \<Rightarrow> (m, ps) \<in> set (answering is h) \<and> (\<forall>e \<in> set (answering is h). length (fst e) \<le> length m)"
proof (induction "is" h rule: longest.induct)
  case (2 n ps "is" h)
  show ?case
  proof (cases "covers n h")
    case True
    then show ?thesis
      using 2(2) by (cases "longest is h") (auto split: if_splits prod.splits intro: order_trans less_imp_le)
  next
    case False
    then show ?thesis using 2(1) by (auto split: option.splits)
  qed
qed (simp_all split: option.splits prod.splits)

lemma longest_SomeD:
  "longest is h = Some (m, ps) \<Longrightarrow>
     Entry m ps \<in> set is \<and> covers m h \<and> (\<forall>n qs. Entry n qs \<in> set is \<and> covers n h \<longrightarrow> length n \<le> length m)"
proof -
  assume "longest is h = Some (m, ps)"
  with longest_answers [of "is" h] have a: "(m, ps) \<in> set (answering is h)"
    "\<And>e. e \<in> set (answering is h) \<Longrightarrow> length (fst e) \<le> length m" by simp_all
  have "length n \<le> length m" if "Entry n qs \<in> set is" "covers n h" for n qs
    using a(2) [of "(n, qs)"] that by (simp add: set_answering)
  then show ?thesis using a(1) by (auto simp: set_answering)
qed

lemma longest_NoneD: "longest is h = None \<Longrightarrow> Entry n qs \<in> set is \<Longrightarrow> \<not> covers n h"
  using longest_answers [of "is" h] set_answering [of n qs "is" h] by auto

lemma render_names_done: "snd (render_names gs ns done) = done \<union> set ns"
  by (induction gs ns "done" rule: render_names.induct) (auto simp: case_prod_beta)

lemma render_names_entries:
  "set (fst (render_names gs ns done)) = {Entry n (pairs_for gs n) | n. n \<in> set ns - done}"
  by (induction gs ns "done" rule: render_names.induct) (auto simp: case_prod_beta)

lemma render_groups_entries:
  "Entry n ps \<in> set (render_groups gs rest done) \<longleftrightarrow>
     ps = pairs_for gs n \<and> n \<notin> done \<and> (\<exists>g \<in> set rest. n \<in> set (names g))"
proof (induction gs rest "done" rule: render_groups.induct)
  case (2 gs g rest "done")
  obtain "is" d where r: "render_names gs (names g) done = (is, d)"
    by (cases "render_names gs (names g) done")
  have i: "set is = {Entry n (pairs_for gs n) | n. n \<in> set (names g) - done}" "d = done \<union> set (names g)"
    using render_names_entries [of gs "names g" "done"] render_names_done [of gs "names g" "done"]
    by (simp_all add: r)
  show ?case
    using 2 [OF r [symmetric]] by (auto simp: r i)
qed simp

lemma set_pairs_for: "set (pairs_for gs n) = {group_sets g | g. g \<in> set gs \<and> (\<exists>p \<in> set (names g). covers p n)}"
  by (auto simp: pairs_for_def list_ex_iff)

lemma fills_render_groups:
  "fills (render_groups gs gs {}) h =
     {group_sets g | g. g \<in> set gs \<and> (\<exists>p \<in> set (names g). covers p h)}"
proof (cases "longest (render_groups gs gs {}) h")
  case None
  have "\<not> covers n h" if "g \<in> set gs" "n \<in> set (names g)" for n g
    using longest_NoneD [OF None, of n "pairs_for gs n"] that by (auto simp: render_groups_entries)
  then show ?thesis using None by (auto simp: fills_def)
next
  case (Some a)
  obtain m ps where a: "a = (m, ps)" by (cases a)
  from longest_SomeD [OF Some [unfolded a]]
  have m: "ps = pairs_for gs m" "covers m h"
    and l: "\<And>p g. g \<in> set gs \<Longrightarrow> p \<in> set (names g) \<Longrightarrow> covers p h \<Longrightarrow> length p \<le> length m"
    by (auto simp: render_groups_entries)
  have "covers p m \<longleftrightarrow> covers p h" if "g \<in> set gs" "p \<in> set (names g)" for p g
    using covers_trans [OF _ m(2)] covers_chain [OF _ m(2) l [OF that]] by blast
  then show ?thesis by (auto simp: fills_def Some a m(1) set_pairs_for)
qed

text \<open>
  Property C24: dnsmasq uses the longest name's line only, and still every address goes into exactly
  the sets of the lists that cover the host: no list hides another's name, and none is filled for
  a host it does not list.
\<close>

theorem resolved_sets_exact:
  assumes "resolver_groups repr bundles p tailnet = Inr gs"
  shows "\<exists>is. whitelist_items repr bundles p tailnet = Inr is
    \<and> fills is h = {group_sets g | g. g \<in> set gs \<and> (\<exists>n \<in> set (names g). covers n h)}"
  using assms fills_render_groups [of gs h] by (simp add: whitelist_items_def)

definition whitelist_example :: policy where
  "whitelist_example = default_policy
     \<lparr>users := [(default_user 1000 ''child'' ''whitelist'')\<lparr>whitelist := [''sub.example.org'']\<rparr>],
      system_whitelist := [''*.example.org'']\<rparr>"

theorem resolved_sets_exact_witness:
  "\<exists>gs is. resolver_groups (\<lambda>_. []) [] whitelist_example [] = Inr gs
     \<and> whitelist_items (\<lambda>_. []) [] whitelist_example [] = Inr is
     \<and> (''wl4'', ''wl6'') \<in> fills is ''a.sub.example.org''"
proof -
  have "user_domains (\<lambda>_. []) [] whitelist_example = Inr [''sub.example.org'']" "ssh_groups whitelist_example = Inr []"
    by code_simp+
  then obtain gs where gs: "resolver_groups (\<lambda>_. []) [] whitelist_example [] = Inr gs"
    and g: "\<exists>g \<in> set gs. group_sets g = (''wl4'', ''wl6'') \<and> names g = [''sub.example.org'']"
    by (simp add: resolver_groups_def)
  have "covers ''sub.example.org'' ''a.sub.example.org''"
    by (simp add: covers_def ends_with_def suffix_Cons)
  then show ?thesis
    using resolved_sets_exact [OF gs, of "''a.sub.example.org''"] gs g by force
qed

section \<open>The tailnet's name\<close>

lemma dns_name_chars:
  assumes "is_dns_name k s" "c \<in> set s"
  shows "is_alnum c \<or> c \<in> {CHR ''-'', CHR ''.''}"
proof -
  let ?ls = "split_on CHR ''.'' s"
  have p: "l \<in> set ?ls \<Longrightarrow> c \<in> set l \<Longrightarrow> is_alnum c \<or> c = CHR ''-''" for l
  proof -
    assume "l \<in> set ?ls" "c \<in> set l"
    then consider "l \<in> set (butlast ?ls)" | "l = last ?ls"
      by (metis append_butlast_last_id in_set_butlastD insert_iff list.set(1,2) set_append Un_iff
          split_on_not_Nil empty_iff)
    then show "is_alnum c \<or> c = CHR ''-''"
      using assms(1) \<open>c \<in> set l\<close>
      by cases (auto simp: is_dns_name_def Let_def list_all_iff is_label_def is_alnum_def)
  qed
  have "c \<in> set (join ''.'' ?ls)" using assms(2) by (simp add: join_split_on)
  moreover have "set (join ''.'' ls) \<subseteq> {CHR ''.''} \<union> \<Union> (set ` set ls)" for ls
    by (induction "''.''" ls rule: join.induct) auto
  ultimately show ?thesis using p by blast
qed

text \<open>
  The tailnet's name reaches dnsmasq's configuration only as a DNS name: two labels or
  more of letters, digits and hyphens, at most 253 characters.  Anything else is refused, and the
  file then holds comments only.
\<close>

theorem tailnet_name_checked:
  "case tailnet_name s of
     Some n \<Rightarrow> is_dns_name 63 (drop_final_newline n) \<and> length (drop_final_newline n) \<le> 253
              \<and> (\<forall>c \<in> set (drop_final_newline n). is_alnum c \<or> c \<in> {CHR ''-'', CHR ''.''})
              \<and> last (render_tailnet s) = ''server=/'' @ n @ ''/'' @ TAILNET_RESOLVER
   | None \<Rightarrow> \<forall>l \<in> set (render_tailnet s). starts_with l ''#''"
proof (cases "tailnet_name s")
  case None
  then show ?thesis
    by (auto simp: tailnet_name_def render_tailnet_def Let_def starts_with_def split: if_splits)
next
  case (Some n)
  then have n: "n = suffix_name s" "suffix_name s \<noteq> []" "suffix_matches (suffix_name s)"
    by (auto simp: tailnet_name_def Let_def split: if_splits)
  then show ?thesis
    using dns_name_chars [of 63 "drop_final_newline n"]
    by (auto simp: Some suffix_matches_def Let_def render_tailnet_def)
qed

lemma example_tailnet: "tailnet_name (Some ''Fam.ts.net.'') = Some ''fam.ts.net''"
  by code_simp

theorem tailnet_name_checked_witness:
  "tailnet_name (Some ''Fam.ts.net.'') = Some ''fam.ts.net'' \<and> is_dns_name 63 (drop_final_newline ''fam.ts.net'')
   \<and> last (render_tailnet (Some ''Fam.ts.net.'')) = ''server=/fam.ts.net/100.100.100.100''"
  using tailnet_name_checked [of "Some ''Fam.ts.net.''"] example_tailnet
  by (simp add: TAILNET_RESOLVER_def)

text \<open>The newline that \<open>$\<close> lets through: the name then ends its line before the slash.\<close>

lemma tailnet_name_newline:
  "tailnet_name (Some (''a.ts.net'' @ [newline] @ ''.'')) = Some (''a.ts.net'' @ [newline])"
  by code_simp

end
