(* ===== verification/UrlRules.thy ===== *)
theory UrlRules
  imports IpNet
begin

text \<open>
  \<open>kosherd/src/kosherd/urlrules.py\<close>: the ordered list of address rules, and what a rule's pattern
  matches.  The regular expression a pattern compiles to is a list of atoms with its matcher; the
  part of \<open>urllib.parse.urlsplit\<close> that the daemon uses is written out.  Text is ASCII.
\<close>

section \<open>Addresses\<close>

text \<open>\<open>s.partition(c)\<close> and \<open>s.rpartition(c)[2]\<close>.\<close>

definition before :: "char \<Rightarrow> string \<Rightarrow> string" where
  "before c s = takeWhile (\<lambda>x. x \<noteq> c) s"

definition after :: "char \<Rightarrow> string \<Rightarrow> string" where
  "after c s = drop 1 (dropWhile (\<lambda>x. x \<noteq> c) s)"

definition after_last :: "char \<Rightarrow> string \<Rightarrow> string" where
  "after_last c s = rev (takeWhile (\<lambda>x. x \<noteq> c) (rev s))"

definition bad_url :: string where "bad_url = ''Invalid IPv6 URL''"

definition is_letter :: "char \<Rightarrow> bool" where
  "is_letter c \<longleftrightarrow> (let n = of_char (lower_char c) :: nat in 97 \<le> n \<and> n \<le> 122)"

definition is_scheme_char :: "char \<Rightarrow> bool" where
  "is_scheme_char c \<longleftrightarrow>
     is_letter c \<or> (let n = of_char c :: nat in 48 \<le> n \<and> n \<le> 57) \<or> c \<in> {CHR ''+'', CHR ''-'', CHR ''.''}"

definition is_control_or_space :: "char \<Rightarrow> bool" where
  "is_control_or_space c \<longleftrightarrow> (of_char c :: nat) \<le> 32"

definition unsafe_bytes :: "char set" where
  "unsafe_bytes = {CHR 0x09, CHR 0x0A, CHR 0x0D}"

text \<open>The scheme is dropped when there is one.\<close>

definition drop_scheme :: "string \<Rightarrow> string" where
  "drop_scheme u =
     (let s = before CHR '':'' u in
      if CHR '':'' \<in> set u \<and> s \<noteq> [] \<and> is_letter (hd u) \<and> list_all is_scheme_char s
      then after CHR '':'' u else u)"

text \<open>A host in brackets must be an IPv6 address, or \<open>v\<close> and a version.\<close>

definition is_hex :: "char \<Rightarrow> bool" where
  "is_hex c \<longleftrightarrow> hex_value c \<noteq> None"

definition ipvfuture :: "string \<Rightarrow> bool" where
  "ipvfuture s \<longleftrightarrow>
     (let version = takeWhile is_hex (drop 1 s); rest = dropWhile is_hex (drop 1 s) in
      version \<noteq> [] \<and> length rest \<ge> 2 \<and> hd rest = CHR ''.'')"

definition bracketed_ok :: "string \<Rightarrow> bool" where
  "bracketed_ok h \<longleftrightarrow>
     (if starts_with h ''v'' then ipvfuture h
      else (case drop_scope h of None \<Rightarrow> False | Some a \<Rightarrow> parse_ipv6 a \<noteq> None))"

definition netloc_ok :: "string \<Rightarrow> bool" where
  "netloc_ok n \<longleftrightarrow>
     (CHR ''['' \<in> set n \<longleftrightarrow> CHR '']'' \<in> set n)
     \<and> (CHR ''['' \<in> set n \<longrightarrow> bracketed_ok (before CHR '']'' (after CHR ''['' n)))"

text \<open>\<open>parts.hostname\<close>: the part after \<open>@\<close>, in brackets or up to a colon, in lower case.\<close>

definition hostname_of :: "string \<Rightarrow> string" where
  "hostname_of netloc =
     (let info = after_last CHR ''@'' netloc;
          h = (if CHR ''['' \<in> set info then before CHR '']'' (after CHR ''['' info)
               else before CHR '':'' info) in
      lower (before CHR ''%'' h) @ dropWhile (\<lambda>c. c \<noteq> CHR ''%'') h)"

record split_url =
  url_host :: string
  url_path :: string
  url_query :: string

definition urlsplit :: "string \<Rightarrow> split_url result" where
  "urlsplit raw =
     (let u = drop_scheme (filter (\<lambda>c. c \<notin> unsafe_bytes) (dropWhile is_control_or_space raw)) in
      if starts_with u ''//''
      then (let n = takeWhile (\<lambda>c. c \<notin> {CHR ''/'', CHR ''?'', CHR ''#''}) (drop 2 u);
                rest = before CHR ''#'' (drop (2 + length n) u) in
            if \<not> netloc_ok n then Inl bad_url
            else Inr \<lparr>url_host = hostname_of n, url_path = before CHR ''?'' rest,
                      url_query = after CHR ''?'' rest\<rparr>)
      else (let rest = before CHR ''#'' u in
            Inr \<lparr>url_host = [], url_path = before CHR ''?'' rest, url_query = after CHR ''?'' rest\<rparr>))"

section \<open>Patterns\<close>

text \<open>
  \<open>_canonical\<close>: host and path, without a leading \<open>www.\<close> or a trailing slash.
\<close>

definition canonical_host :: "string \<Rightarrow> string" where
  "canonical_host host = remove_prefix ''www.'' (strip (\<lambda>c. c = CHR ''.'') (lower host))"

definition canonical_path :: "string \<Rightarrow> string" where
  "canonical_path path =
     (let p = if starts_with path ''/'' then path else ''/'' @ path in
      if length p > 1 then rstrip (\<lambda>c. c = CHR ''/'') p else p)"

definition canonical :: "string \<Rightarrow> string \<Rightarrow> string" where
  "canonical host path = canonical_host host @ canonical_path path"

text \<open>
  The atoms of the compiled expressions: an escaped character, \<open>.*\<close>, \<open>(?:[^/]+\.)?\<close> and
  \<open>(?:/.*)?\<close>.  Case is ignored, \<open>.\<close> is not a newline, and \<open>$\<close> also matches before a final newline.
\<close>

datatype atom = Lit char | Any | Subdomain | Below

definition nl :: char where "nl = CHR 0x0A"

fun match_any :: "(string \<Rightarrow> bool) \<Rightarrow> string \<Rightarrow> bool" where
  "match_any k [] = k []"
| "match_any k (c # cs) = (k (c # cs) \<or> c \<noteq> nl \<and> match_any k cs)"

fun match_sub :: "(string \<Rightarrow> bool) \<Rightarrow> bool \<Rightarrow> string \<Rightarrow> bool" where
  "match_sub k some [] = False"
| "match_sub k some (c # cs) = (some \<and> c = CHR ''.'' \<and> k cs \<or> c \<noteq> CHR ''/'' \<and> match_sub k True cs)"

fun match_atoms :: "atom list \<Rightarrow> string \<Rightarrow> bool" where
  "match_atoms [] s = (s = [] \<or> s = [nl])"
| "match_atoms (Lit c # as) s =
     (case s of [] \<Rightarrow> False | x # xs \<Rightarrow> lower_char x = lower_char c \<and> match_atoms as xs)"
| "match_atoms (Any # as) s = match_any (match_atoms as) s"
| "match_atoms (Subdomain # as) s = (match_atoms as s \<or> match_sub (match_atoms as) False s)"
| "match_atoms (Below # as) s =
     (match_atoms as s \<or> (case s of [] \<Rightarrow> False | x # xs \<Rightarrow> x = CHR ''/'' \<and> match_any (match_atoms as) xs))"

definition glob :: "string \<Rightarrow> atom list" where
  "glob t = map (\<lambda>c. if c = CHR ''*'' then Any else Lit c) t"

definition escaped :: "string \<Rightarrow> atom list" where "escaped t = map Lit t"

definition compile :: "string \<Rightarrow> atom list" where
  "compile pattern =
     (let p = remove_prefix ''www.'' (remove_prefix ''http://'' (remove_prefix ''https://''
                (lower (strip is_space pattern))));
          p = (if CHR ''/'' \<notin> set p then p @ ''/*'' else p);
          host = before CHR ''/'' p; path = ''/'' @ after CHR ''/'' p;
          host_re = (if starts_with host ''*.'' then Subdomain # escaped (drop 2 host) else glob host);
          path_re = (if ends_with path ''/*'' then glob (take (length path - 2) path) @ [Below]
                     else glob path) in
      host_re @ path_re)"

section \<open>Rules\<close>

definition ALLOW :: string where "ALLOW = ''allow''"
definition BLOCK :: string where "BLOCK = ''block''"
definition BYPASS :: string where "BYPASS = ''bypass''"
definition PICTURES :: string where "PICTURES = ''pictures''"
definition RULE_ACTIONS :: "string list" where "RULE_ACTIONS = [ALLOW, BLOCK, BYPASS, PICTURES]"

record url_rule =
  rule_action :: string
  rule_pattern :: string

definition new_rule :: "string \<Rightarrow> string \<Rightarrow> url_rule result" where
  "new_rule a p =
     (if a \<notin> set RULE_ACTIONS then Inl ''unknown action''
      else if strip is_space p = [] then Inl ''pattern must not be empty''
      else Inr \<lparr>rule_action = a, rule_pattern = p\<rparr>)"

definition rule_matches :: "url_rule \<Rightarrow> string \<Rightarrow> string \<Rightarrow> bool" where
  "rule_matches r host path = match_atoms (compile (rule_pattern r)) (canonical host path)"

definition rule_to_dict :: "url_rule \<Rightarrow> (string, string) dict" where
  "rule_to_dict r = [(''action'', rule_action r), (''pattern'', rule_pattern r)]"

definition rule_of :: "(string, string) dict \<Rightarrow> url_rule result" where
  "rule_of d =
     (case map_of d ''action'' of None \<Rightarrow> Inl ''KeyError'' | Some a \<Rightarrow>
      (case map_of d ''pattern'' of None \<Rightarrow> Inl ''KeyError'' | Some p \<Rightarrow> new_rule a p))"

definition parse_rules :: "(string, string) dict list \<Rightarrow> url_rule list result" where
  "parse_rules raw = map_result rule_of raw"

text \<open>The loop of \<open>decide\<close>: the first rule that matches.\<close>

definition decide_at :: "url_rule list \<Rightarrow> string \<Rightarrow> string \<Rightarrow> string \<times> string option" where
  "decide_at rules host path =
     (case find (\<lambda>r. rule_matches r host path) rules of
        Some r \<Rightarrow> (rule_action r, Some (rule_pattern r))
      | None \<Rightarrow> (ALLOW, None))"

fun has_slashes :: "string \<Rightarrow> bool" where
  "has_slashes (a # b # cs) = (a = CHR ''/'' \<and> b = CHR ''/'' \<or> has_slashes (b # cs))"
| "has_slashes _ = False"

definition decide_url :: "url_rule list \<Rightarrow> string \<Rightarrow> (string \<times> string option) result" where
  "decide_url rules url =
     map_sum id (\<lambda>u.
       let path = (if url_path u = [] then ''/'' else url_path u) in
       decide_at rules (url_host u) (if url_query u = [] then path else path @ ''?'' @ url_query u))
     (urlsplit (if has_slashes url then url else ''//'' @ url))"

text \<open>\<open>(parts.path or "/").rsplit("/", 1)[0]\<close>, and the folder as a rule.\<close>

definition parent_of :: "string \<Rightarrow> string" where
  "parent_of path =
     (if CHR ''/'' \<in> set path
      then rev (drop 1 (dropWhile (\<lambda>c. c \<noteq> CHR ''/'') (rev path))) else path)"

definition folder_of :: "string \<Rightarrow> string option result" where
  "folder_of url =
     map_sum id (\<lambda>u.
       let host = canonical_host (url_host u);
           folder = parent_of (if url_path u = [] then ''/'' else url_path u) in
       if host \<noteq> [] \<and> folder \<noteq> [] then Some (host @ folder @ ''/*'') else None)
     (urlsplit url)"

section \<open>What an expression matches\<close>

lemma match_lits:
  "match_atoms (map Lit d @ as) s \<longleftrightarrow>
     length d \<le> length s \<and> lower (take (length d) s) = lower d \<and> match_atoms as (drop (length d) s)"
proof (induction d arbitrary: s)
  case (Cons c d)
  then show ?case by (cases s) (auto simp: lower_def)
qed (simp add: lower_def)

lemma match_any_end: "nl \<notin> set xs \<Longrightarrow> match_any (match_atoms []) xs"
  by (induction xs) auto

lemma match_any_skip: "nl \<notin> set xs \<Longrightarrow> k ys \<Longrightarrow> match_any k (xs @ ys)"
proof (induction xs)
  case Nil
  then show ?case by (cases ys) simp_all
next
  case (Cons a xs)
  then have "a \<noteq> nl" by auto
  moreover have "match_any k (xs @ ys)" using Cons by simp
  ultimately show ?case by simp
qed

lemma match_below:
  "nl \<notin> set s \<Longrightarrow> match_atoms [Below] s \<longleftrightarrow> s = [] \<or> hd s = CHR ''/''"
  by (cases s) (auto simp: match_any_end)

lemma match_sub_iff:
  "match_sub k some s \<longleftrightarrow>
     (\<exists>l t. s = l @ CHR ''.'' # t \<and> (some \<or> l \<noteq> []) \<and> CHR ''/'' \<notin> set l \<and> k t)"
proof (induction s arbitrary: some)
  case (Cons c cs)
  show ?case
  proof
    assume "match_sub k some (c # cs)"
    then consider "some" "c = CHR ''.''" "k cs" | "c \<noteq> CHR ''/''" "match_sub k True cs" by auto
    then show "\<exists>l t. c # cs = l @ CHR ''.'' # t \<and> (some \<or> l \<noteq> []) \<and> CHR ''/'' \<notin> set l \<and> k t"
    proof cases
      case 1
      then show ?thesis by (intro exI [of _ "[]"] exI [of _ cs]) simp
    next
      case 2
      then obtain l t where "cs = l @ CHR ''.'' # t" "CHR ''/'' \<notin> set l" "k t" using Cons by auto
      then show ?thesis using 2 by (intro exI [of _ "c # l"] exI [of _ t]) simp
    qed
  next
    assume "\<exists>l t. c # cs = l @ CHR ''.'' # t \<and> (some \<or> l \<noteq> []) \<and> CHR ''/'' \<notin> set l \<and> k t"
    then obtain l t where l: "c # cs = l @ CHR ''.'' # t" "some \<or> l \<noteq> []" "CHR ''/'' \<notin> set l" "k t" by blast
    show "match_sub k some (c # cs)"
    proof (cases l)
      case Nil
      then show ?thesis using l by simp
    next
      case (Cons x l')
      then have "match_sub k True cs" "c \<noteq> CHR ''/''" using l Cons.IH by auto
      then show ?thesis by simp
    qed
  qed
qed simp

text \<open>The part of a host and a path up to the first slash.\<close>

definition slash_end :: "string \<Rightarrow> bool" where
  "slash_end s \<longleftrightarrow> s = [] \<or> hd s = CHR ''/''"

lemma split_at_slash:
  assumes "CHR ''/'' \<notin> set a" "CHR ''/'' \<notin> set b" "slash_end x" "slash_end y" "a @ x = b @ y"
  shows "a = b \<and> x = y"
proof -
  have t: "takeWhile (\<lambda>c. c \<noteq> CHR ''/'') (u @ v) = u" if "CHR ''/'' \<notin> set u" "slash_end v" for u v
    using that by (cases v) (auto simp: slash_end_def takeWhile_append)
  have "a = b" using t [OF assms(1,3)] t [OF assms(2,4)] assms(5) by simp
  then show ?thesis using assms(5) by simp
qed

lemma canonical_path_slash: "slash_end (canonical_path p)"
proof -
  have "rstrip (\<lambda>c. c = CHR ''/'') s = [] \<or> hd (rstrip (\<lambda>c. c = CHR ''/'') s) = hd s" for s
  proof -
    have "\<exists>t. s = rstrip (\<lambda>c. c = CHR ''/'') s @ t"
      unfolding rstrip_def by (metis rev_append rev_rev_ident takeWhile_dropWhile_id)
    then show ?thesis by (metis hd_append2)
  qed
  note r = this
  let ?p = "if starts_with p ''/'' then p else ''/'' @ p"
  have "hd ?p = CHR ''/''" by (auto simp: starts_with_def prefix_def)
  then show ?thesis using r [of ?p] by (auto simp: canonical_path_def slash_end_def Let_def)
qed

lemma canonical_path_nl: "nl \<notin> set p \<Longrightarrow> nl \<notin> set (canonical_path p)"
  by (auto simp: canonical_path_def Let_def rstrip_def nl_def dest: set_dropWhileD)

lemma lower_fixed: "(\<And>c. c \<in> set s \<Longrightarrow> lower_char c = c) \<Longrightarrow> lower s = s"
  by (simp add: lower_def map_idI)

lemma canonical_host_chars: "c \<in> set (canonical_host h) \<Longrightarrow> c \<in> set (lower h)"
  by (auto simp: canonical_host_def remove_prefix_def strip_def rstrip_def
           split: if_splits dest!: set_dropWhileD in_set_dropD)

lemma lower_canonical_host [simp]: "lower (canonical_host h) = canonical_host h"
  by (rule lower_fixed) (auto simp: lower_def dest!: canonical_host_chars)

lemma lower_char_slash: "lower_char c = CHR ''/'' \<longleftrightarrow> c = CHR ''/''"
proof
  assume l: "lower_char c = CHR ''/''"
  show "c = CHR ''/''"
  proof (cases "65 \<le> (of_char c :: nat) \<and> (of_char c :: nat) \<le> 90")
    case True
    then have "char_of ((of_char c :: nat) + 32) = CHR ''/''" using l by (simp add: lower_char_def Let_def)
    then have "(of_char (char_of ((of_char c :: nat) + 32)) :: nat) = of_char CHR ''/''" by simp
    then show ?thesis using True by (simp add: take_bit_eq_mod)
  next
    case False
    then show ?thesis using l by (auto simp: lower_char_def Let_def)
  qed
qed (simp add: lower_char_def)

lemma slash_lower: "CHR ''/'' \<in> set (lower s) \<longleftrightarrow> CHR ''/'' \<in> set s"
  unfolding lower_def set_map by (metis image_iff lower_char_slash)

lemma match_host_end:
  assumes "CHR ''/'' \<notin> set d" "CHR ''/'' \<notin> set c" "slash_end p" "nl \<notin> set c" "nl \<notin> set p"
    and "lower d = d" "lower c = c"
  shows "match_atoms (map Lit d @ [Below]) (c @ p) \<longleftrightarrow> c = d"
proof
  assume m: "match_atoms (map Lit d @ [Below]) (c @ p)"
  let ?s = "c @ p" and ?n = "length d"
  from m have l: "lower (take ?n ?s) = d" and b: "match_atoms [Below] (drop ?n ?s)"
    by (simp_all add: match_lits assms(6))
  have "nl \<notin> set (drop ?n ?s)" using assms(4,5) by (auto dest: in_set_dropD)
  then have "slash_end (drop ?n ?s)" using b unfolding match_below [OF \<open>nl \<notin> set (drop ?n ?s)\<close>] slash_end_def by blast
  moreover have "CHR ''/'' \<notin> set (take ?n ?s)" using l assms(1) slash_lower by metis
  ultimately have "take ?n ?s = c"
    using split_at_slash [OF _ assms(2) _ assms(3) append_take_drop_id] by blast
  then show "c = d" using l assms(7) by simp
next
  assume "c = d"
  then show "match_atoms (map Lit d @ [Below]) (c @ p)"
    using assms match_below [of p] by (simp add: match_lits slash_end_def)
qed


section \<open>Hosts\<close>

text \<open>A host as a rule names it: in lower case, with no slash, star or white space.\<close>

definition plain_host :: "string \<Rightarrow> bool" where
  "plain_host d \<longleftrightarrow> d \<noteq> [] \<and> lower d = d \<and> set d \<inter> {CHR ''/'', CHR ''*'', nl} = {}
     \<and> strip is_space d = d \<and> \<not> prefix ''www.'' d"

lemma no_scheme: "CHR ''/'' \<notin> set d \<Longrightarrow> remove_prefix ''http://'' (remove_prefix ''https://'' d) = d"
  by (auto simp: remove_prefix_def prefix_def)

lemma before_append: "c \<notin> set a \<Longrightarrow> before c (a @ c # b) = a \<and> after c (a @ c # b) = b"
  by (simp add: before_def after_def takeWhile_append dropWhile_append)

lemma compile_host: "plain_host d \<Longrightarrow> \<not> prefix ''*.'' d \<Longrightarrow> compile d = map Lit d @ [Below]"
proof -
  assume d: "plain_host d" and n: "\<not> prefix ''*.'' d"
  have "glob d = map Lit d" using d by (auto simp: glob_def plain_host_def)
  moreover have "remove_prefix ''www.'' d = d" using d by (simp add: plain_host_def remove_prefix_def)
  ultimately show ?thesis
    using d n by (simp add: compile_def plain_host_def no_scheme before_append starts_with_def ends_with_def
        glob_def [of "[]"])
qed

lemma strip_no_change: "s \<noteq> [] \<Longrightarrow> \<not> f (hd s) \<Longrightarrow> \<not> f (last s) \<Longrightarrow> strip f s = s"
proof -
  assume s: "s \<noteq> []" "\<not> f (hd s)" "\<not> f (last s)"
  then have "dropWhile f s = s" by (simp add: dropWhile_eq_self_iff)
  moreover have "dropWhile f (rev s) = rev s" using s by (simp add: dropWhile_eq_self_iff hd_rev)
  ultimately show "strip f s = s" by (simp add: strip_def rstrip_def)
qed

lemma strip_last: "strip f d = d \<Longrightarrow> d \<noteq> [] \<Longrightarrow> \<not> f (last d)"
proof -
  assume "strip f d = d" "d \<noteq> []"
  then have "rev d = dropWhile f (rev (dropWhile f d))" by (simp add: strip_def rstrip_def) (metis rev_rev_ident)
  moreover have "rev d \<noteq> []" using \<open>d \<noteq> []\<close> by simp
  ultimately have "\<not> f (hd (rev d))" by (metis hd_dropWhile)
  then show ?thesis by (simp add: hd_rev)
qed

lemma compile_subdomain: "plain_host d \<Longrightarrow> compile (''*.'' @ d) = Subdomain # map Lit d @ [Below]"
proof -
  assume d: "plain_host d"
  have "strip is_space (''*.'' @ d) = ''*.'' @ d"
    using d strip_last [of is_space d] by (intro strip_no_change) (auto simp: plain_host_def is_space_def)
  moreover have "lower (''*.'' @ d) = ''*.'' @ d"
    using d by (simp add: plain_host_def lower_def lower_char_def)
  moreover have "remove_prefix ''www.'' (''*.'' @ d) = ''*.'' @ d" by (simp add: remove_prefix_def)
  ultimately show ?thesis
    using d no_scheme [of "''*.'' @ d"] before_append [of "CHR ''/''" "''*.'' @ d"]
    by (simp add: compile_def plain_host_def starts_with_def ends_with_def escaped_def glob_def)
qed

text \<open>
  Property C25: a rule that names a host covers every page of that host and nothing else; one that
  names \<open>*.host\<close> covers the host and its subdomains at any depth and nothing else.
\<close>

theorem host_rules_exact:
  assumes "plain_host d" "\<not> prefix ''*.'' d"
    and "CHR ''/'' \<notin> set (canonical_host host)" "nl \<notin> set (canonical_host host)" "nl \<notin> set path"
  shows "(rule_matches \<lparr>rule_action = a, rule_pattern = d\<rparr> host path \<longleftrightarrow> canonical_host host = d)
    \<and> (rule_matches \<lparr>rule_action = a, rule_pattern = ''*.'' @ d\<rparr> host path \<longleftrightarrow>
         canonical_host host = d \<or> (\<exists>l. l \<noteq> [] \<and> canonical_host host = l @ ''.'' @ d))"
proof -
  let ?c = "canonical_host host" and ?p = "canonical_path path"
  have d: "CHR ''/'' \<notin> set d" "lower d = d" using assms(1) by (auto simp: plain_host_def)
  have p: "slash_end ?p" "nl \<notin> set ?p"
    using canonical_path_slash canonical_path_nl [OF assms(5)] by auto
  have h: "match_atoms (map Lit d @ [Below]) (?c @ ?p) \<longleftrightarrow> ?c = d"
    by (rule match_host_end) (use d p assms(3,4) in auto)
  have s: "match_sub (match_atoms (map Lit d @ [Below])) False (?c @ ?p)
      \<longleftrightarrow> (\<exists>l. l \<noteq> [] \<and> ?c = l @ ''.'' @ d)"
  proof
    assume "match_sub (match_atoms (map Lit d @ [Below])) False (?c @ ?p)"
    then obtain l t where l: "?c @ ?p = l @ CHR ''.'' # t" "l \<noteq> []" "CHR ''/'' \<notin> set l"
      and t: "match_atoms (map Lit d @ [Below]) t" by (auto simp: match_sub_iff)
    let ?n = "length d"
    have nlt: "nl \<notin> set t"
    proof -
      have "set t \<subseteq> set (?c @ ?p)" unfolding l(1) by auto
      then show ?thesis using assms(4) p(2) by auto
    qed
    from t have lo: "lower (take ?n t) = d" and b: "match_atoms [Below] (drop ?n t)"
      by (simp_all add: match_lits d(2))
    have "nl \<notin> set (drop ?n t)" using nlt by (auto dest: in_set_dropD)
    then have e: "slash_end (drop ?n t)"
      using b unfolding match_below [OF \<open>nl \<notin> set (drop ?n t)\<close>] slash_end_def by blast
    have "CHR ''/'' \<notin> set (take ?n t)" using lo d(1) slash_lower by metis
    then have no: "CHR ''/'' \<notin> set (l @ CHR ''.'' # take ?n t)" using l(3) by simp
    have "(l @ CHR ''.'' # take ?n t) @ drop ?n t = ?c @ ?p" using l(1) by simp
    from split_at_slash [OF no assms(3) e p(1) this] have c: "?c = l @ CHR ''.'' # take ?n t" by simp
    have "lower ?c = ?c" by simp
    then have "lower (take ?n t) = take ?n t" unfolding c by (simp add: lower_def)
    then show "\<exists>l. l \<noteq> [] \<and> ?c = l @ ''.'' @ d" using c l(2) lo by auto
  next
    assume "\<exists>l. l \<noteq> [] \<and> ?c = l @ ''.'' @ d"
    then obtain l where l: "l \<noteq> []" "?c = l @ CHR ''.'' # d" by auto
    have "match_atoms (map Lit d @ [Below]) (d @ ?p)"
      using p match_below [of ?p] by (simp add: match_lits d(2) slash_end_def)
    moreover have "CHR ''/'' \<notin> set l" using assms(3) l(2) by simp
    ultimately show "match_sub (match_atoms (map Lit d @ [Below])) False (?c @ ?p)"
      unfolding match_sub_iff using l by (intro exI [of _ l] exI [of _ "d @ ?p"]) simp
  qed
  show ?thesis
    using h s compile_host [OF assms(1,2)] compile_subdomain [OF assms(1)]
    by (simp add: rule_matches_def canonical_def)
qed

theorem host_rules_exact_witness:
  "rule_matches \<lparr>rule_action = BLOCK, rule_pattern = ''*.example.com''\<rparr> ''WWW.a.b.example.com.'' ''/x''
   \<and> \<not> rule_matches \<lparr>rule_action = BLOCK, rule_pattern = ''example.com''\<rparr> ''WWW.a.b.example.com.'' ''/x''"
proof -
  have c: "canonical_host ''WWW.a.b.example.com.'' = ''a.b.example.com''" and d: "plain_host ''example.com''"
    by code_simp+
  show ?thesis
    using host_rules_exact [OF d, of "''WWW.a.b.example.com.''" "''/x''" BLOCK]
    by (auto simp: c nl_def intro: exI [of _ "''a.b''"])
qed

text \<open>A star in a host that is not a leading \<open>*.\<close> reaches over the slash into the path.\<close>

lemma host_star_reaches_path:
  "decide_url [\<lparr>rule_action = BYPASS, rule_pattern = ''*google.com''\<rparr>] ''https://evil.example/google.com''
   = Inr (BYPASS, Some ''*google.com'')"
  by code_simp

end
