(* ===== verification/AccessRequests.thy ===== *)
theory AccessRequests
  imports Prelude "HOL-Library.Multiset"
begin

text \<open>
  \<open>kosherd/src/kosherd/accessreq.py\<close>: the spool of requests for a page.  The spool is the map from
  file names to what the files hold; it is \<open>None\<close> when the directory cannot be read or written.  A
  file holds a document or nothing that parses.  The random identifier and the clock are arguments.
\<close>

section \<open>The spool\<close>

definition MAX_URL :: nat where "MAX_URL = 2000"
definition MAX_NOTE :: nat where "MAX_NOTE = 500"
definition MAX_WHY :: nat where "MAX_WHY = 300"
definition MAX_PENDING :: nat where "MAX_PENDING = 200"

type_synonym spool = "(string, json option) dict"

definition is_id :: "string \<Rightarrow> bool" where
  "is_id s \<longleftrightarrow> length s = 32 \<and> list_all (\<lambda>c. c \<in> set ''0123456789abcdef'') s"

definition json_file :: "string \<Rightarrow> string" where
  "json_file i = i @ ''.json''"

text \<open>\<open>path.suffix == ".json"\<close>: the last dot and what follows, which a name does not begin with.\<close>

definition is_json_name :: "string \<Rightarrow> bool" where
  "is_json_name n \<longleftrightarrow> ends_with n ''.json'' \<and> n \<noteq> ''.json''"

definition is_web :: "string \<Rightarrow> bool" where
  "is_web u \<longleftrightarrow> starts_with u ''http://'' \<or> starts_with u ''https://''"

text \<open>\<open>str(document.get("id", ""))\<close> passes \<open>_is_id\<close> for a string, or for a number of 32 digits.\<close>

definition id_of :: "doc \<Rightarrow> string option" where
  "id_of d = (case map_of d ''id'' of Some (JStr s) \<Rightarrow> Some s | Some (JInt i) \<Rightarrow> Some (show_int i) | _ \<Rightarrow> None)"

definition is_int :: "json option \<Rightarrow> bool" where
  "is_int v \<longleftrightarrow> (case v of Some (JInt _) \<Rightarrow> True | Some (JBool _) \<Rightarrow> True | _ \<Rightarrow> False)"

definition valid :: "json \<Rightarrow> bool" where
  "valid j \<longleftrightarrow>
     (case j of
        JObj d \<Rightarrow>
          (case id_of d of None \<Rightarrow> False | Some i \<Rightarrow> is_id i)
          \<and> is_int (map_of d ''uid'')
          \<and> (case map_of d ''url'' of Some (JStr u) \<Rightarrow> is_web u \<and> length u \<le> MAX_URL | _ \<Rightarrow> False)
      | _ \<Rightarrow> False)"

definition unlink :: "string \<Rightarrow> spool \<Rightarrow> spool" where
  "unlink n s = dict_pop n s"

section \<open>Asking\<close>

definition request_doc :: "string \<Rightarrow> int \<Rightarrow> string \<Rightarrow> string \<Rightarrow> string \<Rightarrow> int \<Rightarrow> doc" where
  "request_doc i u url note why now =
     [(''id'', JStr i), (''uid'', JInt u), (''url'', JStr url),
      (''note'', JStr (take MAX_NOTE (strip is_space note))),
      (''why'', JStr (take MAX_WHY (strip is_space why))), (''asked'', JInt now)]"

definition submit ::
    "string \<Rightarrow> int \<Rightarrow> int \<Rightarrow> string \<Rightarrow> string \<Rightarrow> string \<Rightarrow> spool option \<Rightarrow> string result \<times> spool option" where
  "submit i now u url note why s =
     (let url = strip is_space url in
      if url = [] then (Inl ''no address'', s)
      else if length url > MAX_URL then (Inl ''address too long'', s)
      else if \<not> is_web url then (Inl ''only web addresses can be requested'', s)
      else case s of
        None \<Rightarrow> (Inl ''this computer could not record the request'', s)
      | Some files \<Rightarrow> (Inr i, Some (dict_set (json_file i) (Some (JObj (request_doc i u url note why now))) files)))"

section \<open>The queue\<close>

text \<open>The files in the order of their names, the unreadable and the invalid removed.\<close>

definition readable :: "spool \<Rightarrow> string \<Rightarrow> doc option" where
  "readable s n = (case map_of s n of Some (Some (JObj d)) \<Rightarrow> if valid (JObj d) then Some d else None | _ \<Rightarrow> None)"

fun sweep :: "string list \<Rightarrow> spool \<Rightarrow> doc list \<times> spool" where
  "sweep [] s = ([], s)"
| "sweep (n # ns) s =
     (if \<not> is_json_name n then sweep ns s
      else case readable s n of
        None \<Rightarrow> sweep ns (unlink n s)
      | Some d \<Rightarrow> (case sweep ns s of (found, s') \<Rightarrow> (d # found, s')))"

text \<open>
  \<open>found.sort(key=lambda d: d["asked"])\<close>: a \<open>KeyError\<close> for a request without the time, a
  \<open>TypeError\<close> where two of the times do not compare.  (Two lists, which no writer of the spool puts
  there, are taken not to compare.)
\<close>

fun asked_int :: "json \<Rightarrow> int option" where
  "asked_int (JInt i) = Some i"
| "asked_int (JBool b) = Some (if b then 1 else 0)"
| "asked_int _ = None"

definition int_time :: "doc \<Rightarrow> int" where
  "int_time d = (case Option.bind (map_of d ''asked'') asked_int of Some i \<Rightarrow> i | None \<Rightarrow> 0)"

definition str_time :: "doc \<Rightarrow> string" where
  "str_time d = (case Option.bind (map_of d ''asked'') as_str of Some i \<Rightarrow> i | None \<Rightarrow> [])"

definition sort_asked :: "doc list \<Rightarrow> doc list result" where
  "sort_asked found =
     (if list_ex (\<lambda>d. map_of d ''asked'' = None) found then Inl ''KeyError''
      else if length found \<le> 1 then Inr found
      else if list_all (\<lambda>d. Option.bind (map_of d ''asked'') asked_int \<noteq> None) found
      then Inr (sort_key int_time found)
      else if list_all (\<lambda>d. Option.bind (map_of d ''asked'') as_str \<noteq> None) found
      then Inr (sort_key str_time found)
      else Inl ''TypeError'')"

definition newest :: "doc list \<Rightarrow> doc list" where
  "newest found = drop (length found - MAX_PENDING) found"

definition dropped :: "doc list \<Rightarrow> doc list" where
  "dropped found = take (length found - MAX_PENDING) found"

definition doc_file :: "doc \<Rightarrow> string" where
  "doc_file d = json_file (case id_of d of Some i \<Rightarrow> i | None \<Rightarrow> [])"

definition pending :: "spool option \<Rightarrow> doc list result \<times> spool option" where
  "pending spool =
     (case spool of
        None \<Rightarrow> (Inr [], None)
      | Some s \<Rightarrow>
          (case sweep (sort (keys s)) s of (found, s') \<Rightarrow>
             case sort_asked found of
               Inl e \<Rightarrow> (Inl e, Some s')
             | Inr sorted_found \<Rightarrow>
                 (Inr (newest sorted_found), Some (fold (unlink \<circ> doc_file) (dropped sorted_found) s'))))"

section \<open>Answering\<close>

definition resolve :: "string \<Rightarrow> spool option \<Rightarrow> doc option \<times> spool option" where
  "resolve i spool =
     (if \<not> is_id i then (None, spool)
      else case spool of
        None \<Rightarrow> (None, None)
      | Some s \<Rightarrow>
          (case map_of s (json_file i) of
             Some (Some j) \<Rightarrow>
               (if valid j then as_obj j else None, Some (unlink (json_file i) s))
           | _ \<Rightarrow> (None, Some s)))"

section \<open>The queue, read\<close>

lemma unlink_absent: "n \<notin> set (keys s) \<Longrightarrow> unlink n s = s"
  by (force simp: unlink_def dict_pop_def filter_id_conv)

lemma map_of_unlink [simp]: "map_of (unlink n s) = (map_of s)(n := None)"
  by (simp add: unlink_def)

lemma valid_JObj: "valid j \<Longrightarrow> \<exists>d. j = JObj d"
  by (cases j) (auto simp: valid_def)

lemma sweep_found:
  "distinct ns \<Longrightarrow> fst (sweep ns s) = [d. Some d \<leftarrow> map (\<lambda>n. if is_json_name n then readable s n else None) ns]"
proof (induction ns arbitrary: s)
  case (Cons n ns)
  have "readable (unlink n s) m = readable s m" if "m \<in> set ns" for m
    using Cons.prems that by (auto simp: readable_def)
  then have "map (\<lambda>m. if is_json_name m then readable (unlink n s) m else None) ns
      = map (\<lambda>m. if is_json_name m then readable s m else None) ns" by simp
  then have "[d. Some d \<leftarrow> map (\<lambda>m. if is_json_name m then readable (unlink n s) m else None) ns]
      = [d. Some d \<leftarrow> map (\<lambda>m. if is_json_name m then readable s m else None) ns]"
    by (simp only:)
  then show ?case
    using Cons by (auto simp: case_prod_beta split: option.split)
qed simp

lemma sweep_spool:
  "distinct ns \<Longrightarrow> map_of (snd (sweep ns s)) n =
     (if n \<in> set ns \<and> is_json_name n \<and> readable s n = None then None else map_of s n)"
proof (induction ns arbitrary: s)
  case (Cons m ns)
  have r: "readable (unlink m s) n = (if n = m then None else readable s n)"
    by (simp add: readable_def)
  show ?case
    using Cons r by (auto simp: case_prod_beta split: option.split)
qed simp


definition waiting :: "spool \<Rightarrow> doc set" where
  "waiting s = {d. \<exists>n. is_json_name n \<and> readable s n = Some d}"

lemma readable_key: "readable s n = Some d \<Longrightarrow> n \<in> set (keys s)"
  by (rule ccontr) (simp add: readable_def flip: map_of_eq_None_iff)

lemma set_sweep:
  assumes "dict_ok s"
  shows "set (fst (sweep (sort (keys s)) s)) = waiting s"
proof (rule set_eqI)
  fix d
  have "d \<in> set (fst (sweep (sort (keys s)) s)) \<longleftrightarrow>
      (\<exists>n \<in> set (keys s). is_json_name n \<and> readable s n = Some d)"
    using assms by (auto simp: sweep_found split: option.splits if_splits) (metis fst_conv option.inject)+
  then show "d \<in> set (fst (sweep (sort (keys s)) s)) \<longleftrightarrow> d \<in> waiting s"
    using readable_key [of s _ d] unfolding waiting_def by blast
qed

lemma readable_valid: "readable s n = Some d \<Longrightarrow> valid (JObj d)"
  by (auto simp: readable_def split: option.splits json.splits if_splits)

lemma sort_asked_Inr: "sort_asked found = Inr ds \<Longrightarrow> set ds = set found"
  by (auto simp: sort_asked_def split: if_splits)

text \<open>The requests that wait, in the order of their files' names, and whether their times compare.\<close>

definition waiting_list :: "spool \<Rightarrow> doc list" where
  "waiting_list s = [d. Some d \<leftarrow> map (\<lambda>n. if is_json_name n then readable s n else None) (sort (keys s))]"

definition untimed :: "doc list \<Rightarrow> bool" where
  "untimed ds \<longleftrightarrow> (\<exists>d \<in> set ds. map_of d ''asked'' = None)"

definition all_int_times :: "doc list \<Rightarrow> bool" where
  "all_int_times ds \<longleftrightarrow> (\<forall>d \<in> set ds. Option.bind (map_of d ''asked'') asked_int \<noteq> None)"

definition all_str_times :: "doc list \<Rightarrow> bool" where
  "all_str_times ds \<longleftrightarrow> (\<forall>d \<in> set ds. Option.bind (map_of d ''asked'') as_str \<noteq> None)"

definition oldest_first :: "doc list \<Rightarrow> bool" where
  "oldest_first ds \<longleftrightarrow>
     (if all_int_times ds then sorted (map int_time ds) else all_str_times ds \<longrightarrow> sorted (map str_time ds))"

lemma waiting_list_sweep: "dict_ok s \<Longrightarrow> fst (sweep (sort (keys s)) s) = waiting_list s"
  by (simp add: sweep_found waiting_list_def)

lemma sort_asked_untimed: "sort_asked ds = Inl ''KeyError'' \<longleftrightarrow> untimed ds"
  by (auto simp: sort_asked_def untimed_def list_ex_iff)

lemma sort_asked_mixed:
  "sort_asked ds = Inl ''TypeError'' \<longleftrightarrow>
     \<not> untimed ds \<and> length ds > 1 \<and> \<not> all_int_times ds \<and> \<not> all_str_times ds"
  by (auto simp: sort_asked_def untimed_def all_int_times_def all_str_times_def list_ex_iff list_all_iff)

lemma sort_asked_sorted:
  assumes "sort_asked ds = Inr es" shows "mset es = mset ds \<and> oldest_first es"
proof (cases "length ds \<le> 1")
  case True
  then have "sorted (map int_time ds)" "sorted (map str_time ds)" by (cases ds; simp)+
  with True assms show ?thesis by (auto simp: sort_asked_def oldest_first_def split: if_splits)
next
  case False
  have same: "all_int_times (sort_key g ds) = all_int_times ds" "all_str_times (sort_key h ds) = all_str_times ds"
    for g :: "doc \<Rightarrow> int" and h :: "doc \<Rightarrow> string"
    by (simp_all add: all_int_times_def all_str_times_def)
  from False assms consider "all_int_times ds" "es = sort_key int_time ds"
    | "\<not> all_int_times ds" "all_str_times ds" "es = sort_key str_time ds"
    unfolding sort_asked_def list_all_iff all_int_times_def [symmetric] all_str_times_def [symmetric]
    by (auto split: if_split_asm)
  then show ?thesis
  proof cases
    case 2
    have "all_int_times (sort_key str_time ds) = all_int_times ds" by (simp add: all_int_times_def)
    with 2 show ?thesis by (simp add: oldest_first_def)
  qed (simp add: oldest_first_def same)
qed

lemma unlink_all: "map_of (fold (unlink \<circ> g) ds s) n = (if n \<in> g ` set ds then None else map_of s n)"
  by (induction ds arbitrary: s) auto

lemma newest_split: "dropped ds @ newest ds = ds" "length (newest ds) = min MAX_PENDING (length ds)"
  by (simp_all add: dropped_def newest_def)

text \<open>
  Property C26: what a reading of the queue returns, when it fails, and what it leaves.  With a waiting
  request that does not say when it was asked it fails with \<open>KeyError\<close>, with times that do not compare
  with \<open>TypeError\<close>; otherwise the waiting requests are, oldest first, some that are dropped and then those
  returned, which are the newest 200 or all there are.  The files that are gone afterwards are the
  ones that could not be read or are no requests, and those of the dropped; every other one is as it was.
\<close>

theorem pending_exact:
  assumes "dict_ok s"
  shows "case pending (Some s) of (r, s') \<Rightarrow>
      (r = Inl ''KeyError'' \<longleftrightarrow> untimed (waiting_list s))
    \<and> (r = Inl ''TypeError'' \<longleftrightarrow> \<not> untimed (waiting_list s) \<and> length (waiting_list s) > 1
          \<and> \<not> all_int_times (waiting_list s) \<and> \<not> all_str_times (waiting_list s))
    \<and> (\<exists>old. (case r of Inl e \<Rightarrow> e \<in> {''KeyError'', ''TypeError''} \<and> old = []
             | Inr ds \<Rightarrow> mset (old @ ds) = mset (waiting_list s) \<and> oldest_first (old @ ds)
                 \<and> length ds = min MAX_PENDING (length (waiting_list s)))
         \<and> (\<forall>n. map_of (the s') n =
               (if is_json_name n \<and> readable s n = None \<or> n \<in> doc_file ` set old then None else map_of s n)))"
proof -
  obtain found s' where f: "sweep (sort (keys s)) s = (found, s')" by (cases "sweep (sort (keys s)) s")
  have found: "found = waiting_list s" using waiting_list_sweep [OF assms] by (simp add: f)
  have map: "map_of s' n = (if is_json_name n \<and> readable s n = None then None else map_of s n)" for n
    using sweep_spool [of "sort (keys s)" s n] assms by (auto simp: f map_of_eq_None_iff [symmetric])
  show ?thesis
  proof (cases "sort_asked found")
    case (Inl e)
    then have "e \<in> {''KeyError'', ''TypeError''}" by (auto simp: sort_asked_def split: if_splits)
    with Inl show ?thesis
      using sort_asked_untimed [of found] sort_asked_mixed [of found] by (simp add: pending_def f found map)
  next
    case (Inr ds)
    have "mset (dropped ds @ newest ds) = mset found" "oldest_first (dropped ds @ newest ds)" "length ds = length found"
      using sort_asked_sorted [OF Inr] mset_eq_length by (simp_all only: newest_split) auto
    then show ?thesis
      using Inr sort_asked_untimed [of found] sort_asked_mixed [of found] found
      by (auto simp: pending_def f unlink_all map newest_split simp del: mset_append intro!: exI [of _ "dropped ds"])
  qed
qed

text \<open>
  A request that was recorded is valid, and answering it gives back what was asked and
  leaves the queue as it was before.
\<close>

theorem request_roundtrip:
  assumes "submit i now u url note why (Some s) = (Inr i, Some s')"
    and "is_id i" "json_file i \<notin> set (keys s)"
  shows "readable s' (json_file i) = Some (request_doc i u (strip is_space url) note why now)
    \<and> resolve i (Some s') = (Some (request_doc i u (strip is_space url) note why now), Some s)"
proof -
  let ?d = "request_doc i u (strip is_space url) note why now"
  have s': "s' = dict_set (json_file i) (Some (JObj ?d)) s"
    and u: "length (strip is_space url) \<le> MAX_URL" "is_web (strip is_space url)"
    using assms(1) by (auto simp: submit_def Let_def split: if_splits)
  have v: "valid (JObj ?d)"
    using u assms(2) by (simp add: valid_def request_doc_def id_of_def is_int_def)
  have "unlink (json_file i) s' = s"
    using assms(3) unfolding s' by (induction s) (auto simp: unlink_def dict_pop_def filter_id_conv split: if_splits)
  then show ?thesis using v assms(2) by (simp add: resolve_def readable_def s')
qed

definition example_id :: string where "example_id = ''0123456789abcdef0123456789abcdef''"

theorem request_roundtrip_witness:
  "resolve example_id (snd (submit example_id 7 1001 '' https://a.org/x '' ''please'' [] (Some [])))
   = (Some (request_doc example_id 1001 ''https://a.org/x'' ''please'' [] 7), Some [])"
proof -
  have i: "is_id example_id" and
    s: "submit example_id 7 1001 '' https://a.org/x '' ''please'' [] (Some []) =
      (Inr example_id, Some (dict_set (json_file example_id)
         (Some (JObj (request_doc example_id 1001 ''https://a.org/x'' ''please'' [] 7))) []))"
    and "strip is_space '' https://a.org/x '' = ''https://a.org/x''"
    by code_simp+
  then show ?thesis using request_roundtrip [OF s i] by simp
qed

definition example_asked :: "string \<Rightarrow> json \<Rightarrow> doc" where
  "example_asked i v = [(''id'', JStr i), (''uid'', JInt 1001), (''url'', JStr ''https://a.org/''), (''asked'', v)]"

lemma pending_exact_witness:
  "dict_ok [(json_file example_id, Some (JObj (example_asked example_id (JInt 7)))), (''x.json'', None)]
   \<and> pending (Some [(json_file example_id, Some (JObj (example_asked example_id (JInt 7)))), (''x.json'', None)])
      = (Inr [example_asked example_id (JInt 7)], Some [(json_file example_id, Some (JObj (example_asked example_id (JInt 7))))])"
proof -
  let ?s = "[(json_file example_id, Some (JObj (example_asked example_id (JInt 7)))), (''x.json'', None)]"
  have d: "dict_ok ?s" by code_simp
  have p: "pending (Some ?s) = (Inr [example_asked example_id (JInt 7)], Some [(json_file example_id, Some (JObj (example_asked example_id (JInt 7))))])"
    by code_simp
  show ?thesis using pending_exact [OF d] d p by simp
qed

end
