(* ===== verification/UidMap.thy ===== *)
theory UidMap
  imports IpNet
begin

text \<open>
  \<open>kosherd/src/kosherd/uidmap.py\<close>: which local user owns a TCP connection, from the kernel's tables
  of sockets.  A table is its lines, or \<open>None\<close> when it cannot be read; the numbers in it are plain
  digits, as the kernel writes them.
\<close>

section \<open>Reading a line\<close>

definition ESTABLISHED :: nat where "ESTABLISHED = 1"
definition LIVE_STATES :: "nat list" where "LIVE_STATES = [1, 2, 3, 4, 5, 8]"
definition TIME_WAIT :: nat where "TIME_WAIT = 6"

definition hex_number :: "string \<Rightarrow> nat option" where
  "hex_number s =
     (if s = [] then None
      else map_option (foldl (\<lambda>n d. 16 * n + d) 0) (those (map hex_value s)))"

text \<open>\<open>bytes.fromhex\<close> of an even number of digits.\<close>

fun hex_bytes :: "string \<Rightarrow> nat list option" where
  "hex_bytes [] = Some []"
| "hex_bytes (a # b # s) =
     (case (hex_value a, hex_value b, hex_bytes s) of
        (Some x, Some y, Some xs) \<Rightarrow> Some ((16 * x + y) # xs) | _ \<Rightarrow> None)"
| "hex_bytes _ = None"

definition bytes_value :: "nat list \<Rightarrow> nat" where
  "bytes_value = foldl (\<lambda>n b. 256 * n + b) 0"

text \<open>The text of an address, a v4-mapped one as the IPv4 address it stands for.\<close>

definition mapped_v4 :: "nat \<Rightarrow> nat option" where
  "mapped_v4 a = (if a div 2 ^ 32 = 65535 then Some (a mod 2 ^ 32) else None)"

definition show_v6 :: "nat \<Rightarrow> string" where
  "show_v6 a = (case mapped_v4 a of Some b \<Rightarrow> show_ipv4 b | None \<Rightarrow> show_ipv6 a)"

text \<open>Little-endian words of four bytes, each reversed.\<close>

fun swap_words :: "nat list \<Rightarrow> nat list" where
  "swap_words (a # b # c # d # xs) = d # c # b # a # swap_words xs"
| "swap_words _ = []"

definition hex_address :: "string \<Rightarrow> string option" where
  "hex_address h =
     (if length h = 8 then map_option (show_ipv4 \<circ> bytes_value \<circ> rev) (hex_bytes h)
      else if length h = 32 then map_option (show_v6 \<circ> bytes_value \<circ> swap_words) (hex_bytes h)
      else None)"

definition parse_addr :: "string \<Rightarrow> string option \<times> nat option" where
  "parse_addr text =
     (if CHR '':'' \<notin> set text then (None, None)
      else let port = rev (takeWhile (\<lambda>c. c \<noteq> CHR '':'') (rev text));
               addr = rev (drop 1 (dropWhile (\<lambda>c. c \<noteq> CHR '':'') (rev text))) in
        case hex_number port of None \<Rightarrow> (None, None) | Some p \<Rightarrow> (hex_address addr, Some p))"

definition canonical :: "string option \<Rightarrow> string option" where
  "canonical addr =
     map_option (\<lambda>a.
       let bare = takeWhile (\<lambda>c. c \<noteq> CHR ''%'') a in
       case parse_ipv4 bare of
         Some x \<Rightarrow> show_ipv4 x
       | None \<Rightarrow> (case parse_ipv6 bare of Some y \<Rightarrow> show_v6 y | None \<Rightarrow> a)) addr"

record socket =
  laddr :: "string option"
  lport :: "nat option"
  raddr :: "string option"
  rport :: "nat option"
  state :: nat
  owner_uid :: nat

text \<open>\<open>line.split()\<close>.\<close>

fun words_from :: "string \<Rightarrow> string \<Rightarrow> string list" where
  "words_from w [] = (if w = [] then [] else [rev w])"
| "words_from w (c # cs) =
     (if is_space c then (if w = [] then words_from [] cs else rev w # words_from [] cs)
      else words_from (c # w) cs)"

definition fields :: "string \<Rightarrow> string list" where "fields line = words_from [] line"

definition entry_of :: "string \<Rightarrow> socket option" where
  "entry_of line =
     (let fs = fields line in
      if length fs < 8 then None
      else case (parse_addr (fs ! 1), parse_addr (fs ! 2)) of
        ((la, lp), (ra, rp)) \<Rightarrow>
          (case hex_number (fs ! 3) of None \<Rightarrow> None | Some st \<Rightarrow>
             if \<not> is_digits (fs ! 7) then None
             else Some \<lparr>laddr = la, lport = lp, raddr = ra, rport = rp, state = st,
                        owner_uid = nat_of_digits (fs ! 7)\<rparr>))"

text \<open>A table without its header is an error, as \<open>next(fh)\<close> in a generator is.\<close>

definition table_entries :: "string list option \<Rightarrow> socket list result" where
  "table_entries t =
     (case t of
        None \<Rightarrow> Inr []
      | Some [] \<Rightarrow> Inl ''generator raised StopIteration''
      | Some (_ # ls) \<Rightarrow> Inr [e. Some e \<leftarrow> map entry_of ls])"

definition entries :: "string list option list \<Rightarrow> socket list result" where
  "entries tables = map_sum id concat (map_result table_entries tables)"

section \<open>The lookup\<close>

definition live_on :: "nat \<Rightarrow> socket list \<Rightarrow> socket list" where
  "live_on port es = filter (\<lambda>e. lport e = Some port \<and> state e \<in> set LIVE_STATES) es"

definition pick :: "socket list \<Rightarrow> nat option" where
  "pick es = (case sort_key (\<lambda>e. state e \<noteq> ESTABLISHED) es of [] \<Rightarrow> None | e # _ \<Rightarrow> Some (owner_uid e))"

definition exact_match :: "string option \<Rightarrow> string option \<Rightarrow> nat option \<Rightarrow> socket list \<Rightarrow> socket list" where
  "exact_match local remote rp es =
     (if local = None \<or> remote = None \<or> rp = None then []
      else filter (\<lambda>e. laddr e = local \<and> raddr e = remote \<and> rport e = rp) es)"

definition local_match :: "string option \<Rightarrow> socket list \<Rightarrow> socket list" where
  "local_match local es = (if local = None then [] else filter (\<lambda>e. laddr e = local) es)"

definition choose_uid ::
    "string option \<Rightarrow> string option \<Rightarrow> nat option \<Rightarrow> socket list \<Rightarrow> nat option" where
  "choose_uid local remote rp live =
     (case pick (exact_match local remote rp live) of
        Some u \<Rightarrow> Some u
      | None \<Rightarrow> (case pick (local_match local live) of Some u \<Rightarrow> Some u | None \<Rightarrow> pick live))"

definition uid_for_connection ::
    "string list option list \<Rightarrow> string option \<Rightarrow> nat \<Rightarrow> string option \<Rightarrow> nat option \<Rightarrow> nat option result" where
  "uid_for_connection tables local port remote rp =
     map_sum id (\<lambda>es. choose_uid (canonical local) (canonical remote) rp (live_on port es)) (entries tables)"

definition uid_for_port :: "string list option list \<Rightarrow> nat \<Rightarrow> nat option result" where
  "uid_for_port tables port = uid_for_connection tables None port None None"

section \<open>Whose connection it is\<close>

lemma pick_None_iff [simp]: "pick es = None \<longleftrightarrow> es = []"
proof -
  have "length (sort_key (\<lambda>e. state e \<noteq> ESTABLISHED) es) = length es" by simp
  then show ?thesis by (cases "sort_key (\<lambda>e. state e \<noteq> ESTABLISHED) es") (auto simp: pick_def)
qed

lemma pick_SomeD:
  assumes "pick es = Some u"
  shows "\<exists>e \<in> set es. owner_uid e = u \<and> (state e = ESTABLISHED \<or> (\<forall>f \<in> set es. state f \<noteq> ESTABLISHED))"
proof -
  obtain e rest where e: "sort_key (\<lambda>e. state e \<noteq> ESTABLISHED) es = e # rest" "owner_uid e = u"
    using assms by (auto simp: pick_def split: list.splits)
  then have s: "set es = set (e # rest)" by (metis set_sort)
  have "sorted (map (\<lambda>e. state e \<noteq> ESTABLISHED) (e # rest))" using e(1) by (metis sorted_sort_key)
  then have "\<forall>f \<in> set rest. (state e \<noteq> ESTABLISHED) \<le> (state f \<noteq> ESTABLISHED)" by simp
  then show ?thesis using e(2) unfolding s by auto
qed

text \<open>The sockets the lookup prefers, of those on the port.\<close>

definition preferred ::
    "string option \<Rightarrow> string option \<Rightarrow> nat option \<Rightarrow> socket list \<Rightarrow> socket list" where
  "preferred local remote rp live =
     (if exact_match local remote rp live \<noteq> [] then exact_match local remote rp live
      else if local_match local live \<noteq> [] then local_match local live
      else live)"

text \<open>
  The answer is the owner of a live socket on the client's port, never of one in
  TIME_WAIT, and there is none exactly when no live socket has the port.  A socket with the whole
  4-tuple is preferred to one with the client's address, and that to one with the port alone; among
  those an established one to one still opening.
\<close>

theorem uid_lookup_exact:
  assumes "entries tables = Inr es"
  shows "\<exists>r. uid_for_connection tables local port remote rp = Inr r
    \<and> (r = None \<longleftrightarrow> live_on port es = [])
    \<and> (\<forall>u. r = Some u \<longrightarrow>
         (\<exists>e \<in> set (preferred (canonical local) (canonical remote) rp (live_on port es)).
            owner_uid e = u \<and> lport e = Some port \<and> state e \<noteq> TIME_WAIT \<and> state e \<in> set LIVE_STATES
            \<and> (state e = ESTABLISHED \<or>
               (\<forall>f \<in> set (preferred (canonical local) (canonical remote) rp (live_on port es)).
                  state f \<noteq> ESTABLISHED))))"
proof -
  let ?live = "live_on port es"
  let ?exact = "exact_match (canonical local) (canonical remote) rp ?live"
  let ?local = "local_match (canonical local) ?live"
  let ?best = "preferred (canonical local) (canonical remote) rp ?live"
  have "choose_uid (canonical local) (canonical remote) rp ?live = pick ?best"
    unfolding choose_uid_def preferred_def
    by (cases "pick ?exact"; cases "pick ?local") (auto simp del: pick_None_iff simp flip: pick_None_iff)
  then have r: "uid_for_connection tables local port remote rp = Inr (pick ?best)"
    by (simp add: uid_for_connection_def assms)
  have sub: "set ?best \<subseteq> set ?live" and empty: "?best = [] \<longleftrightarrow> ?live = []"
    by (auto simp: preferred_def exact_match_def local_match_def)
  have "lport e = Some port \<and> state e \<in> set LIVE_STATES \<and> state e \<noteq> TIME_WAIT" if "e \<in> set ?best" for e
    using that sub by (auto simp: live_on_def LIVE_STATES_def TIME_WAIT_def)
  then show ?thesis
    using r empty pick_SomeD [of ?best] by (intro exI [of _ "pick ?best"]) fastforce
qed

definition example_table :: "string list" where
  "example_table =
     [''  sl  local_address rem_address   st tx_queue rx_queue tr tm->when retrnsmt   uid'',
      ''   0: 0100007F:C350 0100007F:7530 06 00000000:00000000 00:00000000 00000000     0'',
      ''   1: 0100007F:C350 0100007F:1F90 01 00000000:00000000 00:00000000 00000000  1001'']"


lemmas line_eval = entry_of_def fields_def is_space_def parse_addr_def hex_number_def hex_value_def
  hex_address_def bytes_value_def show_ipv4_def is_digits_def nat_of_digits_def Let_def show_nat.simps

lemma example_addresses:
  "parse_addr ''0100007F:C350'' = (Some ''127.0.0.1'', Some 50000)"
  "parse_addr ''0100007F:7530'' = (Some ''127.0.0.1'', Some 30000)"
  "parse_addr ''0100007F:1F90'' = (Some ''127.0.0.1'', Some 8080)"
  by (simp_all add: line_eval) code_simp+

lemma example_entries:
  "entries [Some example_table, None] = Inr
     [\<lparr>laddr = Some ''127.0.0.1'', lport = Some 50000, raddr = Some ''127.0.0.1'', rport = Some 30000,
       state = 6, owner_uid = 0\<rparr>,
      \<lparr>laddr = Some ''127.0.0.1'', lport = Some 50000, raddr = Some ''127.0.0.1'', rport = Some 8080,
       state = 1, owner_uid = 1001\<rparr>]"
  by (simp add: entries_def table_entries_def example_table_def entry_of_def fields_def is_space_def Let_def
      example_addresses hex_number_def hex_value_def is_digits_def nat_of_digits_def)

lemma example_canonical: "canonical (Some ''127.0.0.1'') = Some ''127.0.0.1''"
  by (simp add: canonical_def parse_ipv4_def line_eval parse_octet_def) code_simp

theorem uid_lookup_exact_witness:
  "uid_for_connection [Some example_table, None] (Some ''127.0.0.1'') 50000
     (Some ''127.0.0.1'') (Some 8080) = Inr (Some 1001)"
  using uid_lookup_exact [OF example_entries, of "Some ''127.0.0.1''" 50000 "Some ''127.0.0.1''" "Some 8080"]
  by (auto simp: live_on_def preferred_def exact_match_def LIVE_STATES_def example_canonical)

end
