(* ===== verification/BuildSources.thy ===== *)
theory BuildSources
  imports UrlRules Whitelists
begin

text \<open>
  \<open>kosherd/src/kosherd/buildsources.py\<close>: what a Nix build may download.  A build is nobody's in
  particular, so the proxy holds it to the strictest filter among the accounts with developer
  tools.  The category database's answer is the argument \<open>cats\<close>.
\<close>

section \<open>The hosts a build may fetch from\<close>

definition DEFAULT_BUILD_SOURCES :: "string list" where
  "DEFAULT_BUILD_SOURCES =
    [''github.com'', ''codeload.github.com'', ''api.github.com'', ''*.githubusercontent.com'',
     ''gitlab.com'', ''gitlab.gnome.org'', ''gitlab.freedesktop.org'', ''invent.kde.org'',
     ''codeberg.org'', ''bitbucket.org'', ''git.sr.ht'', ''*.sourceforge.net'',
     ''*.gnu.org'', ''*.nongnu.org'', ''ftp.nluug.nl'', ''ftp.funet.fi'',
     ''www.mirrorservice.org'', ''mirrorservice.org'', ''mirrors.dotsrc.org'',
     ''*.kernel.org'', ''download.gnome.org'', ''download.kde.org'', ''download.qt.io'',
     ''xorg.freedesktop.org'', ''www.x.org'', ''ftp.x.org'', ''*.apache.org'',
     ''archive.mozilla.org'', ''ftp.postgresql.org'', ''download.samba.org'',
     ''www.alsa-project.org'', ''cpan.metacpan.org'', ''cpan.perl.org'',
     ''cran.r-project.org'', ''distfiles.gentoo.org'', ''luarocks.org'', ''pypi.org'',
     ''pypi.io'', ''files.pythonhosted.org'', ''crates.io'', ''*.crates.io'',
     ''static.rust-lang.org'', ''registry.npmjs.org'', ''registry.yarnpkg.com'',
     ''proxy.golang.org'', ''sum.golang.org'', ''rubygems.org'', ''*.rubygems.org'',
     ''hackage.haskell.org'', ''repo1.maven.org'', ''repo.maven.apache.org'', ''nixos.org'',
     ''cache.nixos.org'', ''channels.nixos.org'', ''tarballs.nixos.org'',
     ''releases.nixos.org'', ''cache.agilebits.com'', ''downloads.1password.com'']"

definition source_normalize :: "string \<Rightarrow> string result" where
  "source_normalize entry =
     (let t = lower (strip is_space entry);
          t = (case after_scheme t of Some rest \<Rightarrow> rest | None \<Rightarrow> t);
          t = rstrip (\<lambda>c. c = CHR ''.'') (takeWhile (\<lambda>c. c \<noteq> CHR ''/'') t) in
      if entry_matches t then Inr t else Inl ''not a host name'')"

definition sources_combined :: "string list \<Rightarrow> string list" where
  "sources_combined extra = dedup (DEFAULT_BUILD_SOURCES @ extra)"

definition source_entry_covers :: "string \<Rightarrow> string \<Rightarrow> bool" where
  "source_entry_covers n e =
     (let e = lower e in
      if starts_with e ''*.'' then n = drop 2 e \<or> ends_with n (''.'' @ drop 2 e) else n = e)"

definition source_allows :: "string \<Rightarrow> string list \<Rightarrow> bool" where
  "source_allows host sources =
     (let n = rstrip (\<lambda>c. c = CHR ''.'') (lower (strip is_space host)) in
      n \<noteq> [] \<and> list_ex (source_entry_covers n) sources)"

text \<open>\<open>Policy.build_sources\<close>.\<close>

definition build_sources :: "policy \<Rightarrow> string list" where
  "build_sources p = sources_combined (build_sources_extra p)"

section \<open>The builders' share of the accounts' filters\<close>

text \<open>
  One entry of the proxy's rules file, and the same as the proxy reads it back, with its rules
  parsed.  An account's rules are the JSON objects the policy keeps.
\<close>

record build_filter =
  bf_username :: string
  bf_mode :: string
  bf_rules :: "doc list"
  bf_blocked :: "string list"
  bf_hosts :: "string list option"

definition developer_filter :: "(json \<Rightarrow> string) \<Rightarrow> doc \<Rightarrow> policy \<Rightarrow> user_policy \<Rightarrow> build_filter result" where
  "developer_filter repr bundles p u =
     (let filtering = mode u \<in> {''filtered'', ''dnsfilter'', ''whitelist''};
          entry = \<lparr>bf_username = username u, bf_mode = mode u,
                   bf_rules = (if filtering then rules u else []),
                   bf_blocked = (if filtering then blocked_categories u else []),
                   bf_hosts = None\<rparr> in
      if mode u = ''whitelist''
      then map_sum id (\<lambda>own.
             entry\<lparr>bf_hosts := Some (dedup (build_sources p
               @ map (\<lambda>d. ''*.'' @ remove_prefix ''*.'' d) (own @ DEVELOPER_REGISTRIES)))\<rparr>)
             (effective_whitelist repr bundles u)
      else Inr entry)"

definition developer_filters :: "(json \<Rightarrow> string) \<Rightarrow> doc \<Rightarrow> policy \<Rightarrow> build_filter list result" where
  "developer_filters repr bundles p = map_result (developer_filter repr bundles p) (developer_accounts p)"

record developer =
  dev_username :: string
  dev_rules :: "url_rule list"
  dev_blocked :: "string list"
  dev_hosts :: "string list option"

text \<open>\<open>Rule(action=r["action"], pattern=r["pattern"])\<close> on a JSON object.\<close>

definition json_rule :: "doc \<Rightarrow> url_rule result" where
  "json_rule d =
     (case map_of d ''action'' of None \<Rightarrow> Inl ''KeyError'' | Some a \<Rightarrow>
      (case map_of d ''pattern'' of None \<Rightarrow> Inl ''KeyError'' | Some p \<Rightarrow>
       (case as_str a of None \<Rightarrow> Inl ''unknown action'' | Some a \<Rightarrow>
        (case as_str p of
           None \<Rightarrow> Inl (if a \<in> set RULE_ACTIONS then no_attribute else ''unknown action'')
         | Some p \<Rightarrow> new_rule a p))))"

definition json_rules :: "doc list \<Rightarrow> url_rule list result" where
  "json_rules ds = map_result json_rule ds"

definition load_developer :: "build_filter \<Rightarrow> developer result" where
  "load_developer f =
     map_sum id (\<lambda>rs. \<lparr>dev_username = (if bf_username f = [] then ''an account'' else bf_username f),
                        dev_rules = rs, dev_blocked = bf_blocked f, dev_hosts = bf_hosts f\<rparr>)
       (json_rules (bf_rules f))"

definition load_developers :: "build_filter list \<Rightarrow> developer list result" where
  "load_developers fs = map_result load_developer fs"

section \<open>The judgement\<close>

text \<open>The activity log's reason for a refusal; the sentence of the build log is not modelled.\<close>

definition judge_one ::
  "(string \<Rightarrow> string list \<Rightarrow> string set) \<Rightarrow> string \<Rightarrow> string \<Rightarrow> developer \<Rightarrow> string option result" where
  "judge_one cats host url d =
     (if (case dev_hosts d of Some hs \<Rightarrow> \<not> source_allows host hs | None \<Rightarrow> False)
      then Inr (Some ''build-source'')
      else map_sum id (\<lambda>(action, pattern).
             if action = BLOCK then Some (''rule:'' @ the pattern)
             else if pattern \<noteq> None then None
             else let hit = cats host (dev_blocked d) in
                  if hit = {} then None
                  else Some (''category:'' @ join '','' (sorted_list_of_set hit)))
             (decide_url (dev_rules d) url))"

fun judge_each ::
  "(string \<Rightarrow> string list \<Rightarrow> string set) \<Rightarrow> string \<Rightarrow> string \<Rightarrow> developer list \<Rightarrow> string option result" where
  "judge_each cats host url [] = Inr None"
| "judge_each cats host url (d # ds) =
     bind_result (judge_one cats host url d) (\<lambda>r.
       case r of Some why \<Rightarrow> Inr (Some why) | None \<Rightarrow> judge_each cats host url ds)"

definition judge ::
  "(string \<Rightarrow> string list \<Rightarrow> string set) \<Rightarrow> string \<Rightarrow> string \<Rightarrow> developer list \<Rightarrow> string option result" where
  "judge cats host url developers =
     (if developers = [] then Inr (Some ''build-source'') else judge_each cats host url developers)"

section \<open>The strictest account decides\<close>

lemma judge_each_allows:
  "judge_each cats host url ds = Inr None \<longleftrightarrow> (\<forall>d \<in> set ds. judge_one cats host url d = Inr None)"
  by (induction ds) (auto simp: bind_result_Inr_iff split: option.splits)

text \<open>
  What one account lets a build fetch: a host on its list, if it has one, and then by its first
  matching rule, or, where no rule matches, by its blocked categories.
\<close>

definition lets_fetch ::
  "(string \<Rightarrow> string list \<Rightarrow> string set) \<Rightarrow> string \<Rightarrow> string \<Rightarrow> string \<Rightarrow> developer \<Rightarrow> bool" where
  "lets_fetch cats host at path d \<longleftrightarrow>
     (\<forall>hs. dev_hosts d = Some hs \<longrightarrow> source_allows host hs)
     \<and> (case find (\<lambda>r. rule_matches r at path) (dev_rules d) of
          Some r \<Rightarrow> rule_action r \<noteq> BLOCK
        | None \<Rightarrow> cats host (dev_blocked d) = {})"

definition whole_url :: "string \<Rightarrow> string" where
  "whole_url url = (if has_slashes url then url else ''//'' @ url)"

definition asked_path :: "split_url \<Rightarrow> string" where
  "asked_path u =
     (let path = (if url_path u = [] then ''/'' else url_path u) in
      if url_query u = [] then path else path @ ''?'' @ url_query u)"

lemma judge_one_allows:
  assumes "urlsplit (whole_url url) = Inr u"
  shows "judge_one cats host url d = Inr None \<longleftrightarrow> lets_fetch cats host (url_host u) (asked_path u) d"
proof -
  have "decide_url (dev_rules d) url = Inr (decide_at (dev_rules d) (url_host u) (asked_path u))"
    using assms by (simp add: decide_url_def whole_url_def asked_path_def Let_def)
  then show ?thesis
    by (auto simp: judge_one_def lets_fetch_def decide_at_def ALLOW_def BLOCK_def Let_def split: option.splits)
qed

text \<open>
  Property C27: a Nix build fetches an address exactly when some account has developer tools and
  every one that has them lets it: with one account's list, rules and categories each of them can
  refuse, and another account's rule never opens what one of them closes.
\<close>

theorem strictest_account_decides:
  assumes "urlsplit (whole_url url) = Inr u"
  shows "judge cats host url ds = Inr None
    \<longleftrightarrow> ds \<noteq> [] \<and> (\<forall>d \<in> set ds. lets_fetch cats host (url_host u) (asked_path u) d)"
  by (auto simp: judge_def judge_each_allows judge_one_allows [OF assms])

definition two_developers :: "developer list" where
  "two_developers =
     [\<lparr>dev_username = ''a'', dev_rules = [], dev_blocked = [], dev_hosts = None\<rparr>,
      \<lparr>dev_username = ''b'', dev_rules = [\<lparr>rule_action = BLOCK, rule_pattern = ''pypi.org''\<rparr>],
       dev_blocked = [], dev_hosts = Some [''pypi.org'']\<rparr>]"

lemma strictest_account_decides_witness:
  "judge (\<lambda>_ _. {}) ''pypi.org'' ''https://pypi.org/simple'' two_developers \<noteq> Inr None
   \<and> judge (\<lambda>_ _. {}) ''pypi.org'' ''https://pypi.org/simple'' (take 1 two_developers) = Inr None"
proof -
  have u: "urlsplit (whole_url ''https://pypi.org/simple'')
    = Inr \<lparr>url_host = ''pypi.org'', url_path = ''/simple'', url_query = []\<rparr>"
    by code_simp
  have m: "rule_matches \<lparr>rule_action = BLOCK, rule_pattern = ''pypi.org''\<rparr> ''pypi.org'' ''/simple''"
    by code_simp
  show ?thesis
    unfolding strictest_account_decides [OF u]
    using m by (auto simp: two_developers_def lets_fetch_def asked_path_def)
qed

end
