(* ===== verification/Calm.thy ===== *)
theory Calm
  imports PolicyStore
begin

text \<open>
  \<open>kosherd/src/kosherd/calm.py\<close>: the calmer versions of the addictive sites.  Which hosts are which
  site, which paths are a sign-in, one post or a feed, and what an account's \<open>calm\<close> settings may
  look like.
\<close>

section \<open>The sites\<close>

text \<open>
  The patterns of the paths that show one post.  Each is anchored at the start and made of literal
  text, \<open>[^/]+\<close>, \<open>\d+\<close> and a choice of words, and no piece can match what the one after it
  begins with, so matching needs no backtracking.
\<close>

datatype piece = Text string | Segment | Digits | Choice "string list"

record site =
  site_label :: string
  site_hosts :: "string list"
  site_login :: "string list"
  site_single :: "piece list list"

definition SITES :: "(string, site) dict" where
  "SITES =
    [(''x'', \<lparr>site_label = ''X (Twitter)'', site_hosts = [''x.com'', ''twitter.com''],
       site_login = [''/i/flow/'', ''/login'', ''/logout'', ''/signup'', ''/i/oauth'',
                     ''/account/begin_password_reset''],
       site_single = [[Text ''/'', Segment, Text ''/status/'', Digits],
                      [Text ''/i/web/status/'', Digits]]\<rparr>),
     (''reddit'', \<lparr>site_label = ''Reddit'', site_hosts = [''reddit.com''],
       site_login = [''/login'', ''/register'', ''/auth'', ''/account/''],
       site_single = [[Text ''/r/'', Segment, Text ''/comments/''], [Text ''/comments/''],
                      [Text ''/user/'', Segment, Text ''/comments/'']]\<rparr>),
     (''youtube'', \<lparr>site_label = ''YouTube'', site_hosts = [''youtube.com'', ''youtube-nocookie.com''],
       site_login = [],
       site_single = [[Text ''/watch''], [Text ''/shorts/''], [Text ''/embed/''], [Text ''/live/'']]\<rparr>),
     (''facebook'', \<lparr>site_label = ''Facebook'', site_hosts = [''facebook.com''],
       site_login = [''/login''],
       site_single = [[Text ''/'', Segment, Text ''/'', Choice [''posts'', ''videos'', ''photos''], Text ''/''],
                      [Text ''/permalink''], [Text ''/photo''], [Text ''/story''], [Text ''/reel/'']]\<rparr>)]"

definition SITE_ORDER :: "string list" where
  "SITE_ORDER = [''x'', ''reddit'', ''youtube'', ''facebook'']"

lemma keys_SITES: "keys SITES = SITE_ORDER"
  by (simp add: SITES_def SITE_ORDER_def)

definition DEFAULT_FEED_ITEMS :: int where "DEFAULT_FEED_ITEMS = 30"
definition MIN_FEED_ITEMS :: int where "MIN_FEED_ITEMS = 5"
definition MAX_FEED_ITEMS :: int where "MAX_FEED_ITEMS = 500"
definition MAX_DAILY_MINUTES :: int where "MAX_DAILY_MINUTES = 1440"

definition host_on :: "string \<Rightarrow> string \<Rightarrow> bool" where
  "host_on host root \<longleftrightarrow> host = root \<or> ends_with host (''.'' @ root)"

definition site_for :: "string option \<Rightarrow> string option" where
  "site_for host =
     (let h = rstrip (\<lambda>c. c = CHR ''.'') (lower (case host of None \<Rightarrow> [] | Some h \<Rightarrow> h)) in
      if h = [] then None
      else map_option fst (find (\<lambda>(k, s). list_ex (host_on h) (site_hosts s)) SITES))"

fun matches_pieces :: "piece list \<Rightarrow> string \<Rightarrow> bool" where
  "matches_pieces [] s = True"
| "matches_pieces (Text t # ps) s = (prefix t s \<and> matches_pieces ps (drop (length t) s))"
| "matches_pieces (Segment # ps) s =
     (takeWhile (\<lambda>c. c \<noteq> CHR ''/'') s \<noteq> [] \<and> matches_pieces ps (dropWhile (\<lambda>c. c \<noteq> CHR ''/'') s))"
| "matches_pieces (Digits # ps) s =
     (is_digits (takeWhile (\<lambda>c. is_digits [c]) s) \<and> matches_pieces ps (dropWhile (\<lambda>c. is_digits [c]) s))"
| "matches_pieces (Choice ws # ps) s =
     list_ex (\<lambda>w. prefix w s \<and> matches_pieces ps (drop (length w) s)) ws"

definition before_query :: "string \<Rightarrow> string" where
  "before_query path = takeWhile (\<lambda>c. c \<noteq> CHR ''?'') path"

text \<open>\<open>SITES[site]\<close> raises \<open>KeyError\<close> for a name that is no site's.\<close>

definition is_login :: "string \<Rightarrow> string \<Rightarrow> bool result" where
  "is_login site path =
     (case map_of SITES site of None \<Rightarrow> Inl ''KeyError''
      | Some s \<Rightarrow> Inr (list_ex (starts_with (lower (before_query path))) (site_login s)))"

definition is_single :: "string \<Rightarrow> string \<Rightarrow> bool result" where
  "is_single site path =
     (case map_of SITES site of None \<Rightarrow> Inl ''KeyError''
      | Some s \<Rightarrow> Inr (list_ex (\<lambda>p. matches_pieces p (before_query path)) (site_single s)))"

definition mode_for :: "string \<Rightarrow> string \<Rightarrow> string result" where
  "mode_for site path =
     bind_result (is_login site path) (\<lambda>l.
       if l then Inr ''login''
       else bind_result (is_single site path) (\<lambda>s. Inr (if s then ''single'' else ''feed'')))"

definition site_name :: "string \<Rightarrow> string result" where
  "site_name site = (case map_of SITES site of None \<Rightarrow> Inl ''KeyError'' | Some s \<Rightarrow> Inr (site_label s))"

section \<open>The settings\<close>

text \<open>One site's entry: \<open>None\<close> when it is not listed.\<close>

definition site_entry :: "doc \<Rightarrow> string \<Rightarrow> doc option result" where
  "site_entry sites key =
     (case map_of sites key of
        None \<Rightarrow> Inr None
      | Some JNull \<Rightarrow> Inr None
      | Some v \<Rightarrow>
          (case (if v = JBool True then JObj [] else v) of
             JObj e \<Rightarrow>
               if \<not> set (keys e) \<subseteq> {''daily_minutes''} then Inl ''unknown calm settings''
               else (case dict_get e ''daily_minutes'' (JInt 0) of
                       JInt m \<Rightarrow>
                         if 0 \<le> m \<and> m \<le> MAX_DAILY_MINUTES
                         then Inr (Some (if m \<noteq> 0 then [(''daily_minutes'', JInt m)] else []))
                         else Inl ''daily_minutes out of range''
                     | _ \<Rightarrow> Inl ''daily_minutes out of range'')
           | _ \<Rightarrow> Inl ''calm site must be an object''))"

fun kept_in :: "doc \<Rightarrow> string list \<Rightarrow> doc result" where
  "kept_in sites [] = Inr []"
| "kept_in sites (k # ks) =
     bind_result (site_entry sites k) (\<lambda>e.
     bind_result (kept_in sites ks) (\<lambda>kept.
       Inr (case e of None \<Rightarrow> kept | Some d \<Rightarrow> (k, JObj d) # kept)))"

definition kept_sites :: "doc \<Rightarrow> doc result" where
  "kept_sites sites = kept_in sites SITE_ORDER"

definition calm_sites_of :: "doc \<Rightarrow> doc result" where
  "calm_sites_of settings =
     (case dict_get settings ''sites'' JNull of
        v \<Rightarrow> if truthy v then (case v of JObj d \<Rightarrow> Inr d | _ \<Rightarrow> Inl ''calm sites must be an object'')
             else Inr [])"

definition calm_normalize :: "json \<Rightarrow> doc result" where
  "calm_normalize settings =
     (case settings of
        JNull \<Rightarrow> Inr []
      | JObj [] \<Rightarrow> Inr []
      | JObj d \<Rightarrow>
          if \<not> set (keys d) \<subseteq> {''enabled'', ''feed_items'', ''sites''} then Inl ''unknown calm settings''
          else let on = truthy (dict_get d ''enabled'' JNull) in
            (case dict_get d ''feed_items'' (JInt DEFAULT_FEED_ITEMS) of
               JInt n \<Rightarrow>
                 if MIN_FEED_ITEMS \<le> n \<and> n \<le> MAX_FEED_ITEMS
                 then bind_result (calm_sites_of d) (\<lambda>sites.
                      if \<not> set (keys sites) \<subseteq> set (keys SITES) then Inl ''unknown calm sites''
                      else bind_result (kept_sites sites) (\<lambda>kept.
                        Inr (if \<not> on then []
                             else (if kept = [] then [] else [(''enabled'', JBool True)])
                               @ (if n \<noteq> DEFAULT_FEED_ITEMS then [(''feed_items'', JInt n)] else [])
                               @ (if kept = [] then [] else [(''sites'', JObj kept)]))))
                 else Inl ''feed_items out of range''
             | _ \<Rightarrow> Inl ''feed_items out of range'')
      | _ \<Rightarrow> Inl ''calm settings must be an object'')"

text \<open>The readers, on the settings an account keeps.\<close>

definition sites_of :: "doc \<Rightarrow> doc" where
  "sites_of d = (case map_of d ''sites'' of Some (JObj s) \<Rightarrow> s | _ \<Rightarrow> [])"

definition enabled_sites :: "doc \<Rightarrow> string list" where
  "enabled_sites d =
     (if truthy (dict_get d ''enabled'' JNull) then filter (\<lambda>k. k \<in> set (keys (sites_of d))) SITE_ORDER else [])"

definition calm_applies :: "doc \<Rightarrow> string \<Rightarrow> bool" where
  "calm_applies d site \<longleftrightarrow> site \<in> set (enabled_sites d)"

definition feed_items :: "doc \<Rightarrow> int" where
  "feed_items d = (case map_of d ''feed_items'' of Some (JInt n) \<Rightarrow> n | _ \<Rightarrow> DEFAULT_FEED_ITEMS)"

definition site_minutes :: "doc \<Rightarrow> string \<Rightarrow> int" where
  "site_minutes d site =
     (case map_of (sites_of d) site of
        Some (JObj e) \<Rightarrow> (case map_of e ''daily_minutes'' of Some (JInt m) \<Rightarrow> m | _ \<Rightarrow> 0)
      | _ \<Rightarrow> 0)"


section \<open>What is kept is canonical\<close>

definition entry_ok :: "doc \<Rightarrow> bool" where
  "entry_ok e \<longleftrightarrow> e = [] \<or> (\<exists>m. e = [(''daily_minutes'', JInt m)] \<and> 0 < m \<and> m \<le> MAX_DAILY_MINUTES)"

lemma site_entry_ok: "site_entry sites k = Inr (Some e) \<Longrightarrow> entry_ok e"
  by (auto simp: site_entry_def entry_ok_def split: option.splits json.splits if_splits)

lemma site_entry_listed:
  "site_entry sites k = Inr e \<Longrightarrow> e = None \<longleftrightarrow> map_of sites k \<in> {None, Some JNull}"
  by (auto simp: site_entry_def split: option.splits json.splits if_splits)

lemma site_entry_again: "map_of sites k = Some (JObj e) \<Longrightarrow> entry_ok e \<Longrightarrow> site_entry sites k = Inr (Some e)"
  by (auto simp: site_entry_def dict_get_def entry_ok_def MAX_DAILY_MINUTES_def)

text \<open>The list as a function of what each site's entry is.\<close>

definition kept_list :: "(string \<Rightarrow> doc option) \<Rightarrow> string list \<Rightarrow> doc" where
  "kept_list g ks = List.map_filter (\<lambda>k. map_option (\<lambda>e. (k, JObj e)) (g k)) ks"

lemma kept_list_simps [simp]:
  "kept_list g [] = []"
  "kept_list g (k # ks) = (case g k of None \<Rightarrow> kept_list g ks | Some e \<Rightarrow> (k, JObj e) # kept_list g ks)"
  by (simp_all add: kept_list_def List.map_filter_simps split: option.splits)

lemma kept_in_list:
  "(\<And>k. k \<in> set ks \<Longrightarrow> site_entry sites k = Inr (g k)) \<Longrightarrow> kept_in sites ks = Inr (kept_list g ks)"
  by (induction ks) (simp_all split: option.splits)

lemma kept_in_entries:
  "kept_in sites ks = Inr kept \<Longrightarrow> k \<in> set ks \<Longrightarrow> \<exists>e. site_entry sites k = Inr e"
  by (induction ks arbitrary: kept) (auto simp: bind_result_Inr_iff)

lemma map_of_kept_list: "map_of (kept_list g ks) k = (if k \<in> set ks then map_option JObj (g k) else None)"
  by (induction ks) (auto split: option.splits)

lemma keys_kept_list: "keys (kept_list g ks) = filter (\<lambda>k. g k \<noteq> None) ks"
  by (induction ks) (auto split: option.splits)

lemma kept_sitesE:
  assumes "kept_sites sites = Inr kept"
  obtains g where "kept = kept_list g SITE_ORDER" "\<And>k. k \<in> set SITE_ORDER \<Longrightarrow> site_entry sites k = Inr (g k)"
proof -
  define g where "g k = projr (site_entry sites k)" for k
  have "site_entry sites k = Inr (g k)" if "k \<in> set SITE_ORDER" for k
    using kept_in_entries [of sites SITE_ORDER kept k] that assms by (auto simp: kept_sites_def g_def)
  moreover from this have "kept = kept_list g SITE_ORDER"
    using kept_in_list [of SITE_ORDER sites g] assms by (simp add: kept_sites_def)
  ultimately show ?thesis by (intro that)
qed

lemma kept_sites_again:
  assumes "kept_sites sites = Inr kept"
  shows "kept_sites kept = Inr kept"
proof -
  obtain g where g: "kept = kept_list g SITE_ORDER"
    "\<And>k. k \<in> set SITE_ORDER \<Longrightarrow> site_entry sites k = Inr (g k)"
    using kept_sitesE [OF assms] by blast
  have "site_entry kept k = Inr (g k)" if k: "k \<in> set SITE_ORDER" for k
  proof (cases "g k")
    case None
    then show ?thesis using k by (simp add: g(1) site_entry_def map_of_kept_list)
  next
    case (Some e)
    then show ?thesis
      using k g(2) [OF k] by (auto simp: g(1) map_of_kept_list dest: site_entry_ok intro: site_entry_again)
  qed
  then show ?thesis using kept_in_list [of SITE_ORDER kept g] g(1) by (simp add: kept_sites_def)
qed

lemma kept_sites_keys:
  assumes "kept_sites sites = Inr kept"
  shows "set (keys kept) = {k \<in> set SITE_ORDER. map_of sites k \<notin> {None, Some JNull}}"
proof -
  obtain g where g: "kept = kept_list g SITE_ORDER"
    "\<And>k. k \<in> set SITE_ORDER \<Longrightarrow> site_entry sites k = Inr (g k)"
    using kept_sitesE [OF assms] by blast
  have "g k \<noteq> None \<longleftrightarrow> map_of sites k \<notin> {None, Some JNull}" if "k \<in> set SITE_ORDER" for k
    using site_entry_listed [OF g(2) [OF that]] by simp
  then show ?thesis unfolding g(1) keys_kept_list set_filter by blast
qed

lemma kept_sites_minutes:
  assumes "kept_sites sites = Inr kept" "map_of kept k = Some v"
  shows "\<exists>e. v = JObj e \<and> entry_ok e"
proof -
  obtain g where g: "kept = kept_list g SITE_ORDER"
    "\<And>k. k \<in> set SITE_ORDER \<Longrightarrow> site_entry sites k = Inr (g k)"
    using kept_sitesE [OF assms(1)] by blast
  then show ?thesis
    using assms(2) site_entry_ok [of sites k] by (auto simp: map_of_kept_list split: if_splits)
qed

text \<open>The sites a request asks to calm.\<close>

definition asked_sites :: "json \<Rightarrow> string set" where
  "asked_sites j =
     (case j of
        JObj d \<Rightarrow>
          if truthy (dict_get d ''enabled'' JNull)
          then {k \<in> set SITE_ORDER. map_of (sites_of d) k \<notin> {None, Some JNull}} else {}
      | _ \<Rightarrow> {})"

definition enabled_doc :: "int \<Rightarrow> doc \<Rightarrow> doc" where
  "enabled_doc n kept =
     (if kept = [] then [] else [(''enabled'', JBool True)])
     @ (if n \<noteq> DEFAULT_FEED_ITEMS then [(''feed_items'', JInt n)] else [])
     @ (if kept = [] then [] else [(''sites'', JObj kept)])"

lemma enabled_doc_fields:
  "map_of (enabled_doc n kept) ''enabled'' = (if kept = [] then None else Some (JBool True))"
  "map_of (enabled_doc n kept) ''feed_items'' = (if n = DEFAULT_FEED_ITEMS then None else Some (JInt n))"
  "map_of (enabled_doc n kept) ''sites'' = (if kept = [] then None else Some (JObj kept))"
  "fst ` set (enabled_doc n kept) \<subseteq> {''enabled'', ''feed_items'', ''sites''}"
  by (auto simp: enabled_doc_def)


lemma enabled_doc_again:
  assumes "kept_sites sites = Inr kept" "kept \<noteq> []"
    and "MIN_FEED_ITEMS \<le> n" "n \<le> MAX_FEED_ITEMS"
  shows "calm_normalize (JObj (enabled_doc n kept)) = Inr (enabled_doc n kept)"
proof -
  let ?d = "enabled_doc n kept"
  obtain x xs where d: "?d = x # xs" using assms(2) by (cases ?d) (auto simp: enabled_doc_def)
  have "set (keys kept) \<subseteq> set (keys SITES)"
    using kept_sites_keys [OF assms(1)] by (auto simp: keys_SITES)
  moreover have "calm_sites_of ?d = Inr kept"
    using assms(2) by (simp add: calm_sites_of_def dict_get_def enabled_doc_fields)
  moreover have "dict_get ?d ''feed_items'' (JInt DEFAULT_FEED_ITEMS) = JInt n"
    by (simp add: dict_get_def enabled_doc_fields)
  moreover have "truthy (dict_get ?d ''enabled'' JNull)"
    using assms(2) by (simp add: dict_get_def enabled_doc_fields)
  moreover have "set (keys ?d) \<subseteq> {''enabled'', ''feed_items'', ''sites''}"
    using enabled_doc_fields(4) by simp
  ultimately show ?thesis
    using assms(3,4) kept_sites_again [OF assms(1)]
    by (simp add: calm_normalize_def d enabled_doc_def [symmetric] Let_def split del: if_split)
qed

lemma calm_normalizeE:
  assumes "calm_normalize j = Inr d"
  obtains (off) "d = []" "asked_sites j = {}"
  | (on) n sites kept where "d = enabled_doc n kept" "kept_sites sites = Inr kept"
      "MIN_FEED_ITEMS \<le> n" "n \<le> MAX_FEED_ITEMS" "asked_sites j = set (keys kept)"
proof -
  consider "j = JNull \<or> j = JObj []" "d = []" | x xs where "j = JObj (x # xs)"
    using assms by (auto simp: calm_normalize_def split: json.splits list.splits)
  then show ?thesis
  proof cases
    case 1
    then show ?thesis by (intro off) (auto simp: asked_sites_def dict_get_def)
  next
    case 2
    let ?x = "x # xs"
    obtain n where n: "dict_get ?x ''feed_items'' (JInt DEFAULT_FEED_ITEMS) = JInt n"
      "MIN_FEED_ITEMS \<le> n" "n \<le> MAX_FEED_ITEMS"
      using assms by (auto simp: 2 calm_normalize_def Let_def split: json.splits if_splits)
    obtain sites kept where s: "calm_sites_of ?x = Inr sites" "kept_sites sites = Inr kept"
      "d = (if truthy (dict_get ?x ''enabled'' JNull) then enabled_doc n kept else [])"
      using assms by (auto simp: 2 calm_normalize_def Let_def n enabled_doc_def bind_result_Inr_iff split: if_splits)
    have "map_of (sites_of ?x) = map_of sites"
      using s(1) by (auto simp: calm_sites_of_def sites_of_def dict_get_def split: option.splits json.splits if_splits)
    then have "asked_sites j = (if truthy (dict_get ?x ''enabled'' JNull) then set (keys kept) else {})"
      unfolding asked_sites_def 2 json.case by (simp only: kept_sites_keys [OF s(2)])
    then show ?thesis using s n on off by (cases "truthy (dict_get ?x ''enabled'' JNull)") auto
  qed
qed

text \<open>
  The settings an account keeps are what was asked for, and of the form the proxy
  reads: the sites calmed are exactly those asked for with the switch on, a feed ends after 5 to
  500 items, a site's daily budget is at most a day, and settings that calm anything are accepted
  as they are when they are sent again.
\<close>

theorem calm_settings_canonical:
  assumes "calm_normalize j = Inr d"
  shows "set (enabled_sites d) = asked_sites j
    \<and> MIN_FEED_ITEMS \<le> feed_items d \<and> feed_items d \<le> MAX_FEED_ITEMS
    \<and> (\<forall>s. 0 \<le> site_minutes d s \<and> site_minutes d s \<le> MAX_DAILY_MINUTES)
    \<and> (enabled_sites d \<noteq> [] \<longrightarrow> calm_normalize (JObj d) = Inr d)"
  using assms
proof (cases rule: calm_normalizeE)
  case off
  then show ?thesis
    by (simp add: enabled_sites_def sites_of_def feed_items_def site_minutes_def dict_get_def
        MIN_FEED_ITEMS_def MAX_FEED_ITEMS_def MAX_DAILY_MINUTES_def DEFAULT_FEED_ITEMS_def)
next
  case (on n sites kept)
  have f: "feed_items d = n" by (simp add: on(1) feed_items_def enabled_doc_fields)
  have s: "sites_of d = kept" by (simp add: on(1) sites_of_def enabled_doc_fields)
  have "set (keys kept) \<subseteq> set SITE_ORDER" using kept_sites_keys [OF on(2)] by auto
  then have e: "set (enabled_sites d) = set (keys kept)"
    unfolding enabled_sites_def s by (auto simp: on(1) dict_get_def enabled_doc_fields)
  have "0 \<le> site_minutes d x \<and> site_minutes d x \<le> MAX_DAILY_MINUTES" for x
    using kept_sites_minutes [OF on(2), of x]
    by (cases "map_of kept x") (auto simp: site_minutes_def s entry_ok_def MAX_DAILY_MINUTES_def)
  moreover have "calm_normalize (JObj d) = Inr d" if "enabled_sites d \<noteq> []"
  proof -
    have "kept \<noteq> []" using e that by auto
    from enabled_doc_again [OF on(2) this on(3,4)] show ?thesis by (simp add: on(1))
  qed
  ultimately show ?thesis using on(3-5) f e by simp
qed

definition example_calm :: json where
  "example_calm = JObj [(''sites'', JObj [(''reddit'', JBool True), (''x'', JObj [(''daily_minutes'', JInt 20)])]),
     (''enabled'', JBool True), (''feed_items'', JInt 10)]"

lemma calm_settings_canonical_witness:
  "\<exists>d. calm_normalize example_calm = Inr d \<and> set (enabled_sites d) = {''x'', ''reddit''}"
proof -
  let ?s = "[(''reddit'', JBool True), (''x'', JObj [(''daily_minutes'', JInt 20)])]"
  have k: "kept_sites ?s = Inr [(''x'', JObj [(''daily_minutes'', JInt 20)]), (''reddit'', JObj [])]"
    by (simp add: kept_sites_def SITE_ORDER_def site_entry_def dict_get_def MAX_DAILY_MINUTES_def)
  have "set (keys ?s) \<subseteq> set SITE_ORDER" by (simp add: SITE_ORDER_def)
  then obtain d where d: "calm_normalize example_calm = Inr d"
    using k by (simp add: calm_normalize_def example_calm_def dict_get_def MIN_FEED_ITEMS_def
        MAX_FEED_ITEMS_def calm_sites_of_def keys_SITES)
  have "asked_sites example_calm = {''x'', ''reddit''}"
    by (simp add: asked_sites_def example_calm_def dict_get_def sites_of_def SITE_ORDER_def flip: set_filter) blast
  then show ?thesis
    using conjunct1 [OF calm_settings_canonical [OF d]] by (intro exI [of _ d] conjI d) (simp only:)
qed

end
