(* ===== verification/DaemonState.thy ===== *)
theory DaemonState
  imports Access Sessions GuardianAuth FamilyGroups AccessRequests TimeLimits Firewall BuildSources Calm
begin

text \<open>
  The state of \<open>kosherd/src/kosherd/daemon.py\<close> and what its calls share: the policy in memory and
  on disk, the sessions, the guardian, the request spool and the accounts of the system; how a
  change is saved and applied; how an account is found and changed; and \<open>_grant\<close>.

  What the daemon calls outside this repository (the JSON parser and schema, polkit, the account
  tools, systemctl) and the parts that only do I/O (\<open>apply_policy\<close>) are the fields of \<open>world\<close>.
\<close>

section \<open>What is outside\<close>

text \<open>An error is the text of the exception; \<open>None\<close> is success.\<close>

record world =
  loads :: "string \<Rightarrow> json option"
  validate :: "doc \<Rightarrow> string option"
  write_error :: "doc \<Rightarrow> string option"
  apply_error :: "policy \<Rightarrow> string option"
  bundle_doc :: doc
  py_repr :: "json \<Rightarrow> string"
  check_hash :: "string \<Rightarrow> string \<Rightarrow> bool"
  hash_password :: "string \<Rightarrow> string option"
  polkit :: "int \<Rightarrow> string \<Rightarrow> bool"
  create_account :: "string \<Rightarrow> int result"
  delete_error :: "int \<Rightarrow> string option"
  create_guest :: "int result"
  usermod_error :: "string \<Rightarrow> string option"
  chpasswd_error :: "string \<Rightarrow> string option"
  grub_error :: "string option"
  forget_error :: "string \<Rightarrow> string option"
  reset_error :: "int \<Rightarrow> string option"
  timer_error :: "string \<Rightarrow> string option"
  tailscale_installed :: bool
  tailscale_error :: "bool \<Rightarrow> string option"
  keyd_error :: "bool \<Rightarrow> string option"

section \<open>The state\<close>

text \<open>
  What the daemon announces or does: a policy it applied, the signal \<open>PolicyChanged\<close>, and the
  line of the activity log with the method, its arguments, the account and who called.
\<close>

datatype event =
    Applied policy
  | PolicyChanged int
  | Change string "json list" int int bool

text \<open>
  \<open>guest_dev\<close> is the attribute \<open>developer_tools\<close> that \<open>SetDeveloperTools\<close> leaves on the guest's
  object, which has no such field, and \<open>guest_admin\<close> the attribute \<open>admin\<close> that \<open>SetUserAdmin\<close>
  leaves there: they are in memory only.  \<open>passwd\<close> is the system's accounts with
  their uid and shell, \<open>login_session\<close> the session the login screen offers, \<open>services\<close> what was
  last asked of systemd for the update timer, Tailscale and keyd.
\<close>

record machine =
  pol :: policy
  policy_file :: "doc option"
  guest_dev :: "bool option"
  guest_admin :: "bool option"
  store :: session_store
  guard :: guardian
  requests :: "spool option"
  passwd :: "(string, int \<times> string) dict"
  kosher_admins :: "string list"
  setup_stamp :: bool
  boot_password :: bool
  login_session :: "(int, string) dict"
  services :: "(string, bool) dict"
  events :: "event list"

type_synonym 'a run = "machine \<Rightarrow> 'a result \<times> machine"

text \<open>Sequencing: an exception ends a call and leaves what it has changed so far.\<close>

definition bind_run :: "'a run \<Rightarrow> ('a \<Rightarrow> 'b run) \<Rightarrow> 'b run" where
  "bind_run f g m = (case f m of (Inl e, m') \<Rightarrow> (Inl e, m') | (Inr a, m') \<Rightarrow> g a m')"

definition return_run :: "'a \<Rightarrow> 'a run" where
  "return_run a m = (Inr a, m)"

definition raise_run :: "string \<Rightarrow> 'a run" where
  "raise_run e m = (Inl e, m)"

definition lift_run :: "'a result \<Rightarrow> 'a run" where
  "lift_run r m = (r, m)"

definition check_run :: "string option \<Rightarrow> unit run" where
  "check_run e = (case e of None \<Rightarrow> return_run () | Some msg \<Rightarrow> raise_run msg)"

definition update_run :: "(machine \<Rightarrow> machine) \<Rightarrow> unit run" where
  "update_run f m = (Inr (), f m)"

definition change_policy :: "(policy \<Rightarrow> policy) \<Rightarrow> unit run" where
  "change_policy f = update_run (\<lambda>m. m\<lparr>pol := f (pol m)\<rparr>)"

definition read_policy :: "(policy \<Rightarrow> 'a run) \<Rightarrow> 'a run" where
  "read_policy f m = f (pol m) m"

definition with_machine :: "(machine \<Rightarrow> 'a run) \<Rightarrow> 'a run" where
  "with_machine f m = f m m"

definition emit :: "event \<Rightarrow> unit run" where
  "emit e = update_run (\<lambda>m. m\<lparr>events := events m @ [e]\<rparr>)"

section \<open>Saving and applying\<close>

text \<open>
  \<open>policy_mod.save\<close>: the revision is counted up before the schema is checked and the file written.
\<close>

definition save_policy :: "world \<Rightarrow> unit run" where
  "save_policy w m =
     (case save (validate w) (pol m) of
        (Inl e, p) \<Rightarrow> (Inl e, m\<lparr>pol := p\<rparr>)
      | (Inr d, p) \<Rightarrow>
          (case write_error w d of
             Some e \<Rightarrow> (Inl e, m\<lparr>pol := p\<rparr>)
           | None \<Rightarrow> (Inr (), m\<lparr>pol := p, policy_file := Some d\<rparr>)))"

definition announce :: "unit run" where
  "announce = read_policy (\<lambda>p. emit (PolicyChanged (revision p)))"

definition apply_now :: "world \<Rightarrow> unit run" where
  "apply_now w = read_policy (\<lambda>p. bind_run (check_run (apply_error w p)) (\<lambda>_. emit (Applied p)))"

definition save_and_apply :: "world \<Rightarrow> unit run" where
  "save_and_apply w = bind_run (save_policy w) (\<lambda>_. bind_run (apply_now w) (\<lambda>_. announce))"

definition save_only :: "world \<Rightarrow> unit run" where
  "save_only w = bind_run (save_policy w) (\<lambda>_. announce)"

text \<open>\<open>change the policy; self._save_and_apply(); return None\<close>.\<close>

definition commit :: "world \<Rightarrow> (policy \<Rightarrow> policy) \<Rightarrow> json run" where
  "commit w f = bind_run (change_policy f) (\<lambda>_. bind_run (save_and_apply w) (\<lambda>_. return_run JNull))"

definition commit_only :: "world \<Rightarrow> (policy \<Rightarrow> policy) \<Rightarrow> json run" where
  "commit_only w f = bind_run (change_policy f) (\<lambda>_. bind_run (save_only w) (\<lambda>_. return_run JNull))"

section \<open>Finding and changing an account\<close>

fun update_first :: "('a \<Rightarrow> bool) \<Rightarrow> ('a \<Rightarrow> 'a) \<Rightarrow> 'a list \<Rightarrow> 'a list" where
  "update_first P f [] = []"
| "update_first P f (x # xs) = (if P x then f x # xs else x # update_first P f xs)"

definition on_user :: "int \<Rightarrow> (user_policy \<Rightarrow> user_policy) \<Rightarrow> policy \<Rightarrow> policy" where
  "on_user i f p = p\<lparr>users := update_first (\<lambda>u. uid u = i) f (users p)\<rparr>"

text \<open>
  \<open>Policy.account\<close> finds a user or else the guest, and a setter changes the object it gets.  The
  guest's object takes any attribute; one that is no field of \<open>GuestPolicy\<close> changes nothing of the
  policy, and its function is then the identity.
\<close>

definition on_account ::
  "int \<Rightarrow> (user_policy \<Rightarrow> user_policy) \<Rightarrow> (guest_policy \<Rightarrow> guest_policy) \<Rightarrow> policy \<Rightarrow> policy" where
  "on_account i fu fg p =
     (if find_user i p \<noteq> None then on_user i fu p else p\<lparr>guest := fg (guest p)\<rparr>)"

definition managed :: "int \<Rightarrow> policy \<Rightarrow> bool" where
  "managed i p \<longleftrightarrow> find_user i p \<noteq> None \<or> guest_is i p"

definition not_managed :: string where "not_managed = ''uid is not managed''"
definition no_field :: string where "no_field = ''object has no attribute''"

definition need_account :: "int \<Rightarrow> unit run" where
  "need_account i = read_policy (\<lambda>p. if managed i p then return_run () else raise_run not_managed)"

definition need_user :: "int \<Rightarrow> user_policy run" where
  "need_user i = read_policy (\<lambda>p. case find_user i p of
     Some u \<Rightarrow> return_run u | None \<Rightarrow> raise_run not_managed)"

text \<open>The account as its fields say: the user, or the guest.\<close>

definition account_mode :: "int \<Rightarrow> policy \<Rightarrow> string" where
  "account_mode i p = (case find_user i p of Some u \<Rightarrow> mode u | None \<Rightarrow> mode (guest p))"

definition account_categories :: "int \<Rightarrow> policy \<Rightarrow> string list" where
  "account_categories i p =
     (case find_user i p of Some u \<Rightarrow> blocked_categories u | None \<Rightarrow> blocked_categories (guest p))"

definition account_rules :: "int \<Rightarrow> policy \<Rightarrow> doc list" where
  "account_rules i p = (case find_user i p of Some u \<Rightarrow> rules u | None \<Rightarrow> rules (guest p))"

definition account_whitelist :: "int \<Rightarrow> policy \<Rightarrow> string list" where
  "account_whitelist i p = (case find_user i p of Some u \<Rightarrow> whitelist u | None \<Rightarrow> whitelist (guest p))"

section \<open>Opening a page\<close>

definition GRANT_SCOPES :: "string list" where "GRANT_SCOPES = [''page'', ''folder'', ''site'']"

text \<open>\<open>_url_pattern\<close>, \<open>_grant\<close>'s \<open>urlsplit(url).hostname\<close> and its table of patterns.\<close>

definition url_pattern :: "string \<Rightarrow> string result" where
  "url_pattern url =
     map_sum id (\<lambda>u.
       let path = rstrip (\<lambda>c. c = CHR ''/'') (if url_path u = [] then ''/'' else url_path u) in
       canonical_host (url_host u) @ (if path = [] then ''/'' else path))
     (urlsplit url)"

definition bare_host :: "split_url \<Rightarrow> string" where
  "bare_host u = strip (\<lambda>c. c = CHR ''.'') (lower (url_host u))"

definition scope_of :: "bool \<Rightarrow> string" where
  "scope_of whole_site = (if whole_site then ''site'' else ''page'')"

definition grant_pattern :: "string \<Rightarrow> string \<Rightarrow> string \<Rightarrow> string result" where
  "grant_pattern url host scope =
     bind_result (url_pattern url) (\<lambda>page.
     bind_result (folder_of url) (\<lambda>folder.
       if scope = ''site'' then Inr host
       else if scope = ''page'' then Inr page
       else if scope = ''folder'' then Inr (case folder of Some f \<Rightarrow> f | None \<Rightarrow> host)
       else Inl ''KeyError''))"

definition has_rule :: "string \<Rightarrow> string \<Rightarrow> doc list \<Rightarrow> bool" where
  "has_rule action pattern rs \<longleftrightarrow>
     list_ex (\<lambda>r. map_of r ''pattern'' = Some (JStr pattern) \<and> map_of r ''action'' = Some (JStr action)) rs"

definition granted_rule :: "string \<Rightarrow> string \<Rightarrow> doc" where
  "granted_rule action pattern = [(''action'', JStr action), (''pattern'', JStr pattern)]"

definition grant_rules :: "string \<Rightarrow> string \<Rightarrow> doc list \<Rightarrow> doc list" where
  "grant_rules action pattern rs =
     (if has_rule action pattern rs then rs
      else granted_rule action pattern # filter (\<lambda>r. map_of r ''pattern'' \<noteq> Some (JStr pattern)) rs)"

definition grant_whitelist :: "string \<Rightarrow> string list \<Rightarrow> string list" where
  "grant_whitelist host ws = (if host \<in> set ws then ws else sorted_set (host # ws))"

definition grant :: "world \<Rightarrow> int \<Rightarrow> string \<Rightarrow> string \<Rightarrow> string \<Rightarrow> string run" where
  "grant w i url scope action =
     bind_run (lift_run (urlsplit url)) (\<lambda>u.
     let host = bare_host u in
     if host = [] then raise_run ''that request has no address''
     else bind_run (read_policy (\<lambda>p.
            if account_mode i p = ''whitelist''
            then change_policy (on_account i (whitelist_update (grant_whitelist host))
                                             (whitelist_update (grant_whitelist host)))
            else bind_run (lift_run (grant_pattern url host scope)) (\<lambda>pattern.
                 change_policy (on_account i (rules_update (grant_rules action pattern))
                                             (rules_update (grant_rules action pattern))))))
          (\<lambda>_. bind_run (save_and_apply w) (\<lambda>_. return_run host)))"

end
