(* ===== verification/DaemonCalls.thy ===== *)
theory DaemonCalls
  imports DaemonState
begin

text \<open>
  The calls of \<open>kosherd/src/kosherd/daemon.py\<close>: one definition per \<open>impl_\<close> method, with its guards,
  in the order it has them.  The calls are grouped by what protects them and what they reach; what
  D-Bus unpacks is typed by the introspection XML, so each constructor carries its arguments.
\<close>

section \<open>The calls\<close>

text \<open>Settings of one account, guardian-gated: the uid and the guardian's password are \<open>Account\<close>'s.\<close>

datatype account_call =
    SetFilterMode string
  | SetWhitelistBundles "string list"
  | SetWhitelist "string list"
  | SetBlockedCategories "string list"
  | SetUrlRules string
  | SetMediaLevel string
  | SetLanguageFilter string
  | SetYouTube string
  | SetCalm string
  | SetTimeLimits string
  | SetDeveloperTools bool
  | SetSshIn bool
  | SetNetworkAccess bool string
  | SetSsh bool string
  | AllowUrl string bool
  | BypassUrl string bool
  | GrantUrl string string string
  | ApplyProfile string
  | SaveProfile string string
  | SetUserAdmin bool
  | SetUserAppAccess string
  | SetUserBlockedAppKinds "string list"
  | SetUserBlockedApps "string list"
  | SetUserAppApproval string bool
  | SetSyncthingLan bool

text \<open>One account, not gated.\<close>

datatype person_call =
    SetLayout string
  | SetCoverStyle string
  | SetUserApps "string list"
  | SetUserCanInstall bool
  | RemoveUser
  | ResetPassword

text \<open>The whole computer, guardian-gated.\<close>

datatype household_call =
    SetAdBlock bool
  | SetAdBlockAllowed "string list"
  | SetBuildSources "string list"
  | SetGuestConfig bool string "string list"
  | DeleteProfile string
  | ApproveRequest string bool
  | SetSyncthingEnabled bool
  | SetTailscaleEnabled bool
  | SetKeydEnabled bool
  | SetBootMenuPassword string
  | DisableGuardian

text \<open>The whole computer, not gated.\<close>

datatype open_call =
    CreateUser string string string
  | AdoptUser string string
  | SetAutoUpdates string bool
  | DismissRequest string
  | SetGuardianPassword string string

text \<open>About the caller: \<open>UID_AWARE\<close>.\<close>

datatype own_call =
    Unlock
  | Lock
  | Status
  | VerifyGuardian string
  | GetMyLayout
  | SetMyLayout string
  | GetMyCompositor
  | SetMyCompositor string

datatype setup_call =
    IsComplete
  | AdminExists
  | ExistingAccounts
  | CreateFirstAdmin string string string
  | FinishSetup string string

datatype read_call =
    GetPolicy
  | ListWhitelistBundles
  | ListRequests
  | ListProfiles
  | IsEnabled

datatype call =
    Account int account_call string
  | Person int person_call
  | Household household_call string
  | Anyone open_call
  | Own own_call
  | Setup setup_call
  | Reading read_call

fun account_method :: "account_call \<Rightarrow> string" where
  "account_method (SetFilterMode _) = ''SetFilterMode''"
| "account_method (SetWhitelistBundles _) = ''SetWhitelistBundles''"
| "account_method (SetWhitelist _) = ''SetWhitelist''"
| "account_method (SetBlockedCategories _) = ''SetBlockedCategories''"
| "account_method (SetUrlRules _) = ''SetUrlRules''"
| "account_method (SetMediaLevel _) = ''SetMediaLevel''"
| "account_method (SetLanguageFilter _) = ''SetLanguageFilter''"
| "account_method (SetYouTube _) = ''SetYouTube''"
| "account_method (SetCalm _) = ''SetCalm''"
| "account_method (SetTimeLimits _) = ''SetTimeLimits''"
| "account_method (SetDeveloperTools _) = ''SetDeveloperTools''"
| "account_method (SetSshIn _) = ''SetSshIn''"
| "account_method (SetNetworkAccess _ _) = ''SetNetworkAccess''"
| "account_method (SetSsh _ _) = ''SetSsh''"
| "account_method (AllowUrl _ _) = ''AllowUrl''"
| "account_method (BypassUrl _ _) = ''BypassUrl''"
| "account_method (GrantUrl _ _ _) = ''GrantUrl''"
| "account_method (ApplyProfile _) = ''ApplyProfile''"
| "account_method (SaveProfile _ _) = ''SaveProfile''"
| "account_method (SetUserAdmin _) = ''SetUserAdmin''"
| "account_method (SetUserAppAccess _) = ''SetUserAppAccess''"
| "account_method (SetUserBlockedAppKinds _) = ''SetUserBlockedAppKinds''"
| "account_method (SetUserBlockedApps _) = ''SetUserBlockedApps''"
| "account_method (SetUserAppApproval _ _) = ''SetUserAppApproval''"
| "account_method (SetSyncthingLan _) = ''SetSyncthingLan''"

fun account_args :: "account_call \<Rightarrow> json list" where
  "account_args (SetFilterMode s) = [JStr s]"
| "account_args (SetWhitelistBundles xs) = [jstrs xs]"
| "account_args (SetWhitelist xs) = [jstrs xs]"
| "account_args (SetBlockedCategories xs) = [jstrs xs]"
| "account_args (SetUrlRules s) = [JStr s]"
| "account_args (SetMediaLevel s) = [JStr s]"
| "account_args (SetLanguageFilter s) = [JStr s]"
| "account_args (SetYouTube s) = [JStr s]"
| "account_args (SetCalm s) = [JStr s]"
| "account_args (SetTimeLimits s) = [JStr s]"
| "account_args (SetDeveloperTools b) = [JBool b]"
| "account_args (SetSshIn b) = [JBool b]"
| "account_args (SetNetworkAccess b s) = [JBool b, JStr s]"
| "account_args (SetSsh b s) = [JBool b, JStr s]"
| "account_args (AllowUrl s b) = [JStr s, JBool b]"
| "account_args (BypassUrl s b) = [JStr s, JBool b]"
| "account_args (GrantUrl s l c) = [JStr s, JStr l, JStr c]"
| "account_args (ApplyProfile s) = [JStr s]"
| "account_args (SaveProfile l d) = [JStr l, JStr d]"
| "account_args (SetUserAdmin b) = [JBool b]"
| "account_args (SetUserAppAccess s) = [JStr s]"
| "account_args (SetUserBlockedAppKinds xs) = [jstrs xs]"
| "account_args (SetUserBlockedApps xs) = [jstrs xs]"
| "account_args (SetUserAppApproval s b) = [JStr s, JBool b]"
| "account_args (SetSyncthingLan b) = [JBool b]"

fun person_method :: "person_call \<Rightarrow> string" where
  "person_method (SetLayout _) = ''SetLayout''"
| "person_method (SetCoverStyle _) = ''SetCoverStyle''"
| "person_method (SetUserApps _) = ''SetUserApps''"
| "person_method (SetUserCanInstall _) = ''SetUserCanInstall''"
| "person_method RemoveUser = ''RemoveUser''"
| "person_method ResetPassword = ''ResetPassword''"

fun person_args :: "person_call \<Rightarrow> json list" where
  "person_args (SetLayout s) = [JStr s]"
| "person_args (SetCoverStyle s) = [JStr s]"
| "person_args (SetUserApps xs) = [jstrs xs]"
| "person_args (SetUserCanInstall b) = [JBool b]"
| "person_args RemoveUser = []"
| "person_args ResetPassword = []"

fun household_method :: "household_call \<Rightarrow> string" where
  "household_method (SetAdBlock _) = ''SetAdBlock''"
| "household_method (SetAdBlockAllowed _) = ''SetAdBlockAllowed''"
| "household_method (SetBuildSources _) = ''SetBuildSources''"
| "household_method (SetGuestConfig _ _ _) = ''SetGuestConfig''"
| "household_method (DeleteProfile _) = ''DeleteProfile''"
| "household_method (ApproveRequest _ _) = ''ApproveRequest''"
| "household_method (SetSyncthingEnabled _) = ''SetSyncthingEnabled''"
| "household_method (SetTailscaleEnabled _) = ''SetTailscaleEnabled''"
| "household_method (SetKeydEnabled _) = ''SetKeydEnabled''"
| "household_method (SetBootMenuPassword _) = ''SetBootMenuPassword''"
| "household_method DisableGuardian = ''DisableGuardian''"

fun household_args :: "household_call \<Rightarrow> json list" where
  "household_args (SetAdBlock b) = [JBool b]"
| "household_args (SetAdBlockAllowed xs) = [jstrs xs]"
| "household_args (SetBuildSources xs) = [jstrs xs]"
| "household_args (SetGuestConfig b s xs) = [JBool b, JStr s, jstrs xs]"
| "household_args (DeleteProfile s) = [JStr s]"
| "household_args (ApproveRequest s b) = [JStr s, JBool b]"
| "household_args (SetSyncthingEnabled b) = [JBool b]"
| "household_args (SetTailscaleEnabled b) = [JBool b]"
| "household_args (SetKeydEnabled b) = [JBool b]"
| "household_args (SetBootMenuPassword s) = [JStr s]"
| "household_args DisableGuardian = []"

fun open_method :: "open_call \<Rightarrow> string" where
  "open_method (CreateUser _ _ _) = ''CreateUser''"
| "open_method (AdoptUser _ _) = ''AdoptUser''"
| "open_method (SetAutoUpdates _ _) = ''SetAutoUpdates''"
| "open_method (DismissRequest _) = ''DismissRequest''"
| "open_method (SetGuardianPassword _ _) = ''SetGuardianPassword''"

fun open_args :: "open_call \<Rightarrow> json list" where
  "open_args (CreateUser n f m) = [JStr n, JStr f, JStr m]"
| "open_args (AdoptUser n m) = [JStr n, JStr m]"
| "open_args (SetAutoUpdates s b) = [JStr s, JBool b]"
| "open_args (DismissRequest s) = [JStr s]"
| "open_args (SetGuardianPassword old new) = [JStr old, JStr new]"

fun own_method :: "own_call \<Rightarrow> string" where
  "own_method Unlock = ''Unlock''"
| "own_method Lock = ''Lock''"
| "own_method Status = ''Status''"
| "own_method (VerifyGuardian _) = ''VerifyGuardian''"
| "own_method GetMyLayout = ''GetMyLayout''"
| "own_method (SetMyLayout _) = ''SetMyLayout''"
| "own_method GetMyCompositor = ''GetMyCompositor''"
| "own_method (SetMyCompositor _) = ''SetMyCompositor''"

fun own_args :: "own_call \<Rightarrow> json list" where
  "own_args (VerifyGuardian s) = [JStr s]"
| "own_args (SetMyLayout s) = [JStr s]"
| "own_args (SetMyCompositor s) = [JStr s]"
| "own_args _ = []"

fun setup_method :: "setup_call \<Rightarrow> string" where
  "setup_method IsComplete = ''IsComplete''"
| "setup_method AdminExists = ''AdminExists''"
| "setup_method ExistingAccounts = ''ExistingAccounts''"
| "setup_method (CreateFirstAdmin _ _ _) = ''CreateFirstAdmin''"
| "setup_method (FinishSetup _ _) = ''FinishSetup''"

fun setup_args :: "setup_call \<Rightarrow> json list" where
  "setup_args (CreateFirstAdmin n f p) = [JStr n, JStr f, JStr p]"
| "setup_args (FinishSetup g b) = [JStr g, JStr b]"
| "setup_args _ = []"

fun read_method :: "read_call \<Rightarrow> string" where
  "read_method GetPolicy = ''GetPolicy''"
| "read_method ListWhitelistBundles = ''ListWhitelistBundles''"
| "read_method ListRequests = ''ListRequests''"
| "read_method ListProfiles = ''ListProfiles''"
| "read_method IsEnabled = ''IsEnabled''"

fun method_of :: "call \<Rightarrow> string" where
  "method_of (Account _ c _) = account_method c"
| "method_of (Person _ c) = person_method c"
| "method_of (Household c _) = household_method c"
| "method_of (Anyone c) = open_method c"
| "method_of (Own c) = own_method c"
| "method_of (Setup c) = setup_method c"
| "method_of (Reading c) = read_method c"

text \<open>\<open>params.unpack()\<close>.\<close>

fun args_of :: "call \<Rightarrow> json list" where
  "args_of (Account i c pw) = JInt i # account_args c @ [JStr pw]"
| "args_of (Person i c) = JInt i # person_args c"
| "args_of (Household c pw) = household_args c @ [JStr pw]"
| "args_of (Anyone c) = open_args c"
| "args_of (Own c) = own_args c"
| "args_of (Setup c) = setup_args c"
| "args_of (Reading c) = []"

end
