(* ===== verification/DaemonAccounts.thy ===== *)
theory DaemonAccounts
  imports DaemonCalls
begin

text \<open>
  The setters of one account's settings in \<open>kosherd/src/kosherd/daemon.py\<close>.  The texts that hold
  JSON are read by \<open>loads\<close>, as \<open>json.loads(text or default)\<close>; a call's last argument, the
  guardian's password, is not the method's to read.
\<close>

section \<open>Reading arguments\<close>

definition loads_or :: "world \<Rightarrow> string \<Rightarrow> string \<Rightarrow> string \<Rightarrow> json run" where
  "loads_or w text other err =
     (case loads w (if text = [] then other else text) of
        None \<Rightarrow> raise_run err | Some j \<Rightarrow> return_run j)"

text \<open>\<open>set(v)\<close> raises unless \<open>v\<close> can be iterated and its items hashed.\<close>

definition set_items :: "json \<Rightarrow> json list result" where
  "set_items v =
     (case v of
        JList vs \<Rightarrow> if list_ex (\<lambda>x. as_list x \<noteq> None \<or> as_obj x \<noteq> None) vs
                    then Inl ''unhashable type'' else Inr vs
      | JStr s \<Rightarrow> Inr (map (\<lambda>c. JStr [c]) s)
      | JObj d \<Rightarrow> Inr (map (JStr \<circ> fst) d)
      | _ \<Rightarrow> Inl not_iterable)"

section \<open>What an account reaches\<close>

text \<open>\<open>_default_categories\<close>: the floor under an account moved into a filtering mode.\<close>

definition default_categories :: "string \<Rightarrow> string list" where
  "default_categories m = (if m \<in> {''dnsfilter'', ''filtered'', ''whitelist''} then DEFAULT_BLOCKED else [])"

definition enter_mode :: "string \<Rightarrow> 'z account_scheme \<Rightarrow> 'z account_scheme" where
  "enter_mode m a =
     (let a = a\<lparr>mode := m\<rparr> in
      if blocked_categories a = [] then a\<lparr>blocked_categories := default_categories m\<rparr> else a)"

definition impl_SetFilterMode :: "world \<Rightarrow> int \<Rightarrow> string \<Rightarrow> json run" where
  "impl_SetFilterMode w i m =
     (if m \<notin> set MODES then raise_run ''unknown mode''
      else bind_run (need_account i) (\<lambda>_. commit w (on_account i (enter_mode m) (enter_mode m))))"

definition impl_SetWhitelistBundles :: "world \<Rightarrow> int \<Rightarrow> string list \<Rightarrow> json run" where
  "impl_SetWhitelistBundles w i bundles =
     bind_run (need_account i) (\<lambda>_.
     bind_run (lift_run (bundle_keys (py_repr w) (bundle_doc w))) (\<lambda>known.
     if \<not> set bundles \<subseteq> known then raise_run ''unknown approved-site list(s)''
     else commit w (on_account i (whitelist_bundles_update (\<lambda>_. sorted_set bundles))
                                 (whitelist_bundles_update (\<lambda>_. sorted_set bundles)))))"

definition impl_SetWhitelist :: "world \<Rightarrow> int \<Rightarrow> string list \<Rightarrow> json run" where
  "impl_SetWhitelist w i ds =
     bind_run (need_account i) (\<lambda>_.
     commit w (on_account i (whitelist_update (\<lambda>_. sorted_set ds))
                            (whitelist_update (\<lambda>_. sorted_set ds))))"

definition impl_SetBlockedCategories :: "world \<Rightarrow> int \<Rightarrow> string list \<Rightarrow> json run" where
  "impl_SetBlockedCategories w i cats =
     bind_run (need_account i) (\<lambda>_.
     commit w (on_account i (blocked_categories_update (\<lambda>_. sorted_set cats))
                            (blocked_categories_update (\<lambda>_. sorted_set cats))))"

text \<open>
  \<open>parse_rules(raw)\<close> takes a list of objects; anything else that can be iterated raises on its first
  item.  An empty object or text has none and passes; wherever the rules are read it is the same
  as the empty list.
\<close>

definition rules_value :: "json \<Rightarrow> doc list result" where
  "rules_value raw =
     (case raw of
        JList vs \<Rightarrow>
          (case those (map as_obj vs) of
             None \<Rightarrow> Inl ''rule is not an object''
           | Some ds \<Rightarrow> map_sum id (\<lambda>_. ds) (json_rules ds))
      | JObj [] \<Rightarrow> Inr []
      | JStr [] \<Rightarrow> Inr []
      | JObj _ \<Rightarrow> Inl ''rule is not an object''
      | JStr _ \<Rightarrow> Inl ''rule is not an object''
      | _ \<Rightarrow> Inl not_iterable)"

definition impl_SetUrlRules :: "world \<Rightarrow> int \<Rightarrow> string \<Rightarrow> json run" where
  "impl_SetUrlRules w i rules_json =
     bind_run (need_account i) (\<lambda>_.
     bind_run (loads_or w rules_json [] ''rules are not valid JSON'') (\<lambda>raw.
     bind_run (lift_run (rules_value raw)) (\<lambda>ds.
     commit w (on_account i (rules_update (\<lambda>_. ds)) (rules_update (\<lambda>_. ds))))))"

definition impl_SetMediaLevel :: "world \<Rightarrow> int \<Rightarrow> string \<Rightarrow> json run" where
  "impl_SetMediaLevel w i level =
     (if level \<notin> set MEDIA_LEVELS then raise_run ''unknown media level''
      else bind_run (need_account i) (\<lambda>_.
           commit w (on_account i (media_level_update (\<lambda>_. level)) (media_level_update (\<lambda>_. level)))))"

text \<open>\<open>language.MODES\<close>.\<close>

definition LANGUAGE_MODES :: "string list" where
  "LANGUAGE_MODES = [''off'', ''substitute'', ''block'']"

definition impl_SetLanguageFilter :: "world \<Rightarrow> int \<Rightarrow> string \<Rightarrow> json run" where
  "impl_SetLanguageFilter w i s =
     (if s \<notin> set LANGUAGE_MODES then raise_run ''unknown language setting''
      else bind_run (need_account i) (\<lambda>_.
           commit w (on_account i (language_filter_update (\<lambda>_. s)) (language_filter_update (\<lambda>_. s)))))"

definition youtube_settings :: "json \<Rightarrow> doc result" where
  "youtube_settings j =
     (case j of
        JObj d \<Rightarrow>
          if dict_get d ''restrict'' (JStr ''moderate'') \<notin> JStr ` {''none'', ''moderate'', ''strict''}
          then Inl ''unknown restricted mode''
          else bind_result (set_items (dict_get d ''blocked_categories'' (JList []))) (\<lambda>cats.
               if \<not> set cats \<subseteq> JStr ` set (keys YOUTUBE_CATEGORIES) then Inl ''unknown YouTube categories''
               else Inr d)
      | _ \<Rightarrow> Inl ''YouTube settings must be an object'')"

definition impl_SetYouTube :: "world \<Rightarrow> int \<Rightarrow> string \<Rightarrow> json run" where
  "impl_SetYouTube w i text =
     bind_run (loads_or w text ''{}'' ''not valid JSON'') (\<lambda>j.
     bind_run (lift_run (youtube_settings j)) (\<lambda>d.
     bind_run (need_account i) (\<lambda>_.
     commit w (on_account i (youtube_update (\<lambda>_. d)) (youtube_update (\<lambda>_. d))))))"

definition impl_SetCalm :: "world \<Rightarrow> int \<Rightarrow> string \<Rightarrow> json run" where
  "impl_SetCalm w i text =
     bind_run (loads_or w text ''{}'' ''not valid JSON'') (\<lambda>j.
     bind_run (lift_run (calm_normalize j)) (\<lambda>d.
     bind_run (need_account i) (\<lambda>_.
     commit w (on_account i (calm_update (\<lambda>_. d)) (calm_update (\<lambda>_. d))))))"

text \<open>\<open>getattr(user, "admin", False)\<close>: the guest is none, unless the attribute was left on it.\<close>

definition is_admin :: "int \<Rightarrow> machine \<Rightarrow> bool" where
  "is_admin i m =
     (case find_user i (pol m) of Some u \<Rightarrow> admin u | None \<Rightarrow> guest_admin m = Some True)"

definition impl_SetTimeLimits :: "world \<Rightarrow> int \<Rightarrow> string \<Rightarrow> json run" where
  "impl_SetTimeLimits w i text =
     bind_run (loads_or w text ''{}'' ''time settings not accepted'') (\<lambda>j.
     bind_run (lift_run (parse_time j)) (\<lambda>d.
     bind_run (need_account i) (\<lambda>_.
     bind_run (with_machine (\<lambda>m. if is_admin i m then raise_run ''administrators are never limited''
                                  else return_run ())) (\<lambda>_.
     commit w (on_account i (time_update (\<lambda>_. d)) (time_update (\<lambda>_. d)))))))"

section \<open>Developer tools, the network and SSH\<close>

text \<open>
  The guest's object has none of these fields: setting one leaves an attribute that neither the
  policy's document nor its enforcement reads.  Handing the account its Nix profile is file I/O.
\<close>

definition developer :: "bool \<Rightarrow> user_policy \<Rightarrow> user_policy" where
  "developer on u = (if on then u\<lparr>developer_tools := True\<rparr> else u\<lparr>developer_tools := False, ssh_in := False\<rparr>)"

definition impl_SetDeveloperTools :: "world \<Rightarrow> int \<Rightarrow> bool \<Rightarrow> json run" where
  "impl_SetDeveloperTools w i on =
     bind_run (need_account i) (\<lambda>_.
     bind_run (update_run (\<lambda>m. if find_user i (pol m) = None then m\<lparr>guest_dev := Some on\<rparr> else m)) (\<lambda>_.
     commit w (on_account i (developer on) id)))"

definition impl_SetSshIn :: "world \<Rightarrow> int \<Rightarrow> bool \<Rightarrow> json run" where
  "impl_SetSshIn w i on =
     bind_run (need_account i) (\<lambda>_.
     bind_run (with_machine (\<lambda>m.
       if \<not> on then return_run ()
       else case (case find_user i (pol m) of Some u \<Rightarrow> Some (developer_tools u) | None \<Rightarrow> guest_dev m) of
              None \<Rightarrow> raise_run no_field
            | Some d \<Rightarrow> if d then return_run () else raise_run ''turn developer tools on first'')) (\<lambda>_.
     commit w (on_account i (ssh_in_update (\<lambda>_. on)) id)))"

definition ports_value :: "json \<Rightarrow> int list result" where
  "ports_value j =
     (case j of
        JList vs \<Rightarrow>
          (case those (map as_int vs) of
             None \<Rightarrow> Inl ''extra ports must be a JSON list of numbers''
           | Some ports \<Rightarrow>
               if length ports > 20 then Inl ''at most 20 extra ports''
               else if list_ex (\<lambda>p. p < 1 \<or> p > 65535 \<or> p \<in> {53, 80, 443} \<or> p \<in> set OUT_TCP) ports
               then Inl ''port cannot be opened''
               else Inr ports)
      | _ \<Rightarrow> Inl ''extra ports must be a JSON list of numbers'')"

definition reach :: "bool \<Rightarrow> int list \<Rightarrow> user_policy \<Rightarrow> user_policy" where
  "reach video ports u = u\<lparr>video_calls := video, extra_ports := sorted_set ports\<rparr>"

definition impl_SetNetworkAccess :: "world \<Rightarrow> int \<Rightarrow> bool \<Rightarrow> string \<Rightarrow> json run" where
  "impl_SetNetworkAccess w i video text =
     bind_run (loads_or w text ''[]'' ''extra ports must be a JSON list of numbers'') (\<lambda>j.
     bind_run (lift_run (ports_value j)) (\<lambda>ports.
     bind_run (need_account i) (\<lambda>_.
     commit w (on_account i (reach video ports) id))))"

text \<open>\<open>SSH_NAME_RE.fullmatch\<close>: two labels or more, at most 253 characters.\<close>

definition ssh_name_ok :: "string \<Rightarrow> bool" where
  "ssh_name_ok h \<longleftrightarrow>
     length h \<le> 253 \<and> (let ls = split_on CHR ''.'' h in length ls \<ge> 2 \<and> list_all is_label ls)"

text \<open>\<open>IPv4Network.is_loopback\<close> and \<open>IPv6Network.is_loopback\<close>: the first and the last address are.\<close>

definition loopback_address :: "family \<Rightarrow> nat \<Rightarrow> bool" where
  "loopback_address f a =
     (case f of
        IPv4 \<Rightarrow> a div 2 ^ 24 = 127
      | IPv6 \<Rightarrow> a = 1 \<or> (a div 2 ^ 32 = 0xffff \<and> a mod 2 ^ 32 div 2 ^ 24 = 127))"

definition net_last :: "net \<Rightarrow> nat" where
  "net_last n = net_addr n + 2 ^ (bits (net_family n) - net_len n) - 1"

definition loopback_net :: "net \<Rightarrow> bool" where
  "loopback_net n \<longleftrightarrow> loopback_address (net_family n) (net_addr n)
     \<and> loopback_address (net_family n) (net_last n)"

definition check_ssh_host :: "string \<Rightarrow> unit result" where
  "check_ssh_host h =
     bind_result (ssh_entry h) (\<lambda>(host, port).
     if port \<in> set SSH_PORTS_REFUSED then Inl ''port is the web or DNS''
     else bind_result (ssh_entry_kind host) (\<lambda>k.
       case k of
         Name \<Rightarrow> if ssh_name_ok host then Inr () else Inl ''not a machine name''
       | Tailnet \<Rightarrow> Inr ()
       | _ \<Rightarrow> (case ip_network host of
                 None \<Rightarrow> Inl ''not an IPv4 or IPv6 network''
               | Some n \<Rightarrow> if net_len n = 0 then Inl ''every address is the Anywhere switch''
                           else if loopback_net n then Inl ''this computer is not another machine''
                           else Inr ())))"

definition hosts_value :: "json \<Rightarrow> string list result" where
  "hosts_value j =
     (case j of
        JList vs \<Rightarrow>
          (case those (map as_str vs) of
             None \<Rightarrow> Inl ''SSH machines must be a JSON list of strings''
           | Some hs \<Rightarrow>
               let hosts = dedup (map clean (filter (\<lambda>h. strip is_space h \<noteq> []) hs)) in
               if length hosts > 50 then Inl ''at most 50 SSH machines''
               else map_sum id (\<lambda>_. hosts) (map_result check_ssh_host hosts))
      | _ \<Rightarrow> Inl ''SSH machines must be a JSON list of strings'')"

definition ssh_reach :: "bool \<Rightarrow> string list \<Rightarrow> user_policy \<Rightarrow> user_policy" where
  "ssh_reach anywhere hosts u = u\<lparr>ssh_anywhere := anywhere, ssh_hosts := hosts\<rparr>"

definition impl_SetSsh :: "world \<Rightarrow> int \<Rightarrow> bool \<Rightarrow> string \<Rightarrow> json run" where
  "impl_SetSsh w i anywhere text =
     bind_run (loads_or w text ''[]'' ''SSH machines must be a JSON list of strings'') (\<lambda>j.
     bind_run (lift_run (hosts_value j)) (\<lambda>hosts.
     bind_run (need_account i) (\<lambda>_.
     commit w (on_account i (ssh_reach anywhere hosts) id))))"

section \<open>Opening a page for an account\<close>

definition impl_AllowUrl :: "world \<Rightarrow> int \<Rightarrow> string \<Rightarrow> bool \<Rightarrow> json run" where
  "impl_AllowUrl w i url whole_site =
     bind_run (need_account i) (\<lambda>_.
     bind_run (grant w i url (scope_of whole_site) ''allow'') (\<lambda>_. return_run JNull))"

definition need_filtered :: "int \<Rightarrow> unit run" where
  "need_filtered i = read_policy (\<lambda>p.
     if account_mode i p \<noteq> ''filtered'' then raise_run ''only a filtered account's pages are read''
     else return_run ())"

definition impl_BypassUrl :: "world \<Rightarrow> int \<Rightarrow> string \<Rightarrow> bool \<Rightarrow> json run" where
  "impl_BypassUrl w i url whole_site =
     bind_run (need_account i) (\<lambda>_.
     bind_run (need_filtered i) (\<lambda>_.
     bind_run (grant w i url (scope_of whole_site) ''bypass'') (\<lambda>_. return_run JNull)))"

definition impl_GrantUrl :: "world \<Rightarrow> int \<Rightarrow> string \<Rightarrow> string \<Rightarrow> string \<Rightarrow> json run" where
  "impl_GrantUrl w i url level scope =
     (if level \<notin> {''allow'', ''pictures'', ''bypass''} then raise_run ''unknown level''
      else if scope \<notin> set GRANT_SCOPES then raise_run ''unknown scope''
      else bind_run (need_account i) (\<lambda>_.
           bind_run (if level = ''allow'' then return_run () else need_filtered i) (\<lambda>_.
           bind_run (grant w i url scope level) (\<lambda>_. return_run JNull))))"

end
