(* ===== verification/DaemonHousehold.thy ===== *)
theory DaemonHousehold
  imports DaemonAccounts
begin

text \<open>
  The other calls of \<open>kosherd/src/kosherd/daemon.py\<close>: groups, administrators, apps, the accounts
  themselves, what holds for the whole computer, first-boot setup, and the caller's own session
  and desktop.
\<close>

section \<open>Groups\<close>

text \<open>An account as \<open>from_user\<close> reads it: the guest has the defaults where it has no field.\<close>

definition account_as_user :: "int \<Rightarrow> machine \<Rightarrow> user_policy" where
  "account_as_user i m =
     (case find_user i (pol m) of
        Some u \<Rightarrow> u
      | None \<Rightarrow> (guest_as_user (guest (pol m)) i)
          \<lparr>can_install_apps := True, admin := (guest_admin m = Some True)\<rparr>)"

definition without_group :: "string \<Rightarrow> doc list \<Rightarrow> doc list" where
  "without_group k cs = filter (\<lambda>c. map_of c ''key'' \<noteq> Some (JStr k)) cs"

text \<open>The other members take the group's settings; \<open>own\<close> is the account it was saved from.\<close>

fun apply_others :: "int option \<Rightarrow> profile_settings \<Rightarrow> user_policy list \<Rightarrow> user_policy list" where
  "apply_others own pr [] = []"
| "apply_others own pr (u # us) =
     (if own = Some (uid u) then u # apply_others None pr us
      else (if profile u = Some (key pr) then apply_user pr u else u) # apply_others own pr us)"

definition impl_SaveProfile :: "world \<Rightarrow> int \<Rightarrow> string \<Rightarrow> string \<Rightarrow> json run" where
  "impl_SaveProfile w i l descr =
     bind_run (need_account i) (\<lambda>_.
     if strip is_space l = [] then raise_run ''a group needs a name''
     else if length (strip is_space l) > 60 then raise_run ''keep the group name under 60 characters''
     else with_machine (\<lambda>m.
       let group = from_user (account_as_user i m) l descr;
           own = (if find_user i (pol m) = None then None else Some i);
           p = (pol m)\<lparr>custom_profiles := without_group (key group) (custom_profiles (pol m))
                                          @ [profile_to_dict group]\<rparr>;
           p = (if own = None then p else on_user i (profile_update (\<lambda>_. Some (key group))) p);
           followed = length (group_members (users p) (key group)) - (if own = None then 0 else 1) in
       bind_run (change_policy (\<lambda>_. p\<lparr>users := apply_others own group (users p)\<rparr>)) (\<lambda>_.
       bind_run (if followed > 0 then save_and_apply w else save_only w) (\<lambda>_.
       return_run (JStr (key group))))))"

definition leave_group :: "string \<Rightarrow> user_policy \<Rightarrow> user_policy" where
  "leave_group k u = (if profile u = Some k then u\<lparr>profile := None\<rparr> else u)"

definition impl_DeleteProfile :: "world \<Rightarrow> string \<Rightarrow> json run" where
  "impl_DeleteProfile w k =
     read_policy (\<lambda>p.
       if length (without_group k (custom_profiles p)) = length (custom_profiles p)
       then raise_run ''no group''
       else commit_only w (\<lambda>p. p\<lparr>custom_profiles := without_group k (custom_profiles p),
                                 users := map (leave_group k) (users p)\<rparr>))"

definition join_group :: "string \<Rightarrow> profile_settings \<Rightarrow> user_policy \<Rightarrow> user_policy" where
  "join_group k pr u = (apply_user pr u)\<lparr>profile := Some k\<rparr>"

definition in_some_group :: "int \<Rightarrow> policy \<Rightarrow> bool" where
  "in_some_group i p =
     (case find_user i p of Some u \<Rightarrow> profile u \<notin> {None, Some []} | None \<Rightarrow> False)"

definition impl_ApplyProfile :: "world \<Rightarrow> int \<Rightarrow> string \<Rightarrow> json run" where
  "impl_ApplyProfile w i k =
     bind_run (need_account i) (\<lambda>_.
     if k = [] then
       read_policy (\<lambda>p.
         if in_some_group i p then commit_only w (on_user i (profile_update (\<lambda>_. None)))
         else return_run JNull)
     else
       bind_run (read_policy (\<lambda>p. lift_run (get_profile k (custom_profiles p)))) (\<lambda>pr.
       commit w (on_account i (join_group k pr) (apply_guest pr))))"

section \<open>Administrators\<close>

definition other_admin :: "int \<Rightarrow> policy \<Rightarrow> bool" where
  "other_admin i p \<longleftrightarrow> (\<exists>u \<in> set (users p). admin u \<and> uid u \<noteq> i)"

definition join_admins :: "bool \<Rightarrow> string \<Rightarrow> string list \<Rightarrow> string list" where
  "join_admins on nm members =
     (if on then (if nm \<in> set members then members else members @ [nm])
      else filter (\<lambda>x. x \<noteq> nm) members)"

text \<open>
  The guest's object has no \<open>username\<close>, so the call fails for it, but not before it has read or set
  an attribute \<open>admin\<close>.
\<close>

definition impl_SetUserAdmin :: "world \<Rightarrow> int \<Rightarrow> bool \<Rightarrow> json run" where
  "impl_SetUserAdmin w i on =
     bind_run (need_account i) (\<lambda>_. with_machine (\<lambda>m.
       case find_user i (pol m) of
         Some u \<Rightarrow>
           if \<not> on \<and> admin u \<and> \<not> other_admin i (pol m) then raise_run ''this is the only administrator''
           else bind_run (change_policy (on_user i (admin_update (\<lambda>_. on)))) (\<lambda>_.
                bind_run (check_run (usermod_error w (username u))) (\<lambda>_.
                bind_run (update_run (\<lambda>m. m\<lparr>kosher_admins := join_admins on (username u) (kosher_admins m)\<rparr>)) (\<lambda>_.
                bind_run (save_and_apply w) (\<lambda>_. return_run JNull))))
       | None \<Rightarrow>
           if on then bind_run (update_run (guest_admin_update (\<lambda>_. Some True))) (\<lambda>_. raise_run no_field)
           else (case guest_admin m of
                   None \<Rightarrow> raise_run no_field
                 | Some a \<Rightarrow>
                     if a \<and> \<not> other_admin i (pol m) then raise_run ''this is the only administrator''
                     else bind_run (update_run (guest_admin_update (\<lambda>_. Some False))) (\<lambda>_. raise_run no_field))))"

section \<open>Apps\<close>

definition commit_user :: "world \<Rightarrow> int \<Rightarrow> (user_policy \<Rightarrow> user_policy) \<Rightarrow> json run" where
  "commit_user w i f = bind_run (need_user i) (\<lambda>_. commit w (on_user i f))"

definition impl_SetUserApps :: "world \<Rightarrow> int \<Rightarrow> string list \<Rightarrow> json run" where
  "impl_SetUserApps w i refs = commit_user w i (apps_update (\<lambda>_. sorted_set refs))"

definition impl_SetUserAppAccess :: "world \<Rightarrow> int \<Rightarrow> string \<Rightarrow> json run" where
  "impl_SetUserAppAccess w i k =
     (if k \<notin> set APP_ACCESS then raise_run ''unknown app access''
      else commit_user w i (app_access_update (\<lambda>_. Some k)))"

definition impl_SetUserBlockedAppKinds :: "world \<Rightarrow> int \<Rightarrow> string list \<Rightarrow> json run" where
  "impl_SetUserBlockedAppKinds w i kinds =
     (if \<not> list_all is_kind kinds then raise_run ''unknown kind of app''
      else commit_user w i (blocked_app_kinds_update (\<lambda>_. sorted_set kinds)))"

definition impl_SetUserBlockedApps :: "world \<Rightarrow> int \<Rightarrow> string list \<Rightarrow> json run" where
  "impl_SetUserBlockedApps w i refs =
     commit_user w i (blocked_apps_update (\<lambda>_.
       sorted_set (map (strip is_space) (filter (\<lambda>r. strip is_space r \<noteq> []) refs))))"

definition approve_app :: "string \<Rightarrow> bool \<Rightarrow> user_policy \<Rightarrow> user_policy" where
  "approve_app r on u =
     u\<lparr>approved_apps := sorted_set ((if on then [r] else []) @
         filter (\<lambda>x. on \<or> x \<noteq> r) (approved_apps u))\<rparr>"

definition impl_SetUserAppApproval :: "world \<Rightarrow> int \<Rightarrow> string \<Rightarrow> bool \<Rightarrow> json run" where
  "impl_SetUserAppApproval w i r on =
     (if r \<notin> set INDIVIDUAL_APPROVAL then raise_run ''approved for the whole computer, not per account''
      else bind_run (need_user i) (\<lambda>_. read_policy (\<lambda>p.
           if on \<and> r \<in> set (switched_off_apps p) then raise_run ''switched off on this computer''
           else commit w (on_user i (approve_app r on)))))"

definition impl_SetSyncthingLan :: "world \<Rightarrow> int \<Rightarrow> bool \<Rightarrow> json run" where
  "impl_SetSyncthingLan w i on = commit_user w i (syncthing_lan_update (\<lambda>_. on))"

definition impl_SetUserCanInstall :: "world \<Rightarrow> int \<Rightarrow> bool \<Rightarrow> json run" where
  "impl_SetUserCanInstall w i on = commit_user w i (can_install_apps_update (\<lambda>_. on))"

section \<open>The desktop\<close>

definition LAYOUT_SESSIONS :: "(string, string) dict" where
  "LAYOUT_SESSIONS = [(''classic'', ''gnome''), (''tiling'', ''gnome''), (''advanced'', ''niri'')]"

definition COMPOSITOR_SESSIONS :: "(string, string) dict" where
  "COMPOSITOR_SESSIONS = [(''niri'', ''niri''), (''hyprland'', ''hyprland''), (''umbriel'', ''umbriel'')]"

definition session_for :: "int \<Rightarrow> string \<Rightarrow> policy \<Rightarrow> string" where
  "session_for i l p =
     (case (if l = ''advanced'' then find_user i p else None) of
        Some u \<Rightarrow> dict_get COMPOSITOR_SESSIONS (compositor u) (dict_get LAYOUT_SESSIONS l [])
      | None \<Rightarrow> dict_get LAYOUT_SESSIONS l [])"

definition set_session :: "int \<Rightarrow> string \<Rightarrow> unit run" where
  "set_session i l = update_run (\<lambda>m. m\<lparr>login_session := dict_set i (session_for i l (pol m)) (login_session m)\<rparr>)"

text \<open>\<open>try: f() except Exception: undo; raise\<close>.\<close>

definition undo_run :: "'a run \<Rightarrow> (machine \<Rightarrow> machine) \<Rightarrow> 'a run" where
  "undo_run f undo m = (case f m of (Inl e, m') \<Rightarrow> (Inl e, undo m') | (Inr a, m') \<Rightarrow> (Inr a, m'))"

definition need_fields :: "int \<Rightarrow> user_policy run" where
  "need_fields i =
     bind_run (need_account i) (\<lambda>_. read_policy (\<lambda>p.
       case find_user i p of Some u \<Rightarrow> return_run u | None \<Rightarrow> raise_run no_field))"

definition impl_SetLayout :: "world \<Rightarrow> int \<Rightarrow> string \<Rightarrow> json run" where
  "impl_SetLayout w i l =
     (if l \<notin> set LAYOUTS then raise_run ''unknown layout''
      else bind_run (need_fields i) (\<lambda>u.
           bind_run (change_policy (on_user i (layout_update (\<lambda>_. l)))) (\<lambda>_.
           bind_run (undo_run (save_only w)
                       (\<lambda>m. m\<lparr>pol := on_user i (layout_update (\<lambda>_. layout u)) (pol m)\<rparr>)) (\<lambda>_.
           bind_run (set_session i l) (\<lambda>_. return_run JNull)))))"

definition impl_SetMyCompositor :: "world \<Rightarrow> int \<Rightarrow> string \<Rightarrow> json run" where
  "impl_SetMyCompositor w i c =
     (if c \<notin> set COMPOSITORS then raise_run ''unknown compositor''
      else bind_run (need_fields i) (\<lambda>u.
           bind_run (change_policy (on_user i (compositor_update (\<lambda>_. c)))) (\<lambda>_.
           bind_run (undo_run (save_only w)
                       (\<lambda>m. m\<lparr>pol := on_user i (compositor_update (\<lambda>_. compositor u)) (pol m)\<rparr>)) (\<lambda>_.
           bind_run (if layout u = ''advanced'' then set_session i (layout u) else return_run ()) (\<lambda>_.
           return_run JNull)))))"

definition impl_GetMyLayout :: "int \<Rightarrow> json run" where
  "impl_GetMyLayout i = read_policy (\<lambda>p. return_run (JStr
     (case find_user i p of Some u \<Rightarrow> layout u | None \<Rightarrow> DEFAULT_LAYOUT)))"

definition impl_GetMyCompositor :: "int \<Rightarrow> json run" where
  "impl_GetMyCompositor i = read_policy (\<lambda>p. return_run (JStr
     (case find_user i p of Some u \<Rightarrow> compositor u | None \<Rightarrow> DEFAULT_COMPOSITOR)))"

definition impl_SetCoverStyle :: "world \<Rightarrow> int \<Rightarrow> string \<Rightarrow> json run" where
  "impl_SetCoverStyle w i s =
     (if s \<notin> set COVER_STYLES then raise_run ''unknown cover style''
      else bind_run (need_account i) (\<lambda>_.
           commit w (on_account i (cover_style_update (\<lambda>_. s)) (cover_style_update (\<lambda>_. s)))))"

section \<open>The accounts themselves\<close>

definition profile_keys :: "doc list \<Rightarrow> string set result" where
  "profile_keys custom = map_sum id (\<lambda>ps. set (map key ps)) (all_profiles custom)"

definition known_mode :: "string \<Rightarrow> doc list \<Rightarrow> unit result" where
  "known_mode m custom =
     (if m \<in> set MODES then Inr ()
      else bind_result (profile_keys custom) (\<lambda>ks.
           if m \<in> ks then Inr () else Inl ''unknown mode or group''))"

definition new_user :: "int \<Rightarrow> string \<Rightarrow> string \<Rightarrow> doc list \<Rightarrow> bool \<Rightarrow> user_policy result" where
  "new_user i nm m custom for_admin =
     bind_result (profile_keys custom) (\<lambda>ks.
       let u = default_user i nm m in
       if m \<in> ks then map_sum id (\<lambda>pr. (apply_user pr u)\<lparr>profile := Some m\<rparr>) (get_profile m custom)
       else if for_admin \<and> m = ''filtered'' then Inr (apply_user ADMIN_DEFAULTS u)
       else map_sum id (\<lambda>pr. apply_user pr u) (for_mode m))"

definition username_start :: "char \<Rightarrow> bool" where
  "username_start c \<longleftrightarrow> (let n = of_char c :: nat in
     65 \<le> n \<and> n \<le> 90 \<or> 97 \<le> n \<and> n \<le> 122) \<or> c = CHR ''_''"

text \<open>\<open>USERNAME_PATTERN\<close>.\<close>

definition username_ok :: "string \<Rightarrow> bool" where
  "username_ok s \<longleftrightarrow> s \<noteq> [] \<and> username_start (hd s)
     \<and> list_all (\<lambda>c. username_start c \<or> is_digits [c] \<or> c \<in> {CHR ''.'', CHR ''-''}) (tl s)"

definition login_shell :: string where "login_shell = ''/bin/bash''"

definition add_account :: "string \<Rightarrow> int \<Rightarrow> machine \<Rightarrow> machine" where
  "add_account nm i m = m\<lparr>passwd := dict_set nm (i, login_shell) (passwd m)\<rparr>"

definition drop_uid :: "int \<Rightarrow> machine \<Rightarrow> machine" where
  "drop_uid i m = m\<lparr>passwd := filter (\<lambda>(_, j, _). j \<noteq> i) (passwd m)\<rparr>"

definition accounts_create_user :: "world \<Rightarrow> string \<Rightarrow> int run" where
  "accounts_create_user w nm =
     bind_run (lift_run (create_account w nm)) (\<lambda>i.
     bind_run (update_run (add_account nm i)) (\<lambda>_. return_run i))"

definition accounts_delete_user :: "world \<Rightarrow> int \<Rightarrow> unit run" where
  "accounts_delete_user w i =
     bind_run (check_run (delete_error w i)) (\<lambda>_. update_run (drop_uid i))"

definition append_user :: "user_policy \<Rightarrow> policy \<Rightarrow> policy" where
  "append_user u p = p\<lparr>users := users p @ [u]\<rparr>"

definition add_new_user :: "world \<Rightarrow> int \<Rightarrow> string \<Rightarrow> string \<Rightarrow> unit run" where
  "add_new_user w i nm m =
     bind_run (read_policy (\<lambda>p. lift_run (new_user i nm m (custom_profiles p) False))) (\<lambda>u.
     bind_run (change_policy (append_user u)) (\<lambda>_. save_and_apply w))"

definition impl_CreateUser :: "world \<Rightarrow> string \<Rightarrow> string \<Rightarrow> json run" where
  "impl_CreateUser w nm m =
     bind_run (read_policy (\<lambda>p. lift_run (known_mode m (custom_profiles p)))) (\<lambda>_.
     if \<not> username_ok nm then raise_run ''not a valid username''
     else with_machine (\<lambda>s.
       case map_of (passwd s) nm of
         Some (i, _) \<Rightarrow>
           raise_run (if find_user i (pol s) \<noteq> None then ''already exists and is already managed''
                      else ''already exists'')
       | None \<Rightarrow>
           bind_run (accounts_create_user w nm) (\<lambda>i.
           bind_run (undo_run (add_new_user w i nm m)
                       (\<lambda>s. snd (accounts_delete_user w i s))) (\<lambda>_.
           return_run (JInt i)))))"

definition impl_AdoptUser :: "world \<Rightarrow> string \<Rightarrow> string \<Rightarrow> json run" where
  "impl_AdoptUser w nm m =
     bind_run (read_policy (\<lambda>p. lift_run (known_mode m (custom_profiles p)))) (\<lambda>_. with_machine (\<lambda>s.
       case map_of (passwd s) nm of
         None \<Rightarrow> raise_run ''no such user''
       | Some (i, _) \<Rightarrow>
           if i < 1000 then raise_run ''cannot manage system accounts''
           else if find_user i (pol s) \<noteq> None then raise_run ''already managed''
           else bind_run (add_new_user w i nm m) (\<lambda>_. return_run (JInt i))))"

definition remove_user :: "user_policy \<Rightarrow> policy \<Rightarrow> policy" where
  "remove_user u p = p\<lparr>users := remove1 u (users p)\<rparr>"

definition impl_RemoveUser :: "world \<Rightarrow> int \<Rightarrow> json run" where
  "impl_RemoveUser w i =
     bind_run (need_user i) (\<lambda>u. read_policy (\<lambda>p.
       if admin u \<and> \<not> other_admin i p then raise_run ''this is the only administrator''
       else bind_run (check_run (forget_error w (username u))) (\<lambda>_.
            bind_run (accounts_delete_user w i) (\<lambda>_. commit w (remove_user u)))))"

definition impl_ResetPassword :: "world \<Rightarrow> int \<Rightarrow> json run" where
  "impl_ResetPassword w i =
     bind_run (need_user i) (\<lambda>u.
       if admin u then raise_run ''an administrator changes their own password''
       else bind_run (check_run (reset_error w i)) (\<lambda>_. return_run JNull))"

section \<open>The guest\<close>

definition guest_profile :: "string \<Rightarrow> doc list \<Rightarrow> profile_settings result" where
  "guest_profile m custom =
     bind_result (profile_keys custom) (\<lambda>ks.
       if m \<in> ks then get_profile m custom
       else if m \<in> set MODES then for_mode m
       else Inl ''unknown mode or group'')"

definition guest_account :: "world \<Rightarrow> int run" where
  "guest_account w = with_machine (\<lambda>s.
     case map_of (passwd s) GUEST_USERNAME of
       Some (i, _) \<Rightarrow> return_run i
     | None \<Rightarrow>
         bind_run (lift_run (create_guest w)) (\<lambda>i.
         bind_run (update_run (add_account GUEST_USERNAME i)) (\<lambda>_. return_run i)))"

definition on_guest :: "(guest_policy \<Rightarrow> guest_policy) \<Rightarrow> policy \<Rightarrow> policy" where
  "on_guest f p = p\<lparr>guest := f (guest p)\<rparr>"

definition impl_SetGuestConfig :: "world \<Rightarrow> bool \<Rightarrow> string \<Rightarrow> string list \<Rightarrow> json run" where
  "impl_SetGuestConfig w on m ws =
     bind_run (read_policy (\<lambda>p. lift_run (guest_profile m (custom_profiles p)))) (\<lambda>pr.
     bind_run (change_policy (on_guest (apply_guest pr))) (\<lambda>_.
     bind_run (if on then bind_run (guest_account w) (\<lambda>i. change_policy (on_guest (guest_uid_update (\<lambda>_. Some i))))
               else return_run ()) (\<lambda>_.
     commit w (on_guest (\<lambda>g. g\<lparr>enabled := on, mode := p_mode pr, whitelist := sorted_set ws\<rparr>)))))"

section \<open>The whole computer\<close>

definition impl_SetAdBlock :: "world \<Rightarrow> bool \<Rightarrow> json run" where
  "impl_SetAdBlock w on = commit w (adblock_update (\<lambda>_. on))"

definition impl_SetAdBlockAllowed :: "world \<Rightarrow> string list \<Rightarrow> json run" where
  "impl_SetAdBlockAllowed w hosts =
     bind_run (lift_run (map_result normalize hosts)) (\<lambda>extra.
     commit w (adblock_allowed_update (\<lambda>_. sorted_set (filter (\<lambda>h. \<not> is_builtin h) extra))))"

definition impl_SetBuildSources :: "world \<Rightarrow> string list \<Rightarrow> json run" where
  "impl_SetBuildSources w hosts =
     bind_run (lift_run (map_result source_normalize hosts)) (\<lambda>extra.
     commit w (build_sources_extra_update (\<lambda>_. sorted_set (filter (\<lambda>h. h \<notin> set DEFAULT_BUILD_SOURCES) extra))))"

definition impl_SetSyncthingEnabled :: "world \<Rightarrow> bool \<Rightarrow> json run" where
  "impl_SetSyncthingEnabled w on = commit w (syncthing_update (\<lambda>_. Some on))"

definition set_service :: "string \<Rightarrow> bool \<Rightarrow> unit run" where
  "set_service nm on = update_run (\<lambda>m. m\<lparr>services := dict_set nm on (services m)\<rparr>)"

text \<open>\<open>set_running(before)\<close> after a failed save: a failure of its own is only logged.\<close>

definition put_back :: "string option \<Rightarrow> string \<Rightarrow> bool \<Rightarrow> machine \<Rightarrow> machine" where
  "put_back err nm on m = (if err = None then snd (set_service nm on m) else m)"

definition impl_SetTailscaleEnabled :: "world \<Rightarrow> bool \<Rightarrow> json run" where
  "impl_SetTailscaleEnabled w on =
     read_policy (\<lambda>p.
       let before = (tailscale p = Some True) in
       if on \<and> \<not> tailscale_installed w then raise_run ''Tailscale is not installed''
       else bind_run (check_run (tailscale_error w on)) (\<lambda>_.
            bind_run (set_service ''tailscaled'' on) (\<lambda>_.
            bind_run (change_policy (tailscale_update (\<lambda>_. Some on))) (\<lambda>_.
            bind_run (undo_run (save_policy w) (put_back (tailscale_error w before) ''tailscaled'' before)) (\<lambda>_.
            bind_run announce (\<lambda>_. return_run JNull))))))"

definition impl_SetKeydEnabled :: "world \<Rightarrow> bool \<Rightarrow> json run" where
  "impl_SetKeydEnabled w on =
     read_policy (\<lambda>p.
       let before = (keyd p = Some True) in
       bind_run (check_run (keyd_error w on)) (\<lambda>_.
       bind_run (set_service ''keyd'' on) (\<lambda>_.
       bind_run (change_policy (keyd_update (\<lambda>_. Some on))) (\<lambda>_.
       bind_run (undo_run (save_policy w)
                   (\<lambda>m. put_back (keyd_error w before) ''keyd'' before
                          (m\<lparr>pol := (pol m)\<lparr>keyd := Some before\<rparr>\<rparr>))) (\<lambda>_.
       bind_run announce (\<lambda>_. return_run JNull))))))"

definition SCHEDULE_DAYS :: "(string, int) dict" where
  "SCHEDULE_DAYS = [(''daily'', 1), (''weekly'', 7), (''biweekly'', 14), (''monthly'', 30)]"

definition timer_on :: "string \<Rightarrow> bool" where
  "timer_on schedule \<longleftrightarrow> schedule \<in> set (keys SCHEDULE_DAYS)"

definition apply_auto_timer :: "world \<Rightarrow> string \<Rightarrow> unit run" where
  "apply_auto_timer w schedule =
     bind_run (check_run (timer_error w schedule)) (\<lambda>_. set_service ''auto-update'' (timer_on schedule))"

definition schedule_name :: "string \<Rightarrow> string" where
  "schedule_name s = (let s = clean s in if s = ''every-2-weeks'' then ''biweekly'' else s)"

definition impl_SetAutoUpdates :: "world \<Rightarrow> string \<Rightarrow> bool \<Rightarrow> json run" where
  "impl_SetAutoUpdates w schedule notify =
     (let s = schedule_name schedule in
      if s \<notin> set AUTO_UPDATE_SCHEDULES then raise_run ''unknown schedule''
      else read_policy (\<lambda>p.
           bind_run (apply_auto_timer w s) (\<lambda>_.
           bind_run (change_policy (\<lambda>p. p\<lparr>auto_updates := s, update_notify := notify\<rparr>)) (\<lambda>_.
           bind_run (undo_run (save_policy w) (\<lambda>m. snd (apply_auto_timer w (auto_updates p) m))) (\<lambda>_.
           bind_run announce (\<lambda>_. return_run JNull))))))"

definition impl_SetBootMenuPassword :: "world \<Rightarrow> string \<Rightarrow> json run" where
  "impl_SetBootMenuPassword w password =
     (if length password < 6 then raise_run ''the boot menu password needs at least 6 characters''
      else bind_run (check_run (grub_error w)) (\<lambda>_.
           bind_run (update_run (boot_password_update (\<lambda>_. True))) (\<lambda>_. return_run JNull)))"

section \<open>Requests\<close>

text \<open>\<open>document["uid"]\<close> is an integer, or a bool, which Python counts as one.\<close>

definition uid_of_request :: "doc \<Rightarrow> int" where
  "uid_of_request d = (case map_of d ''uid'' of
     Some (JInt i) \<Rightarrow> i | Some (JBool b) \<Rightarrow> of_bool b | _ \<Rightarrow> 0)"

definition take_request :: "string \<Rightarrow> doc option run" where
  "take_request rid m =
     (case resolve rid (requests m) of (d, s) \<Rightarrow> (Inr d, m\<lparr>requests := s\<rparr>))"

definition impl_ApproveRequest :: "world \<Rightarrow> string \<Rightarrow> bool \<Rightarrow> json run" where
  "impl_ApproveRequest w rid whole_site =
     bind_run (take_request rid) (\<lambda>d.
       case d of
         None \<Rightarrow> raise_run ''that request is no longer waiting''
       | Some doc \<Rightarrow> read_policy (\<lambda>p.
           case find_user (uid_of_request doc) p of
             None \<Rightarrow> raise_run ''that account is no longer managed''
           | Some u \<Rightarrow>
               bind_run (grant w (uid u) (the (as_str (dict_get doc ''url'' (JStr [])))) (scope_of whole_site) ''allow'')
                 (\<lambda>_. return_run JNull)))"

definition impl_DismissRequest :: "string \<Rightarrow> json run" where
  "impl_DismissRequest rid = bind_run (take_request rid) (\<lambda>_. return_run JNull)"

definition shown_request :: "policy \<Rightarrow> doc \<Rightarrow> doc" where
  "shown_request p d =
     (let u = find_user (uid_of_request d) p in
      dict_set ''mode'' (JStr (case u of Some u \<Rightarrow> mode u | None \<Rightarrow> ''?''))
        (dict_set ''username'' (JStr (case u of Some u \<Rightarrow> username u | None \<Rightarrow> ''?'')) d))"

definition impl_ListRequests :: "json run" where
  "impl_ListRequests m =
     (case pending (requests m) of (r, s) \<Rightarrow>
        (map_sum id (\<lambda>ds. JList (map (JObj \<circ> shown_request (pol m)) ds)) r, m\<lparr>requests := s\<rparr>))"

section \<open>Sessions and the guardian\<close>

fun guardian_message :: "guardian_error \<Rightarrow> string" where
  "guardian_message NotSet = ''no guardian password is set''"
| "guardian_message TooShort = ''guardian password must be at least 6 characters''"
| "guardian_message CurrentIncorrect = ''current guardian password is incorrect''"
| "guardian_message HashingFailed = ''password hashing failed''"
| "guardian_message (LockedOut s) = ''too many attempts''"

definition on_guard :: "(guardian \<Rightarrow> (guardian_error + 'a) \<times> guardian) \<Rightarrow> 'a run" where
  "on_guard f m = (case f (guard m) of (r, g) \<Rightarrow> (map_sum guardian_message id r, m\<lparr>guard := g\<rparr>))"

text \<open>\<open>if not self.guardian.verify(pw): raise\<close>, then the proof for the caller.\<close>

definition prove_guardian :: "world \<Rightarrow> time \<Rightarrow> rat \<Rightarrow> int \<Rightarrow> string \<Rightarrow> unit run" where
  "prove_guardian w mt now caller pw =
     bind_run (on_guard (verify (check_hash w) pw now)) (\<lambda>ok.
       if \<not> ok then raise_run ''guardian password incorrect''
       else update_run (\<lambda>m. m\<lparr>store := grant_guardian caller mt (store m)\<rparr>))"

definition impl_VerifyGuardian :: "world \<Rightarrow> time \<Rightarrow> rat \<Rightarrow> int \<Rightarrow> string \<Rightarrow> json run" where
  "impl_VerifyGuardian w mt now caller pw =
     read_policy (\<lambda>p.
       if \<not> guardian_enabled p then return_run JNull
       else bind_run (prove_guardian w mt now caller pw) (\<lambda>_. return_run JNull))"

definition impl_Unlock :: "time \<Rightarrow> int \<Rightarrow> json run" where
  "impl_Unlock mt caller =
     bind_run (update_run (\<lambda>m. m\<lparr>store := unlock caller mt (store m)\<rparr>)) (\<lambda>_. return_run JNull)"

definition impl_Lock :: "int \<Rightarrow> json run" where
  "impl_Lock caller =
     bind_run (update_run (\<lambda>m. m\<lparr>store := lock caller (store m)\<rparr>)) (\<lambda>_. return_run JNull)"

definition impl_Status :: "time \<Rightarrow> int \<Rightarrow> json run" where
  "impl_Status mt caller m =
     (case is_unlocked caller mt (store m) of (unlocked, s) \<Rightarrow>
      case (if guardian_enabled (pol m) then has_guardian caller mt s else (True, s)) of (satisfied, s') \<Rightarrow>
        (Inr (JList [JBool unlocked, JInt \<lfloor>seconds_remaining caller mt s\<rfloor>, JBool satisfied]),
         m\<lparr>store := s'\<rparr>))"

definition set_guardian :: "world \<Rightarrow> rat \<Rightarrow> string \<Rightarrow> string option \<Rightarrow> unit run" where
  "set_guardian w now new old = on_guard (set_password (check_hash w) (hash_password w) new old now)"

definition impl_SetGuardianPassword :: "world \<Rightarrow> rat \<Rightarrow> string \<Rightarrow> string \<Rightarrow> json run" where
  "impl_SetGuardianPassword w now old new =
     bind_run (set_guardian w now new (if old = [] then None else Some old)) (\<lambda>_. read_policy (\<lambda>p.
       if guardian_enabled p then return_run JNull
       else commit w (guardian_enabled_update (\<lambda>_. True))))"

definition impl_DisableGuardian :: "world \<Rightarrow> json run" where
  "impl_DisableGuardian w = commit w (guardian_enabled_update (\<lambda>_. False))"

section \<open>First-boot setup\<close>

definition nologin :: "string set" where
  "nologin = {''/sbin/nologin'', ''/usr/sbin/nologin'', ''/bin/false''}"

definition human_accounts :: "machine \<Rightarrow> string list" where
  "human_accounts m = sort (map fst (filter (\<lambda>(nm, i, shell).
     1000 \<le> i \<and> i < 60000 \<and> \<not> prefix ''kosher-'' nm \<and> shell \<notin> nologin) (passwd m)))"

definition first_admin_account :: "world \<Rightarrow> string \<Rightarrow> int run" where
  "first_admin_account w nm = with_machine (\<lambda>s.
     case map_of (passwd s) nm of
       None \<Rightarrow> accounts_create_user w nm
     | Some (i, _) \<Rightarrow>
         if nm \<in> set (human_accounts s) then return_run i else raise_run ''a system account'')"

definition impl_CreateFirstAdmin :: "world \<Rightarrow> string \<Rightarrow> string \<Rightarrow> json run" where
  "impl_CreateFirstAdmin w nm password =
     read_policy (\<lambda>p.
       if \<exists>u \<in> set (users p). admin u then raise_run ''an administrator account already exists''
       else if length password < 6 then raise_run ''password must be at least 6 characters''
       else bind_run (first_admin_account w nm) (\<lambda>i.
            bind_run (check_run (chpasswd_error w nm)) (\<lambda>_.
            bind_run (update_run (\<lambda>m. if usermod_error w nm = None
                        then m\<lparr>kosher_admins := join_admins True nm (kosher_admins m)\<rparr> else m)) (\<lambda>_.
            bind_run (lift_run (new_user i nm ''filtered'' [] True)) (\<lambda>u.
            bind_run (commit w (append_user (u\<lparr>admin := True\<rparr>))) (\<lambda>_.
            return_run (JInt i)))))))"

definition impl_FinishSetup :: "world \<Rightarrow> rat \<Rightarrow> string \<Rightarrow> string \<Rightarrow> json run" where
  "impl_FinishSetup w now guardian_pw grub_pw =
     read_policy (\<lambda>p.
       if \<not> (\<exists>u \<in> set (users p). admin u) then raise_run ''create the administrator account first''
       else bind_run
              (if guardian_pw = [] then return_run JNull
               else bind_run (set_guardian w now guardian_pw None) (\<lambda>_.
                    commit w (guardian_enabled_update (\<lambda>_. True)))) (\<lambda>_.
            bind_run
              (if grub_pw = [] then return_run ()
               else bind_run (check_run (grub_error w)) (\<lambda>_. update_run (boot_password_update (\<lambda>_. True)))) (\<lambda>_.
            bind_run (update_run (setup_stamp_update (\<lambda>_. True))) (\<lambda>_. return_run JNull))))"

definition impl_AdminExists :: "json run" where
  "impl_AdminExists = read_policy (\<lambda>p. return_run
     (case find admin (users p) of
        Some u \<Rightarrow> JList [JBool True, JStr (username u)]
      | None \<Rightarrow> JList [JBool False, JStr []]))"

section \<open>Reading\<close>

definition bundle_json :: "bundle_info \<Rightarrow> json" where
  "bundle_json b = JObj [(''key'', JStr (info_key b)), (''label'', JStr (info_label b)),
     (''description'', JStr (info_description b)), (''domains'', JInt (int (info_domains b)))]"

definition impl_ListWhitelistBundles :: "world \<Rightarrow> json run" where
  "impl_ListWhitelistBundles w =
     lift_run (map_sum id (\<lambda>bs. JList (map bundle_json bs)) (Whitelists.describe (py_repr w) (bundle_doc w)))"

definition impl_ListProfiles :: "json run" where
  "impl_ListProfiles m =
     (map_sum id (\<lambda>ds. JList (map JObj ds)) (FamilyGroups.describe (custom_profiles (pol m))), m)"

section \<open>Every call\<close>

fun perform_account :: "world \<Rightarrow> int \<Rightarrow> account_call \<Rightarrow> json run" where
  "perform_account w i (SetFilterMode m) = impl_SetFilterMode w i m"
| "perform_account w i (SetWhitelistBundles xs) = impl_SetWhitelistBundles w i xs"
| "perform_account w i (SetWhitelist xs) = impl_SetWhitelist w i xs"
| "perform_account w i (SetBlockedCategories xs) = impl_SetBlockedCategories w i xs"
| "perform_account w i (SetUrlRules s) = impl_SetUrlRules w i s"
| "perform_account w i (SetMediaLevel s) = impl_SetMediaLevel w i s"
| "perform_account w i (SetLanguageFilter s) = impl_SetLanguageFilter w i s"
| "perform_account w i (SetYouTube s) = impl_SetYouTube w i s"
| "perform_account w i (SetCalm s) = impl_SetCalm w i s"
| "perform_account w i (SetTimeLimits s) = impl_SetTimeLimits w i s"
| "perform_account w i (SetDeveloperTools b) = impl_SetDeveloperTools w i b"
| "perform_account w i (SetSshIn b) = impl_SetSshIn w i b"
| "perform_account w i (SetNetworkAccess b s) = impl_SetNetworkAccess w i b s"
| "perform_account w i (SetSsh b s) = impl_SetSsh w i b s"
| "perform_account w i (AllowUrl s b) = impl_AllowUrl w i s b"
| "perform_account w i (BypassUrl s b) = impl_BypassUrl w i s b"
| "perform_account w i (GrantUrl s l c) = impl_GrantUrl w i s l c"
| "perform_account w i (ApplyProfile k) = impl_ApplyProfile w i k"
| "perform_account w i (SaveProfile l d) = impl_SaveProfile w i l d"
| "perform_account w i (SetUserAdmin b) = impl_SetUserAdmin w i b"
| "perform_account w i (SetUserAppAccess s) = impl_SetUserAppAccess w i s"
| "perform_account w i (SetUserBlockedAppKinds xs) = impl_SetUserBlockedAppKinds w i xs"
| "perform_account w i (SetUserBlockedApps xs) = impl_SetUserBlockedApps w i xs"
| "perform_account w i (SetUserAppApproval s b) = impl_SetUserAppApproval w i s b"
| "perform_account w i (SetSyncthingLan b) = impl_SetSyncthingLan w i b"

fun perform_person :: "world \<Rightarrow> int \<Rightarrow> person_call \<Rightarrow> json run" where
  "perform_person w i (SetLayout s) = impl_SetLayout w i s"
| "perform_person w i (SetCoverStyle s) = impl_SetCoverStyle w i s"
| "perform_person w i (SetUserApps xs) = impl_SetUserApps w i xs"
| "perform_person w i (SetUserCanInstall b) = impl_SetUserCanInstall w i b"
| "perform_person w i RemoveUser = impl_RemoveUser w i"
| "perform_person w i ResetPassword = impl_ResetPassword w i"

fun perform_household :: "world \<Rightarrow> household_call \<Rightarrow> json run" where
  "perform_household w (SetAdBlock b) = impl_SetAdBlock w b"
| "perform_household w (SetAdBlockAllowed xs) = impl_SetAdBlockAllowed w xs"
| "perform_household w (SetBuildSources xs) = impl_SetBuildSources w xs"
| "perform_household w (SetGuestConfig b s xs) = impl_SetGuestConfig w b s xs"
| "perform_household w (DeleteProfile k) = impl_DeleteProfile w k"
| "perform_household w (ApproveRequest r b) = impl_ApproveRequest w r b"
| "perform_household w (SetSyncthingEnabled b) = impl_SetSyncthingEnabled w b"
| "perform_household w (SetTailscaleEnabled b) = impl_SetTailscaleEnabled w b"
| "perform_household w (SetKeydEnabled b) = impl_SetKeydEnabled w b"
| "perform_household w (SetBootMenuPassword s) = impl_SetBootMenuPassword w s"
| "perform_household w DisableGuardian = impl_DisableGuardian w"

fun perform_open :: "world \<Rightarrow> rat \<Rightarrow> open_call \<Rightarrow> json run" where
  "perform_open w now (CreateUser n f m) = impl_CreateUser w n m"
| "perform_open w now (AdoptUser n m) = impl_AdoptUser w n m"
| "perform_open w now (SetAutoUpdates s b) = impl_SetAutoUpdates w s b"
| "perform_open w now (DismissRequest r) = impl_DismissRequest r"
| "perform_open w now (SetGuardianPassword old new) = impl_SetGuardianPassword w now old new"

fun perform_own :: "world \<Rightarrow> time \<Rightarrow> rat \<Rightarrow> int \<Rightarrow> own_call \<Rightarrow> json run" where
  "perform_own w mt now caller Unlock = impl_Unlock mt caller"
| "perform_own w mt now caller Lock = impl_Lock caller"
| "perform_own w mt now caller Status = impl_Status mt caller"
| "perform_own w mt now caller (VerifyGuardian pw) = impl_VerifyGuardian w mt now caller pw"
| "perform_own w mt now caller GetMyLayout = impl_GetMyLayout caller"
| "perform_own w mt now caller (SetMyLayout l) = impl_SetLayout w caller l"
| "perform_own w mt now caller GetMyCompositor = impl_GetMyCompositor caller"
| "perform_own w mt now caller (SetMyCompositor c) = impl_SetMyCompositor w caller c"

fun perform_setup :: "world \<Rightarrow> rat \<Rightarrow> setup_call \<Rightarrow> json run" where
  "perform_setup w now IsComplete = (\<lambda>m. (Inr (JBool (setup_stamp m)), m))"
| "perform_setup w now AdminExists = impl_AdminExists"
| "perform_setup w now ExistingAccounts = (\<lambda>m. (Inr (jstrs (human_accounts m)), m))"
| "perform_setup w now (CreateFirstAdmin n f p) = impl_CreateFirstAdmin w n p"
| "perform_setup w now (FinishSetup g b) = impl_FinishSetup w now g b"

fun perform_read :: "world \<Rightarrow> read_call \<Rightarrow> json run" where
  "perform_read w GetPolicy = read_policy (\<lambda>p. return_run (JObj (to_dict p)))"
| "perform_read w ListWhitelistBundles = impl_ListWhitelistBundles w"
| "perform_read w ListRequests = impl_ListRequests"
| "perform_read w ListProfiles = impl_ListProfiles"
| "perform_read w IsEnabled = read_policy (\<lambda>p. return_run (JBool (guardian_enabled p)))"

fun perform :: "world \<Rightarrow> time \<Rightarrow> rat \<Rightarrow> int \<Rightarrow> call \<Rightarrow> json run" where
  "perform w mt now caller (Account i c pw) = perform_account w i c"
| "perform w mt now caller (Person i c) = perform_person w i c"
| "perform w mt now caller (Household c pw) = perform_household w c"
| "perform w mt now caller (Anyone c) = perform_open w now c"
| "perform w mt now caller (Own c) = perform_own w mt now caller c"
| "perform w mt now caller (Setup c) = perform_setup w now c"
| "perform w mt now caller (Reading c) = perform_read w c"

end
