(* ===== verification/DaemonDispatch.thy ===== *)
theory DaemonDispatch
  imports DaemonHousehold
begin

text \<open>
  \<open>_handle_call\<close> of \<open>kosherd/src/kosherd/daemon.py\<close>: who may make a call, the snapshot that a
  failure puts back, and the line in the activity log; with the rules by which its calls are
  reasoned about, and what is true of every call.
\<close>

section \<open>Dispatch\<close>

definition not_authorized :: string where "not_authorized = ''not authorized''"

text \<open>\<open>auth.require\<close>: root needs no polkit.\<close>

definition authorized :: "world \<Rightarrow> int \<Rightarrow> string option \<Rightarrow> bool" where
  "authorized w caller action = (case action of None \<Rightarrow> True | Some a \<Rightarrow> caller = 0 \<or> polkit w caller a)"

definition guardian_argument :: "call \<Rightarrow> string" where
  "guardian_argument c = (case as_str (last (args_of c)) of Some s \<Rightarrow> s | None \<Rightarrow> [])"

definition requirement :: "int \<Rightarrow> time \<Rightarrow> call \<Rightarrow> machine \<Rightarrow> Requirement \<times> machine" where
  "requirement caller mt c m =
     (case is_unlocked caller mt (store m) of (unlocked, s) \<Rightarrow>
      case has_guardian caller mt s of (proven, s') \<Rightarrow>
        (evaluate (method_of c) (setup_stamp m) unlocked (guardian_enabled (pol m)) proven,
         m\<lparr>store := s'\<rparr>))"

definition admit :: "world \<Rightarrow> time \<Rightarrow> rat \<Rightarrow> int \<Rightarrow> call \<Rightarrow> unit run" where
  "admit w mt now caller c m =
     (case requirement caller mt c m of (req, m') \<Rightarrow>
        if \<not> allowed req then (Inl (the (refusal req)), m')
        else if \<not> authorized w caller (polkit_action req) then (Inl not_authorized, m')
        else if needs_guardian req then prove_guardian w mt now caller (guardian_argument c) m'
        else (Inr (), m'))"

definition roll_back :: "machine \<Rightarrow> machine \<Rightarrow> machine" where
  "roll_back snap m =
     (if pol m = pol snap then m
      else m\<lparr>pol := pol snap, guest_dev := guest_dev snap, guest_admin := guest_admin snap\<rparr>)"

definition logged_args :: "call \<Rightarrow> json list" where
  "logged_args c =
     (if method_of c \<in> set NO_ARGS_LOGGED then []
      else if method_of c \<in> set GUARDIAN_GATED then butlast (args_of c) else args_of c)"

definition logged_target :: "call \<Rightarrow> int" where
  "logged_target c =
     (case logged_args c of
        JInt i # _ \<Rightarrow> if method_of c \<in> set PER_USER then i else - 1
      | _ \<Rightarrow> - 1)"

definition note_change :: "int \<Rightarrow> call \<Rightarrow> machine \<Rightarrow> machine" where
  "note_change caller c m =
     (if method_of c \<in> set CHANGES
      then m\<lparr>events := events m @ [Change (method_of c) (logged_args c) (logged_target c) caller
              (guardian_enabled (pol m) \<and> method_of c \<in> set GUARDIAN_GATED)]\<rparr>
      else m)"

definition handle_call :: "world \<Rightarrow> time \<Rightarrow> rat \<Rightarrow> int \<Rightarrow> call \<Rightarrow> json run" where
  "handle_call w mt now caller c m =
     (case admit w mt now caller c m of
        (Inl e, m') \<Rightarrow> (Inl e, m')
      | (Inr _, snap) \<Rightarrow>
          (case perform w mt now caller c snap of
             (Inl e, m') \<Rightarrow> (Inl e, roll_back snap m')
           | (Inr r, m') \<Rightarrow> (Inr r, note_change caller c m')))"

section \<open>Weakest preconditions\<close>

text \<open>\<open>Q\<close> holds of the result and the state after a normal end, \<open>R\<close> after an exception.\<close>

definition wp :: "'a run \<Rightarrow> ('a \<Rightarrow> machine \<Rightarrow> bool) \<Rightarrow> (string \<Rightarrow> machine \<Rightarrow> bool) \<Rightarrow> machine \<Rightarrow> bool" where
  "wp f Q R m = (case f m of (Inr a, m') \<Rightarrow> Q a m' | (Inl e, m') \<Rightarrow> R e m')"

named_theorems wp_simps \<open>how each step transforms what must hold after it\<close>

lemma wp_bind [wp_simps]: "wp (bind_run f g) Q R m = wp f (\<lambda>a. wp (g a) Q R) R m"
  by (simp add: wp_def bind_run_def split: prod.split sum.split)

lemma wp_return [wp_simps]: "wp (return_run a) Q R m = Q a m"
  by (simp add: wp_def return_run_def)

lemma wp_raise [wp_simps]: "wp (raise_run e) Q R m = R e m"
  by (simp add: wp_def raise_run_def)

lemma wp_lift [wp_simps]: "wp (lift_run r) Q R m = (case r of Inr a \<Rightarrow> Q a m | Inl e \<Rightarrow> R e m)"
  by (simp add: wp_def lift_run_def)

lemma wp_check [wp_simps]: "wp (check_run x) Q R m = (case x of None \<Rightarrow> Q () m | Some e \<Rightarrow> R e m)"
  by (simp add: check_run_def wp_return wp_raise split: option.split)

lemma wp_update [wp_simps]: "wp (update_run f) Q R m = Q () (f m)"
  by (simp add: wp_def update_run_def)

lemma wp_change [wp_simps]: "wp (change_policy f) Q R m = Q () (m\<lparr>pol := f (pol m)\<rparr>)"
  by (simp add: change_policy_def wp_update)

lemma wp_read [wp_simps]: "wp (read_policy f) Q R m = wp (f (pol m)) Q R m"
  by (simp add: wp_def read_policy_def)

lemma wp_if [wp_simps]: "wp (if b then f else g) Q R m = (if b then wp f Q R m else wp g Q R m)"
  by simp

lemma wp_state [wp_simps]: "wp (\<lambda>m. (f m, g m)) Q R m = (case f m of Inr a \<Rightarrow> Q a (g m) | Inl e \<Rightarrow> R e (g m))"
  by (simp add: wp_def)

lemma wp_undo [wp_simps]: "wp (undo_run f u) Q R m = wp f Q (\<lambda>e m'. R e (u m')) m"
  by (simp add: wp_def undo_run_def split: prod.split sum.split)

lemma wp_guard [wp_simps]:
  "wp (on_guard f) Q R m =
     (case f (guard m) of
        (Inr a, g) \<Rightarrow> Q a (m\<lparr>guard := g\<rparr>) | (Inl e, g) \<Rightarrow> R (guardian_message e) (m\<lparr>guard := g\<rparr>))"
  by (simp add: wp_def on_guard_def split: prod.split sum.split)

lemma wp_take [wp_simps]:
  "wp (take_request i) Q R m = (case resolve i (requests m) of (d, s) \<Rightarrow> Q d (m\<lparr>requests := s\<rparr>))"
  by (simp add: wp_def take_request_def split: prod.split)

text \<open>A policy counted up, as \<open>save\<close> leaves it.\<close>

definition bump :: "policy \<Rightarrow> policy" where
  "bump p = p\<lparr>revision := revision p + 1\<rparr>"

lemma wp_save [wp_simps]:
  "wp (save_policy w) Q R m =
     (case validate w (to_dict (bump (pol m))) of
        Some e \<Rightarrow> R e (m\<lparr>pol := bump (pol m)\<rparr>)
      | None \<Rightarrow>
          (case write_error w (to_dict (bump (pol m))) of
             Some e \<Rightarrow> R e (m\<lparr>pol := bump (pol m)\<rparr>)
           | None \<Rightarrow> Q () (m\<lparr>pol := bump (pol m), policy_file := Some (to_dict (bump (pol m)))\<rparr>)))"
  by (simp add: wp_def save_policy_def save_def bump_def Let_def split: option.split)

lemma wp_emit [wp_simps]: "wp (emit e) Q R m = Q () (m\<lparr>events := events m @ [e]\<rparr>)"
  by (simp add: emit_def wp_update)

lemma wp_announce [wp_simps]:
  "wp announce Q R m = Q () (m\<lparr>events := events m @ [PolicyChanged (revision (pol m))]\<rparr>)"
  by (simp add: announce_def wp_simps)

lemma wp_delete_user [wp_simps]:
  "wp (accounts_delete_user w i) Q R m =
     (case delete_error w i of Some e \<Rightarrow> R e m | None \<Rightarrow> Q () (drop_uid i m))"
  by (simp add: accounts_delete_user_def wp_simps split: option.split)

lemma wp_auto_timer [wp_simps]:
  "wp (apply_auto_timer w s) Q R m =
     (case timer_error w s of Some e \<Rightarrow> R e m
      | None \<Rightarrow> Q () (m\<lparr>services := dict_set ''auto-update'' (timer_on s) (services m)\<rparr>))"
  by (simp add: apply_auto_timer_def set_service_def wp_simps split: option.split)

lemma wp_with [wp_simps]: "wp (with_machine f) Q R m = wp (f m) Q R m"
  by (simp add: wp_def with_machine_def)

lemma wp_mono:
  "wp f Q R m \<Longrightarrow> (\<And>a m'. Q a m' \<Longrightarrow> Q' a m') \<Longrightarrow> (\<And>e m'. R e m' \<Longrightarrow> R' e m') \<Longrightarrow> wp f Q' R' m"
  by (auto simp: wp_def split: prod.splits sum.splits)

lemma wpD: "wp f Q R m \<Longrightarrow> f m = (Inr a, m') \<Longrightarrow> Q a m'" "wp f Q R m \<Longrightarrow> f m = (Inl e, m') \<Longrightarrow> R e m'"
  by (simp_all add: wp_def)


lemmas run_defs = need_account_def need_user_def need_fields_def need_filtered_def loads_or_def
  commit_user_def grant_def accounts_create_user_def add_new_user_def
  guest_account_def first_admin_account_def set_guardian_def prove_guardian_def set_session_def
  set_service_def

text \<open>
  Saving, in one step: the counted-up policy is in memory whether or not it could be saved; it is
  in the file when it was; and then it is applied and announced, or the application fails.
\<close>

definition in_memory :: "machine \<Rightarrow> machine" where
  "in_memory m = m\<lparr>pol := bump (pol m)\<rparr>"

definition on_disk :: "machine \<Rightarrow> machine" where
  "on_disk m = (in_memory m)\<lparr>policy_file := Some (to_dict (bump (pol m)))\<rparr>"

definition announced :: "event list \<Rightarrow> machine \<Rightarrow> machine" where
  "announced es m = m\<lparr>events := events m @ es @ [PolicyChanged (revision (pol m))]\<rparr>"

lemma wp_saveI:
  assumes "\<And>e. R e (in_memory m)" "Q () (on_disk m)"
  shows "wp (save_policy w) Q R m"
  using assms by (simp add: wp_save on_disk_def in_memory_def split: option.split)

lemma wp_save_onlyI:
  assumes "\<And>e. R e (in_memory m)" "Q () (announced [] (on_disk m))"
  shows "wp (save_only w) Q R m"
  using assms unfolding save_only_def wp_bind
  by (intro wp_saveI) (simp_all add: announce_def wp_read wp_emit announced_def)

lemma wp_save_and_applyI:
  assumes "\<And>e. R e (in_memory m)"
    and "\<And>e. apply_error w (bump (pol m)) = Some e \<Longrightarrow> R e (on_disk m)"
    and "Q () (announced [Applied (bump (pol m))] (on_disk m))"
  shows "wp (save_and_apply w) Q R m"
  using assms unfolding save_and_apply_def wp_bind
  by (intro wp_saveI) (simp_all add: announce_def apply_now_def wp_simps announced_def on_disk_def
      in_memory_def split: option.split)

lemma wp_commitI:
  assumes "\<And>e. R e (in_memory (m\<lparr>pol := f (pol m)\<rparr>))"
    and "\<And>e. apply_error w (bump (f (pol m))) = Some e \<Longrightarrow> R e (on_disk (m\<lparr>pol := f (pol m)\<rparr>))"
    and "Q JNull (announced [Applied (bump (f (pol m)))] (on_disk (m\<lparr>pol := f (pol m)\<rparr>)))"
  shows "wp (commit w f) Q R m"
  unfolding commit_def wp_bind wp_change using assms
  by (intro wp_save_and_applyI) (simp_all add: wp_return)

lemma wp_commit_onlyI:
  assumes "\<And>e. R e (in_memory (m\<lparr>pol := f (pol m)\<rparr>))"
    and "Q JNull (announced [] (on_disk (m\<lparr>pol := f (pol m)\<rparr>)))"
  shows "wp (commit_only w f) Q R m"
  unfolding commit_only_def wp_bind wp_change using assms
  by (intro wp_save_onlyI) (simp_all add: wp_return)

lemmas save_intros = wp_commitI wp_commit_onlyI wp_save_and_applyI wp_save_onlyI wp_saveI

lemma disk_simps [simp]:
  "pol (in_memory m) = bump (pol m)" "policy_file (in_memory m) = policy_file m"
  "pol (on_disk m) = bump (pol m)" "policy_file (on_disk m) = Some (to_dict (bump (pol m)))"
  "pol (announced es m) = pol m" "policy_file (announced es m) = policy_file m"
  by (simp_all add: in_memory_def on_disk_def announced_def)

lemmas account_defs = impl_SetFilterMode_def impl_SetWhitelistBundles_def impl_SetWhitelist_def
  impl_SetBlockedCategories_def impl_SetUrlRules_def impl_SetMediaLevel_def impl_SetLanguageFilter_def
  impl_SetYouTube_def impl_SetCalm_def impl_SetTimeLimits_def impl_SetDeveloperTools_def impl_SetSshIn_def
  impl_SetNetworkAccess_def impl_SetSsh_def impl_AllowUrl_def impl_BypassUrl_def impl_GrantUrl_def
  impl_ApplyProfile_def impl_SaveProfile_def impl_SetUserAdmin_def impl_SetUserAppAccess_def
  impl_SetUserBlockedAppKinds_def impl_SetUserBlockedApps_def impl_SetUserAppApproval_def
  impl_SetSyncthingLan_def

lemmas person_defs = impl_SetLayout_def impl_SetCoverStyle_def impl_SetUserApps_def
  impl_SetUserCanInstall_def impl_RemoveUser_def impl_ResetPassword_def

lemmas household_defs = impl_SetAdBlock_def impl_SetAdBlockAllowed_def impl_SetBuildSources_def
  impl_SetGuestConfig_def impl_DeleteProfile_def impl_ApproveRequest_def impl_SetSyncthingEnabled_def
  impl_SetTailscaleEnabled_def impl_SetKeydEnabled_def impl_SetBootMenuPassword_def impl_DisableGuardian_def

lemmas open_defs = impl_CreateUser_def impl_AdoptUser_def impl_SetAutoUpdates_def impl_DismissRequest_def
  impl_SetGuardianPassword_def

lemmas own_defs = impl_Unlock_def impl_Lock_def impl_VerifyGuardian_def impl_GetMyLayout_def
  impl_SetLayout_def impl_GetMyCompositor_def impl_SetMyCompositor_def

lemmas setup_defs = impl_CreateFirstAdmin_def impl_FinishSetup_def impl_AdminExists_def

lemmas read_defs = impl_ListWhitelistBundles_def impl_ListProfiles_def [abs_def]

lemma wp_status [wp_simps]:
  "wp (impl_Status mt caller) Q R m =
     (case is_unlocked caller mt (store m) of (unlocked, s) \<Rightarrow>
      case (if guardian_enabled (pol m) then has_guardian caller mt s else (True, s)) of (satisfied, s') \<Rightarrow>
        Q (JList [JBool unlocked, JInt \<lfloor>seconds_remaining caller mt s\<rfloor>, JBool satisfied]) (m\<lparr>store := s'\<rparr>))"
  by (simp add: wp_def impl_Status_def split: prod.split)

lemma wp_list_requests [wp_simps]:
  "wp impl_ListRequests Q R m =
     (case pending (requests m) of (r, s) \<Rightarrow>
        case r of
          Inr ds \<Rightarrow> Q (JList (map (JObj \<circ> shown_request (pol m)) ds)) (m\<lparr>requests := s\<rparr>)
        | Inl e \<Rightarrow> R e (m\<lparr>requests := s\<rparr>))"
  by (simp add: wp_def impl_ListRequests_def split: prod.split sum.split)

text \<open>What the steps that undo something leave alone.\<close>

lemma undo_simps [simp]:
  "pol (snd (accounts_delete_user w i m)) = pol m"
  "policy_file (snd (accounts_delete_user w i m)) = policy_file m"
  "pol (put_back x n b m) = pol m" "policy_file (put_back x n b m) = policy_file m"
  "pol (snd (apply_auto_timer w s m)) = pol m" "policy_file (snd (apply_auto_timer w s m)) = policy_file m"
  "pol (add_account n i m) = pol m" "policy_file (add_account n i m) = policy_file m"
  "pol (drop_uid i m) = pol m" "policy_file (drop_uid i m) = policy_file m"
  by (simp_all add: accounts_delete_user_def put_back_def apply_auto_timer_def set_service_def bind_run_def
      check_run_def return_run_def raise_run_def update_run_def add_account_def drop_uid_def split: option.splits)

section \<open>Memory and disk\<close>

text \<open>After a call that worked the file holds the policy in memory, or neither has changed.\<close>

definition saved_ok :: "machine \<Rightarrow> machine \<Rightarrow> bool" where
  "saved_ok m m' \<longleftrightarrow> policy_file m' = Some (to_dict (pol m')) \<or> (policy_file m' = policy_file m \<and> pol m' = pol m)"

text \<open>After one that failed the file is as it was, unless what failed came after the save.\<close>

definition torn :: "world \<Rightarrow> call \<Rightarrow> machine \<Rightarrow> string \<Rightarrow> machine \<Rightarrow> bool" where
  "torn w c m e m' \<longleftrightarrow> policy_file m' = policy_file m
     \<or> (\<exists>p. policy_file m' = Some (to_dict p)
          \<and> (apply_error w p = Some e \<or> (\<exists>g b. c = Setup (FinishSetup g b) \<and> grub_error w = Some e)))"

lemma saved_ok_same: "policy_file m' = policy_file m \<Longrightarrow> pol m' = pol m \<Longrightarrow> saved_ok m m'"
  by (simp add: saved_ok_def)

lemma torn_same: "policy_file m' = policy_file m \<Longrightarrow> torn w c m e m'"
  by (simp add: torn_def)

lemmas saves_defs = saved_ok_def torn_def Let_def

lemma account_saves: "wp (perform_account w i c) (\<lambda>_. saved_ok m) (torn w c' m) m"
  by (cases c) (auto simp: account_defs run_defs wp_simps saves_defs
    intro!: save_intros split: option.split sum.split)

lemma person_saves: "wp (perform_person w i c) (\<lambda>_. saved_ok m) (torn w c' m) m"
  by (cases c) (auto simp: person_defs run_defs wp_simps saves_defs
    intro!: save_intros split: option.split sum.split)

lemma household_saves: "wp (perform_household w c) (\<lambda>_. saved_ok m) (torn w c' m) m"
  by (cases c) (auto simp: household_defs run_defs wp_simps saves_defs
    intro!: save_intros split: option.split sum.split prod.split)

lemma open_saves: "wp (perform_open w now c) (\<lambda>_. saved_ok m) (torn w c' m) m"
  by (cases c) (auto simp: open_defs run_defs wp_simps saves_defs
    intro!: save_intros split: option.split sum.split prod.split)

lemma own_saves: "wp (perform_own w mt now caller c) (\<lambda>_. saved_ok m) (torn w c' m) m"
  by (cases c) (auto simp: own_defs run_defs wp_simps saves_defs
    intro!: save_intros split: option.split sum.split prod.split)

lemma setup_saves: "wp (perform_setup w now c) (\<lambda>_. saved_ok m) (torn w (Setup c) m) m"
  by (cases c) (auto simp: setup_defs run_defs wp_simps saves_defs
    intro!: save_intros split: option.split sum.split prod.split)

lemma read_saves: "wp (perform_read w c) (\<lambda>_. saved_ok m) (torn w c' m) m"
  by (cases c) (auto simp: read_defs wp_simps saves_defs split: option.split sum.split prod.split)

lemma perform_saves: "wp (perform w mt now caller c) (\<lambda>_. saved_ok m) (torn w c m) m"
  by (cases c) (simp_all add: account_saves person_saves household_saves open_saves own_saves setup_saves read_saves)

section \<open>A whole call\<close>

text \<open>Deciding on a call touches the session store and the guardian's count of guesses only.\<close>

lemma requirement_frame: "\<exists>s. snd (requirement caller mt c m) = m\<lparr>store := s\<rparr>"
  by (auto simp: requirement_def split: prod.split)

lemma prove_guardian_frame: "\<exists>s g. snd (prove_guardian w mt now caller pw m) = m\<lparr>store := s, guard := g\<rparr>"
proof -
  obtain r g where "verify (check_hash w) pw now (guard m) = (r, g)"
    by (cases "verify (check_hash w) pw now (guard m)")
  then have "snd (prove_guardian w mt now caller pw m) \<in>
      {m\<lparr>store := store m, guard := g\<rparr>, m\<lparr>store := grant_guardian caller mt (store m), guard := g\<rparr>}"
    by (cases r) (auto simp: prove_guardian_def on_guard_def bind_run_def raise_run_def update_run_def)
  then show ?thesis
    by blast
qed

lemma admit_frame:
  assumes "admit w mt now caller c m = (r, m')"
  shows "\<exists>s g. m' = m\<lparr>store := s, guard := g\<rparr>"
proof -
  obtain req s where req: "requirement caller mt c m = (req, m\<lparr>store := s\<rparr>)"
    using requirement_frame [of caller mt c m] by (metis prod.collapse)
  then have "m' = m\<lparr>store := s, guard := guard m\<rparr> \<or>
      m' = snd (prove_guardian w mt now caller (guardian_argument c) (m\<lparr>store := s\<rparr>))"
    using assms by (auto simp: admit_def split: if_splits)
  moreover obtain s' g' where "snd (prove_guardian w mt now caller (guardian_argument c) (m\<lparr>store := s\<rparr>)) =
      m\<lparr>store := s', guard := g'\<rparr>"
    using prove_guardian_frame [of w mt now caller "guardian_argument c" "m\<lparr>store := s\<rparr>"] by auto
  ultimately show ?thesis
    by blast
qed

lemma admit_same:
  assumes "admit w mt now caller c m = (r, m')"
  shows "pol m' = pol m" "policy_file m' = policy_file m" "passwd m' = passwd m"
    "setup_stamp m' = setup_stamp m" "requests m' = requests m"
  using admit_frame [OF assms] by auto

lemma wp_handle:
  assumes "\<And>e m'. admit w mt now caller c m = (Inl e, m') \<Longrightarrow> R e m'"
    and "\<And>snap. admit w mt now caller c m = (Inr (), snap) \<Longrightarrow>
          wp (perform w mt now caller c)
            (\<lambda>r m'. Q r (note_change caller c m')) (\<lambda>e m'. R e (roll_back snap m')) snap"
  shows "wp (handle_call w mt now caller c) Q R m"
  using assms by (auto simp: wp_def handle_call_def split: prod.split sum.split)

lemma note_change_simps [simp]:
  "pol (note_change caller c m) = pol m" "policy_file (note_change caller c m) = policy_file m"
  by (simp_all add: note_change_def)

lemma roll_back_simps [simp]:
  "pol (roll_back snap m) = pol snap" "policy_file (roll_back snap m) = policy_file m"
  by (simp_all add: roll_back_def)

text \<open>
  Property C5: after a call that worked, the policy file holds exactly the policy in memory, or
  neither has changed; after one that failed, for whatever reason, the policy in memory is the
  one from before the call and the file is as it was, except when what failed came after the
  save: applying the new policy, or the boot menu password at the end of first-boot setup.
\<close>

theorem call_saved_or_undone:
  "case handle_call w mt now caller c m of
     (Inr r, m') \<Rightarrow> saved_ok m m'
   | (Inl e, m') \<Rightarrow> pol m' = pol m \<and> torn w c m e m'"
proof -
  have "wp (handle_call w mt now caller c) (\<lambda>_. saved_ok m) (\<lambda>e m'. pol m' = pol m \<and> torn w c m e m') m"
  proof (rule wp_handle)
    fix snap assume a: "admit w mt now caller c m = (Inr (), snap)"
    then have same: "pol snap = pol m" "policy_file snap = policy_file m"
      by (simp_all add: admit_same)
    show "wp (perform w mt now caller c) (\<lambda>r m'. saved_ok m (note_change caller c m'))
        (\<lambda>e m'. pol (roll_back snap m') = pol m \<and> torn w c m e (roll_back snap m')) snap"
      by (rule wp_mono [OF perform_saves]) (simp_all add: saved_ok_def torn_def same)
  qed (simp add: admit_same torn_same)
  then show ?thesis
    by (simp add: wp_def split: prod.split sum.split)
qed

text \<open>A policy that is saved but cannot be applied is undone in memory and stays in the file.\<close>

lemma failed_apply_keeps_file:
  assumes "admit w mt now caller c m = (Inr (), m)" and "c = Household (SetAdBlock on) pw"
    and "p = bump (adblock_update (\<lambda>_. on) (pol m))"
    and "validate w (to_dict p) = None" "write_error w (to_dict p) = None" "apply_error w p = Some e"
  shows "handle_call w mt now caller c m = (Inl e, m\<lparr>policy_file := Some (to_dict p)\<rparr>)"
proof -
  have "perform w mt now caller c m = (Inl e, m\<lparr>pol := p, policy_file := Some (to_dict p)\<rparr>)"
    using assms(2-) by (simp add: impl_SetAdBlock_def commit_def change_policy_def save_and_apply_def
        save_policy_def save_def Let_def apply_now_def bind_run_def update_run_def read_policy_def check_run_def
        raise_run_def bump_def)
  moreover have "revision p = revision (pol m) + 1"
    by (simp add: assms(3) bump_def)
  then have "p \<noteq> pol m"
    by auto
  ultimately show ?thesis
    using assms(1) by (simp add: handle_call_def roll_back_def)
qed

end
