(* ===== verification/DaemonSafety.thy ===== *)
theory DaemonSafety
  imports DaemonDispatch "HOL-Library.Sublist"
begin

text \<open>
  What the guardian's password protects, over every call of the daemon.
\<close>

section \<open>The gate\<close>

lemma account_gated: "account_method c \<in> set GUARDIAN_GATED"
  by (cases c) (simp_all add: GUARDIAN_GATED_def)

lemma household_gated: "household_method c \<in> set GUARDIAN_GATED"
  by (cases c) (simp_all add: GUARDIAN_GATED_def)

lemma setup_closed:
  "setup_method c \<in> set SETUP_METHODS" "setup_method c \<in> set SETUP_READS \<longleftrightarrow> c = IsComplete \<or> c = AdminExists"
  by (cases c; simp add: SETUP_METHODS_def SETUP_READS_def)+

text \<open>Neither a running session nor the password of the call vouches for the guardian.\<close>

definition unproven :: "world \<Rightarrow> time \<Rightarrow> rat \<Rightarrow> int \<Rightarrow> call \<Rightarrow> machine \<Rightarrow> bool" where
  "unproven w mt now caller c m \<longleftrightarrow>
     \<not> fst (has_guardian caller mt (snd (is_unlocked caller mt (store m))))
     \<and> fst (verify (check_hash w) (guardian_argument c) now (guard m)) \<noteq> Inr True"

lemma requirement_eq:
  "requirement caller mt c m =
     (evaluate (method_of c) (setup_stamp m) (fst (is_unlocked caller mt (store m))) (guardian_enabled (pol m))
        (fst (has_guardian caller mt (snd (is_unlocked caller mt (store m))))),
      m\<lparr>store := snd (has_guardian caller mt (snd (is_unlocked caller mt (store m))))\<rparr>)"
  by (simp add: requirement_def split: prod.split)

lemma prove_refused:
  assumes "fst (verify (check_hash w) pw now (guard m)) \<noteq> Inr True"
  shows "\<exists>e. fst (prove_guardian w mt now caller pw m) = Inl e"
  using assms
  by (cases "verify (check_hash w) pw now (guard m)"; cases "fst (verify (check_hash w) pw now (guard m))")
     (auto simp: prove_guardian_def on_guard_def bind_run_def raise_run_def)

lemma gated_refused:
  assumes "method_of c \<in> set GUARDIAN_GATED" "guardian_enabled (pol m)" "unproven w mt now caller c m"
  shows "\<exists>e. fst (admit w mt now caller c m) = Inl e"
proof -
  let ?s = "snd (has_guardian caller mt (snd (is_unlocked caller mt (store m))))"
  have k: "method_of c \<in> set (keys ACTIONS)" "method_of c \<notin> set SETUP_METHODS"
    using assms(1) gated_are_methods gated_not_setup by auto
  have "\<exists>e. fst (prove_guardian w mt now caller (guardian_argument c) (m\<lparr>store := ?s\<rparr>)) = Inl e"
    using assms(3) by (intro prove_refused) (simp add: unproven_def)
  then show ?thesis
    using assms k unfolding admit_def requirement_eq
    by (simp add: evaluate_guardian_iff evaluate_allowed_iff unproven_def)
qed

lemma setup_refused:
  assumes "setup_stamp m" "c \<noteq> IsComplete" "c \<noteq> AdminExists"
  shows "\<exists>e. fst (admit w mt now caller (Setup c) m) = Inl e"
  using assms unfolding admit_def requirement_eq
  by (simp add: evaluate_allowed_iff setup_closed)

section \<open>What is protected\<close>

text \<open>
  Everything of an account but its desktop, its covers' style and the apps handed to it; everything
  of the household but how it updates.
\<close>

definition protected_user :: "user_policy \<Rightarrow> user_policy" where
  "protected_user u = u\<lparr>cover_style := [], layout := [], compositor := [], apps := [], can_install_apps := False\<rparr>"

definition protected_settings :: "policy \<Rightarrow> policy" where
  "protected_settings p = p\<lparr>revision := 0, users := [], auto_updates := [], update_notify := False,
     guest := (guest p)\<lparr>cover_style := []\<rparr>\<rparr>"

fun creates_account :: "call \<Rightarrow> bool" where
  "creates_account (Anyone (CreateUser _ _ _)) = True"
| "creates_account (Anyone (AdoptUser _ _)) = True"
| "creates_account _ = False"

text \<open>The accounts there were, in their order, perhaps less one; and at most one new one.\<close>

definition shielded :: "call \<Rightarrow> policy \<Rightarrow> policy \<Rightarrow> bool" where
  "shielded c p p' \<longleftrightarrow> protected_settings p' = protected_settings p \<and>
     (\<exists>kept new. users p' = kept @ new
        \<and> subseq (map protected_user kept) (map protected_user (users p))
        \<and> (new \<noteq> [] \<longrightarrow> creates_account c \<and> length new = 1))"

lemma shieldedI:
  "protected_settings p' = protected_settings p \<Longrightarrow>
   subseq (map protected_user (users p')) (map protected_user (users p)) \<Longrightarrow> shielded c p p'"
  unfolding shielded_def by (intro conjI exI [of _ "users p'"] exI [of _ "[]"]) simp_all

lemma shielded_append:
  "creates_account c \<Longrightarrow> shielded c p (bump (append_user u p))"
  unfolding shielded_def
  by (intro conjI exI [of _ "users p"] exI [of _ "[u]"]) (simp_all add: bump_def append_user_def protected_settings_def)

lemma bump_simps [simp]:
  "users (bump p) = users p" "guest (bump p) = guest p" "guardian_enabled (bump p) = guardian_enabled p"
  "custom_profiles (bump p) = custom_profiles p" "protected_settings (bump p) = protected_settings p"
  "find_user i (bump p) = find_user i p"
  by (simp_all add: bump_def protected_settings_def find_user_def)

lemma map_update_first: "(\<And>x. g (f x) = g x) \<Longrightarrow> map g (update_first P f xs) = map g xs"
  by (induction xs) simp_all

lemma users_on_user: "users (on_user i f p) = update_first (\<lambda>u. uid u = i) f (users p)"
  by (simp add: on_user_def)

lemma settings_on_user [simp]: "protected_settings (on_user i f p) = protected_settings p"
  by (simp add: on_user_def protected_settings_def)

lemma protected_on_user:
  assumes "\<And>u. protected_user (f u) = protected_user u"
  shows "map protected_user (users (on_user i f p)) = map protected_user (users p)"
  by (simp add: users_on_user map_update_first assms)

lemma subseq_remove1: "subseq (remove1 x xs) xs"
  by (induction xs) auto

lemma subseq_map_remove1: "subseq (map f (remove1 x xs)) (map f xs)"
  by (intro subseq_map subseq_remove1)

lemma shielded_on_user:
  "(\<And>u. protected_user (f u) = protected_user u) \<Longrightarrow> shielded c p (bump (on_user i f p))"
  by (intro shieldedI) (simp_all add: protected_on_user)

lemma shielded_cover:
  "shielded c p (bump (on_account i (cover_style_update f) (cover_style_update g) p))"
  by (auto simp: on_account_def protected_user_def protected_settings_def bump_def
      intro!: shielded_on_user [unfolded bump_def] shieldedI)

lemma shielded_bump: "shielded c p (bump p)"
  by (intro shieldedI) simp_all

lemma shielded_same: "shielded c p p"
  by (intro shieldedI) simp_all

lemma shielded_remove: "shielded c p (bump (remove_user u p))"
  by (intro shieldedI) (simp_all add: remove_user_def protected_settings_def bump_def subseq_map_remove1)

lemma shielded_updates:
  "shielded c p (bump (p\<lparr>auto_updates := s, update_notify := b\<rparr>))"
  by (intro shieldedI) (simp_all add: protected_settings_def bump_def)

lemmas shielded_intros = shielded_on_user shielded_cover shielded_bump shielded_same shielded_remove
  shielded_updates

lemma person_shielded:
  "wp (perform_person w i c) (\<lambda>_ m'. shielded c' (pol m) (pol m')) (\<lambda>_ _. True) m"
  by (cases c) (auto simp: person_defs run_defs wp_simps protected_user_def
    intro!: save_intros shielded_intros split: option.split)

lemma own_shielded:
  "wp (perform_own w mt now caller c) (\<lambda>_ m'. shielded c' (pol m) (pol m')) (\<lambda>_ _. True) m"
  by (cases c) (auto simp: own_defs run_defs wp_simps protected_user_def
    intro!: save_intros shielded_intros split: option.split prod.split sum.split)

lemma open_shielded:
  "guardian_enabled (pol m) \<Longrightarrow>
   wp (perform_open w now c) (\<lambda>_ m'. shielded (Anyone c) (pol m) (pol m')) (\<lambda>_ _. True) m"
  by (cases c) (auto simp: open_defs run_defs wp_simps Let_def add_account_def
    intro!: save_intros shielded_intros shielded_append split: option.split prod.split sum.split)

lemma read_same:
  "wp (perform_read w c) (\<lambda>_ m'. pol m' = pol m) (\<lambda>_ _. True) m"
  by (cases c) (auto simp: read_defs wp_simps split: option.split sum.split prod.split)

lemma setup_read_same:
  "c = IsComplete \<or> c = AdminExists \<Longrightarrow> wp (perform_setup w now c) (\<lambda>_ m'. pol m' = pol m) (\<lambda>_ _. True) m"
  by (auto simp: setup_defs wp_simps split: option.split)

text \<open>
  Property C1: while the guardian's password is set, whoever calls whatever without it changes no
  setting of an account that was there, of the guest or of the household beyond the desktop, the
  style of covers, the apps handed out and how updates come; the guardian stays on; and the accounts
  stay in their order, less a removed one.  What such a call can do is add one account.
\<close>

theorem guardian_protects:
  assumes "setup_stamp m" "guardian_enabled (pol m)" "unproven w mt now caller c m"
  shows "shielded c (pol m) (pol (snd (handle_call w mt now caller c m)))"
proof -
  have "wp (handle_call w mt now caller c) (\<lambda>_ m'. shielded c (pol m) (pol m'))
      (\<lambda>_ m'. shielded c (pol m) (pol m')) m"
  proof (rule wp_handle)
    fix e m' assume "admit w mt now caller c m = (Inl e, m')"
    then show "shielded c (pol m) (pol m')" by (simp add: admit_same shielded_same)
  next
    fix snap assume a: "admit w mt now caller c m = (Inr (), snap)"
    then have p: "pol snap = pol m" by (simp add: admit_same)
    have g: "guardian_enabled (pol snap)" using assms(2) p by simp
    have "wp (perform w mt now caller c) (\<lambda>_ m'. shielded c (pol snap) (pol m')) (\<lambda>_ _. True) snap"
    proof (cases c)
      case (Account i x pw)
      then show ?thesis using gated_refused [OF _ assms(2,3)] account_gated a by simp
    next
      case (Household x pw)
      then show ?thesis using gated_refused [OF _ assms(2,3)] household_gated a by simp
    next
      case (Setup x)
      then have "x = IsComplete \<or> x = AdminExists"
        using setup_refused [OF assms(1), of x w mt now caller] a by auto
      then show ?thesis
        using Setup by (auto intro!: wp_mono [OF setup_read_same] simp: shielded_same)
    next
      case (Reading x)
      then show ?thesis by (auto intro!: wp_mono [OF read_same] simp: shielded_same)
    qed (use g in \<open>simp_all add: person_shielded own_shielded open_shielded\<close>)
    then show "wp (perform w mt now caller c) (\<lambda>r m'. shielded c (pol m) (pol (note_change caller c m')))
        (\<lambda>e m'. shielded c (pol m) (pol (roll_back snap m'))) snap"
      by (rule wp_mono) (simp_all add: p shielded_same)
  qed
  then show ?thesis
    by (simp add: wp_def split: prod.splits sum.splits)
qed

section \<open>A computer to try it on\<close>

text \<open>Everything outside works; no text is JSON, and the new accounts get the uid 1001.\<close>

definition calm_world :: world where
  "calm_world =
     \<lparr>loads = (\<lambda>_. None), validate = (\<lambda>_. None), write_error = (\<lambda>_. None), apply_error = (\<lambda>_. None),
      bundle_doc = [], py_repr = (\<lambda>_. []), check_hash = (\<lambda>a b. a = b), hash_password = Some,
      polkit = (\<lambda>_ _. True), create_account = (\<lambda>_. Inr 1001), delete_error = (\<lambda>_. None),
      create_guest = Inr 999, usermod_error = (\<lambda>_. None), chpasswd_error = (\<lambda>_. None), grub_error = None,
      forget_error = (\<lambda>_. None), reset_error = (\<lambda>_. None), timer_error = (\<lambda>_. None),
      tailscale_installed = True, tailscale_error = (\<lambda>_. None), keyd_error = (\<lambda>_. None)\<rparr>"

definition home :: policy where
  "home = default_policy\<lparr>guardian_enabled := True,
     users := [(default_user 1000 ''dad'' ''filtered'')\<lparr>admin := True\<rparr>]\<rparr>"

definition started :: "policy \<Rightarrow> machine" where
  "started p =
     \<lparr>pol = p, policy_file = None, guest_dev = None, guest_admin = None, store = new_store,
      guard = \<lparr>shadow = Some ''secret'', state_file = None\<rparr>, requests = None,
      passwd = [(''dad'', (1000, login_shell))], kosher_admins = [''dad''], setup_stamp = True,
      boot_password = False, login_session = [], services = [], events = []\<rparr>"

lemmas computer_defs = calm_world_def home_def started_def default_policy_def

lemma guessing: "unproven calm_world 0 0 1000 (Account 1000 (SetFilterMode ''unfiltered'') ''guess'') (started home)"
  by (simp add: unproven_def computer_defs new_store_def is_unlocked_def has_guardian_def guardian_argument_def
      verify_def read_state_def cleared_def Let_def write_state_def)

theorem guardian_protects_witness:
  "shielded (Account 1000 (SetFilterMode ''unfiltered'') ''guess'') home
     (pol (snd (handle_call calm_world 0 0 1000
        (Account 1000 (SetFilterMode ''unfiltered'') ''guess'') (started home))))"
  using guardian_protects [OF _ _ guessing] by (simp add: computer_defs)

text \<open>
  That account may be one the filter does not touch: an administrator who does not know the
  guardian's password makes it, or takes a system account, in the mode \<open>unfiltered\<close>.
\<close>

lemma open_account_needs_no_guardian:
  "case handle_call calm_world 0 0 1000 (Anyone (CreateUser ''me'' ''Me'' ''unfiltered'')) (started home) of
     (r, m') \<Rightarrow> r = Inr (JInt 1001) \<and> map (\<lambda>u. (uid u, mode u)) (users (pol m')) = [(1000, ''filtered''), (1001, ''unfiltered'')]"
  by code_simp

end
