(* ===== verification/DaemonInvariants.thy ===== *)
theory DaemonInvariants
  imports DaemonSafety
begin

text \<open>
  What stays true of the policy while the daemon serves calls: the settings hold only values the
  daemon knows, and an administrator remains.  Both are instances of one locale, whose law is that
  each call keeps the property in the policy it leaves when it works.
\<close>

section \<open>Calls in a row\<close>

text \<open>
  The states reached from \<open>m\<close>; before each call the outside is as \<open>fits\<close> asks of it and of the
  policy.
\<close>

inductive served :: "(world \<Rightarrow> policy \<Rightarrow> bool) \<Rightarrow> machine \<Rightarrow> machine \<Rightarrow> bool"
  for fits :: "world \<Rightarrow> policy \<Rightarrow> bool" and m :: machine where
  start: "served fits m m"
| step: "served fits m m' \<Longrightarrow> fits w (pol m') \<Longrightarrow> handle_call w mt now caller c m' = (r, m'') \<Longrightarrow>
    served fits m m''"

locale kept =
  fixes Inv :: "policy \<Rightarrow> bool" and fits :: "world \<Rightarrow> policy \<Rightarrow> bool"
  assumes performed: "Inv (pol m) \<Longrightarrow> fits w (pol m) \<Longrightarrow>
    wp (perform w mt now caller c) (\<lambda>_ m'. Inv (pol m')) (\<lambda>_ _. True) m"
begin

lemma handled:
  assumes "Inv (pol m)" "fits w (pol m)" "handle_call w mt now caller c m = (r, m')"
  shows "Inv (pol m')"
proof -
  have "wp (handle_call w mt now caller c) (\<lambda>_ m'. Inv (pol m')) (\<lambda>_ m'. Inv (pol m')) m"
  proof (rule wp_handle)
    fix snap assume "admit w mt now caller c m = (Inr (), snap)"
    then have p: "pol snap = pol m" by (simp add: admit_same)
    show "wp (perform w mt now caller c) (\<lambda>r m'. Inv (pol (note_change caller c m')))
        (\<lambda>e m'. Inv (pol (roll_back snap m'))) snap"
      by (rule wp_mono [OF performed]) (use assms p in simp_all)
  qed (simp add: admit_same assms(1))
  then show ?thesis
    using assms(3) by (simp add: wp_def split: sum.splits)
qed

lemma always: "served fits m m' \<Longrightarrow> Inv (pol m) \<Longrightarrow> Inv (pol m')"
  by (induction rule: served.induct) (auto dest: handled)

end

section \<open>Administrators\<close>

definition admin_remains :: "policy \<Rightarrow> bool" where
  "admin_remains p \<longleftrightarrow> (\<exists>u \<in> set (users p). admin u) \<and> distinct (map uid (users p))"

text \<open>accountsservice hands out the uid of no account the policy has.\<close>

definition new_uids :: "world \<Rightarrow> policy \<Rightarrow> bool" where
  "new_uids w p \<longleftrightarrow> (\<forall>nm i. create_account w nm = Inr i \<longrightarrow> find_user i p = None)"

lemma map_sum_InrD: "map_sum id f r = Inr y \<Longrightarrow> \<exists>x. r = Inr x \<and> y = f x"
  by (cases r) simp_all

lemma find_user_None: "find_user i p = None \<longleftrightarrow> i \<notin> uid ` set (users p)"
  by (auto simp: find_user_def find_None_iff)

lemma find_user_SomeD: "find_user i p = Some u \<Longrightarrow> u \<in> set (users p) \<and> uid u = i"
  by (auto simp: find_user_def dest: find_SomeD)

lemma admin_bump [simp]: "admin_remains (bump p) = admin_remains p"
  by (simp add: admin_remains_def)

text \<open>The uids and the ranks are all that matters, and hardly a call touches them.\<close>

definition ranks :: "user_policy list \<Rightarrow> (int \<times> bool) list" where
  "ranks us = map (\<lambda>u. (uid u, admin u)) us"

definition led :: "(int \<times> bool) list \<Rightarrow> bool" where
  "led rs \<longleftrightarrow> True \<in> snd ` set rs \<and> distinct (map fst rs)"

lemma admin_remains_iff: "admin_remains p \<longleftrightarrow> led (ranks (users p))"
  by (force simp: admin_remains_def led_def ranks_def comp_def)

lemma ranks_update_first [simp]:
  "(\<And>u. uid (f u) = uid u \<and> admin (f u) = admin u) \<Longrightarrow> ranks (update_first P f us) = ranks us"
  by (simp add: ranks_def map_update_first)

lemma ranks_on_user [simp]:
  "(\<And>u. uid (f u) = uid u \<and> admin (f u) = admin u) \<Longrightarrow> ranks (users (on_user i f p)) = ranks (users p)"
  by (simp add: users_on_user)

lemma ranks_on_account [simp]:
  "(\<And>u. uid (f u) = uid u \<and> admin (f u) = admin u) \<Longrightarrow> ranks (users (on_account i f g p)) = ranks (users p)"
  by (simp add: on_account_def)

lemma ranks_apply_others [simp]: "ranks (apply_others own pr us) = ranks us"
  by (induction us arbitrary: own) (simp_all add: ranks_def apply_user_def apply_app_values_def apply_values_def)

lemma ranks_leave [simp]: "ranks (map (leave_group k) us) = ranks us"
  by (simp add: ranks_def leave_group_def)

lemma ranks_append: "find_user (uid u) p = None \<Longrightarrow> led (ranks (users p)) \<Longrightarrow> led (ranks (users (append_user u p)))"
  by (auto simp: led_def ranks_def append_user_def find_user_None comp_def)

lemma distinct_update_first: "distinct (map uid us) \<Longrightarrow> x \<in> set us \<Longrightarrow> uid x \<noteq> i \<Longrightarrow>
    x \<in> set (update_first (\<lambda>u. uid u = i) f us)"
  by (induction us) auto

lemma other_admin_exists:
  assumes "\<not> admin u \<or> other_admin (uid u) p" "u \<in> set (users p)" "admin_remains p"
  shows "\<exists>x \<in> set (users p). admin x \<and> uid x \<noteq> uid u"
proof (cases "other_admin (uid u) p")
  case False
  obtain x where x: "x \<in> set (users p)" "admin x" using assms(3) by (auto simp: admin_remains_def)
  then have "x \<noteq> u" using assms(1) False by auto
  then have "uid x \<noteq> uid u" using assms(2,3) x by (auto simp: admin_remains_def distinct_map inj_on_def)
  then show ?thesis using x by blast
qed (auto simp: other_admin_def)

lemma admin_set_rank:
  assumes "on \<or> \<not> admin u \<or> other_admin i p" "find_user i p = Some u" "admin_remains p"
  shows "admin_remains (on_user i (admin_update (\<lambda>_. on)) p)"
proof -
  let ?us = "update_first (\<lambda>u. uid u = i) (admin_update (\<lambda>_. on)) (users p)"
  have d: "map uid ?us = map uid (users p)" by (simp add: map_update_first)
  have u: "u \<in> set (users p)" "uid u = i" using find_user_SomeD [OF assms(2)] by auto
  have hit: "\<exists>u \<in> set us. uid u = i \<Longrightarrow> \<exists>u \<in> set (update_first (\<lambda>u. uid u = i) (admin_update (\<lambda>_. True)) us). admin u" for us
    by (induction us) auto
  have "\<exists>u \<in> set ?us. admin u"
  proof (cases on)
    case True
    then show ?thesis using hit [of "users p"] u by auto
  next
    case False
    then obtain x where "x \<in> set (users p)" "admin x" "uid x \<noteq> i"
      using other_admin_exists [of u p] assms(1,3) u by auto
    then show ?thesis using distinct_update_first assms(3) unfolding admin_remains_def by blast
  qed
  then show ?thesis using assms(3) d by (simp add: admin_remains_def on_user_def)
qed

lemma distinct_remove1_map: "distinct (map f xs) \<Longrightarrow> distinct (map f (remove1 x xs))"
  by (induction xs) (auto dest: set_remove1_subset [THEN subsetD])

lemma admin_remove:
  assumes "\<not> admin u \<or> other_admin i p" "find_user i p = Some u" "admin_remains p"
  shows "admin_remains (remove_user u p)"
proof -
  have u: "\<not> admin u \<or> other_admin (uid u) p" "u \<in> set (users p)"
    using assms(1) find_user_SomeD [OF assms(2)] by auto
  have "\<exists>x \<in> set (users p). admin x \<and> x \<noteq> u"
    using other_admin_exists [OF u assms(3)] by auto
  then have "\<exists>x \<in> set (remove1 u (users p)). admin x" by (auto intro: in_set_remove1 [THEN iffD2])
  moreover have "distinct (map uid (remove1 u (users p)))"
    using assms(3) by (simp add: admin_remains_def distinct_remove1_map)
  ultimately show ?thesis by (simp add: admin_remains_def remove_user_def)
qed

lemma ranks_apply [simp]:
  "uid (apply_user pr u) = uid u" "admin (apply_user pr u) = admin u"
  "uid (enter_mode md u) = uid u" "admin (enter_mode md u) = admin u"
  "uid (join_group k pr u) = uid u" "admin (join_group k pr u) = admin u"
  "uid (leave_group k u) = uid u" "admin (leave_group k u) = admin u"
  "uid (developer on u) = uid u" "admin (developer on u) = admin u"
  "uid (reach v ps u) = uid u" "admin (reach v ps u) = admin u"
  "uid (ssh_reach v hs u) = uid u" "admin (ssh_reach v hs u) = admin u"
  "uid (approve_app r on u) = uid u" "admin (approve_app r on u) = admin u"
  by (simp_all add: apply_user_def apply_app_values_def apply_values_def enter_mode_def join_group_def
      leave_group_def developer_def reach_def ssh_reach_def approve_app_def Let_def)

lemma new_user_uid:
  assumes "new_user i nm md custom fa = Inr u"
  shows "uid u = i"
proof -
  have "uid (default_user i nm md) = i" by (simp add: default_user_def)
  then show ?thesis
    using assms by (auto simp: new_user_def bind_result_Inr_iff Let_def split: if_splits dest!: map_sum_InrD)
qed

lemma account_admins:
  "admin_remains (pol m) \<Longrightarrow> wp (perform_account w i c) (\<lambda>_ m'. admin_remains (pol m')) (\<lambda>_ _. True) m"
  by (cases c) (auto simp: account_defs run_defs wp_simps Let_def admin_remains_iff
    intro!: save_intros split: option.split sum.split
    intro: admin_set_rank [unfolded admin_remains_iff])

lemma person_admins:
  "admin_remains (pol m) \<Longrightarrow> wp (perform_person w i c) (\<lambda>_ m'. admin_remains (pol m')) (\<lambda>_ _. True) m"
  by (cases c) (auto simp: person_defs run_defs wp_simps Let_def admin_remains_iff
    intro!: save_intros split: option.split
    intro: admin_remove [unfolded admin_remains_iff])

lemma household_admins:
  "admin_remains (pol m) \<Longrightarrow> wp (perform_household w c) (\<lambda>_ m'. admin_remains (pol m')) (\<lambda>_ _. True) m"
  by (cases c) (auto simp: household_defs run_defs wp_simps Let_def admin_remains_iff on_guest_def add_account_def
    intro!: save_intros split: option.split sum.split prod.split)

lemma open_admins:
  "admin_remains (pol m) \<Longrightarrow> new_uids w (pol m) \<Longrightarrow>
   wp (perform_open w now c) (\<lambda>_ m'. admin_remains (pol m')) (\<lambda>_ _. True) m"
  by (cases c) (auto simp: open_defs run_defs wp_simps Let_def admin_remains_iff add_account_def new_uids_def
    intro!: save_intros ranks_append split: option.split sum.split prod.split dest!: new_user_uid)

lemma own_admins:
  "admin_remains (pol m) \<Longrightarrow> wp (perform_own w mt now caller c) (\<lambda>_ m'. admin_remains (pol m')) (\<lambda>_ _. True) m"
  by (cases c) (auto simp: own_defs run_defs wp_simps Let_def admin_remains_iff
    intro!: save_intros split: option.split sum.split prod.split)

lemma setup_admins:
  "admin_remains (pol m) \<Longrightarrow> wp (perform_setup w now c) (\<lambda>_ m'. admin_remains (pol m')) (\<lambda>_ _. True) m"
  by (cases c) (auto simp: setup_defs run_defs wp_simps Let_def admin_remains_def
    intro!: save_intros split: option.split sum.split prod.split)

interpretation ranks: kept admin_remains new_uids
proof
  fix m :: machine and w mt now caller c
  assume "admin_remains (pol m)" "new_uids w (pol m)"
  then show "wp (perform w mt now caller c) (\<lambda>_ m'. admin_remains (pol m')) (\<lambda>_ _. True) m"
    by (cases c) (auto simp: account_admins person_admins household_admins open_admins own_admins setup_admins
        intro: wp_mono [OF read_same])
qed

text \<open>
  Property C3: through any sequence of calls by anyone, answered or refused, whatever fails in
  between, an administrator remains and no two accounts share a uid.
\<close>

theorem administrator_remains:
  assumes "served new_uids m m'" "admin_remains (pol m)"
  shows "admin_remains (pol m')"
  using ranks.always [OF assms] .

lemma home_led: "admin_remains home" "new_uids calm_world home"
  by (simp_all add: admin_remains_def new_uids_def computer_defs default_user_def find_user_def)

lemma one_call:
  "fits w p \<Longrightarrow> served fits (started p) (snd (handle_call w mt now caller c (started p)))"
  by (rule served.step [OF served.start, where r = "fst (handle_call w mt now caller c (started p))"])
     (simp_all add: started_def)

theorem administrator_remains_witness:
  "admin_remains (pol (snd (handle_call calm_world 0 0 1000 (Person 1000 RemoveUser) (started home))))"
  using administrator_remains [OF one_call [where fits = new_uids]] home_led by (simp add: started_def)

section \<open>Settings\<close>

text \<open>What each of the settings that are documents may say.\<close>

definition youtube_ok :: "doc \<Rightarrow> bool" where
  "youtube_ok d \<longleftrightarrow>
     dict_get d ''restrict'' (JStr ''moderate'') \<in> {JStr ''none'', JStr ''moderate'', JStr ''strict''}
     \<and> (\<exists>cats. set_items (dict_get d ''blocked_categories'' (JList [])) = Inr cats
              \<and> set cats \<subseteq> JStr ` set (keys YOUTUBE_CATEGORIES))"

definition calm_ok :: "doc \<Rightarrow> bool" where
  "calm_ok d \<longleftrightarrow> set (keys d) \<subseteq> {''enabled'', ''feed_items'', ''sites''}
     \<and> set (keys (sites_of d)) \<subseteq> set SITE_ORDER \<and> 5 \<le> feed_items d \<and> feed_items d \<le> 500
     \<and> (\<forall>s. 0 \<le> site_minutes d s \<and> site_minutes d s \<le> 24 * 60)"

definition time_ok :: "doc \<Rightarrow> bool" where
  "time_ok d \<longleftrightarrow> set (keys d) \<subseteq> {''daily_minutes'', ''allowed''}
     \<and> 0 \<le> daily_minutes d \<and> daily_minutes d \<le> 24 * 60 \<and> grid_ok (grid d)"

definition rule_ok :: "doc \<Rightarrow> bool" where
  "rule_ok r \<longleftrightarrow> (\<exists>a p. map_of r ''action'' = Some (JStr a) \<and> map_of r ''pattern'' = Some (JStr p)
     \<and> a \<in> set RULE_ACTIONS \<and> p \<noteq> [])"

definition account_ok :: "'z account_scheme \<Rightarrow> bool" where
  "account_ok a \<longleftrightarrow> mode a \<in> set MODES \<and> media_level a \<in> set MEDIA_LEVELS
     \<and> language_filter a \<in> set LANGUAGE_MODES \<and> cover_style a \<in> set COVER_STYLES
     \<and> youtube_ok (youtube a) \<and> calm_ok (calm a) \<and> time_ok (time a) \<and> list_all rule_ok (rules a)"

definition ports_ok :: "int list \<Rightarrow> bool" where
  "ports_ok ps \<longleftrightarrow> sorted ps \<and> distinct ps
     \<and> (\<forall>p \<in> set ps. 1 \<le> p \<and> p \<le> 65535 \<and> p \<notin> {53, 80, 443} \<and> p \<notin> set OUT_TCP)"

definition user_ok :: "user_policy \<Rightarrow> bool" where
  "user_ok u \<longleftrightarrow> account_ok u \<and> (app_access u = None \<or> app_access u \<in> Some ` set APP_ACCESS)
     \<and> list_all is_kind (blocked_app_kinds u) \<and> layout u \<in> set LAYOUTS \<and> compositor u \<in> set COMPOSITORS
     \<and> ports_ok (extra_ports u) \<and> list_all (\<lambda>h. check_ssh_host h = Inr ()) (ssh_hosts u)
     \<and> (ssh_in u \<longrightarrow> developer_tools u) \<and> set (approved_apps u) \<subseteq> set INDIVIDUAL_APPROVAL"

definition group_ok :: "profile_settings \<Rightarrow> bool" where
  "group_ok pr \<longleftrightarrow> p_mode pr \<in> set MODES \<and> p_media_level pr \<in> set MEDIA_LEVELS
     \<and> p_language_filter pr \<in> set LANGUAGE_MODES \<and> p_app_access pr \<in> set APP_ACCESS
     \<and> list_all is_kind (p_blocked_app_kinds pr) \<and> youtube_ok (p_youtube pr) \<and> calm_ok (p_calm pr)"

definition group_doc_ok :: "doc \<Rightarrow> bool" where
  "group_doc_ok d = (case profile_from_dict d of Inr pr \<Rightarrow> group_ok pr | Inl _ \<Rightarrow> False)"

definition policy_ok :: "policy \<Rightarrow> bool" where
  "policy_ok p \<longleftrightarrow> list_all user_ok (users p) \<and> account_ok (guest p)
     \<and> list_all group_doc_ok (custom_profiles p) \<and> auto_updates p \<in> set AUTO_UPDATE_SCHEDULES
     \<and> \<not> list_ex is_builtin (adblock_allowed p)
     \<and> set (build_sources_extra p) \<inter> set DEFAULT_BUILD_SOURCES = {}"

lemma no_documents [simp]: "youtube_ok []" "calm_ok []" "time_ok []"
proof -
  show "youtube_ok []" by (simp add: youtube_ok_def dict_get_def set_items_def)
  show "calm_ok []"
    by (simp add: calm_ok_def sites_of_def feed_items_def site_minutes_def DEFAULT_FEED_ITEMS_def)
  have "grid_ok (grid [])" by code_simp
  then show "time_ok []" by (simp add: time_ok_def daily_minutes_def)
qed

lemma youtube_settings_ok: "youtube_settings j = Inr d \<Longrightarrow> youtube_ok d"
  by (auto simp: youtube_settings_def youtube_ok_def bind_result_Inr_iff split: json.splits if_splits)

lemma calm_normalize_ok:
  assumes "calm_normalize j = Inr d" shows "calm_ok d"
  using assms
proof (cases rule: calm_normalizeE)
  case (on n sites kept)
  have "sites_of d = kept" by (simp add: on(1) sites_of_def enabled_doc_fields)
  moreover have "set (keys d) \<subseteq> {''enabled'', ''feed_items'', ''sites''}" using enabled_doc_fields(4) by (simp add: on(1))
  ultimately show ?thesis
    using calm_settings_canonical [OF assms] kept_sites_keys [OF on(2)]
    by (auto simp: calm_ok_def MIN_FEED_ITEMS_def MAX_FEED_ITEMS_def MAX_DAILY_MINUTES_def)
qed simp

lemma parse_time_ok:
  assumes "parse_time j = Inr d" shows "time_ok d"
proof -
  obtain m a where d: "d = time_doc m a" and m: "0 \<le> m" "m \<le> TimeLimits.MAX_DAILY_MINUTES"
    and a: "\<And>g. a = Some g \<Longrightarrow> grid_ok g \<and> \<not> is_always g"
    using parse_time_shape [OF assms] by blast
  have "grid d = (case a of None \<Rightarrow> replicate DAYS ALWAYS | Some g \<Rightarrow> g)"
    unfolding d using a by (intro grid_time_doc) blast
  then have "grid_ok (grid d)" using a by (auto simp: grid_ok_always split: option.splits)
  moreover have "set (keys d) \<subseteq> {''daily_minutes'', ''allowed''}"
    by (auto simp: d time_doc_def split: if_splits option.splits)
  ultimately show ?thesis
    using m by (simp add: time_ok_def d daily_minutes_time_doc TimeLimits.MAX_DAILY_MINUTES_def)
qed

lemma rules_value_ok:
  assumes "rules_value j = Inr ds" shows "list_all rule_ok ds"
proof -
  have "rule_ok r" if "json_rule r = Inr c" for r c
  proof -
    from that obtain v x a p where "map_of r ''action'' = Some v" "map_of r ''pattern'' = Some x" "as_str v = Some a" "as_str x = Some p"
      "new_rule a p = Inr c"
      by (auto simp: json_rule_def split: option.splits)
    then show ?thesis
      by (cases v; cases x) (auto simp: rule_ok_def new_rule_def strip_def rstrip_def split: if_splits)
  qed
  then have "json_rules rs = Inr cs \<Longrightarrow> list_all rule_ok rs" for rs cs
    by (auto simp: json_rules_def map_result_Inr_iff list_all_iff in_set_conv_nth list_all2_conv_all_nth)
  with assms show ?thesis
    by (auto simp: rules_value_def split: json.splits option.splits list.splits dest!: map_sum_InrD)
qed

lemma grant_rules_ok:
  "a \<in> set RULE_ACTIONS \<Longrightarrow> p \<noteq> [] \<Longrightarrow> list_all rule_ok rs \<Longrightarrow> list_all rule_ok (grant_rules a p rs)"
  by (auto simp: grant_rules_def granted_rule_def rule_ok_def list_all_iff)

lemma grant_pattern_ok: "grant_pattern url host scope = Inr p \<Longrightarrow> host \<noteq> [] \<Longrightarrow> p \<noteq> []"
  by (auto simp: grant_pattern_def url_pattern_def folder_of_def bind_result_Inr_iff Let_def
      split: if_splits option.splits dest!: map_sum_InrD)

lemma policy_ok_bump [simp]: "policy_ok (bump p) = policy_ok p"
  by (simp add: policy_ok_def bump_def)

lemma list_all_update_first:
  "list_all P xs \<Longrightarrow> (\<And>x. P x \<Longrightarrow> P (f x)) \<Longrightarrow> list_all P (update_first Q f xs)"
  by (induction xs) auto

lemma ok_on_user: "policy_ok p \<Longrightarrow> (\<And>u. user_ok u \<Longrightarrow> user_ok (f u)) \<Longrightarrow> policy_ok (on_user i f p)"
  by (simp add: policy_ok_def on_user_def list_all_update_first)

lemma ok_on_account:
  assumes "policy_ok p" "\<And>u. user_ok u \<Longrightarrow> user_ok (f u)" "\<And>g. account_ok g \<Longrightarrow> account_ok (h g)"
  shows "policy_ok (on_account i f h p)"
  using assms by (simp add: on_account_def ok_on_user) (simp add: policy_ok_def)

lemma access_ok: "user_ok u \<Longrightarrow> access_of u \<in> set APP_ACCESS"
  by (rule access_of_valid)

lemma group_from_user:
  assumes "account_ok u" "list_all is_kind (blocked_app_kinds u)"
  shows "group_ok (from_user u l d)"
  using assms access_of_valid [of u]
  by (simp add: group_ok_def from_user_def account_ok_def) (auto simp: MEDIA_LEVELS_def LANGUAGE_MODES_def list_all_iff)

lemma group_doc_from_user:
  "account_ok u \<Longrightarrow> list_all is_kind (blocked_app_kinds u) \<Longrightarrow> group_doc_ok (profile_to_dict (from_user u l d))"
  using group_from_user by (simp add: group_doc_ok_def from_user_stored) (simp add: group_ok_def)

lemma get_profile_ok:
  assumes "get_profile k ds = Inr pr" "list_all group_doc_ok ds"
  shows "group_ok pr"
proof -
  obtain ps where ps: "map_result profile_from_dict ds = Inr ps" and f: "find (\<lambda>pr. key pr = k) ps = Some pr"
    using assms(1) by (auto simp: get_profile_def all_profiles_def bind_result_Inr_iff split: option.splits)
  have "\<forall>d \<in> set ds. group_doc_ok d" using assms(2) by (simp add: list_all_iff)
  then have "list_all group_ok ps"
    using ps by (auto simp: map_result_Inr_iff group_doc_ok_def list_all2_conv_all_nth list_all_length in_set_conv_nth)
      (metis nth_mem sum.simps(6))
  then show ?thesis using find_SomeD [OF f] by (auto simp: list_all_iff)
qed

lemma apply_ok:
  "group_ok pr \<Longrightarrow> account_ok a \<Longrightarrow> account_ok (apply_values pr a)"
  "group_ok pr \<Longrightarrow> user_ok u \<Longrightarrow> user_ok (apply_user pr u)"
  by (simp_all add: group_ok_def account_ok_def user_ok_def apply_user_def apply_values_def apply_app_values_def)

lemma default_youtube_ok:
  "youtube_ok [(''restrict'', JStr ''strict'')]" "youtube_ok [(''restrict'', JStr ''moderate'')]"
  "youtube_ok [(''restrict'', JStr ''strict''), (''allowed_channels'', JList [])]"
  "youtube_ok [(''restrict'', JStr ''strict''), (''blocked_categories'', jstrs [''24'', ''20'', ''10'', ''shorts''])]"
  by (simp_all add: youtube_ok_def dict_get_def set_items_def jstrs_def YOUTUBE_CATEGORIES_def)

lemma mode_defaults_ok: "list_all (\<lambda>(_, pr). group_ok pr) MODE_DEFAULTS" "group_ok ADMIN_DEFAULTS"
  by (simp_all add: MODE_DEFAULTS_def DEFAULTS_def ADMIN_DEFAULTS_def new_profile_def group_ok_def MODES_def
      MEDIA_LEVELS_def LANGUAGE_MODES_def APP_ACCESS_def default_youtube_ok)

lemma for_mode_ok: "for_mode md = Inr pr \<Longrightarrow> group_ok pr"
  using mode_defaults_ok(1) by (auto simp: for_mode_def list_all_iff split: option.splits dest!: map_of_SomeD)

lemma policy_ok_fields [simp]:
  "policy_ok (p\<lparr>adblock := b\<rparr>) = policy_ok p" "policy_ok (p\<lparr>tailscale := t\<rparr>) = policy_ok p"
  "policy_ok (p\<lparr>syncthing := t\<rparr>) = policy_ok p" "policy_ok (p\<lparr>keyd := t\<rparr>) = policy_ok p"
  "policy_ok (p\<lparr>guardian_enabled := b\<rparr>) = policy_ok p"
  by (simp_all add: policy_ok_def)

lemma policy_ok_setters:
  "policy_ok p \<Longrightarrow> s \<in> set AUTO_UPDATE_SCHEDULES \<Longrightarrow> policy_ok (p\<lparr>auto_updates := s, update_notify := b\<rparr>)"
  "policy_ok p \<Longrightarrow> list_all (\<lambda>h. \<not> is_builtin h) hs \<Longrightarrow> policy_ok (p\<lparr>adblock_allowed := hs\<rparr>)"
  "policy_ok p \<Longrightarrow> list_all (\<lambda>h. h \<notin> set DEFAULT_BUILD_SOURCES) hs \<Longrightarrow> policy_ok (p\<lparr>build_sources_extra := hs\<rparr>)"
  "policy_ok p \<Longrightarrow> account_ok (f (guest p)) \<Longrightarrow> policy_ok (on_guest f p)"
  "policy_ok p \<Longrightarrow> user_ok u \<Longrightarrow> policy_ok (append_user u p)"
  "policy_ok p \<Longrightarrow> policy_ok (remove_user u p)"
  by (auto simp: policy_ok_def list_all_iff list_ex_iff on_guest_def append_user_def remove_user_def
      dest: set_remove1_subset [THEN subsetD])

lemma enter_mode_ok:
  "md \<in> set MODES \<Longrightarrow> user_ok u \<Longrightarrow> user_ok (enter_mode md u)"
  "md \<in> set MODES \<Longrightarrow> account_ok a \<Longrightarrow> account_ok (enter_mode md a)"
  by (auto simp: user_ok_def account_ok_def enter_mode_def Let_def)

lemma map_result_each: "map_result f xs = Inr ys \<Longrightarrow> x \<in> set xs \<Longrightarrow> \<exists>y. f x = Inr y"
  by (induction xs arbitrary: ys) (auto simp: bind_result_Inr_iff)

lemma hosts_ok: "hosts_value j = Inr hosts \<Longrightarrow> list_all (\<lambda>h. check_ssh_host h = Inr ()) hosts"
  by (auto simp: hosts_value_def Let_def list_all_iff split: json.splits option.splits if_splits
      dest!: map_sum_InrD dest: map_result_each)

lemma user_setters_ok:
  "user_ok u \<Longrightarrow> user_ok (developer on u)"
  "user_ok u \<Longrightarrow> ports_value j = Inr ports \<Longrightarrow> user_ok (reach v ports u)"
  "user_ok u \<Longrightarrow> hosts_value j = Inr hosts \<Longrightarrow> user_ok (ssh_reach on hosts u)"
  "user_ok u \<Longrightarrow> r \<in> set INDIVIDUAL_APPROVAL \<Longrightarrow> user_ok (approve_app r on u)"
  "user_ok u \<Longrightarrow> group_ok pr \<Longrightarrow> user_ok (join_group k pr u)"
  "user_ok u \<Longrightarrow> user_ok (leave_group k u)"
proof -
  show "user_ok u \<Longrightarrow> ports_value j = Inr ports \<Longrightarrow> user_ok (reach v ports u)"
    by (auto simp: user_ok_def account_ok_def reach_def ports_ok_def ports_value_def list_ex_iff Let_def
        split: json.splits option.splits if_splits)
  show "user_ok u \<Longrightarrow> hosts_value j = Inr hosts \<Longrightarrow> user_ok (ssh_reach on hosts u)"
    using hosts_ok by (simp add: user_ok_def account_ok_def ssh_reach_def)
  show "user_ok u \<Longrightarrow> group_ok pr \<Longrightarrow> user_ok (join_group k pr u)"
    using apply_ok(2) [of pr u] by (simp add: join_group_def user_ok_def account_ok_def)
qed (auto simp: user_ok_def account_ok_def developer_def approve_app_def leave_group_def)

lemma apply_others_ok: "group_ok pr \<Longrightarrow> list_all user_ok us \<Longrightarrow> list_all user_ok (apply_others own pr us)"
  by (induction us arbitrary: own) (auto simp: apply_ok)

lemma free_fields [simp]:
  "account_ok (whitelist_update f1 a) = account_ok a"
  "account_ok (whitelist_bundles_update f2 a) = account_ok a"
  "account_ok (blocked_categories_update f3 a) = account_ok a"
  "user_ok (whitelist_update f8 u) = user_ok u"
  "user_ok (whitelist_bundles_update f9 u) = user_ok u"
  "user_ok (blocked_categories_update f10 u) = user_ok u"
  "user_ok (admin_update f15 u) = user_ok u"
  "user_ok (apps_update f16 u) = user_ok u"
  "user_ok (can_install_apps_update f17 u) = user_ok u"
  "user_ok (blocked_apps_update f18 u) = user_ok u"
  "user_ok (syncthing_lan_update f19 u) = user_ok u"
  "user_ok (profile_update f20 u) = user_ok u"
  by (simp_all add: user_ok_def account_ok_def)

lemma checked_fields:
  "account_ok a \<Longrightarrow> x \<in> set MEDIA_LEVELS \<Longrightarrow> account_ok (a\<lparr>media_level := x\<rparr>)"
  "account_ok a \<Longrightarrow> x \<in> set LANGUAGE_MODES \<Longrightarrow> account_ok (a\<lparr>language_filter := x\<rparr>)"
  "account_ok a \<Longrightarrow> x \<in> set COVER_STYLES \<Longrightarrow> account_ok (a\<lparr>cover_style := x\<rparr>)"
  "account_ok a \<Longrightarrow> youtube_settings j = Inr d \<Longrightarrow> account_ok (a\<lparr>youtube := d\<rparr>)"
  "account_ok a \<Longrightarrow> calm_normalize j = Inr d \<Longrightarrow> account_ok (a\<lparr>calm := d\<rparr>)"
  "account_ok a \<Longrightarrow> parse_time j = Inr d \<Longrightarrow> account_ok (a\<lparr>time := d\<rparr>)"
  "account_ok a \<Longrightarrow> rules_value j = Inr ds \<Longrightarrow> account_ok (a\<lparr>rules := ds\<rparr>)"
  "user_ok u \<Longrightarrow> youtube_settings j = Inr d \<Longrightarrow> user_ok (u\<lparr>youtube := d\<rparr>)"
  "user_ok u \<Longrightarrow> calm_normalize j = Inr d \<Longrightarrow> user_ok (u\<lparr>calm := d\<rparr>)"
  "user_ok u \<Longrightarrow> parse_time j = Inr d \<Longrightarrow> user_ok (u\<lparr>time := d\<rparr>)"
  "user_ok u \<Longrightarrow> rules_value j = Inr ds \<Longrightarrow> user_ok (u\<lparr>rules := ds\<rparr>)"
  "user_ok u \<Longrightarrow> x \<in> set MEDIA_LEVELS \<Longrightarrow> user_ok (u\<lparr>media_level := x\<rparr>)"
  "user_ok u \<Longrightarrow> x \<in> set LANGUAGE_MODES \<Longrightarrow> user_ok (u\<lparr>language_filter := x\<rparr>)"
  "user_ok u \<Longrightarrow> x \<in> set COVER_STYLES \<Longrightarrow> user_ok (u\<lparr>cover_style := x\<rparr>)"
  "user_ok u \<Longrightarrow> x \<in> set LAYOUTS \<Longrightarrow> user_ok (u\<lparr>layout := x\<rparr>)"
  "user_ok u \<Longrightarrow> x \<in> set COMPOSITORS \<Longrightarrow> user_ok (u\<lparr>compositor := x\<rparr>)"
  "user_ok u \<Longrightarrow> x \<in> set APP_ACCESS \<Longrightarrow> user_ok (u\<lparr>app_access := Some x\<rparr>)"
  "user_ok u \<Longrightarrow> list_all is_kind ks \<Longrightarrow> user_ok (u\<lparr>blocked_app_kinds := sorted_set ks\<rparr>)"
  "user_ok u \<Longrightarrow> user_ok (u\<lparr>ssh_in := False\<rparr>)"
  "user_ok u \<Longrightarrow> developer_tools u \<Longrightarrow> user_ok (u\<lparr>ssh_in := True\<rparr>)"
  by (auto simp: user_ok_def account_ok_def list_all_iff youtube_settings_ok calm_normalize_ok parse_time_ok
      dest: rules_value_ok [unfolded list_all_iff])

lemma granted_ok:
  assumes "grant_pattern url host scope = Inr p" "host \<noteq> []" "a = ''allow'' \<or> a = ''bypass'' \<or> a = ''pictures''"
  shows "account_ok g \<Longrightarrow> account_ok (rules_update (grant_rules a p) g)"
    "user_ok u \<Longrightarrow> user_ok (rules_update (grant_rules a p) u)"
proof -
  have "a \<in> set RULE_ACTIONS" using assms(3) by (auto simp: RULE_ACTIONS_def ALLOW_def BLOCK_def BYPASS_def PICTURES_def)
  note g = grant_rules_ok [OF this grant_pattern_ok [OF assms(1,2)]]
  show "account_ok g \<Longrightarrow> account_ok (rules_update (grant_rules a p) g)"
    "user_ok u \<Longrightarrow> user_ok (rules_update (grant_rules a p) u)"
    using g by (simp_all add: user_ok_def account_ok_def)
qed

lemmas setters_ok = granted_ok enter_mode_ok user_setters_ok checked_fields apply_ok

lemma policy_okD:
  "policy_ok p \<Longrightarrow> find_user i p = Some u \<Longrightarrow> user_ok u" "policy_ok p \<Longrightarrow> account_ok (guest p)"
  "policy_ok p \<Longrightarrow> get_profile k (custom_profiles p) = Inr pr \<Longrightarrow> group_ok pr"
  "policy_ok p \<Longrightarrow> list_all user_ok (users p)" "policy_ok p \<Longrightarrow> list_all group_doc_ok (custom_profiles p)"
  by (auto simp: policy_ok_def list_all_iff dest: find_user_SomeD get_profile_ok)

lemma list_all_update_found:
  "list_all P xs \<Longrightarrow> (\<And>x. find Q xs = Some x \<Longrightarrow> P (f x)) \<Longrightarrow> list_all P (update_first Q f xs)"
  by (induction xs) auto

lemma ok_on_found:
  "policy_ok p \<Longrightarrow> (\<And>u. find_user i p = Some u \<Longrightarrow> user_ok (f u)) \<Longrightarrow> policy_ok (on_user i f p)"
  by (simp add: policy_ok_def on_user_def find_user_def list_all_update_found)

lemma ssh_in_settings:
  assumes "policy_ok (pol m)"
  shows "wp (impl_SetSshIn w i on) (\<lambda>_ m'. policy_ok (pol m')) (\<lambda>_ _. True) m"
proof -
  have u: "find_user i (pol m) = Some u \<Longrightarrow> user_ok u" for u by (rule policy_okD(1) [OF assms])
  show ?thesis
    using assms by (auto simp: impl_SetSshIn_def run_defs wp_simps on_account_def setters_ok u
      intro!: save_intros ok_on_found split: option.split)
qed

lemma join_settings:
  assumes "policy_ok (pol m)"
  shows "wp (impl_ApplyProfile w i k) (\<lambda>_ m'. policy_ok (pol m')) (\<lambda>_ _. True) m"
proof -
  have pr: "get_profile k (custom_profiles (pol m)) = Inr pr \<Longrightarrow> group_ok pr" for pr
    by (rule policy_okD(3) [OF assms])
  show ?thesis
    using assms by (auto simp: impl_ApplyProfile_def run_defs wp_simps apply_guest_def setters_ok pr
      intro!: save_intros ok_on_account ok_on_user split: option.split sum.split)
qed

lemma account_as_user_ok:
  assumes "policy_ok (pol m)"
  shows "account_ok (account_as_user i m)" "list_all is_kind (blocked_app_kinds (account_as_user i m))"
  using policy_okD(1) [OF assms, of i] policy_okD(2) [OF assms]
  by (auto simp: account_as_user_def guest_as_user_def default_user_def account_ok_def user_ok_def split: option.split)

lemma ok_groups:
  assumes "policy_ok p" "list_all group_doc_ok cs"
  shows "policy_ok (p\<lparr>custom_profiles := cs\<rparr>)"
  using assms by (simp add: policy_ok_def)

lemma ok_users: "policy_ok p \<Longrightarrow> list_all user_ok us \<Longrightarrow> policy_ok (p\<lparr>users := us\<rparr>)"
  by (simp add: policy_ok_def)

lemma save_group_settings:
  assumes "policy_ok (pol m)"
  shows "wp (impl_SaveProfile w i l d) (\<lambda>_ m'. policy_ok (pol m')) (\<lambda>_ _. True) m"
proof -
  let ?g = "from_user (account_as_user i m) l d"
  let ?p = "(pol m)\<lparr>custom_profiles := without_group (key ?g) (custom_profiles (pol m)) @ [profile_to_dict ?g]\<rparr>"
  have g: "group_ok ?g" "group_doc_ok (profile_to_dict ?g)"
    using account_as_user_ok [OF assms] by (rule group_from_user group_doc_from_user)+
  then have "list_all group_doc_ok (without_group (key ?g) (custom_profiles (pol m)) @ [profile_to_dict ?g])"
    using policy_okD(5) [OF assms] by (auto simp: without_group_def list_all_iff)
  then have "policy_ok ?p" by (rule ok_groups [OF assms])
  then have p: "policy_ok ?p" "policy_ok (on_user i (profile_update (\<lambda>_. Some (key ?g))) ?p)"
    by (simp_all add: ok_on_user)
  have a: "policy_ok (q\<lparr>users := apply_others own ?g (users q)\<rparr>)" if "policy_ok q" for q own
    using that g(1) policy_okD(4) [OF that] by (intro ok_users apply_others_ok)
  show ?thesis
    using a [OF p(1), of None] a [OF p(2), of "Some i"]
    by (auto simp: impl_SaveProfile_def run_defs wp_simps Let_def intro!: save_intros)
qed

lemma account_settings:
  "policy_ok (pol m) \<Longrightarrow> wp (perform_account w i c) (\<lambda>_ m'. policy_ok (pol m')) (\<lambda>_ _. True) m"
  by (cases c)
   (auto simp: ssh_in_settings join_settings save_group_settings
    account_defs(1-11,13-17) account_defs(20-) run_defs wp_simps Let_def setters_ok
    intro!: save_intros ok_on_account ok_on_user split: option.split sum.split)

lemma person_settings:
  "policy_ok (pol m) \<Longrightarrow> wp (perform_person w i c) (\<lambda>_ m'. policy_ok (pol m')) (\<lambda>_ _. True) m"
  by (cases c) (auto simp: person_defs run_defs wp_simps Let_def setters_ok policy_ok_setters
    intro!: save_intros ok_on_account ok_on_user split: option.split)

lemma own_settings:
  "policy_ok (pol m) \<Longrightarrow> wp (perform_own w mt now caller c) (\<lambda>_ m'. policy_ok (pol m')) (\<lambda>_ _. True) m"
  by (cases c) (auto simp: own_defs run_defs wp_simps Let_def setters_ok
    intro!: save_intros ok_on_user split: option.split sum.split prod.split)

lemma guest_profile_ok:
  assumes "guest_profile md custom = Inr pr" "list_all group_doc_ok custom"
  shows "group_ok pr"
  using assms by (auto simp: guest_profile_def bind_result_Inr_iff intro: get_profile_ok for_mode_ok split: if_splits)

lemma new_user_ok:
  assumes "new_user i nm md custom fa = Inr u" "list_all group_doc_ok custom"
  shows "user_ok u"
proof -
  have "user_ok ((default_user i nm md)\<lparr>mode := ''none''\<rparr>)"
    by (simp add: user_ok_def account_ok_def default_user_def MODES_def MEDIA_LEVELS_def LANGUAGE_MODES_def
        COVER_STYLES_def LAYOUTS_def COMPOSITORS_def DEFAULT_MEDIA_LEVEL_def DEFAULT_COVER_STYLE_def
        DEFAULT_LAYOUT_def DEFAULT_COMPOSITOR_def ports_ok_def)
  moreover have "apply_user pr ((default_user i nm md)\<lparr>mode := ''none''\<rparr>) = apply_user pr (default_user i nm md)" for pr
    by (simp add: apply_user_def apply_values_def apply_app_values_def)
  ultimately have "user_ok (apply_user pr (default_user i nm md))" if "group_ok pr" for pr
    using apply_ok(2) [OF that] by metis
  moreover have "get_profile k custom = Inr pr \<Longrightarrow> group_ok pr" for k pr
    using get_profile_ok assms(2) by blast
  ultimately show ?thesis
    using assms(1) mode_defaults_ok(2)
    by (auto simp: new_user_def bind_result_Inr_iff Let_def for_mode_ok split: if_splits dest!: map_sum_InrD)
qed

lemma sources_extra_ok: "list_all (\<lambda>h. \<not> P h) (sorted_set (filter (\<lambda>h. \<not> P h) xs))"
  by (simp add: list_all_iff)

lemma guest_ok:
  assumes "policy_ok p" "group_ok pr"
  shows "policy_ok (p\<lparr>guest := (apply_values pr (guest p))\<lparr>enabled := on, mode := p_mode pr, whitelist := ws\<rparr>\<rparr>)"
    "policy_ok (p\<lparr>guest := (apply_values pr (guest p))
       \<lparr>guest_uid := i, enabled := on, mode := p_mode pr, whitelist := ws\<rparr>\<rparr>)"
  using assms by (simp_all add: policy_ok_def account_ok_def apply_values_def group_ok_def)

lemma household_settings:
  assumes "policy_ok (pol m)"
  shows "wp (perform_household w c) (\<lambda>_ m'. policy_ok (pol m')) (\<lambda>_ _. True) m"
proof -
  have g: "guest_profile md (custom_profiles (pol m)) = Inr pr \<Longrightarrow> group_ok pr" for md pr
    using guest_profile_ok policy_okD(5) [OF assms] by blast
  have d: "policy_ok ((pol m)\<lparr>custom_profiles := without_group k (custom_profiles (pol m)),
      users := map (leave_group k) (users (pol m))\<rparr>)" for k
    using assms by (auto simp: policy_ok_def list_all_iff without_group_def user_setters_ok)
  show ?thesis
    using assms
    by (cases c) (auto simp: household_defs run_defs wp_simps Let_def add_account_def setters_ok g d
      policy_ok_setters on_guest_def guest_ok apply_guest_def list_all_iff
      intro!: save_intros ok_on_account split: option.split sum.split prod.split)
qed

lemma open_settings:
  assumes "policy_ok (pol m)"
  shows "wp (perform_open w now c) (\<lambda>_ m'. policy_ok (pol m')) (\<lambda>_ _. True) m"
proof -
  have u: "new_user i nm md (custom_profiles (pol m)) fa = Inr u \<Longrightarrow> user_ok u" for i nm md fa u
    using new_user_ok policy_okD(5) [OF assms] by blast
  show ?thesis
    using assms
    by (cases c) (auto simp: open_defs run_defs wp_simps Let_def add_account_def policy_ok_setters u
      intro!: save_intros split: option.split sum.split prod.split)
qed

lemma setup_settings:
  assumes "policy_ok (pol m)"
  shows "wp (perform_setup w now c) (\<lambda>_ m'. policy_ok (pol m')) (\<lambda>_ _. True) m"
proof -
  have u: "new_user i nm md [] fa = Inr u \<Longrightarrow> user_ok u" for i nm md fa u
    using new_user_ok by simp
  show ?thesis
    using assms
    by (cases c) (auto simp: setup_defs run_defs wp_simps Let_def add_account_def policy_ok_setters u
      intro!: save_intros split: option.split sum.split prod.split)
qed

interpretation settings: kept policy_ok "\<lambda>_ _. True"
proof
  fix m :: machine and w mt now caller c
  assume "policy_ok (pol m)"
  then show "wp (perform w mt now caller c) (\<lambda>_ m'. policy_ok (pol m')) (\<lambda>_ _. True) m"
    by (cases c) (auto simp: account_settings person_settings household_settings open_settings own_settings
        setup_settings intro: wp_mono [OF read_same])
qed

section \<open>The lists of approved sites\<close>

text \<open>
  Which lists there are is said by a file of the image; \<open>ks\<close> are the keys it may have over a run
  (with all strings for \<open>ks\<close> nothing is said of it).
\<close>

definition lists_within :: "string set \<Rightarrow> 'a account_scheme \<Rightarrow> bool" where
  "lists_within ks a \<longleftrightarrow> set (whitelist_bundles a) \<subseteq> ks"

definition lists_known :: "string set \<Rightarrow> policy \<Rightarrow> bool" where
  "lists_known ks p \<longleftrightarrow> list_all (\<lambda>u. lists_within ks u) (users p)
     \<and> lists_within ks (guest p)"

definition same_image :: "string set \<Rightarrow> world \<Rightarrow> policy \<Rightarrow> bool" where
  "same_image ks w p \<longleftrightarrow> (case bundle_keys (py_repr w) (bundle_doc w) of Inl _ \<Rightarrow> True | Inr k \<Rightarrow> k \<subseteq> ks)"

lemma lists_fields [simp]:
  "lists_known k (bump p) = lists_known k p" "lists_known k (p\<lparr>adblock := b\<rparr>) = lists_known k p"
  "lists_known k (p\<lparr>tailscale := t\<rparr>) = lists_known k p" "lists_known k (p\<lparr>syncthing := t\<rparr>) = lists_known k p"
  "lists_known k (p\<lparr>keyd := t\<rparr>) = lists_known k p" "lists_known k (p\<lparr>guardian_enabled := b\<rparr>) = lists_known k p"
  "lists_known k (p\<lparr>auto_updates := x, update_notify := b\<rparr>) = lists_known k p"
  "lists_known k (p\<lparr>adblock_allowed := hs\<rparr>) = lists_known k p"
  "lists_known k (p\<lparr>build_sources_extra := hs\<rparr>) = lists_known k p"
  "lists_known k (p\<lparr>custom_profiles := cs\<rparr>) = lists_known k p"
  "lists_known k (p\<lparr>custom_profiles := cs, users := us\<rparr>) = lists_known k (p\<lparr>users := us\<rparr>)"
  by (simp_all add: lists_known_def bump_def)

lemma lists_account_fields [simp]:
  "lists_within k (mode_update x0 a) = lists_within k a"
  "lists_within k (whitelist_update x1 a) = lists_within k a"
  "lists_within k (rules_update x2 a) = lists_within k a"
  "lists_within k (blocked_categories_update x3 a) = lists_within k a"
  "lists_within k (media_level_update x4 a) = lists_within k a"
  "lists_within k (language_filter_update x5 a) = lists_within k a"
  "lists_within k (youtube_update x6 a) = lists_within k a"
  "lists_within k (calm_update x7 a) = lists_within k a"
  "lists_within k (cover_style_update x8 a) = lists_within k a"
  "lists_within k (time_update x9 a) = lists_within k a"
  "lists_within k (a\<lparr>whitelist_bundles := bs\<rparr>) \<longleftrightarrow> set bs \<subseteq> k"
  by (simp_all add: lists_within_def)

lemma lists_user_fields [simp]:
  "lists_within k (uid_update x0 u) = lists_within k u"
  "lists_within k (username_update x1 u) = lists_within k u"
  "lists_within k (admin_update x2 u) = lists_within k u"
  "lists_within k (apps_update x3 u) = lists_within k u"
  "lists_within k (can_install_apps_update x4 u) = lists_within k u"
  "lists_within k (app_access_update x5 u) = lists_within k u"
  "lists_within k (blocked_app_kinds_update x6 u) = lists_within k u"
  "lists_within k (blocked_apps_update x7 u) = lists_within k u"
  "lists_within k (layout_update x8 u) = lists_within k u"
  "lists_within k (compositor_update x9 u) = lists_within k u"
  "lists_within k (video_calls_update x10 u) = lists_within k u"
  "lists_within k (extra_ports_update x11 u) = lists_within k u"
  "lists_within k (ssh_hosts_update x12 u) = lists_within k u"
  "lists_within k (ssh_anywhere_update x13 u) = lists_within k u"
  "lists_within k (developer_tools_update x14 u) = lists_within k u"
  "lists_within k (ssh_in_update x15 u) = lists_within k u"
  "lists_within k (approved_apps_update x16 u) = lists_within k u"
  "lists_within k (syncthing_lan_update x17 u) = lists_within k u"
  "lists_within k (profile_update x18 u) = lists_within k u"
  by (simp_all add: lists_within_def)

lemma lists_guest_fields [simp]:
  "lists_within k (enabled_update x0 g) = lists_within k g"
  "lists_within k (guest_uid_update x1 g) = lists_within k g"
  by (simp_all add: lists_within_def)

lemma lists_setters [simp]:
  "lists_within ks (enter_mode md a) = lists_within ks a" "lists_within ks (apply_values pr a) = lists_within ks a"
  "lists_within ks (developer on u) = lists_within ks u" "lists_within ks (reach v ports u) = lists_within ks u"
  "lists_within ks (ssh_reach on hosts u) = lists_within ks u" "lists_within ks (approve_app r on u) = lists_within ks u"
  "lists_within ks (apply_user pr u) = lists_within ks u" "lists_within ks (join_group k pr u) = lists_within ks u"
  "lists_within ks (leave_group k u) = lists_within ks u" "lists_within ks (apply_guest pr g) = lists_within ks g"
  by (simp_all add: enter_mode_def Let_def developer_def reach_def ssh_reach_def approve_app_def apply_user_def
      apply_values_def apply_app_values_def join_group_def leave_group_def apply_guest_def)

lemma lists_on_user:
  "lists_known k p \<Longrightarrow> (\<And>u. lists_within k u \<Longrightarrow> lists_within k (f u)) \<Longrightarrow>
     lists_known k (on_user i f p)"
  by (simp add: lists_known_def on_user_def list_all_update_first)

lemma lists_on_account:
  "lists_known k p \<Longrightarrow> (\<And>u. lists_within k u \<Longrightarrow> lists_within k (f u)) \<Longrightarrow>
     (\<And>g. lists_within k g \<Longrightarrow> lists_within k (h g)) \<Longrightarrow> lists_known k (on_account i f h p)"
  by (simp add: on_account_def lists_on_user) (simp add: lists_known_def)

lemma lists_others: "list_all (\<lambda>u. lists_within k u) us \<Longrightarrow>
    list_all (\<lambda>u. lists_within k u) (apply_others own pr us)"
  by (induction us arbitrary: own) auto

lemma lists_users:
  "lists_known k p \<Longrightarrow> lists_known k (remove_user u p)"
  "lists_known k p \<Longrightarrow> lists_within k u \<Longrightarrow> lists_known k (append_user u p)"
  "lists_known k p \<Longrightarrow> lists_known k (p\<lparr>users := map (leave_group g) (users p)\<rparr>)"
  "lists_known k p \<Longrightarrow> lists_known k (p\<lparr>users := apply_others own pr (users p)\<rparr>)"
  "lists_known k p \<Longrightarrow> (\<And>g. lists_within k g \<Longrightarrow> lists_within k (h g)) \<Longrightarrow> lists_known k (on_guest h p)"
  by (auto simp: lists_known_def append_user_def remove_user_def on_guest_def list_all_iff
      lists_others [unfolded list_all_iff] dest: set_remove1_subset [THEN subsetD])

lemma lists_default [simp]: "lists_within k (default_user i nm md)"
  by (simp add: lists_within_def default_user_def)

lemma new_user_lists: "new_user i nm md custom fa = Inr u \<Longrightarrow> lists_within k u"
  by (auto simp: new_user_def bind_result_Inr_iff Let_def
      split: if_splits dest!: map_sum_InrD)

lemma account_lists:
  assumes "lists_known k (pol m)" "same_image k w (pol m)"
  shows "wp (perform_account w i c) (\<lambda>_ m'. lists_known k (pol m')) (\<lambda>_ _. True) m"
  using assms
  by (cases c) (auto simp: account_defs run_defs wp_simps Let_def same_image_def lists_users
    intro!: save_intros lists_on_account lists_on_user lists_users(4) split: option.split sum.split)

lemma person_lists:
  "lists_known k (pol m) \<Longrightarrow> wp (perform_person w i c) (\<lambda>_ m'. lists_known k (pol m')) (\<lambda>_ _. True) m"
  by (cases c) (auto simp: person_defs run_defs wp_simps Let_def lists_users
    intro!: save_intros lists_on_account lists_on_user split: option.split)

lemma own_lists:
  "lists_known k (pol m) \<Longrightarrow> wp (perform_own w mt now caller c) (\<lambda>_ m'. lists_known k (pol m')) (\<lambda>_ _. True) m"
  by (cases c) (auto simp: own_defs run_defs wp_simps Let_def
    intro!: save_intros lists_on_user split: option.split sum.split prod.split)

lemma household_lists:
  "lists_known k (pol m) \<Longrightarrow> wp (perform_household w c) (\<lambda>_ m'. lists_known k (pol m')) (\<lambda>_ _. True) m"
  by (cases c) (auto simp: household_defs run_defs wp_simps Let_def add_account_def lists_users
    intro!: save_intros lists_on_account split: option.split sum.split prod.split)

lemma open_lists:
  "lists_known k (pol m) \<Longrightarrow> wp (perform_open w now c) (\<lambda>_ m'. lists_known k (pol m')) (\<lambda>_ _. True) m"
  by (cases c) (auto simp: open_defs run_defs wp_simps Let_def add_account_def lists_users new_user_lists
    intro!: save_intros split: option.split sum.split prod.split)

lemma setup_lists:
  "lists_known k (pol m) \<Longrightarrow> wp (perform_setup w now c) (\<lambda>_ m'. lists_known k (pol m')) (\<lambda>_ _. True) m"
  by (cases c) (auto simp: setup_defs run_defs wp_simps Let_def add_account_def lists_users new_user_lists
    intro!: save_intros split: option.split sum.split prod.split)

interpretation lists: kept "lists_known ks" "same_image ks" for ks
proof
  fix m :: machine and w mt now caller c
  assume "lists_known ks (pol m)" "same_image ks w (pol m)"
  then show "wp (perform w mt now caller c) (\<lambda>_ m'. lists_known ks (pol m')) (\<lambda>_ _. True) m"
    by (cases c) (auto simp: account_lists person_lists household_lists open_lists own_lists
        setup_lists intro: wp_mono [OF read_same])
qed

lemma served_mono: "served fits m m' \<Longrightarrow> (\<And>w p. fits w p \<Longrightarrow> fits' w p) \<Longrightarrow> served fits' m m'"
  by (induction rule: served.induct) (auto intro: served.intros)

text \<open>
  Property C4: whatever calls are made, what the daemon checks of the settings of every account, of the
  guest and of every group stays so.  The kind of internet, the levels of pictures and language, the
  looks, the kinds of app and the apps to approve are ones it knows; the YouTube settings name a known
  restriction and known categories; the calmer sites are known ones, with feeds of 5 to 500 items and
  budgets of at most a day; the time settings have at most a day and a full week's table; each address
  rule has a known action and a pattern; the lists of approved sites are lists there are; the ports an
  account may reach beyond the web are numbers of ports, in order, and none of them the web's, DNS's or
  one that is always open; machines for SSH are well formed; only a developer can be reached by SSH;
  and what is built in is not listed twice.  (Blocked categories, approved sites and app references
  are free text to the daemon.)
\<close>

theorem settings_stay_valid:
  assumes "served (same_image ks) m m'" "policy_ok (pol m)" "lists_known ks (pol m)"
  shows "policy_ok (pol m') \<and> lists_known ks (pol m')"
  using settings.always [OF served_mono [OF assms(1)] assms(2)] lists.always [OF assms(1,3)] by blast

theorem settings_stay_valid_witness:
  "policy_ok (pol (snd (handle_call calm_world 0 0 1000 (Account 1000 (SetFilterMode ''dnsfilter'') ''secret'')
     (started home))))"
proof -
  have "policy_ok home"
    by (simp add: policy_ok_def computer_defs default_guest_def user_ok_def account_ok_def default_user_def
        MODES_def MEDIA_LEVELS_def LANGUAGE_MODES_def COVER_STYLES_def LAYOUTS_def COMPOSITORS_def
        DEFAULT_MEDIA_LEVEL_def DEFAULT_COVER_STYLE_def DEFAULT_LAYOUT_def DEFAULT_COMPOSITOR_def
        AUTO_UPDATE_SCHEDULES_def DEFAULT_AUTO_UPDATES_def ports_ok_def)
  moreover have "lists_known {} home"
    by (simp add: lists_known_def lists_within_def computer_defs default_guest_def default_user_def)
  moreover have "same_image {} calm_world p" for p by (simp add: same_image_def calm_world_def bundle_keys_def) code_simp
  ultimately show ?thesis
    using settings_stay_valid [OF one_call [where fits = "same_image {}"]] by (simp add: started_def)
qed

end
