(* ===== verification/DaemonGrants.thy ===== *)
theory DaemonGrants
  imports DaemonSafety
begin

text \<open>
  Opening a page or a site (\<open>_grant\<close> of \<open>kosherd/src/kosherd/daemon.py\<close>) and what the rules of
  \<open>urlrules.py\<close> then decide.
\<close>

section \<open>The host that is opened\<close>

definition host_char :: "char \<Rightarrow> bool" where
  "host_char c \<longleftrightarrow> c \<notin> {CHR ''/'', CHR ''*''} \<and> \<not> is_space c"

lemma lower_strip_lower: "lower (strip f (lower s)) = strip f (lower s)"
  by (rule lower_fixed) (auto simp: lower_def dest!: set_strip_subset [THEN subsetD])

lemma lower_bare_host [simp]: "lower (bare_host u) = bare_host u"
  by (simp add: bare_host_def lower_strip_lower)

lemma canonical_bare_host: "canonical_host (bare_host u) = remove_prefix ''www.'' (bare_host u)"
proof (cases "bare_host u = []")
  case False
  then have "strip (\<lambda>c. c = CHR ''.'') (bare_host u) = bare_host u"
    using hd_strip unfolding bare_host_def by (intro strip_no_change) blast+
  then show ?thesis by (simp add: canonical_host_def)
qed (simp add: canonical_host_def strip_def rstrip_def lower_def)

lemma host_chars_suffix: "list_all host_char h \<Longrightarrow> list_all host_char (remove_prefix p h)"
  by (auto simp: list_all_iff remove_prefix_def dest: in_set_dropD)

lemma host_chars_plain:
  assumes "list_all host_char h"
  shows "CHR ''/'' \<notin> set h" "CHR ''*'' \<notin> set h" "nl \<notin> set h" "h \<noteq> [] \<Longrightarrow> strip is_space h = h" "glob h = map Lit h"
proof -
  have c: "c \<in> set h \<Longrightarrow> host_char c" for c using assms by (simp add: list_all_iff)
  show "CHR ''/'' \<notin> set h" "CHR ''*'' \<notin> set h" using c by (auto simp: host_char_def)
  show "nl \<notin> set h" using c [of nl] by (auto simp: host_char_def nl_def is_space_def)
  show "h \<noteq> [] \<Longrightarrow> strip is_space h = h"
    using c by (intro strip_no_change) (auto simp: host_char_def)
  show "glob h = map Lit h" using \<open>CHR ''*'' \<notin> set h\<close> by (auto simp: glob_def)
qed

lemma compile_plain:
  assumes "h \<noteq> []" "list_all host_char h" "lower h = h"
  shows "compile h = map Lit (remove_prefix ''www.'' h) @ [Below]"
proof -
  let ?d = "remove_prefix ''www.'' h"
  note h = host_chars_plain [OF assms(2)] and d = host_chars_plain [OF host_chars_suffix [OF assms(2)], of "''www.''"]
  have "remove_prefix ''www.'' (remove_prefix ''http://'' (remove_prefix ''https://'' (lower (strip is_space h)))) = ?d"
    using h assms(1,3) by (simp add: no_scheme)
  moreover have "\<not> starts_with ?d ''*.''" using d(2) by (cases ?d) (auto simp: starts_with_def prefix_def)
  moreover have "before CHR ''/'' (?d @ ''/*'') = ?d" "after CHR ''/'' (?d @ ''/*'') = ''*''"
    using before_append [of "CHR ''/''" ?d "''*''"] d(1) by simp_all
  ultimately show ?thesis
    using d(1,5) by (simp add: compile_def Let_def ends_with_def glob_def [of "[]"])
qed

lemma host_rule_matches:
  assumes "h \<noteq> []" "list_all host_char h" "lower h = h"
    and "canonical_host host = remove_prefix ''www.'' h" "nl \<notin> set path"
  shows "rule_matches \<lparr>rule_action = a, rule_pattern = h\<rparr> host path"
proof -
  let ?d = "remove_prefix ''www.'' h"
  note d = host_chars_plain [OF host_chars_suffix [OF assms(2)], of "''www.''"]
  have "lower (canonical_host host) = canonical_host host" by simp
  then have "lower ?d = ?d" by (simp add: assms(4))
  then have "match_atoms (map Lit ?d @ [Below]) (?d @ canonical_path path)"
    using match_host_end [OF d(1) d(1) canonical_path_slash d(3) canonical_path_nl [OF assms(5)]] by simp
  then show ?thesis
    by (simp add: rule_matches_def canonical_def compile_plain [OF assms(1-3)] assms(4))
qed

section \<open>The account afterwards\<close>

lemma update_first_found:
  "find P xs = Some x \<Longrightarrow> P (f x) \<Longrightarrow> find P (update_first P f xs) = Some (f x)"
  by (induction xs) (auto split: if_splits)

lemma find_on_user:
  "find_user i p = Some u \<Longrightarrow> uid (f u) = uid u \<Longrightarrow> find_user i (on_user i f p) = Some (f u)"
  using find_SomeD [of "\<lambda>u. uid u = i" "users p" u]
  by (auto simp: find_user_def on_user_def intro: update_first_found)

lemma account_after:
  assumes "managed i p"
  shows "account_rules i (on_account i (rules_update f) (rules_update f) p) = f (account_rules i p)"
    "account_whitelist i (on_account i (whitelist_update g) (whitelist_update g) p) = g (account_whitelist i p)"
  by (cases "find_user i p"; simp add: on_account_def account_rules_def account_whitelist_def find_on_user;
      simp add: find_user_def)+

lemma account_bump [simp]:
  "account_rules i (bump p) = account_rules i p" "account_whitelist i (bump p) = account_whitelist i p"
  by (simp_all add: account_rules_def account_whitelist_def split: option.split)

lemma json_rules_granted:
  assumes "json_rules (granted_rule a h # ds) = Inr rs"
  shows "\<exists>rs'. rs = \<lparr>rule_action = a, rule_pattern = h\<rparr> # rs'"
  using assms by (auto simp: json_rules_def bind_result_Inr_iff json_rule_def granted_rule_def new_rule_def
      split: if_splits)

text \<open>What the account may do with the host once it is open to it.\<close>

definition opened :: "int \<Rightarrow> string \<Rightarrow> string \<Rightarrow> policy \<Rightarrow> policy \<Rightarrow> bool" where
  "opened i h action p p' \<longleftrightarrow>
     (if account_mode i p = ''whitelist'' then h \<in> set (account_whitelist i p')
      else \<forall>rs host path. json_rules (account_rules i p') = Inr rs \<longrightarrow>
             canonical_host host = canonical_host h \<longrightarrow> nl \<notin> set path \<longrightarrow>
             decide_at rs host path = (action, Some h))"

lemma opened_rules:
  assumes "h \<noteq> []" "list_all host_char h" "lower h = h" "canonical_host h = remove_prefix ''www.'' h"
    and "\<not> has_rule action h (account_rules i p)" "account_mode i p \<noteq> ''whitelist''"
    and "account_rules i p' = grant_rules action h (account_rules i p)"
  shows "opened i h action p p'"
  unfolding opened_def
proof (simp add: assms(6), intro allI impI)
  fix rs host path
  assume r: "json_rules (account_rules i p') = Inr rs" and c: "canonical_host host = canonical_host h" "nl \<notin> set path"
  obtain rs' where "rs = \<lparr>rule_action = action, rule_pattern = h\<rparr> # rs'"
    using r assms(5) unfolding assms(7) by (auto simp: grant_rules_def dest: json_rules_granted)
  then show "decide_at rs host path = (action, Some h)"
    using host_rule_matches [OF assms(1-3), of host path action] c assms(4) by (simp add: decide_at_def)
qed

lemma wp_grant_site:
  assumes "urlsplit url = Inr u" "list_all host_char (bare_host u)" "managed i (pol m)"
    and "\<not> has_rule action (bare_host u) (account_rules i (pol m))"
  shows "wp (grant w i url ''site'' action)
    (\<lambda>h m'. h = bare_host u \<and> opened i h action (pol m) (pol m') \<and> policy_file m' = Some (to_dict (pol m')))
    (\<lambda>_ _. True) m"
  using assms
  by (auto simp: grant_def wp_simps Let_def grant_pattern_def bind_result_def account_after grant_whitelist_def
      opened_def [of _ _ _ _ "bump (on_account _ (whitelist_update _) _ _)"]
      intro!: save_intros opened_rules canonical_bare_host split: sum.split)

text \<open>
  Property C6: a site opened for an account is open.  When \<open>GrantUrl\<close> for a whole site succeeds,
  the first rule that applies to any page of that host is the one just granted, whatever rules stood
  before it; an account of approved sites only has the host on its list; and the policy file holds
  the change.  A rule of the same action for the same host must not be there already.
\<close>

theorem granted_site_opens:
  assumes "handle_call w mt now caller (Account i (GrantUrl url action ''site'') pw) m = (Inr r, m')"
    and "urlsplit url = Inr u" "list_all host_char (bare_host u)"
    and "\<not> has_rule action (bare_host u) (account_rules i (pol m))"
  shows "opened i (bare_host u) action (pol m) (pol m') \<and> policy_file m' = Some (to_dict (pol m'))"
proof -
  let ?c = "Account i (GrantUrl url action ''site'') pw"
  have "wp (handle_call w mt now caller ?c)
     (\<lambda>_ m'. opened i (bare_host u) action (pol m) (pol m') \<and> policy_file m' = Some (to_dict (pol m')))
     (\<lambda>_ _. True) m"
  proof (rule wp_handle)
    fix snap assume "admit w mt now caller ?c m = (Inr (), snap)"
    then have p: "pol snap = pol m" by (simp add: admit_same)
    then have g: "managed i (pol m) \<Longrightarrow> wp (grant w i url ''site'' action)
        (\<lambda>h m'. h = bare_host u \<and> opened i h action (pol m) (pol m') \<and> policy_file m' = Some (to_dict (pol m')))
        (\<lambda>_ _. True) snap"
      using wp_grant_site [of url u i snap action w] assms(2-) by simp
    show "wp (perform w mt now caller ?c)
       (\<lambda>_ m'. opened i (bare_host u) action (pol m) (pol (note_change caller ?c m'))
          \<and> policy_file (note_change caller ?c m') = Some (to_dict (pol (note_change caller ?c m'))))
       (\<lambda>_ _. True) snap"
      using g by (auto simp: impl_GrantUrl_def need_account_def need_filtered_def wp_simps p elim!: wp_mono)
  qed simp
  then show ?thesis
    using assms(1) by (simp add: wp_def)
qed

lemma opening_works:
  "fst (handle_call calm_world 0 0 1000 (Account 1000 (GrantUrl ''https://www.example.com/a?b'' ''allow'' ''site'') ''secret'')
     (started home)) = Inr JNull"
  by code_simp

theorem granted_site_opens_witness:
  "opened 1000 ''www.example.com'' ''allow'' home (pol (snd (handle_call calm_world 0 0 1000
     (Account 1000 (GrantUrl ''https://www.example.com/a?b'' ''allow'' ''site'') ''secret'') (started home))))"
proof -
  let ?r = "handle_call calm_world 0 0 1000
     (Account 1000 (GrantUrl ''https://www.example.com/a?b'' ''allow'' ''site'') ''secret'') (started home)"
  let ?u = "\<lparr>url_host = ''www.example.com'', url_path = ''/a'', url_query = ''b''\<rparr>"
  have r: "?r = (Inr JNull, snd ?r)" using opening_works by (metis prod.collapse)
  have u: "urlsplit ''https://www.example.com/a?b'' = Inr ?u" by code_simp
  have h: "bare_host ?u = ''www.example.com''" by code_simp
  have "list_all host_char ''www.example.com''" "\<not> has_rule ''allow'' ''www.example.com'' (account_rules 1000 home)"
    by (code_simp, simp add: has_rule_def account_rules_def find_user_def home_def default_user_def default_policy_def)
  then show ?thesis
    using granted_site_opens [OF r u] by (simp add: h started_def)
qed

section \<open>Where it does not\<close>

text \<open>
  A page is opened by its path without the query, but the proxy asks about path and query: the page
  at an address with a query stays blocked.
\<close>

lemma page_with_query_stays_blocked:
  "grant_pattern ''https://www.youtube.com/watch?v=abc'' ''www.youtube.com'' ''page'' = Inr ''youtube.com/watch''"
  "decide_url [\<lparr>rule_action = ALLOW, rule_pattern = ''youtube.com/watch''\<rparr>, \<lparr>rule_action = BLOCK, rule_pattern = ''youtube.com''\<rparr>]
     ''https://www.youtube.com/watch?v=abc'' = Inr (BLOCK, Some ''youtube.com'')"
  by code_simp+

text \<open>A rule that is there already, behind one that blocks, is left where it is.\<close>

lemma rule_behind_stays_behind:
  "grant_rules ''allow'' ''a.com'' [granted_rule ''block'' ''*.com'', granted_rule ''allow'' ''a.com'']
   = [granted_rule ''block'' ''*.com'', granted_rule ''allow'' ''a.com'']"
  by code_simp

end
