(* ===== verification/DaemonOrdinary.thy ===== *)
theory DaemonOrdinary
  imports DaemonSafety
begin

text \<open>
  What an ordinary account can do to the policy over D-Bus: one whose calls the system only consents to
  for the actions every account has (\<open>access.FREE_ACTIONS\<close>), with the session table followed over the calls
  of everyone.
\<close>

section \<open>Which calls are free\<close>

lemma methods_not_free:
  "set (map account_method [SetFilterMode [], SetWhitelistBundles [], SetWhitelist [], SetBlockedCategories [],
     SetUrlRules [], SetMediaLevel [], SetLanguageFilter [], SetYouTube [], SetCalm [], SetTimeLimits [],
     SetDeveloperTools True, SetSshIn True, SetNetworkAccess True [], SetSsh True [], AllowUrl [] True,
     BypassUrl [] True, GrantUrl [] [] [], ApplyProfile [], SaveProfile [] [], SetUserAdmin True,
     SetUserAppAccess [], SetUserBlockedAppKinds [], SetUserBlockedApps [], SetUserAppApproval [] True,
     SetSyncthingLan True]) \<inter> set free_methods = {}"
  "set (map person_method [SetLayout [], SetCoverStyle [], SetUserApps [], SetUserCanInstall True, RemoveUser,
     ResetPassword]) \<inter> set free_methods = {}"
  "set (map open_method [CreateUser [] [] [], AdoptUser [] [], SetAutoUpdates [] True, DismissRequest [],
     SetGuardianPassword [] []]) \<inter> set free_methods = {}"
  "set (map own_method [Unlock, Lock, Status, VerifyGuardian []]) \<inter> set free_methods = {}"
  by code_simp+

lemma account_not_free: "account_method c \<notin> set free_methods"
  using methods_not_free(1) by (cases c) auto

lemma person_not_free: "person_method c \<notin> set free_methods"
  using methods_not_free(2) by (cases c) auto

lemma open_not_free: "open_method c \<notin> set free_methods"
  using methods_not_free(3) by (cases c) auto

lemma household_not_free: "household_method c \<notin> set free_methods"
  using household_gated gated_not_free by blast

lemma account_not_read: "account_method c \<notin> set SETUP_READS"
  by (cases c) (simp_all add: SETUP_READS_def)

lemma person_not_read: "person_method c \<notin> set SETUP_READS"
  by (cases c) (simp_all add: SETUP_READS_def)

lemma household_not_read: "household_method c \<notin> set SETUP_READS"
  by (cases c) (simp_all add: SETUP_READS_def)

lemma open_not_read: "open_method c \<notin> set SETUP_READS"
  by (cases c) (simp_all add: SETUP_READS_def)

lemma own_free: "own_method c \<in> set free_methods \<Longrightarrow> c \<notin> {Unlock, Lock, Status} \<and> (\<forall>pw. c \<noteq> VerifyGuardian pw)"
  using methods_not_free(4) by (cases c) auto

section \<open>An ordinary account\<close>

definition only_free :: "int \<Rightarrow> world \<Rightarrow> bool" where
  "only_free u w \<longleftrightarrow> (\<forall>a. polkit w u a \<longrightarrow> a \<in> set FREE_ACTIONS)"

text \<open>The computer is set up, and \<open>u\<close> has no administrator's session.\<close>

definition locked_out :: "int \<Rightarrow> machine \<Rightarrow> bool" where
  "locked_out u m \<longleftrightarrow> setup_stamp m \<and> map_of (sessions (store m)) u = None"

lemma locked_fields [simp]:
  "locked_out u (pol_update x0 m) = locked_out u m" "locked_out u (policy_file_update x1 m) = locked_out u m"
  "locked_out u (guest_dev_update x2 m) = locked_out u m"
  "locked_out u (guest_admin_update x3 m) = locked_out u m" "locked_out u (guard_update x4 m) = locked_out u m"
  "locked_out u (requests_update x5 m) = locked_out u m" "locked_out u (passwd_update x6 m) = locked_out u m"
  "locked_out u (kosher_admins_update x7 m) = locked_out u m"
  "locked_out u (boot_password_update x8 m) = locked_out u m"
  "locked_out u (login_session_update x9 m) = locked_out u m"
  "locked_out u (services_update x10 m) = locked_out u m" "locked_out u (events_update x11 m) = locked_out u m"
  "locked_out u m \<Longrightarrow> locked_out u (setup_stamp_update (\<lambda>_. True) m)"
  "locked_out u (store_update (\<lambda>_. s) m) \<longleftrightarrow> setup_stamp m \<and> map_of (sessions s) u = None"
  by (simp_all add: locked_out_def)

lemma locked_frame [simp]:
  "locked_out u (in_memory m) = locked_out u m" "locked_out u (on_disk m) = locked_out u m"
  "locked_out u (announced es m) = locked_out u m" "locked_out u (put_back x n b m) = locked_out u m"
  "locked_out u (snd (accounts_delete_user w i m)) = locked_out u m"
  "locked_out u (snd (apply_auto_timer w sc m)) = locked_out u m"
  "locked_out u (add_account n i m) = locked_out u m" "locked_out u (drop_uid i m) = locked_out u m"
  "locked_out u (note_change v c m) = locked_out u m" "locked_out u (roll_back snap m) = locked_out u m"
  by (simp_all add: in_memory_def on_disk_def announced_def accounts_delete_user_def put_back_def
      apply_auto_timer_def set_service_def bind_run_def check_run_def return_run_def raise_run_def update_run_def
      add_account_def drop_uid_def note_change_def roll_back_def split: option.splits)

lemma is_unlocked_locked:
  "map_of (sessions s) u = None \<Longrightarrow> map_of (sessions (snd (is_unlocked v t s))) u = None"
  by (auto simp: is_unlocked_def split: option.split if_splits)

lemma is_unlocked_lockedD:
  "is_unlocked v t s = (b, s') \<Longrightarrow> map_of (sessions s) u = None \<Longrightarrow> map_of (sessions s') u = None"
  using is_unlocked_locked by (metis snd_conv)

lemma has_guardian_sessions [simp]: "sessions (snd (has_guardian v t s)) = sessions s"
  by (simp add: has_guardian_def split: option.split)

lemma has_guardian_lockedD:
  "has_guardian v t s = (b, s') \<Longrightarrow> map_of (sessions s) u = None \<Longrightarrow> map_of (sessions s') u = None"
  using has_guardian_sessions by (metis snd_conv)

lemma grant_guardian_sessions [simp]: "sessions (grant_guardian v t s) = sessions s"
  by (simp add: grant_guardian_def)

lemma not_free_refused:
  assumes "locked_out u m" "u \<noteq> 0" "only_free u w" "method_of c \<notin> set free_methods" "method_of c \<notin> set SETUP_READS"
  shows "\<exists>e. fst (admit w mt now u c m) = Inl e"
proof -
  have l: "fst (is_unlocked u mt (store m)) = False"
    using assms(1) by (simp add: locked_out_def is_unlocked_def)
  show ?thesis
  proof (cases "method_of c \<in> set SETUP_METHODS \<or> method_of c \<notin> set (keys ACTIONS)")
    case True
    then show ?thesis
      using assms(1,5) unfolding admit_def requirement_eq by (auto simp: evaluate_allowed_iff locked_out_def)
  next
    case False
    then obtain a where a: "map_of ACTIONS (method_of c) = Some a" using is_method_iff by blast
    with assms(3,4) have "\<not> polkit w u a" by (auto simp: only_free_def dest: not_free_methodD)
    moreover have "polkit_action (evaluate (method_of c) sc False ge gp) = Some a" for sc ge gp
      using a False by (simp add: evaluate_polkit_iff)
    ultimately show ?thesis
      using assms(2) False unfolding admit_def requirement_eq by (simp add: l authorized_def)
  qed
qed

text \<open>The policy apart from how \<open>u\<close>'s desktop looks.\<close>

definition but_desktop :: "int \<Rightarrow> policy \<Rightarrow> policy" where
  "but_desktop u p = p\<lparr>revision := 0,
     users := map (\<lambda>x. if uid x = u then x\<lparr>layout := [], compositor := []\<rparr> else x) (users p)\<rparr>"

lemma but_desktop_simps [simp]:
  "but_desktop u (bump p) = but_desktop u p"
  by (simp_all add: but_desktop_def bump_def)

lemma but_desktop_on_user:
  assumes "\<And>x. (f x)\<lparr>layout := [], compositor := []\<rparr> = x\<lparr>layout := [], compositor := []\<rparr>"
    and "\<And>x. uid (f x) = uid x"
  shows "but_desktop u (on_user u f p) = but_desktop u p"
proof -
  have "map (\<lambda>x. if uid x = u then x\<lparr>layout := [], compositor := []\<rparr> else x) (update_first (\<lambda>x. uid x = u) f xs)
      = map (\<lambda>x. if uid x = u then x\<lparr>layout := [], compositor := []\<rparr> else x) xs" for xs
    by (induction xs) (simp_all add: assms)
  then show ?thesis by (simp add: but_desktop_def on_user_def)
qed

lemma own_desktop:
  "wp (perform_own w mt now u c) (\<lambda>_ m'. but_desktop u (pol m') = but_desktop u (pol m)) (\<lambda>_ _. True) m"
  by (cases c) (auto simp: own_defs run_defs wp_simps but_desktop_on_user
    intro!: save_intros split: option.split prod.split sum.split)

section \<open>The calls of everyone\<close>

lemma account_locked: "locked_out u m \<Longrightarrow> wp (perform_account w i c) (\<lambda>_. locked_out u) (\<lambda>_. locked_out u) m"
  by (cases c) (auto simp: account_defs run_defs wp_simps Let_def
    intro!: save_intros split: option.split sum.split)

lemma person_locked: "locked_out u m \<Longrightarrow> wp (perform_person w i c) (\<lambda>_. locked_out u) (\<lambda>_. locked_out u) m"
  by (cases c) (auto simp: person_defs run_defs wp_simps Let_def
    intro!: save_intros split: option.split sum.split)

lemma household_locked: "locked_out u m \<Longrightarrow> wp (perform_household w c) (\<lambda>_. locked_out u) (\<lambda>_. locked_out u) m"
  by (cases c) (auto simp: household_defs run_defs wp_simps Let_def
    intro!: save_intros split: option.split sum.split prod.split)

lemma open_locked: "locked_out u m \<Longrightarrow> wp (perform_open w now c) (\<lambda>_. locked_out u) (\<lambda>_. locked_out u) m"
  by (cases c) (auto simp: open_defs run_defs wp_simps Let_def
    intro!: save_intros split: option.split sum.split prod.split)

lemma setup_locked: "locked_out u m \<Longrightarrow> wp (perform_setup w now c) (\<lambda>_. locked_out u) (\<lambda>_. locked_out u) m"
  by (cases c) (auto simp: setup_defs run_defs wp_simps Let_def
    intro!: save_intros split: option.split sum.split prod.split)

lemma read_locked: "locked_out u m \<Longrightarrow> wp (perform_read w c) (\<lambda>_. locked_out u) (\<lambda>_. locked_out u) m"
  by (cases c) (auto simp: read_defs wp_simps split: option.split sum.split prod.split)

lemma unlock_sessions: "v \<noteq> u \<Longrightarrow> map_of (sessions (unlock v t s)) u = map_of (sessions s) u"
  by (simp add: unlock_def)

lemma lock_sessions: "map_of (sessions s) u = None \<Longrightarrow> map_of (sessions (lock v s)) u = None"
  by (simp add: lock_def)

lemma own_locked:
  "locked_out u m \<Longrightarrow> v \<noteq> u \<or> c \<noteq> Unlock \<Longrightarrow>
     wp (perform_own w mt now v c) (\<lambda>_. locked_out u) (\<lambda>_. locked_out u) m"
  by (cases c) (auto simp: own_defs run_defs wp_simps Let_def unlock_sessions lock_sessions
    locked_out_def [of u m]
    dest!: is_unlocked_lockedD has_guardian_lockedD intro!: save_intros split: option.split sum.split prod.split)

lemma perform_locked:
  assumes "locked_out u m" "v \<noteq> u \<or> c \<noteq> Own Unlock"
  shows "wp (perform w mt now v c) (\<lambda>_. locked_out u) (\<lambda>_. locked_out u) m"
  using assms
  by (cases c) (simp_all add: account_locked person_locked household_locked open_locked setup_locked read_locked own_locked)

lemma admit_locked: "locked_out u m \<Longrightarrow> locked_out u (snd (admit w mt now v c m))"
  by (auto simp: admit_def requirement_eq locked_out_def is_unlocked_locked prove_guardian_def on_guard_def
      bind_run_def raise_run_def update_run_def split: prod.split sum.split)

lemma handled_locked:
  assumes "locked_out u m" "u \<noteq> 0" "v = u \<longrightarrow> only_free u w"
  shows "locked_out u (snd (handle_call w mt now v c m))"
proof -
  have "wp (handle_call w mt now v c) (\<lambda>_. locked_out u) (\<lambda>_. locked_out u) m"
  proof (rule wp_handle)
    fix e m' assume "admit w mt now v c m = (Inl e, m')"
    then show "locked_out u m'" using admit_locked [OF assms(1)] by (metis snd_conv)
  next
    fix snap assume a: "admit w mt now v c m = (Inr (), snap)"
    then have l: "locked_out u snap" using admit_locked [OF assms(1)] by (metis snd_conv)
    have "v \<noteq> u \<or> c \<noteq> Own Unlock"
    proof (rule ccontr)
      assume "\<not> (v \<noteq> u \<or> c \<noteq> Own Unlock)"
      then have "v = u" "c = Own Unlock" by auto
      moreover have "\<exists>e. fst (admit w mt now u (Own Unlock) m) = Inl e"
        using assms(3) \<open>v = u\<close> own_free [of Unlock]
        by (intro not_free_refused [OF assms(1,2)]) (auto simp: SETUP_READS_def)
      ultimately show False using a by simp
    qed
    from perform_locked [OF l this]
    show "wp (perform w mt now v c) (\<lambda>r m'. locked_out u (note_change v c m'))
        (\<lambda>e m'. locked_out u (roll_back snap m')) snap"
      by (rule wp_mono) simp_all
  qed
  then show ?thesis by (simp add: wp_def split: prod.splits sum.splits)
qed

section \<open>What it changes\<close>

text \<open>A list of calls, each with the world it meets, the two clocks and the caller.\<close>

type_synonym step = "world \<times> time \<times> rat \<times> int \<times> call"

fun serve :: "step list \<Rightarrow> machine \<Rightarrow> machine" where
  "serve [] m = m"
| "serve ((w, mt, now, caller, c) # steps) m = serve steps (snd (handle_call w mt now caller c m))"

lemma serve_locked:
  assumes "locked_out u m" "u \<noteq> 0" "\<And>w mt now c. (w, mt, now, u, c) \<in> set steps \<Longrightarrow> only_free u w"
  shows "locked_out u (serve steps m)"
  using assms(1,3)
  by (induction steps m rule: serve.induct) (auto intro!: handled_locked assms(2))

lemma free_call_keeps:
  assumes "locked_out u m" "u \<noteq> 0" "only_free u w"
  shows "but_desktop u (pol (snd (handle_call w mt now u c m))) = but_desktop u (pol m)"
proof -
  have refused: ?thesis if "\<exists>e. fst (admit w mt now u c m) = Inl e"
    using that by (cases "admit w mt now u c m") (auto simp: handle_call_def admit_same)
  show ?thesis
  proof (cases "method_of c \<in> set free_methods \<or> method_of c \<in> set SETUP_READS")
    case False
    then show ?thesis using refused not_free_refused [OF assms] by blast
  next
    case True
    have "wp (handle_call w mt now u c) (\<lambda>_ m'. but_desktop u (pol m') = but_desktop u (pol m))
        (\<lambda>_ m'. but_desktop u (pol m') = but_desktop u (pol m)) m"
    proof (rule wp_handle)
      fix snap assume a: "admit w mt now u c m = (Inr (), snap)"
      then have p: "pol snap = pol m" by (simp add: admit_same)
      have "wp (perform w mt now u c) (\<lambda>_ m'. but_desktop u (pol m') = but_desktop u (pol snap)) (\<lambda>_ _. True) snap"
        using True
      proof (cases c)
        case (Setup x)
        then have "x = IsComplete \<or> x = AdminExists"
          using setup_refused [of m x w mt now u] assms(1) a by (auto simp: locked_out_def)
        then show ?thesis using Setup by (auto intro!: wp_mono [OF setup_read_same])
      next
        case (Reading x)
        then show ?thesis by (auto intro!: wp_mono [OF read_same])
      qed (use account_not_free person_not_free household_not_free open_not_free own_desktop account_not_read
            person_not_read household_not_read open_not_read in auto)
      then show "wp (perform w mt now u c) (\<lambda>r m'. but_desktop u (pol (note_change u c m')) = but_desktop u (pol m))
          (\<lambda>e m'. but_desktop u (pol (roll_back snap m')) = but_desktop u (pol m)) snap"
        by (rule wp_mono) (simp_all add: p)
    qed (simp add: admit_same)
    then show ?thesis by (simp add: wp_def split: prod.splits sum.splits)
  qed
qed

text \<open>
  Property C8: once the computer is set up, an ordinary account (not root, and one the system consents
  to only for the actions every account has) cannot change the policy beyond how its own desktop looks.
  Whatever calls it and everyone else made before, in whatever order, its next call, whichever it is,
  leaves every setting of every account, of the guest and of the household as it is, apart from its own
  layout and compositor.
\<close>

theorem ordinary_account_changes_only_its_desktop:
  assumes "setup_stamp m" "map_of (sessions (store m)) u = None" "u \<noteq> 0"
    and "\<And>w mt now c. (w, mt, now, u, c) \<in> set steps \<Longrightarrow> only_free u w" "only_free u w"
  shows "but_desktop u (pol (serve (steps @ [(w, mt, now, u, c)]) m)) = but_desktop u (pol (serve steps m))"
proof -
  have "locked_out u (serve steps m)"
    by (rule serve_locked) (use assms in \<open>auto simp: locked_out_def\<close>)
  moreover have "serve (steps @ [(w, mt, now, u, c)]) m = snd (handle_call w mt now u c (serve steps m))"
    by (induction steps m rule: serve.induct) simp_all
  ultimately show ?thesis using free_call_keeps assms(3,5) by metis
qed

text \<open>An administrator, \<open>dad\<close>, and an ordinary account, \<open>kid\<close>.\<close>

definition asking_world :: world where
  "asking_world = calm_world\<lparr>polkit := (\<lambda>u a. u = 1000 \<or> a \<in> set FREE_ACTIONS)\<rparr>"

definition family_home :: policy where
  "family_home = home\<lparr>users := users home @ [default_user 1001 ''kid'' ''filtered'']\<rparr>"

theorem ordinary_account_changes_only_its_desktop_witness:
  "but_desktop 1001 (pol (serve ([(asking_world, 0, 0, 1000, Own Unlock)]
       @ [(asking_world, 1, 1, 1001, Account 1001 (SetFilterMode ''unfiltered'') ''secret'')]) (started family_home)))
   = but_desktop 1001 (pol (serve [(asking_world, 0, 0, 1000, Own Unlock)] (started family_home)))"
  by (rule ordinary_account_changes_only_its_desktop)
     (auto simp: only_free_def asking_world_def calm_world_def started_def new_store_def)

text \<open>Its own layout it may set.\<close>

lemma own_desktop_is_its_own:
  "case handle_call asking_world 0 0 1001 (Own (SetMyLayout ''tiling'')) (started family_home) of
     (r, m') \<Rightarrow> r = Inr JNull \<and> map layout (users (pol m')) = [DEFAULT_LAYOUT, ''tiling'']"
  by code_simp

end
