(* ===== verification/ProxyRules.thy ===== *)
theory ProxyRules
  imports Filtering BuildSources
begin

text \<open>
  The rules file between kosherd and its proxy: \<open>write_mitm_rules\<close> of \<open>kosherd/src/kosherd/apply.py\<close>
  and \<open>PolicyCache\<close> of \<open>mitm/kosher_filter.py\<close>, which reads it back.  \<open>repr\<close> is \<open>str()\<close> of a JSON
  value that is not a string.
\<close>

section \<open>What kosherd writes\<close>

text \<open>One entry of \<open>developers\<close>, as \<open>developer_filters\<close> builds it.\<close>

definition filter_to_dict :: "build_filter \<Rightarrow> doc" where
  "filter_to_dict f =
     [(''username'', JStr (bf_username f)), (''mode'', JStr (bf_mode f)),
      (''rules'', JList (map JObj (bf_rules f))),
      (''blocked_categories'', JList (map JStr (bf_blocked f)))]
     @ (case bf_hosts f of None \<Rightarrow> [] | Some hs \<Rightarrow> [(''allowed_hosts'', JList (map JStr hs))])"

definition user_entry :: "string list \<Rightarrow> policy \<Rightarrow> int \<Rightarrow> user_policy \<Rightarrow> doc" where
  "user_entry tailnet p port u =
     [(''port'', JInt port),
      (''rules'', JList (map JObj (rules u))),
      (''blocked_categories'', JList (map JStr (blocked_categories u))),
      (''media_level'', JStr (media_level u)),
      (''cover_style'', JStr (cover_style u)),
      (''language_filter'', JStr (language_filter u)),
      (''youtube'', JObj (youtube u)),
      (''calm'', JObj (calm u)),
      (''system_allowed'', JList (map JStr tailnet)),
      (''never_blocked'', JList (map JStr (combined (adblock_allowed p))))]"

definition builder_entry :: "build_filter list \<Rightarrow> doc" where
  "builder_entry filters =
     [(''port'', JInt BUILDER_PORT),
      (''developers'', JList (map (JObj \<circ> filter_to_dict) filters)),
      (''rules'', JList []), (''blocked_categories'', JList []),
      (''media_level'', JStr ''none''), (''cover_style'', JStr ''frost''),
      (''language_filter'', JStr ''off''), (''youtube'', JObj []), (''calm'', JObj [])]"

definition user_entries :: "string list \<Rightarrow> policy \<Rightarrow> doc" where
  "user_entries tailnet p =
     fold (\<lambda>u. dict_set (show_int (uid u)) (JObj (user_entry tailnet p (the (map_of (mitm_ports p) (uid u))) u)))
       (filter (\<lambda>u. mode u \<in> set INSPECTED_MODES) (effective_users p)) []"

definition rules_doc ::
  "(json \<Rightarrow> string) \<Rightarrow> doc \<Rightarrow> bool \<Rightarrow> string list \<Rightarrow> policy \<Rightarrow> doc result" where
  "rules_doc repr bundles builders tailnet p =
     (if builders
      then map_sum id (\<lambda>fs. dict_set ''builder'' (JObj (builder_entry fs)) (user_entries tailnet p))
             (developer_filters repr bundles p)
      else Inr (user_entries tailnet p))"

text \<open>The ports the proxy is started on.\<close>

definition listen_ports :: "bool \<Rightarrow> policy \<Rightarrow> int list" where
  "listen_ports builders p = sort (sort (map snd (mitm_ports p)) @ (if builders then [BUILDER_PORT] else []))"

definition listen_env :: "bool \<Rightarrow> policy \<Rightarrow> string" where
  "listen_env builders p =
     ''MITM_MODES='' @ join '' '' (map (\<lambda>q. ''--mode transparent@127.0.0.1:'' @ show_int q) (listen_ports builders p))
       @ [CHR 0x0A]"

section \<open>Reading a JSON value in Python\<close>

definition wrong_type :: string where "wrong_type = ''TypeError''"

text \<open>\<open>int(s)\<close> on text: a sign, and digits that single underscores may separate.\<close>

definition int_of_text :: "string \<Rightarrow> int result" where
  "int_of_text text =
     (let s = strip is_space text;
          negative = starts_with s ''-'';
          ds = (if negative \<or> starts_with s ''+'' then drop 1 s else s) in
      if list_all is_digits (split_on CHR ''_'' ds)
      then (let n = int (nat_of_digits (filter (\<lambda>c. c \<noteq> CHR ''_'') ds)) in Inr (if negative then - n else n))
      else Inl ''ValueError'')"

fun json_int :: "json \<Rightarrow> int result" where
  "json_int (JInt i) = Inr i"
| "json_int (JBool b) = Inr (if b then 1 else 0)"
| "json_int (JStr s) = int_of_text s"
| "json_int _ = Inl wrong_type"

text \<open>\<open>list(v)\<close>, and \<open>dict(v)\<close> of a mapping or of something empty; a list of pairs is refused here.\<close>

fun json_list :: "json \<Rightarrow> json list result" where
  "json_list (JList xs) = Inr xs"
| "json_list (JStr s) = Inr (map (\<lambda>c. JStr [c]) s)"
| "json_list (JObj d) = Inr (map (JStr \<circ> fst) d)"
| "json_list _ = Inl wrong_type"

fun json_dict :: "json \<Rightarrow> doc result" where
  "json_dict (JObj d) = Inr d"
| "json_dict (JList []) = Inr []"
| "json_dict (JStr []) = Inr []"
| "json_dict _ = Inl wrong_type"

definition json_text :: "(json \<Rightarrow> string) \<Rightarrow> json \<Rightarrow> string" where
  "json_text repr v = (case v of JStr s \<Rightarrow> s | _ \<Rightarrow> repr v)"

text \<open>\<open>parse_rules(v)\<close>.\<close>

fun rule_of_value :: "json \<Rightarrow> url_rule result" where
  "rule_of_value (JObj d) = json_rule d"
| "rule_of_value _ = Inl wrong_type"

definition rules_of_value :: "json \<Rightarrow> url_rule list result" where
  "rules_of_value v = bind_result (json_list v) (map_result rule_of_value)"

text \<open>\<open>load_developers\<close> on the entries of the file; \<open>x or y\<close> is \<open>or_else\<close>.\<close>

definition or_else :: "doc \<Rightarrow> string \<Rightarrow> json \<Rightarrow> json" where
  "or_else d k x = (let v = dict_get d k JNull in if truthy v then v else x)"

fun load_entry :: "(json \<Rightarrow> string) \<Rightarrow> json \<Rightarrow> developer result" where
  "load_entry repr (JObj d) =
     bind_result (rules_of_value (or_else d ''rules'' (JList []))) (\<lambda>rs.
     bind_result (json_list (or_else d ''blocked_categories'' (JList []))) (\<lambda>blocked.
     bind_result (case dict_get d ''allowed_hosts'' JNull of
                    JNull \<Rightarrow> Inr None
                  | v \<Rightarrow> map_sum id (Some \<circ> map (json_text repr)) (json_list v)) (\<lambda>hosts.
     Inr \<lparr>dev_username = json_text repr (or_else d ''username'' (JStr ''an account'')),
          dev_rules = rs, dev_blocked = map (json_text repr) blocked, dev_hosts = hosts\<rparr>)))"
| "load_entry repr _ = Inl no_attribute"

definition load_entries :: "(json \<Rightarrow> string) \<Rightarrow> json \<Rightarrow> developer list result" where
  "load_entries repr v = bind_result (if truthy v then json_list v else Inr []) (map_result (load_entry repr))"

section \<open>What the proxy keeps\<close>

definition BUILDER_UID :: int where "BUILDER_UID = -2"

record policy_cache =
  px_mtime :: int
  px_by_port :: "(int, int) dict"
  px_rules :: "(int, url_rule list) dict"
  px_blocked :: "(int, json list) dict"
  px_media :: "(int, json) dict"
  px_cover :: "(int, json) dict"
  px_language :: "(int, json) dict"
  px_youtube :: "(int, doc) dict"
  px_calm :: "(int, doc) dict"
  px_system :: "(int, string list) dict"
  px_developers :: "developer list option"

definition empty_cache :: "int \<Rightarrow> policy_cache" where
  "empty_cache mtime =
     \<lparr>px_mtime = mtime, px_by_port = [], px_rules = [], px_blocked = [], px_media = [], px_cover = [],
      px_language = [], px_youtube = [], px_calm = [], px_system = [], px_developers = None\<rparr>"

text \<open>
  One entry of the file.  An exception ends the entry and keeps what it has set so far: the port
  before the rules, the rules before the rest.
\<close>

definition then_keep :: "'a result \<Rightarrow> policy_cache \<Rightarrow> ('a \<Rightarrow> policy_cache) \<Rightarrow> policy_cache" where
  "then_keep r c f = (case r of Inl e \<Rightarrow> c | Inr a \<Rightarrow> f a)"

definition entry_port :: "doc \<Rightarrow> int option result" where
  "entry_port e = (case dict_get e ''port'' JNull of JNull \<Rightarrow> Inr None | v \<Rightarrow> map_sum id Some (json_int v))"

definition entry_names :: "(json \<Rightarrow> string) \<Rightarrow> doc \<Rightarrow> string list result" where
  "entry_names repr e =
     bind_result (json_list (dict_get e ''system_allowed'' (JList []))) (\<lambda>xs.
     bind_result (json_list (dict_get e ''never_blocked'' (JList []))) (\<lambda>ys.
     Inr (map (lower \<circ> json_text repr) (xs @ ys))))"

definition read_settings :: "(json \<Rightarrow> string) \<Rightarrow> int \<Rightarrow> doc \<Rightarrow> policy_cache \<Rightarrow> policy_cache" where
  "read_settings repr i e c =
     then_keep (json_list (dict_get e ''blocked_categories'' (JList []))) c (\<lambda>blocked.
     let c = c\<lparr>px_blocked := dict_set i blocked (px_blocked c),
               px_media := dict_set i (dict_get e ''media_level'' (JStr ''none'')) (px_media c),
               px_cover := dict_set i (dict_get e ''cover_style'' (JStr ''frost'')) (px_cover c),
               px_language := dict_set i (dict_get e ''language_filter'' (JStr ''off'')) (px_language c)\<rparr> in
     then_keep (json_dict (dict_get e ''youtube'' (JObj []))) c (\<lambda>y.
     let c = c\<lparr>px_youtube := dict_set i y (px_youtube c)\<rparr> in
     then_keep (json_dict (dict_get e ''calm'' (JObj []))) c (\<lambda>q.
     let c = c\<lparr>px_calm := dict_set i q (px_calm c)\<rparr> in
     then_keep (entry_names repr e) c (\<lambda>names.
     let c = c\<lparr>px_system := dict_set i names (px_system c)\<rparr> in
     (case dict_get e ''developers'' JNull of
        JNull \<Rightarrow> c
      | v \<Rightarrow> if i = BUILDER_UID
            then then_keep (load_entries repr v) c (\<lambda>ds. c\<lparr>px_developers := Some ds\<rparr>) else c)))))"

definition read_entry :: "(json \<Rightarrow> string) \<Rightarrow> string \<times> json \<Rightarrow> policy_cache \<Rightarrow> policy_cache" where
  "read_entry repr item c =
     (case item of (text, raw) \<Rightarrow>
      then_keep (if text = ''builder'' then Inr BUILDER_UID else int_of_text text) c (\<lambda>i.
      let e = (case raw of JObj d \<Rightarrow> d | _ \<Rightarrow> [(''rules'', raw)]) in
      then_keep (entry_port e) c (\<lambda>port.
      let c = (case port of None \<Rightarrow> c | Some q \<Rightarrow> c\<lparr>px_by_port := dict_set q i (px_by_port c)\<rparr>) in
      then_keep (rules_of_value (dict_get e ''rules'' (JList []))) c (\<lambda>rs.
      read_settings repr i e (c\<lparr>px_rules := dict_set i rs (px_rules c)\<rparr>)))))"

text \<open>
  \<open>_refresh\<close>: the file as its time and its document, \<open>None\<close> for a file that is not there and no
  document for one that does not parse.  A document that is no object has no \<open>items()\<close>.
\<close>

definition refresh ::
  "(json \<Rightarrow> string) \<Rightarrow> (int \<times> json option) option \<Rightarrow> policy_cache \<Rightarrow> policy_cache result" where
  "refresh repr file c =
     (case file of None \<Rightarrow> Inr c
      | Some (mtime, content) \<Rightarrow>
        if mtime = px_mtime c then Inr c
        else (case content of None \<Rightarrow> Inr c
              | Some (JObj d) \<Rightarrow> Inr (fold (read_entry repr) d (empty_cache mtime))
              | Some _ \<Rightarrow> Inl no_attribute))"

section \<open>What the proxy asks\<close>

text \<open>The floor under an account the file does not name.\<close>

definition fail_closed_blocked :: "json list" where "fail_closed_blocked = map JStr DEFAULT_BLOCKED"
definition fail_closed_youtube :: doc where "fail_closed_youtube = [(''restrict'', JStr ''strict'')]"

definition is_known :: "policy_cache \<Rightarrow> int option \<Rightarrow> bool" where
  "is_known c i = (case i of None \<Rightarrow> False | Some i \<Rightarrow> i \<in> set (keys (px_rules c)))"

definition for_uid :: "policy_cache \<Rightarrow> int option \<Rightarrow> 'a \<Rightarrow> (int, 'a) dict \<Rightarrow> 'a \<Rightarrow> 'a" where
  "for_uid c i floor d unset = (if is_known c i then dict_get d (the i) unset else floor)"

definition uid_for_listener_port :: "policy_cache \<Rightarrow> int option \<Rightarrow> int option" where
  "uid_for_listener_port c port = (case port of None \<Rightarrow> None | Some q \<Rightarrow> map_of (px_by_port c) q)"

definition rules_for :: "policy_cache \<Rightarrow> int option \<Rightarrow> url_rule list" where
  "rules_for c i = for_uid c i [] (px_rules c) []"

definition blocked_categories_for :: "policy_cache \<Rightarrow> int option \<Rightarrow> json list" where
  "blocked_categories_for c i = for_uid c i fail_closed_blocked (px_blocked c) []"

definition system_allowed_for :: "policy_cache \<Rightarrow> int option \<Rightarrow> string list" where
  "system_allowed_for c i = for_uid c i [] (px_system c) []"

definition media_level_for :: "policy_cache \<Rightarrow> int option \<Rightarrow> json" where
  "media_level_for c i = for_uid c i (JStr ''immodest'') (px_media c) (JStr ''none'')"

definition cover_style_for :: "policy_cache \<Rightarrow> int option \<Rightarrow> json" where
  "cover_style_for c i = for_uid c i (JStr ''frost'') (px_cover c) (JStr ''frost'')"

definition language_filter_for :: "policy_cache \<Rightarrow> int option \<Rightarrow> json" where
  "language_filter_for c i = for_uid c i (JStr ''substitute'') (px_language c) (JStr ''off'')"

definition youtube_for :: "policy_cache \<Rightarrow> int option \<Rightarrow> doc" where
  "youtube_for c i = for_uid c i fail_closed_youtube (px_youtube c) []"

definition calm_for :: "policy_cache \<Rightarrow> int option \<Rightarrow> doc" where
  "calm_for c i = for_uid c i [] (px_calm c) []"

section \<open>Numbers as text\<close>

lemma dropWhile_hd: "s \<noteq> [] \<Longrightarrow> \<not> f (hd s) \<Longrightarrow> dropWhile f s = s"
  by (cases s) simp_all

lemma strip_id: "s \<noteq> [] \<Longrightarrow> \<not> f (hd s) \<Longrightarrow> \<not> f (last s) \<Longrightarrow> strip f s = s"
  by (simp add: strip_def rstrip_def dropWhile_hd hd_rev)

lemma digit_chars: "is_digits s \<Longrightarrow> c \<in> set s \<Longrightarrow> 48 \<le> (of_char c :: nat) \<and> of_char c \<le> (57 :: nat)"
  by (auto simp: is_digits_def list_all_iff)

lemma digits_not_Nil: "is_digits s \<Longrightarrow> s \<noteq> []"
  by (simp add: is_digits_def)

lemma digits_avoid:
  assumes "is_digits s" and "(of_char c :: nat) < 48 \<or> 57 < (of_char c :: nat)"
  shows "c \<notin> set s"
  using digit_chars [OF assms(1), of c] assms(2) by auto

lemma digits_no_space: "is_digits s \<Longrightarrow> c \<in> set s \<Longrightarrow> \<not> is_space c"
  by (drule (1) digit_chars) (auto simp: is_space_def)

lemma int_of_digits:
  assumes s: "is_digits s"
  shows "int_of_text s = Inr (int (nat_of_digits s))" and "int_of_text (CHR ''-'' # s) = Inr (- int (nat_of_digits s))"
proof -
  have u: "CHR ''_'' \<notin> set s" and m: "CHR ''-'' \<notin> set s" and p: "CHR ''+'' \<notin> set s"
    by (rule digits_avoid [OF s], simp)+
  have ne: "s \<noteq> []" using s by (rule digits_not_Nil)
  have sp: "\<not> is_space (hd s)" "\<not> is_space (last s)"
    using digits_no_space [OF s] ne by (blast intro: hd_in_set last_in_set)+
  then have st: "strip is_space s = s" using ne by (intro strip_id)
  have "\<not> is_space CHR ''-''" by (simp add: is_space_def)
  then have sm: "strip is_space (CHR ''-'' # s) = CHR ''-'' # s"
    using sp ne by (intro strip_id) simp_all
  have f: "filter (\<lambda>c. c \<noteq> CHR ''_'') s = s" using u by (auto simp: filter_id_conv)
  have no: "\<not> starts_with s ''-''" "\<not> starts_with s ''+''"
    using m p ne by (auto simp: starts_with_def prefix_def)
  show "int_of_text s = Inr (int (nat_of_digits s))"
    using s by (simp add: int_of_text_def st split_on_id [OF u] f no)
  show "int_of_text (CHR ''-'' # s) = Inr (- int (nat_of_digits s))"
    using s by (simp add: int_of_text_def sm split_on_id [OF u] f starts_with_def)
qed

lemma int_of_show_int [simp]: "int_of_text (show_int i) = Inr i"
  by (simp add: show_int_def int_of_digits show_nat_digits)

lemma show_int_inj: "show_int i = show_int j \<longleftrightarrow> i = j"
proof
  assume "show_int i = show_int j"
  then have "int_of_text (show_int i) = int_of_text (show_int j)" by simp
  then show "i = j" by simp
qed simp

lemma show_int_not_builder: "show_int i \<noteq> ''builder''"
proof
  assume "show_int i = ''builder''"
  then have "int_of_text ''builder'' = Inr i" by (metis int_of_show_int)
  moreover have "\<not> is_digits ''builder''" by (simp add: is_digits_def)
  ultimately show False by (simp add: int_of_text_def strip_def rstrip_def is_space_def starts_with_def split: if_splits)
qed

section \<open>The entries of the file\<close>

lemma dict_set_fresh: "k \<notin> set (keys d) \<Longrightarrow> dict_set k v d = d @ [(k, v)]"
  by (induction k v d rule: dict_set.induct) auto

lemma entries_are_map:
  assumes "distinct (map f xs)"
  shows "fold (\<lambda>x. dict_set (f x) (g x)) xs [] = map (\<lambda>x. (f x, g x)) xs"
proof -
  have "fold (\<lambda>x. dict_set (f x) (g x)) xs d = d @ map (\<lambda>x. (f x, g x)) xs"
    if "distinct (map f xs)" "set (keys d) \<inter> f ` set xs = {}" for d
    using that
  proof (induction xs arbitrary: d)
    case (Cons x xs)
    then have "dict_set (f x) (g x) d = d @ [(f x, g x)]" by (intro dict_set_fresh) auto
    moreover have "set (keys (d @ [(f x, g x)])) \<inter> f ` set xs = {}" using Cons.prems by force
    ultimately show ?case using Cons by simp
  qed simp
  from this [OF assms, of "[]"] show ?thesis by simp
qed

definition inspected_users :: "policy \<Rightarrow> user_policy list" where
  "inspected_users p = filter (\<lambda>u. mode u \<in> set INSPECTED_MODES) (effective_users p)"

lemma user_entries_map:
  assumes "distinct (map uid (effective_users p))"
  shows "user_entries tailnet p
    = map (\<lambda>u. (show_int (uid u), JObj (user_entry tailnet p (the (map_of (mitm_ports p) (uid u))) u)))
        (inspected_users p)"
proof -
  have "distinct (map (show_int \<circ> uid) (inspected_users p))"
    using assms unfolding inspected_users_def
    by (auto simp: distinct_map show_int_inj inj_on_def distinct_filter)
  then show ?thesis
    unfolding user_entries_def inspected_users_def [symmetric] by (intro entries_are_map) (simp add: comp_def)
qed

text \<open>What an entry of an account leaves in the cache.\<close>

definition entry_kept :: "string list \<Rightarrow> policy \<Rightarrow> user_policy \<Rightarrow> policy_cache \<Rightarrow> policy_cache" where
  "entry_kept tailnet p u c =
     (let c = c\<lparr>px_by_port := dict_set (the (map_of (mitm_ports p) (uid u))) (uid u) (px_by_port c)\<rparr> in
      case json_rules (rules u) of Inl e \<Rightarrow> c
      | Inr rs \<Rightarrow>
        c\<lparr>px_rules := dict_set (uid u) rs (px_rules c),
          px_blocked := dict_set (uid u) (map JStr (blocked_categories u)) (px_blocked c),
          px_media := dict_set (uid u) (JStr (media_level u)) (px_media c),
          px_cover := dict_set (uid u) (JStr (cover_style u)) (px_cover c),
          px_language := dict_set (uid u) (JStr (language_filter u)) (px_language c),
          px_youtube := dict_set (uid u) (youtube u) (px_youtube c),
          px_calm := dict_set (uid u) (calm u) (px_calm c),
          px_system := dict_set (uid u) (map lower (tailnet @ combined (adblock_allowed p))) (px_system c)\<rparr>)"

lemma rules_of_objects: "rules_of_value (JList (map JObj ds)) = json_rules ds"
proof -
  have "map_result rule_of_value (map JObj ds) = map_result json_rule ds" by (induction ds) simp_all
  then show ?thesis by (simp add: rules_of_value_def json_rules_def)
qed

lemma texts_of [simp]: "json_text repr \<circ> JStr = id" "lower \<circ> json_text repr \<circ> JStr = lower"
  by (auto simp: json_text_def)

lemma read_user_entry:
  "read_entry repr (show_int (uid u), JObj (user_entry tailnet p (the (map_of (mitm_ports p) (uid u))) u)) c
   = entry_kept tailnet p u c"
proof -
  have g: "dict_get (user_entry tailnet p q u) ''port'' x = JInt q"
    "dict_get (user_entry tailnet p q u) ''rules'' x = JList (map JObj (rules u))"
    "dict_get (user_entry tailnet p q u) ''blocked_categories'' x = JList (map JStr (blocked_categories u))"
    "dict_get (user_entry tailnet p q u) ''media_level'' x = JStr (media_level u)"
    "dict_get (user_entry tailnet p q u) ''cover_style'' x = JStr (cover_style u)"
    "dict_get (user_entry tailnet p q u) ''language_filter'' x = JStr (language_filter u)"
    "dict_get (user_entry tailnet p q u) ''youtube'' x = JObj (youtube u)"
    "dict_get (user_entry tailnet p q u) ''calm'' x = JObj (calm u)"
    "dict_get (user_entry tailnet p q u) ''system_allowed'' x = JList (map JStr tailnet)"
    "dict_get (user_entry tailnet p q u) ''never_blocked'' x = JList (map JStr (combined (adblock_allowed p)))"
    "dict_get (user_entry tailnet p q u) ''developers'' x = x" for q x
    by (simp_all add: user_entry_def dict_get_def)
  show ?thesis
    by (simp add: read_entry_def show_int_not_builder then_keep_def entry_port_def g rules_of_objects
        read_settings_def entry_names_def entry_kept_def Let_def split: sum.split)
qed

text \<open>What the cache holds of one account, field by field, and what an entry writes there.\<close>

definition settings_at where
  "settings_at c i =
     (map_of (px_rules c) i, map_of (px_blocked c) i, map_of (px_media c) i, map_of (px_cover c) i,
      map_of (px_language c) i, map_of (px_youtube c) i, map_of (px_calm c) i, map_of (px_system c) i)"

definition written where
  "written tailnet p u rs =
     (Some rs, Some (map JStr (blocked_categories u)), Some (JStr (media_level u)), Some (JStr (cover_style u)),
      Some (JStr (language_filter u)), Some (youtube u), Some (calm u),
      Some (map lower (tailnet @ combined (adblock_allowed p))))"

lemma settings_at_kept:
  "settings_at (entry_kept tailnet p u c) i
   = (if i = uid u then case json_rules (rules u) of Inl _ \<Rightarrow> settings_at c i | Inr rs \<Rightarrow> written tailnet p u rs
      else settings_at c i)"
  by (simp add: entry_kept_def settings_at_def written_def Let_def split: sum.split)

lemma ports_kept:
  "map_of (px_by_port (entry_kept tailnet p u c)) q
   = (if q = the (map_of (mitm_ports p) (uid u)) then Some (uid u) else map_of (px_by_port c) q)"
  by (simp add: entry_kept_def Let_def split: sum.split)

lemma developers_kept: "px_developers (entry_kept tailnet p u c) = px_developers c"
  by (simp add: entry_kept_def Let_def split: sum.split)

lemma settings_at_fold:
  assumes "distinct (map uid us)"
  shows "settings_at (fold (entry_kept tailnet p) us c) i
    = (case find (\<lambda>u. uid u = i) us of None \<Rightarrow> settings_at c i
       | Some u \<Rightarrow> (case json_rules (rules u) of Inl _ \<Rightarrow> settings_at c i | Inr rs \<Rightarrow> written tailnet p u rs))"
  using assms
proof (induction us arbitrary: c)
  case (Cons u us)
  show ?case
  proof (cases "uid u = i")
    case True
    with Cons.prems have "find (\<lambda>u. uid u = i) us = None"
      by (metis (mono_tags, lifting) distinct.simps(2) find_None_iff list.simps(9) nth_map list.set_map image_eqI)
    with True Cons show ?thesis by (simp add: settings_at_kept)
  qed (use Cons in \<open>simp add: settings_at_kept split: option.split sum.split\<close>)
qed simp

lemma ports_fold:
  assumes "u \<in> set us" and "inj_on (\<lambda>u. the (map_of (mitm_ports p) (uid u))) (set us)"
  shows "map_of (px_by_port (fold (entry_kept tailnet p) us c)) (the (map_of (mitm_ports p) (uid u))) = Some (uid u)"
proof -
  let ?q = "the (map_of (mitm_ports p) (uid u))"
  have "map_of (px_by_port (fold (entry_kept tailnet p) us c)) ?q = Some (uid u)"
    if "set us \<subseteq> S" "u \<in> S" "inj_on (\<lambda>u. the (map_of (mitm_ports p) (uid u))) S"
      "u \<in> set us \<or> map_of (px_by_port c) ?q = Some (uid u)" for S us
    using that
  proof (induction us arbitrary: c)
    case (Cons v us)
    have "the (map_of (mitm_ports p) (uid v)) = ?q \<longleftrightarrow> v = u"
      using Cons.prems(1-3) by (auto dest: inj_onD)
    with Cons.prems have "u \<in> set us \<or> map_of (px_by_port (entry_kept tailnet p v c)) ?q = Some (uid u)"
      by (auto simp: ports_kept)
    then show ?case using Cons.IH [of "entry_kept tailnet p v c"] Cons.prems(1-3) by simp
  qed simp
  from this [of us "set us"] assms show ?thesis by simp
qed

lemma ports_fold_other:
  assumes "q \<notin> (\<lambda>u. the (map_of (mitm_ports p) (uid u))) ` set us"
  shows "map_of (px_by_port (fold (entry_kept tailnet p) us c)) q = map_of (px_by_port c) q"
  using assms by (induction us arbitrary: c) (auto simp: ports_kept)

lemma developers_fold: "px_developers (fold (entry_kept tailnet p) us c) = px_developers c"
  by (induction us arbitrary: c) (simp_all add: developers_kept)

text \<open>The builders' entry.\<close>

lemma load_written_entry: "load_entry repr (JObj (filter_to_dict f)) = load_developer f"
proof -
  have g: "dict_get (filter_to_dict f) ''username'' x = JStr (bf_username f)"
    "dict_get (filter_to_dict f) ''rules'' x = JList (map JObj (bf_rules f))"
    "dict_get (filter_to_dict f) ''blocked_categories'' x = JList (map JStr (bf_blocked f))"
    "dict_get (filter_to_dict f) ''allowed_hosts'' JNull
     = (case bf_hosts f of None \<Rightarrow> JNull | Some hs \<Rightarrow> JList (map JStr hs))" for x
    by (simp_all add: filter_to_dict_def dict_get_def split: option.split)
  have or: "or_else (filter_to_dict f) ''rules'' (JList []) = JList (map JObj (bf_rules f))"
    "or_else (filter_to_dict f) ''blocked_categories'' (JList []) = JList (map JStr (bf_blocked f))"
    "json_text repr (or_else (filter_to_dict f) ''username'' (JStr ''an account''))
     = (if bf_username f = [] then ''an account'' else bf_username f)"
    by (simp_all add: or_else_def g json_text_def)
  show ?thesis
    by (cases "json_rules (bf_rules f)"; cases "bf_hosts f")
      (simp_all add: g or rules_of_objects load_developer_def)
qed

lemma load_written: "load_entries repr (JList (map (JObj \<circ> filter_to_dict) fs)) = load_developers fs"
proof -
  have "map_result (load_entry repr) (map (JObj \<circ> filter_to_dict) fs) = map_result load_developer fs"
    by (induction fs) (simp_all add: load_written_entry del: load_entry.simps)
  then show ?thesis by (cases fs) (simp_all add: load_entries_def load_developers_def del: load_entry.simps)
qed

lemma read_builder_entry:
  fixes repr :: "json \<Rightarrow> string"
  defines "c' \<equiv> \<lambda>fs c. read_entry repr (''builder'', JObj (builder_entry fs)) c"
  shows "i \<noteq> BUILDER_UID \<Longrightarrow> settings_at (c' fs c) i = settings_at c i"
    and "map_of (px_by_port (c' fs c)) q = (if q = BUILDER_PORT then Some BUILDER_UID else map_of (px_by_port c) q)"
    and "load_developers fs = Inr ds \<Longrightarrow> px_developers (c' fs c) = Some ds"
proof -
  have g: "dict_get (builder_entry fs) ''port'' x = JInt BUILDER_PORT"
    "dict_get (builder_entry fs) ''rules'' x = JList []"
    "dict_get (builder_entry fs) ''blocked_categories'' x = JList []"
    "dict_get (builder_entry fs) ''youtube'' x = JObj []" "dict_get (builder_entry fs) ''calm'' x = JObj []"
    "dict_get (builder_entry fs) ''system_allowed'' x = x" "dict_get (builder_entry fs) ''never_blocked'' x = x"
    "dict_get (builder_entry fs) ''developers'' x = JList (map (JObj \<circ> filter_to_dict) fs)" for x fs
    by (simp_all add: builder_entry_def dict_get_def)
  note s = c'_def read_entry_def then_keep_def entry_port_def g rules_of_value_def read_settings_def entry_names_def
    load_written Let_def
  show "i \<noteq> BUILDER_UID \<Longrightarrow> settings_at (c' fs c) i = settings_at c i"
    by (simp add: s settings_at_def split: sum.split)
  show "map_of (px_by_port (c' fs c)) q = (if q = BUILDER_PORT then Some BUILDER_UID else map_of (px_by_port c) q)"
    by (simp add: s split: sum.split)
  show "load_developers fs = Inr ds \<Longrightarrow> px_developers (c' fs c) = Some ds"
    by (simp add: s)
qed

section \<open>The settings arrive\<close>

lemma inspected_port:
  assumes "u \<in> set (inspected_users p)"
  obtains q where "map_of (mitm_ports p) (uid u) = Some q" and "q \<noteq> BUILDER_PORT"
proof -
  have "uid u \<in> set (inspected p)" using assms by (auto simp: inspected_def inspected_users_def)
  then obtain q where q: "map_of (mitm_ports p) (uid u) = Some q" using mitm_port_exists by blast
  moreover have "q \<noteq> BUILDER_PORT" using proxy_port_identifies [OF q q] by blast
  ultimately show thesis by (rule that)
qed

lemma inspected_ports_inj:
  assumes "distinct (map uid (effective_users p))"
  shows "inj_on (\<lambda>u. the (map_of (mitm_ports p) (uid u))) (set (inspected_users p))"
proof (rule inj_onI)
  fix u v assume u: "u \<in> set (inspected_users p)" and v: "v \<in> set (inspected_users p)"
    and eq: "the (map_of (mitm_ports p) (uid u)) = the (map_of (mitm_ports p) (uid v))"
  from u obtain q where "map_of (mitm_ports p) (uid u) = Some q" by (rule inspected_port)
  moreover from v obtain w where "map_of (mitm_ports p) (uid v) = Some w" by (rule inspected_port)
  ultimately have "uid u = uid v" using eq proxy_port_identifies [of p "uid u" q "uid v" w] by simp
  then show "u = v" using u v assms by (auto simp: inspected_users_def distinct_map dest: inj_onD)
qed

lemma empty_cache_fields [simp]: "px_by_port (empty_cache mtime) = []" "px_developers (empty_cache mtime) = None"
  by (simp_all add: empty_cache_def)

lemma find_inspected:
  assumes "distinct (map uid (effective_users p))" and "u \<in> set (inspected_users p)"
  shows "find (\<lambda>v. uid v = uid u) (inspected_users p) = Some u"
proof -
  obtain v where v: "find (\<lambda>v. uid v = uid u) (inspected_users p) = Some v"
    using assms(2) by (cases "find (\<lambda>v. uid v = uid u) (inspected_users p)") (auto simp: find_None_iff)
  then have "v \<in> set (inspected_users p)" "uid v = uid u" by (auto dest: find_SomeD)
  then have "v = u" using assms by (auto simp: inspected_users_def distinct_map dest: inj_onD)
  with v show ?thesis by simp
qed

lemma written_then_read:
  assumes d: "distinct (map uid (effective_users p))" and r: "rules_doc repr bundles builders tailnet p = Inr doc"
    and m: "mtime \<noteq> px_mtime old"
  obtains c where "refresh repr (Some (mtime, Some (JObj doc))) old = Inr c"
    and "\<And>i. i \<noteq> BUILDER_UID \<Longrightarrow> settings_at c i =
           (case find (\<lambda>u. uid u = i) (inspected_users p) of None \<Rightarrow> settings_at (empty_cache mtime) i
            | Some u \<Rightarrow> (case json_rules (rules u) of Inl _ \<Rightarrow> settings_at (empty_cache mtime) i
                       | Inr rs \<Rightarrow> written tailnet p u rs))"
    and "\<And>u. u \<in> set (inspected_users p) \<Longrightarrow>
           map_of (px_by_port c) (the (map_of (mitm_ports p) (uid u))) = Some (uid u)"
    and "map_of (px_by_port c) BUILDER_PORT = (if builders then Some BUILDER_UID else None)"
    and "\<And>fs ds. builders \<Longrightarrow> developer_filters repr bundles p = Inr fs \<Longrightarrow> load_developers fs = Inr ds
           \<Longrightarrow> px_developers c = Some ds"
proof -
  let ?us = "inspected_users p"
  let ?base = "fold (entry_kept tailnet p) ?us (empty_cache mtime)"
  have "(\<lambda>u. read_entry repr (show_int (uid u),
      JObj (user_entry tailnet p (the (map_of (mitm_ports p) (uid u))) u))) = entry_kept tailnet p"
    by (intro ext) (rule read_user_entry)
  then have "fold (read_entry repr) (user_entries tailnet p) c = fold (entry_kept tailnet p) ?us c" for c
    unfolding user_entries_map [OF d] by (simp add: fold_map comp_def)
  then have base: "fold (read_entry repr) (user_entries tailnet p) (empty_cache mtime) = ?base" .
  have sub: "set (map uid ?us) \<subseteq> set (map uid (effective_users p))" "distinct (map uid ?us)"
    using d by (auto simp: inspected_users_def distinct_map inj_on_def)
  have nb: "BUILDER_PORT \<notin> (\<lambda>u. the (map_of (mitm_ports p) (uid u))) ` set ?us"
    by (auto elim: inspected_port)
  note facts = settings_at_fold [OF sub(2)] ports_fold [OF _ inspected_ports_inj [OF d]] ports_fold_other [OF nb]
    developers_fold
  show thesis
  proof (cases builders)
    case False
    then show thesis using r m base facts nb by (intro that [of ?base]) (simp_all add: rules_doc_def refresh_def)
  next
    case True
    with r obtain fs where fs: "developer_filters repr bundles p = Inr fs"
      and doc: "doc = dict_set ''builder'' (JObj (builder_entry fs)) (user_entries tailnet p)"
      by (cases "developer_filters repr bundles p") (simp_all add: rules_doc_def)
    have "''builder'' \<notin> set (keys (user_entries tailnet p))"
      unfolding user_entries_map [OF d] by (auto simp: show_int_not_builder [symmetric])
    then have "doc = user_entries tailnet p @ [(''builder'', JObj (builder_entry fs))]"
      using doc dict_set_fresh by metis
    then show thesis using m base facts read_builder_entry [where repr = repr and fs = fs and c = ?base] fs True
      by (intro that [of "read_entry repr (''builder'', JObj (builder_entry fs)) ?base"])
        (auto simp: refresh_def elim: inspected_port split: if_splits)
  qed
qed

lemma settings_at_empty: "settings_at (empty_cache mtime) i = (None, None, None, None, None, None, None, None)"
  by (simp add: settings_at_def empty_cache_def)

lemma settings_at_read:
  "settings_at c i = written tailnet p u rs \<Longrightarrow>
     rules_for c (Some i) = rs \<and> blocked_categories_for c (Some i) = map JStr (blocked_categories u)
     \<and> media_level_for c (Some i) = JStr (media_level u) \<and> cover_style_for c (Some i) = JStr (cover_style u)
     \<and> language_filter_for c (Some i) = JStr (language_filter u) \<and> youtube_for c (Some i) = youtube u
     \<and> calm_for c (Some i) = calm u
     \<and> system_allowed_for c (Some i) = map lower (tailnet @ combined (adblock_allowed p))"
  using map_of_eq_None_iff [of "px_rules c" i]
  by (simp add: settings_at_def written_def rules_for_def blocked_categories_for_def media_level_for_def
      cover_style_for_def language_filter_for_def youtube_for_def calm_for_def system_allowed_for_def
      for_uid_def is_known_def dict_get_def)

lemma settings_at_floor:
  "settings_at c i = (None, None, None, None, None, None, None, None) \<Longrightarrow>
     rules_for c (Some i) = [] \<and> blocked_categories_for c (Some i) = fail_closed_blocked
     \<and> media_level_for c (Some i) = JStr ''immodest'' \<and> language_filter_for c (Some i) = JStr ''substitute''
     \<and> youtube_for c (Some i) = fail_closed_youtube \<and> system_allowed_for c (Some i) = []"
  using map_of_eq_None_iff [of "px_rules c" i]
  by (simp add: settings_at_def rules_for_def blocked_categories_for_def media_level_for_def
      language_filter_for_def youtube_for_def system_allowed_for_def for_uid_def is_known_def)

text \<open>
  Property C7: what kosherd writes for the proxy is what the proxy enforces.  Whatever the proxy held
  before, after it reads the file the port the firewall sends a filtered account to names that
  account, and the account's rules, categories, picture level, cover, language, YouTube and calm
  settings and never-blocked names are those of the policy.  An account the file does not describe,
  or one with a rule that does not parse, gets the floor, never an open web; and the builders' port
  names the builders, held to the developer accounts' filters.
\<close>

theorem settings_reach_proxy:
  assumes "distinct (map uid (effective_users p))"
    and "rules_doc repr bundles builders tailnet p = Inr doc" and "mtime \<noteq> px_mtime old"
  shows "\<exists>c. refresh repr (Some (mtime, Some (JObj doc))) old = Inr c
    \<and> (\<forall>u \<in> set (effective_users p). mode u \<in> set INSPECTED_MODES \<longrightarrow>
         uid_for_listener_port c (map_of (mitm_ports p) (uid u)) = Some (uid u)
         \<and> (\<forall>rs. json_rules (rules u) = Inr rs \<longrightarrow> uid u \<noteq> BUILDER_UID \<longrightarrow>
              rules_for c (Some (uid u)) = rs
              \<and> blocked_categories_for c (Some (uid u)) = map JStr (blocked_categories u)
              \<and> media_level_for c (Some (uid u)) = JStr (media_level u)
              \<and> cover_style_for c (Some (uid u)) = JStr (cover_style u)
              \<and> language_filter_for c (Some (uid u)) = JStr (language_filter u)
              \<and> youtube_for c (Some (uid u)) = youtube u \<and> calm_for c (Some (uid u)) = calm u
              \<and> system_allowed_for c (Some (uid u)) = map lower (tailnet @ combined (adblock_allowed p))))
    \<and> (\<forall>i. i \<noteq> BUILDER_UID
         \<and> (\<forall>u \<in> set (effective_users p). uid u = i \<longrightarrow> mode u \<notin> set INSPECTED_MODES \<or> isl (json_rules (rules u))) \<longrightarrow>
              rules_for c (Some i) = [] \<and> blocked_categories_for c (Some i) = fail_closed_blocked
              \<and> media_level_for c (Some i) = JStr ''immodest''
              \<and> language_filter_for c (Some i) = JStr ''substitute''
              \<and> youtube_for c (Some i) = fail_closed_youtube \<and> system_allowed_for c (Some i) = [])
    \<and> uid_for_listener_port c (Some BUILDER_PORT) = (if builders then Some BUILDER_UID else None)
    \<and> (\<forall>fs ds. builders \<longrightarrow> developer_filters repr bundles p = Inr fs \<longrightarrow> load_developers fs = Inr ds
         \<longrightarrow> px_developers c = Some ds)"
proof -
  obtain c where c: "refresh repr (Some (mtime, Some (JObj doc))) old = Inr c"
    and settings: "\<And>i. i \<noteq> BUILDER_UID \<Longrightarrow> settings_at c i =
           (case find (\<lambda>u. uid u = i) (inspected_users p) of None \<Rightarrow> settings_at (empty_cache mtime) i
            | Some u \<Rightarrow> (case json_rules (rules u) of Inl _ \<Rightarrow> settings_at (empty_cache mtime) i
                       | Inr rs \<Rightarrow> written tailnet p u rs))"
    and ports: "\<And>u. u \<in> set (inspected_users p) \<Longrightarrow>
           map_of (px_by_port c) (the (map_of (mitm_ports p) (uid u))) = Some (uid u)"
    and builder: "map_of (px_by_port c) BUILDER_PORT = (if builders then Some BUILDER_UID else None)"
    and devs: "\<And>fs ds. builders \<Longrightarrow> developer_filters repr bundles p = Inr fs \<Longrightarrow> load_developers fs = Inr ds
           \<Longrightarrow> px_developers c = Some ds"
    by (rule written_then_read [OF assms]) blast
  show ?thesis
  proof (intro exI conjI ballI allI impI, rule c)
    fix u assume "u \<in> set (effective_users p)" "mode u \<in> set INSPECTED_MODES"
    then have u: "u \<in> set (inspected_users p)" by (simp add: inspected_users_def)
    obtain q where q: "map_of (mitm_ports p) (uid u) = Some q" by (rule inspected_port [OF u])
    show "uid_for_listener_port c (map_of (mitm_ports p) (uid u)) = Some (uid u)"
      using ports [OF u] by (simp add: uid_for_listener_port_def q)
    fix rs assume "json_rules (rules u) = Inr rs" "uid u \<noteq> BUILDER_UID"
    then have s: "settings_at c (uid u) = written tailnet p u rs" by (simp add: settings find_inspected [OF assms(1) u])
    show "rules_for c (Some (uid u)) = rs" "blocked_categories_for c (Some (uid u)) = map JStr (blocked_categories u)"
      "media_level_for c (Some (uid u)) = JStr (media_level u)" "cover_style_for c (Some (uid u)) = JStr (cover_style u)"
      "language_filter_for c (Some (uid u)) = JStr (language_filter u)" "youtube_for c (Some (uid u)) = youtube u"
      "calm_for c (Some (uid u)) = calm u"
      "system_allowed_for c (Some (uid u)) = map lower (tailnet @ combined (adblock_allowed p))"
      using settings_at_read [OF s] by blast+
  next
    fix i assume i: "i \<noteq> BUILDER_UID \<and> (\<forall>u \<in> set (effective_users p). uid u = i \<longrightarrow>
      mode u \<notin> set INSPECTED_MODES \<or> isl (json_rules (rules u)))"
    have s: "settings_at c i = (None, None, None, None, None, None, None, None)"
    proof (cases "find (\<lambda>u. uid u = i) (inspected_users p)")
      case (Some u)
      then have "u \<in> set (effective_users p)" "uid u = i" "mode u \<in> set INSPECTED_MODES"
        by (auto dest: find_SomeD simp: inspected_users_def)
      with i obtain e where "json_rules (rules u) = Inl e" by (auto simp: isl_def)
      with Some i show ?thesis by (simp add: settings settings_at_empty)
    qed (use i in \<open>simp add: settings settings_at_empty\<close>)
    show "rules_for c (Some i) = []" "blocked_categories_for c (Some i) = fail_closed_blocked"
      "media_level_for c (Some i) = JStr ''immodest''" "language_filter_for c (Some i) = JStr ''substitute''"
      "youtube_for c (Some i) = fail_closed_youtube" "system_allowed_for c (Some i) = []"
      using settings_at_floor [OF s] by blast+
  qed (simp_all add: uid_for_listener_port_def builder devs)
qed

lemma settings_reach_proxy_witness:
  "\<exists>c. refresh (\<lambda>_. []) (Some (7, Some (JObj (user_entries [] example_policy)))) (empty_cache 0) = Inr c
    \<and> uid_for_listener_port c (Some 30000) = Some 1001 \<and> media_level_for c (Some 1001) = JStr ''none''
    \<and> blocked_categories_for c (Some 4242) = fail_closed_blocked"
proof -
  have d: "distinct (map uid (effective_users example_policy))" by (simp add: example_users default_user_def)
  have w: "rules_doc (\<lambda>_. []) [] False [] example_policy = Inr (user_entries [] example_policy)"
    by (simp add: rules_doc_def)
  have m: "(7::int) \<noteq> px_mtime (empty_cache 0)" by (simp add: empty_cache_def)
  show ?thesis
    using settings_reach_proxy [OF d w m] example_port
    by (auto simp: example_users default_user_def INSPECTED_MODES_def json_rules_def BUILDER_UID_def DEFAULT_MEDIA_LEVEL_def)
qed

end
