(* ===== verification/SiteRules.thy ===== *)
theory SiteRules
  imports UrlRules
begin

text \<open>
  \<open>kosherd/src/kosherd/siterules.py\<close>: the departments of a shop, read from the address.  Text is
  ASCII, on which \<open>textfold.fold\<close> changes nothing; an escape of a byte that is not ASCII is kept as
  that byte.  The compiled expressions are lists of terms with their matcher.
\<close>

section \<open>The query of an address\<close>

fun unquote :: "string \<Rightarrow> string" where
  "unquote (CHR ''%'' # a # b # s) =
     (case (hex_value a, hex_value b) of
        (Some x, Some y) \<Rightarrow> char_of (16 * x + y) # unquote s
      | _ \<Rightarrow> CHR ''%'' # unquote (a # b # s))"
| "unquote (c # s) = c # unquote s"
| "unquote [] = []"

definition unquote_plus :: "string \<Rightarrow> string" where
  "unquote_plus s = unquote (map (\<lambda>c. if c = CHR ''+'' then CHR '' '' else c) s)"

definition parse_qsl :: "string \<Rightarrow> (string \<times> string) list" where
  "parse_qsl q = map (\<lambda>nv. (unquote_plus (before CHR ''='' nv), unquote_plus (after CHR ''='' nv)))
     (filter (\<lambda>nv. after CHR ''='' nv \<noteq> []) (split_on CHR ''&'' q))"

section \<open>Terms as whole words\<close>

text \<open>\<open>[^\W_]\<close> and \<open>[a-z0-9]\<close>; a space of a term stands for \<open>[\s\-_+]\<close>.\<close>

definition is_digit :: "char \<Rightarrow> bool" where
  "is_digit c \<longleftrightarrow> (let n = of_char c :: nat in 48 \<le> n \<and> n \<le> 57)"

definition alphanumeric :: "char \<Rightarrow> bool" where
  "alphanumeric c \<longleftrightarrow> is_letter c \<or> is_digit c"

definition term_char :: "char \<Rightarrow> char \<Rightarrow> bool" where
  "term_char t c \<longleftrightarrow> (if t = CHR '' '' then is_space c \<or> c \<in> {CHR ''-'', CHR ''_'', CHR ''+''} else c = t)"

fun consume :: "string \<Rightarrow> string \<Rightarrow> string option" where
  "consume [] s = Some s"
| "consume (t # ts) s = (case s of [] \<Rightarrow> None | c # cs \<Rightarrow> if term_char t c then consume ts cs else None)"

definition ends_word :: "string \<Rightarrow> bool" where
  "ends_word s \<longleftrightarrow> s = [] \<or> \<not> alphanumeric (hd s)"

text \<open>What matches at a place: the first alternative, with the first ending of \<open>endings\<close> that fits.\<close>

definition match_term :: "string list \<Rightarrow> string \<Rightarrow> string \<Rightarrow> string option" where
  "match_term endings s t =
     Option.bind (consume t s) (\<lambda>rest.
       first_some (\<lambda>e. if starts_with rest e \<and> ends_word (drop (length e) rest)
                       then Some (take (length s - length rest + length e) s) else None) endings)"

fun search_words :: "string list \<Rightarrow> string list \<Rightarrow> bool \<Rightarrow> string \<Rightarrow> string option" where
  "search_words endings ts inside s =
     (case (if inside then None else first_some (match_term endings s) ts) of
        Some m \<Rightarrow> Some m
      | None \<Rightarrow> (case s of [] \<Rightarrow> None | c # cs \<Rightarrow> search_words endings ts (alphanumeric c) cs))"

declare search_words.simps [simp del]

text \<open>\<open>_compile\<close> (the longest term first) and its \<open>search\<close>; no terms are no pattern.\<close>

definition plural :: "string list" where "plural = [''es'', ''s'', []]"

definition compile_terms :: "string list \<Rightarrow> string list" where
  "compile_terms terms = map lower (sort_key (\<lambda>t. - int (length t)) terms)"

definition search_terms :: "string list \<Rightarrow> string \<Rightarrow> string option" where
  "search_terms ts s = search_words plural ts False s"

section \<open>The rules of the sites\<close>

definition GATING_CATEGORY :: string where "GATING_CATEGORY = ''immodest''"
definition DEFAULT_STRIP_TAGS :: "string list" where "DEFAULT_STRIP_TAGS = [''a'', ''li'', ''option'']"
definition DEFAULT_SEARCH_PARAMS :: "string list" where
  "DEFAULT_SEARCH_PARAMS = [''q'', ''k'', ''query'', ''search'', ''keyword'', ''term'']"
definition DEFAULT_SUGGEST_PATHS :: "string list" where
  "DEFAULT_SUGGEST_PATHS =
    [''suggest'', ''autosug'', ''autocomplete'', ''typeahead'', ''complete'', ''/ac/'', ''instant'']"

definition SHOP_SHAPED :: "string list" where
  "SHOP_SHAPED =
    [''shop'', ''shops'', ''store'', ''collections'', ''collection'', ''category'', ''categories'', ''dept'',
     ''department'', ''browse'', ''products'', ''product'', ''catalog'', ''c'', ''b'', ''s'']"

definition shop_shaped :: "string \<Rightarrow> bool" where
  "shop_shaped s \<longleftrightarrow> search_words [[]] SHOP_SHAPED False s \<noteq> None"

record shop =
  shop_hosts :: "string list"
  shop_terms :: "string list"
  shop_query :: "(string, string list) dict"
  shop_strip_tags :: "string list"
  shop_strip_terms :: "string list"
  shop_search_params :: "string list"
  shop_suggest_hosts :: "string list"
  shop_suggest_paths :: "string list"

record site_rules =
  shops :: "shop list"
  anywhere :: "string list"

definition strip_dots :: "string \<Rightarrow> string" where
  "strip_dots h = strip (\<lambda>c. c = CHR ''.'') (lower h)"

definition under :: "string \<Rightarrow> string \<Rightarrow> bool" where
  "under host d \<longleftrightarrow> host = d \<or> ends_with host (''.'' @ d)"

definition on_hosts :: "string \<Rightarrow> string list \<Rightarrow> bool" where
  "on_hosts host hs \<longleftrightarrow> list_ex (\<lambda>h. under host (strip_dots h)) hs"

definition site_for_host :: "site_rules \<Rightarrow> string \<Rightarrow> shop option" where
  "site_for_host r host = find (\<lambda>s. on_hosts host (shop_hosts s)) (shops r)"

definition pooled_terms :: "site_rules \<Rightarrow> string list" where
  "pooled_terms r = sorted_set (concat (map shop_terms (shops r)) @ anywhere r)"

definition split_address :: "string \<Rightarrow> split_url result" where
  "split_address url = urlsplit (if has_slashes url then url else ''//'' @ url)"

definition department_of_query :: "string \<Rightarrow> string \<Rightarrow> (string, string list) dict \<Rightarrow> string option" where
  "department_of_query host q wanted =
     first_some (\<lambda>(k, vs).
       let found = map (lower \<circ> snd) (filter (\<lambda>(n, v). n = k) (parse_qsl q));
           hit = sorted_set (filter (\<lambda>v. v \<in> set (map lower vs)) found) in
       if hit = [] then None else Some (''the '' @ hd hit @ '' department of '' @ host)) wanted"

definition reason_at :: "site_rules \<Rightarrow> split_url \<Rightarrow> string option" where
  "reason_at r u =
     (let host = strip_dots (url_host u);
          haystack = lower (unquote_plus (url_path u @ ''?'' @ url_query u)) in
      if host = [] then None
      else case site_for_host r host of
        Some s \<Rightarrow>
          (case department_of_query host (url_query u) (shop_query s) of
             Some why \<Rightarrow> Some why
           | None \<Rightarrow> map_option (\<lambda>m. ''the '' @ m @ '' section of '' @ host)
                       (search_terms (compile_terms (shop_terms s)) haystack))
      | None \<Rightarrow>
          if shop_shaped haystack
          then map_option (\<lambda>m. ''a '' @ m @ '' section'') (search_terms (compile_terms (anywhere r)) haystack)
          else None)"

definition reason :: "site_rules \<Rightarrow> string \<Rightarrow> string option result" where
  "reason r url = map_sum id (reason_at r) (split_address url)"

definition covers :: "site_rules \<Rightarrow> string \<Rightarrow> bool" where
  "covers r host \<longleftrightarrow> site_for_host r (strip_dots host) \<noteq> None"

definition or_list :: "'a list \<Rightarrow> 'a list \<Rightarrow> 'a list" where
  "or_list xs ys = (if xs = [] then ys else xs)"

text \<open>\<open>strip_spec\<close>: the tags and the terms; its third part, a quick scan, only saves time.\<close>

definition strip_spec :: "site_rules \<Rightarrow> string \<Rightarrow> (string list \<times> string list) option" where
  "strip_spec r host =
     (case site_for_host r (strip_dots host) of None \<Rightarrow> None
      | Some s \<Rightarrow> let terms = or_list (shop_strip_terms s) (shop_terms s) in
          if terms = [] then None
          else Some (or_list (shop_strip_tags s) DEFAULT_STRIP_TAGS, compile_terms terms))"

definition search_text_at :: "site_rules \<Rightarrow> split_url \<Rightarrow> string option" where
  "search_text_at r u =
     (case site_for_host r (strip_dots (url_host u)) of None \<Rightarrow> None
      | Some s \<Rightarrow> map_option (unquote_plus \<circ> snd)
          (find (\<lambda>(k, v). k \<in> set (or_list (shop_search_params s) DEFAULT_SEARCH_PARAMS) \<and> strip is_space v \<noteq> [])
            (parse_qsl (url_query u))))"

definition search_text :: "site_rules \<Rightarrow> string \<Rightarrow> string option result" where
  "search_text r url = map_sum id (search_text_at r) (split_address url)"

definition blocked_term :: "site_rules \<Rightarrow> string \<Rightarrow> string option" where
  "blocked_term r text =
     (if text = [] then None else search_terms (compile_terms (pooled_terms r)) (lower text))"

definition blocked_search :: "site_rules \<Rightarrow> string \<Rightarrow> string option result" where
  "blocked_search r url =
     map_sum id (\<lambda>text.
       case blocked_term r (case text of None \<Rightarrow> [] | Some t \<Rightarrow> t) of
         Some m \<Rightarrow> if m = [] then None else Some (''a search for '' @ m)
       | None \<Rightarrow> None)
     (search_text r url)"

definition is_suggestions :: "site_rules \<Rightarrow> string \<Rightarrow> bool result" where
  "is_suggestions r url =
     map_sum id (\<lambda>u.
       let host = strip_dots (url_host u); path = lower (url_path u) in
       list_ex (\<lambda>s. (on_hosts host (shop_hosts s) \<or> on_hosts host (shop_suggest_hosts s))
                   \<and> list_ex (\<lambda>m. sublist m path) (or_list (shop_suggest_paths s) DEFAULT_SUGGEST_PATHS))
         (shops r))
     (split_address url)"

section \<open>A term is found exactly where it is a word\<close>

definition written_as :: "string \<Rightarrow> string \<Rightarrow> bool" where
  "written_as t w \<longleftrightarrow> list_all2 term_char t w"

definition begins_word :: "string \<Rightarrow> bool" where
  "begins_word pre \<longleftrightarrow> pre = [] \<or> \<not> alphanumeric (last pre)"

lemma consume_iff: "consume t s = Some rest \<longleftrightarrow> (\<exists>w. s = w @ rest \<and> written_as t w)"
proof (induction t arbitrary: s)
  case (Cons a t)
  show ?case
  proof (cases s)
    case (Cons c cs)
    then show ?thesis using Cons.IH [of cs]
      by (auto simp: written_as_def list_all2_Cons1 append_eq_Cons_conv split: if_splits)
  qed (simp add: written_as_def list_all2_Cons1)
qed (simp add: written_as_def)

definition found_at :: "string list \<Rightarrow> string list \<Rightarrow> string \<Rightarrow> string \<Rightarrow> bool" where
  "found_at endings ts s m \<longleftrightarrow>
     (\<exists>t \<in> set ts. \<exists>w. \<exists>e \<in> set endings. \<exists>rest. s = w @ e @ rest \<and> written_as t w \<and> ends_word rest \<and> m = w @ e)"

lemma match_term_SomeD: "match_term endings s t = Some m \<Longrightarrow> t \<in> set ts \<Longrightarrow> found_at endings ts s m"
proof -
  assume m: "match_term endings s t = Some m" and t: "t \<in> set ts"
  then obtain rest where rest: "consume t s = Some rest"
    and "first_some (\<lambda>e. if starts_with rest e \<and> ends_word (drop (length e) rest)
       then Some (take (length s - length rest + length e) s) else None) endings = Some m"
    by (auto simp: match_term_def bind_eq_Some_conv)
  from first_some_SomeD [OF this(2)] obtain e where e: "e \<in> set endings" "prefix e rest"
    "ends_word (drop (length e) rest)" "m = take (length s - length rest + length e) s"
    by (auto simp: starts_with_def split: if_splits)
  from rest obtain w where w: "s = w @ rest" "written_as t w" by (auto simp: consume_iff)
  from e(2) obtain r where r: "rest = e @ r" by (auto simp: prefix_def)
  show ?thesis using t e w r by (auto simp: found_at_def)
qed

lemma match_term_exists:
  assumes "found_at endings ts s m" shows "\<exists>t \<in> set ts. match_term endings s t \<noteq> None"
proof -
  obtain t w e rest where t: "t \<in> set ts" "e \<in> set endings" "s = w @ e @ rest" "written_as t w" "ends_word rest"
    using assms by (auto simp: found_at_def)
  then have "consume t s = Some (e @ rest)" by (auto simp: consume_iff)
  moreover have "starts_with (e @ rest) e \<and> ends_word (drop (length e) (e @ rest))"
    using t by (simp add: starts_with_def)
  ultimately have "match_term endings s t \<noteq> None"
    using t(2) by (auto simp: match_term_def first_some_None simp del: not_None_eq)
  with t(1) show ?thesis by blast
qed

lemma first_match: "first_some (match_term endings s) ts = None \<longleftrightarrow> (\<nexists>m. found_at endings ts s m)"
  using match_term_SomeD match_term_exists by (fastforce simp: first_some_None)

lemma first_match_SomeD: "first_some (match_term endings s) ts = Some m \<Longrightarrow> found_at endings ts s m"
  by (auto dest!: first_some_SomeD intro: match_term_SomeD)

lemma search_words_SomeD:
  "search_words endings ts inside s = Some m \<Longrightarrow>
     \<exists>pre rest. s = pre @ rest \<and> found_at endings ts rest m
       \<and> (if pre = [] then \<not> inside else \<not> alphanumeric (last pre))"
proof (induction endings ts inside s rule: search_words.induct)
  case (1 endings ts inside s)
  show ?case
  proof (cases "if inside then None else first_some (match_term endings s) ts")
    case (Some x)
    with 1(2) have "\<not> inside" "first_some (match_term endings s) ts = Some m"
      by (auto simp: search_words.simps [of _ _ _ s] split: if_splits)
    then show ?thesis using first_match_SomeD by (intro exI [of _ "[]"] exI [of _ s]) auto
  next
    case None
    with 1(2) obtain c cs where s: "s = c # cs" and r: "search_words endings ts (alphanumeric c) cs = Some m"
      by (auto simp: search_words.simps [of _ _ _ s] split: list.splits if_splits)
    from 1(1) [OF None s r] obtain b rest where "cs = b @ rest" "found_at endings ts rest m"
      "if b = [] then \<not> alphanumeric c else \<not> alphanumeric (last b)" by blast
    then show ?thesis using s by (intro exI [of _ "c # b"] exI [of _ rest]) (auto split: if_splits)
  qed
qed

lemma search_words_found:
  assumes "found_at endings ts rest m" and "if pre = [] then \<not> inside else \<not> alphanumeric (last pre)"
  shows "search_words endings ts inside (pre @ rest) \<noteq> None"
  using assms
proof (induction pre arbitrary: inside)
  case Nil
  then have "first_some (match_term endings rest) ts \<noteq> None" using first_match by blast
  with Nil show ?case by (auto simp: search_words.simps [of _ _ _ rest])
next
  case (Cons c b)
  have "search_words endings ts (alphanumeric c) (b @ rest) \<noteq> None"
    using Cons.prems by (intro Cons.IH) (auto split: if_splits)
  then show ?case by (auto simp: search_words.simps [of _ _ _ "c # b @ rest"] split: option.split)
qed

lemma set_compile_terms [simp]: "set (compile_terms ts) = lower ` set ts"
  by (simp add: compile_terms_def)

lemma set_pooled [simp]: "set (pooled_terms r) = (\<Union>s \<in> set (shops r). set (shop_terms s)) \<union> set (anywhere r)"
  by (simp add: pooled_terms_def)

text \<open>
  Property C40: a typed search or a suggestion is refused for a department exactly when a term of some
  shop, or of the list for any shop, stands in it as a word of its own: in any case, with its spaces
  written as spaces, hyphens, underscores or plus signs, in the singular or the plural, and never
  inside a longer word.
\<close>

theorem department_term_is_a_word:
  "blocked_term r text \<noteq> None \<longleftrightarrow>
     text \<noteq> [] \<and> (\<exists>t pre w e rest.
       (t \<in> set (anywhere r) \<or> (\<exists>s \<in> set (shops r). t \<in> set (shop_terms s)))
       \<and> lower text = pre @ w @ e @ rest \<and> written_as (lower t) w \<and> e \<in> {[], ''s'', ''es''}
       \<and> begins_word pre \<and> ends_word rest)"
    (is "?found \<longleftrightarrow> text \<noteq> [] \<and> ?word")
proof
  assume f: ?found
  then obtain m where "search_words plural (compile_terms (pooled_terms r)) False (lower text) = Some m"
    by (auto simp: blocked_term_def search_terms_def split: if_splits)
  from search_words_SomeD [OF this] obtain pre s where s: "lower text = pre @ s" "begins_word pre"
    and "found_at plural (compile_terms (pooled_terms r)) s m"
    by (auto simp: begins_word_def split: if_splits)
  then obtain t w e rest where t: "t \<in> set (pooled_terms r)" "s = w @ e @ rest" "written_as (lower t) w"
    "e \<in> set plural" "ends_word rest"
    unfolding found_at_def set_compile_terms by blast
  have "t \<in> set (anywhere r) \<or> (\<exists>s \<in> set (shops r). t \<in> set (shop_terms s))" using t(1) by auto
  moreover have "lower text = pre @ w @ e @ rest" using s(1) t(2) by simp
  moreover have "e \<in> {[], ''s'', ''es''}" using t(4) by (auto simp: plural_def)
  ultimately have ?word using s(2) t(3,5) by blast
  moreover have "text \<noteq> []" using f by (auto simp: blocked_term_def)
  ultimately show "text \<noteq> [] \<and> ?word" by (rule conjI [rotated])
next
  assume w: "text \<noteq> [] \<and> ?word"
  then obtain t b w e rest where t: "t \<in> set (anywhere r) \<or> (\<exists>s \<in> set (shops r). t \<in> set (shop_terms s))"
    "lower text = b @ w @ e @ rest" "written_as (lower t) w" "e \<in> {[], ''s'', ''es''}" "begins_word b" "ends_word rest"
    by blast
  have "t \<in> set (pooled_terms r)" using t(1) by auto
  moreover have "e \<in> set plural" using t(4) by (auto simp: plural_def)
  ultimately have "found_at plural (compile_terms (pooled_terms r)) (w @ e @ rest) (w @ e)"
    using t(3,6) unfolding found_at_def set_compile_terms by blast
  moreover have "if b = [] then \<not> False else \<not> alphanumeric (last b)"
    using t(5) by (auto simp: begins_word_def)
  ultimately have "search_words plural (compile_terms (pooled_terms r)) False (lower text) \<noteq> None"
    unfolding t(2) by (rule search_words_found)
  with w show ?found by (simp add: blocked_term_def search_terms_def del: not_None_eq)
qed

end
