(* ===== verification/ProxyFlow.thy ===== *)
theory ProxyFlow
  imports ProxyRules SiteRules AccessRequests Calm Categories
begin

text \<open>
  What the hooks of \<open>mitm/kosher_filter.py\<close> share: the request and the answer they see, the marks
  they leave on it, and what the addon keeps from one request to the next.  mitmproxy's own parts,
  the scorer of words, the word lists, the signature and the clocks are the fields of \<open>env\<close>.
\<close>

section \<open>Requests and answers\<close>

text \<open>Header names are in lower case, as a lookup in mitmproxy's headers takes them.\<close>

record request =
  rq_method :: string
  rq_path :: string
  rq_host :: string
  rq_url :: string
  rq_headers :: "(string, string) dict"
  rq_text :: string

text \<open>The pages and documents the proxy answers with, by what fills them in.\<close>

datatype body =
    Raw string
  | Block_page string string string
  | Asked_page string string
  | Over_page string
  | Json_body doc
  | Document_body json
  | Script_body
  | Words_body
  | Blank_picture
  | Covered_picture
  | Build_refusal

text \<open>\<open>response.stream\<close>: held for the filter, let through as it arrives, or dropped as it arrives.\<close>

datatype streaming = Held | Streamed | Discarded

record response =
  status :: int
  headers :: "(string, string) dict"
  body :: body
  streaming :: streaming

definition make_response :: "int \<Rightarrow> body \<Rightarrow> (string, string) dict \<Rightarrow> response" where
  "make_response s b h = \<lparr>status = s, headers = h, body = b, streaming = Held\<rparr>"

definition req_header :: "request \<Rightarrow> string \<Rightarrow> string" where
  "req_header r n = dict_get (rq_headers r) n []"

text \<open>\<open>path.split("?", 1)[0]\<close>.\<close>

definition path_only :: "request \<Rightarrow> string" where
  "path_only r = before_query (rq_path r)"

section \<open>What the proxy keeps\<close>

text \<open>A line of the activity log.\<close>

record note_line =
  note_kind :: string
  note_uid :: int
  note_url :: string
  note_why :: string

record day_time =
  ct_day :: string
  ct_seconds :: int

record turn =
  rq :: request
  answer :: "response option"
  fl_port :: "int option"
  fl_owner :: "int option"
  fl_uid :: "int option"
  fl_bypass :: bool
  fl_pictures :: bool
  fl_pictures_page :: bool
  failed :: "string option"
  px :: policy_cache
  page_secret :: "string option"
  judge_calls :: "(string, int \<times> int) dict"
  calm_store :: "(string, day_time) dict option"
  calm_file :: "(string, day_time) dict option"
  calm_flushed :: int
  noted :: "note_line list"
  asked :: "spool option"
  page_levels :: "(string, string) dict"
  clean_urls :: "(string \<times> string, int) dict"

text \<open>
  \<open>query_get\<close> and \<open>query_set\<close> are mitmproxy's view of the query of a request; \<open>score\<close> is the level of
  \<open>Scorer.score\<close>, one of \<open>LEVELS\<close>; \<open>listed\<close> and \<open>search_blocked\<close> are \<open>contains_any\<close> of the word list and
  of the search blocklist; \<open>visible_text\<close>, \<open>clean_words\<close> (\<open>clean_html\<close>), \<open>strip_items\<close> (\<open>elementfilter.strip\<close>
  by tags and terms) and \<open>blank_inline\<close> rewrite a page; \<open>calm_rules\<close> is the
  attribute with a site's path rules; \<open>sign\<close> is the keyed hash of a text, in hexadecimal.
\<close>

record env =
  query_get :: "request \<Rightarrow> string \<Rightarrow> string option"
  query_set :: "string \<Rightarrow> string \<Rightarrow> request \<Rightarrow> request"
  json_loads :: "string \<Rightarrow> json option"
  json_repr :: "json \<Rightarrow> string"
  read_float :: "string \<Rightarrow> int option"
  sign :: "string \<Rightarrow> string \<Rightarrow> string"
  score :: "string \<Rightarrow> string"
  listed :: "string \<Rightarrow> bool"
  search_blocked :: "string \<Rightarrow> bool"
  visible_text :: "string \<Rightarrow> string"
  clean_words :: "string \<Rightarrow> string \<times> nat"
  strip_items :: "string list \<Rightarrow> string list \<Rightarrow> string \<Rightarrow> string \<times> nat"
  blank_inline :: "string \<Rightarrow> string"
  lists :: category_list
  site_table :: site_rules
  calm_script :: bool
  calm_writable :: bool
  calm_rules :: "string \<Rightarrow> string"
  script_etag :: string
  words_etag :: string
  calm_etag :: string
  mono :: int
  clock :: int
  today :: string
  fresh_id :: string

definition setting :: "json \<Rightarrow> string" where
  "setting v = (case v of JStr s \<Rightarrow> s | _ \<Rightarrow> [])"

text \<open>The account's settings, each read afresh; a level that is no string equals none of the names.\<close>

definition level_of_turn :: "turn \<Rightarrow> string" where
  "level_of_turn t = setting (media_level_for (px t) (fl_uid t))"

definition language_of_turn :: "turn \<Rightarrow> string" where
  "language_of_turn t = setting (language_filter_for (px t) (fl_uid t))"

definition blocks :: "turn \<Rightarrow> string \<Rightarrow> bool" where
  "blocks t c \<longleftrightarrow> JStr c \<in> set (blocked_categories_for (px t) (fl_uid t))"

definition raise_in :: "turn \<Rightarrow> string \<Rightarrow> turn" where
  "raise_in t e = t\<lparr>failed := Some e\<rparr>"

section \<open>Addresses\<close>

definition is_bare_address :: "string \<Rightarrow> bool" where
  "is_bare_address host =
     (let h = strip (\<lambda>c. c \<in> {CHR ''['', CHR '']''}) (strip is_space host) in
      h = [] \<or> parse_ipv4 h \<noteq> None \<or> Option.bind (drop_scope h) parse_ipv6 \<noteq> None)"

definition host_in :: "string \<Rightarrow> string list \<Rightarrow> bool" where
  "host_in host names =
     (let h = rstrip (\<lambda>c. c = CHR ''.'') (lower host) in
      h \<noteq> [] \<and> list_ex (\<lambda>n. if starts_with n ''*.'' then h = drop 2 n \<or> ends_with h (''.'' @ drop 2 n) else h = n) names)"

text \<open>
  \<open>_blocked_categories_of\<close>: the categories of the host that the account blocks, none for a name that
  nothing blocks by category.
\<close>

definition blocked_categories_of_host :: "env \<Rightarrow> turn \<Rightarrow> string \<Rightarrow> string set" where
  "blocked_categories_of_host e t host =
     (if host_in host (system_allowed_for (px t) (fl_uid t)) then {}
      else {c \<in> categories_of (lists e) host. blocks t c})"

section \<open>Refusing\<close>

definition escape_char :: "char \<Rightarrow> string" where
  "escape_char c =
     (if c = CHR ''&'' then ''&amp;'' else if c = CHR ''<'' then ''&lt;''
      else if c = CHR ''>'' then ''&gt;'' else if c = CHR 0x22 then ''&quot;'' else [c])"

definition html_escape :: "string \<Rightarrow> string" where
  "html_escape s = take 300 (concat (map escape_char s))"

definition write_note :: "string \<Rightarrow> string \<Rightarrow> string \<Rightarrow> turn \<Rightarrow> turn" where
  "write_note k url why t =
     t\<lparr>noted := noted t @ [\<lparr>note_kind = k, note_uid = (case fl_uid t of None \<Rightarrow> -1 | Some i \<Rightarrow> i),
                            note_url = take 2000 url, note_why = take 300 why\<rparr>]\<rparr>"

definition html_type :: "(string, string) dict" where
  "html_type = [(''content-type'', ''text/html; charset=utf-8'')]"

definition json_type :: "(string, string) dict" where
  "json_type = [(''content-type'', ''application/json; charset=utf-8''), (''cache-control'', ''no-store'')]"

definition block :: "string \<Rightarrow> string \<Rightarrow> string \<Rightarrow> turn \<Rightarrow> turn" where
  "block url because why t =
     write_note ''block'' url why
       (t\<lparr>answer := Some (make_response 403
            (Block_page (html_escape url) (html_escape because) (html_escape why)) html_type)\<rparr>)"

definition refuse :: "int \<Rightarrow> string \<Rightarrow> turn \<Rightarrow> turn" where
  "refuse s why t =
     t\<lparr>answer := Some (make_response s
         (Json_body [(''blocked'', JBool False), (''error'', JStr why)]) json_type)\<rparr>"

definition cached_answer :: "body \<Rightarrow> string \<Rightarrow> turn \<Rightarrow> turn" where
  "cached_answer b etag t =
     (if map_of (rq_headers (rq t)) ''if-none-match'' = Some etag
      then t\<lparr>answer := Some (make_response 304 (Raw []) [])\<rparr>
      else t\<lparr>answer := Some (make_response 200 b [])\<rparr>)"

section \<open>What an escaped text can be\<close>

lemma escape_char_safe: "c \<in> set (escape_char x) \<Longrightarrow> c \<noteq> CHR ''<'' \<and> c \<noteq> CHR ''>'' \<and> c \<noteq> CHR 0x22"
  by (auto simp: escape_char_def split: if_splits)

lemma html_escape_safe: "c \<in> set (html_escape s) \<Longrightarrow> c \<noteq> CHR ''<'' \<and> c \<noteq> CHR ''>'' \<and> c \<noteq> CHR 0x22"
  unfolding html_escape_def by (drule in_set_takeD) (auto dest: escape_char_safe)

text \<open>The form of a block page carries no more than the first 300 characters of the address.\<close>

lemma html_escape_length: "length (html_escape s) \<le> 300"
  by (simp add: html_escape_def)

lemma html_escape_plain:
  "(\<And>c. c \<in> set s \<Longrightarrow> escape_char c = [c]) \<Longrightarrow> html_escape s = take 300 s"
proof -
  assume "\<And>c. c \<in> set s \<Longrightarrow> escape_char c = [c]"
  then have "concat (map escape_char s) = s" by (induction s) auto
  then show ?thesis by (simp add: html_escape_def)
qed

section \<open>An example\<close>

definition example_env :: env where
  "example_env =
     \<lparr>query_get = (\<lambda>_ _. None), query_set = (\<lambda>_ _ r. r), json_loads = (\<lambda>_. None), json_repr = (\<lambda>_. []),
      read_float = (\<lambda>_. None), sign = (\<lambda>k m. m @ k), score = (\<lambda>s. if sublist ''bikini'' s then ''immodest'' else ''clean''),
      listed = sublist ''darn'', search_blocked = (\<lambda>_. False), visible_text = id, clean_words = (\<lambda>s. (s, 0)),
      strip_items = (\<lambda>_ _ s. (s, 0)), blank_inline = id,
      lists = \<lparr>version = ''1'', bundle_source = [], domains = [(''casino.example'', [''gambling''])]\<rparr>,
      site_table = \<lparr>shops = [], anywhere = [''lingerie'']\<rparr>, calm_script = True, calm_writable = True,
      calm_rules = (\<lambda>_. []), script_etag = [], words_etag = [], calm_etag = [], mono = 1000, clock = 5000,
      today = ''2026-01-05'', fresh_id = ''nonce''\<rparr>"

text \<open>A request of an account the rules file does not know.\<close>

definition example_turn :: "string \<Rightarrow> string \<Rightarrow> turn" where
  "example_turn host path =
     \<lparr>rq = \<lparr>rq_method = ''GET'', rq_path = path, rq_host = host, rq_url = ''https://'' @ host @ path,
            rq_headers = [], rq_text = []\<rparr>,
      answer = None, fl_port = None, fl_owner = Some 1001, fl_uid = None, fl_bypass = False, fl_pictures = False,
      fl_pictures_page = False, failed = None, px = empty_cache 0, page_secret = None, judge_calls = [],
      calm_store = None, calm_file = None, calm_flushed = 0, noted = [], asked = Some [], page_levels = [],
      clean_urls = []\<rparr>"

end
