(* ===== verification/ProxyPages.thy ===== *)
theory ProxyPages
  imports ProxyFlow
begin

text \<open>
  Judging a page by its words (\<open>_filter_page\<close> of \<open>mitm/kosher_filter.py\<close>), the script put into the
  pages that pass, and the three addresses the script calls.
\<close>

section \<open>Levels\<close>

definition LEVELS :: "string list" where "LEVELS = [''clean'', ''immodest'', ''suggestive'', ''nsfw'']"

definition SEVERITY :: "(string, nat) dict" where "SEVERITY = zip LEVELS [0..<length LEVELS]"

definition severity :: "string \<Rightarrow> nat" where "severity l = dict_get SEVERITY l 0"

definition at_least :: "string \<Rightarrow> string \<Rightarrow> bool" where
  "at_least l tolerance \<longleftrightarrow> severity tolerance \<le> severity l"

definition CONTENT_TOLERANCE :: "(string, string) dict" where
  "CONTENT_TOLERANCE =
    [(''none'', ''nsfw''), (''nsfw'', ''nsfw''), (''suggestive'', ''suggestive''), (''immodest'', ''immodest''),
     (''people'', ''immodest''), (''all'', ''immodest'')]"

definition content_tolerance :: "env \<Rightarrow> turn \<Rightarrow> string \<Rightarrow> bool \<Rightarrow> string" where
  "content_tolerance e t host stripped =
     (let tolerance = dict_get CONTENT_TOLERANCE (level_of_turn t) ''nsfw'' in
      if blocks t GATING_CATEGORY
      then (let floor = (if host \<noteq> [] \<and> covers (site_table e) host \<and> \<not> stripped then ''suggestive'' else ''immodest'') in
            if severity floor < severity tolerance then floor else tolerance)
      else tolerance)"

section \<open>The page's token\<close>

definition uid_text :: "int option \<Rightarrow> string" where
  "uid_text i = (case i of None \<Rightarrow> ''None'' | Some i \<Rightarrow> show_int i)"

definition page_sign :: "env \<Rightarrow> string \<Rightarrow> turn \<Rightarrow> string \<Rightarrow> string" where
  "page_sign e secret t nonce =
     take 32 (sign e secret (uid_text (fl_uid t) @ '':'' @ lower (rq_host (rq t)) @ '':'' @ nonce))"

definition page_token_ok :: "env \<Rightarrow> turn \<Rightarrow> bool" where
  "page_token_ok e t \<longleftrightarrow>
     (let token = req_header (rq t) ''x-kosheros-page'';
          nonce = before CHR ''.'' token; signature = after CHR ''.'' token in
      nonce \<noteq> [] \<and> signature \<noteq> []
      \<and> (case page_secret t of None \<Rightarrow> False | Some s \<Rightarrow> signature = page_sign e s t nonce))"

text \<open>A token made for a page; the secret is drawn the first time.\<close>

definition with_secret :: "env \<Rightarrow> turn \<Rightarrow> turn" where
  "with_secret e t = (if page_secret t = None then t\<lparr>page_secret := Some (fresh_id e)\<rparr> else t)"

definition page_token :: "env \<Rightarrow> turn \<Rightarrow> string" where
  "page_token e t = fresh_id e @ ''.'' @ page_sign e (the (page_secret t)) t (fresh_id e)"

definition JUDGE_CALLS_PER_MINUTE :: int where "JUDGE_CALLS_PER_MINUTE = 120"
definition MAX_JUDGE_COUNTERS :: nat where "MAX_JUDGE_COUNTERS = 1024"

definition keep_last :: "nat \<Rightarrow> 'a list \<Rightarrow> 'a list" where
  "keep_last n xs = drop (length xs - n) xs"

definition judge_allowed :: "env \<Rightarrow> string \<Rightarrow> (string, int \<times> int) dict \<Rightarrow> bool \<times> (string, int \<times> int) dict" where
  "judge_allowed e token calls =
     (case dict_get calls token (mono e, 0) of (started, tally) \<Rightarrow>
        let (started, tally) = (if mono e - started \<ge> 60 then (mono e, 0) else (started, tally)) in
        (tally < JUDGE_CALLS_PER_MINUTE,
         keep_last MAX_JUDGE_COUNTERS (dict_set token (started, tally + 1) (dict_pop token calls))))"

section \<open>What a page rendered\<close>

definition MAX_JUDGED_BYTES :: nat where "MAX_JUDGED_BYTES = 200000"
definition MAX_SCORED_BYTES :: nat where "MAX_SCORED_BYTES = 200000"

text \<open>\<open>str(body.get(k) or "")\<close>.\<close>

definition text_field :: "env \<Rightarrow> doc \<Rightarrow> string \<Rightarrow> string" where
  "text_field e d k = json_text (json_repr e) (or_else d k (JStr []))"

text \<open>\<open>json.loads(request.get_text() or "{}")\<close>; text that does not parse is no field at all.\<close>

definition request_json :: "env \<Rightarrow> turn \<Rightarrow> json" where
  "request_json e t =
     (let text = rq_text (rq t) in
      case json_loads e (if text = [] then ''{}'' else text) of None \<Rightarrow> JObj [] | Some v \<Rightarrow> v)"

definition page_host :: "turn \<Rightarrow> split_url \<Rightarrow> string" where
  "page_host t u = (if url_host u = [] then rq_host (rq t) else url_host u)"

definition answer_json :: "doc \<Rightarrow> turn \<Rightarrow> turn" where
  "answer_json d t = t\<lparr>answer := Some (make_response 200 (Json_body d) json_type)\<rparr>"

text \<open>An allow, bypass or pictures rule that matches: the administrator's word about a page.\<close>

definition let_through :: "turn \<Rightarrow> string \<Rightarrow> bool result" where
  "let_through t url =
     map_sum id (\<lambda>(action, pattern). action \<noteq> BLOCK \<and> pattern \<noteq> None) (decide_url (rules_for (px t) (fl_uid t)) url)"

definition rendered_verdict :: "env \<Rightarrow> turn \<Rightarrow> string \<Rightarrow> string \<Rightarrow> string \<Rightarrow> string \<Rightarrow> (string \<times> string \<times> string) result" where
  "rendered_verdict e t url host word text =
     (if word \<noteq> [] \<and> language_of_turn t = ''block'' \<and> listed e word
      then Inr ([], '' because of the language on it'', ''language'')
      else if text = [] then Inr ([], [], [])
      else map_sum id (\<lambda>allowed_by_rule.
             if allowed_by_rule then ([], [], [])
             else let level = score e text in
                  if at_least level (content_tolerance e t host False)
                  then (level, '' because the page reads as '' @ level, ''content:'' @ level)
                  else (level, [], []))
             (let_through t url))"

definition judge_rendered :: "env \<Rightarrow> turn \<Rightarrow> turn" where
  "judge_rendered e t =
     (case request_json e t of
        JObj d \<Rightarrow>
          (let url = take 2048 (text_field e d ''url'') in
           case urlsplit url of
             Inl x \<Rightarrow> raise_in t x
           | Inr u \<Rightarrow>
               if lower (page_host t u) \<noteq> lower (rq_host (rq t))
               then refuse 403 ''the address is not this page's'' t
               else (case rendered_verdict e t url (page_host t u) (take 64 (text_field e d ''language''))
                            (take MAX_JUDGED_BYTES (text_field e d ''text'')) of
                       Inl x \<Rightarrow> raise_in t x
                     | Inr (level, because, why) \<Rightarrow>
                         if because \<noteq> []
                         then answer_json [(''blocked'', JBool True), (''why'', JStr why)] (write_note ''block'' url why t)
                         else answer_json [(''blocked'', JBool False), (''level'', JStr level)] t))
      | _ \<Rightarrow> raise_in t no_attribute)"

section \<open>The script's three addresses\<close>

definition SCRIPT_PATH :: string where "SCRIPT_PATH = ''/__kosheros__/filter.js''"
definition WORDS_PATH :: string where "WORDS_PATH = ''/__kosheros__/words.json''"
definition JUDGE_PATH :: string where "JUDGE_PATH = ''/__kosheros__/judge''"

text \<open>\<open>_serve_page_filter\<close>: \<open>None\<close> when the request is not the script's.\<close>

definition serve_page_filter :: "env \<Rightarrow> turn \<Rightarrow> turn option" where
  "serve_page_filter e t =
     (let path = path_only (rq t); method = rq_method (rq t) in
      if path = SCRIPT_PATH \<and> method = ''GET''
      then Some (cached_answer Script_body (script_etag e) t)
      else if path = WORDS_PATH \<and> method = ''GET''
      then Some (if page_token_ok e t then cached_answer Words_body (words_etag e) t
                 else refuse 403 ''the word list is for the page filter's script'' t)
      else if path = JUDGE_PATH \<and> method = ''POST''
      then Some (if \<not> page_token_ok e t then refuse 403 ''no page token'' t
                 else (case judge_allowed e (req_header (rq t) ''x-kosheros-page'') (judge_calls t) of
                         (ok, calls) \<Rightarrow>
                           (let t = t\<lparr>judge_calls := calls\<rparr> in
                            if ok then judge_rendered e t
                            else refuse 429 ''too many calls from one page'' t)))
      else None)"

section \<open>Where the script goes\<close>

definition raw_text_elements :: "string list" where
  "raw_text_elements =
    [''script'', ''style'', ''textarea'', ''title'', ''xmp'', ''noscript'', ''iframe'', ''noembed'', ''noframes'']"

definition tag_end :: "char \<Rightarrow> bool" where
  "tag_end c \<longleftrightarrow> is_space c \<or> c = CHR ''>'' \<or> c = CHR ''/''"

definition prefix_nocase :: "string \<Rightarrow> string \<Rightarrow> bool" where
  "prefix_nocase p s \<longleftrightarrow> lower (take (length p) s) = p"

datatype markup = Comment | Raw_element string | Closing string nat

text \<open>What \<open>_MARKUP_RE\<close> matches at the start of a text.\<close>

definition raw_at :: "string \<Rightarrow> string option" where
  "raw_at s = find (\<lambda>n. prefix_nocase (CHR ''<'' # n) s
      \<and> (case drop (length n + 1) s of [] \<Rightarrow> False | c # _ \<Rightarrow> tag_end c)) raw_text_elements"

definition closing_at :: "string \<Rightarrow> (string \<times> nat) option" where
  "closing_at s = first_some (\<lambda>n.
     if prefix_nocase (''</'' @ n) s
     then (let rest = drop (length n + 2) s; spaces = takeWhile is_space rest in
           case drop (length spaces) rest of
             c # _ \<Rightarrow> if c = CHR ''>'' then Some (n, length n + 3 + length spaces) else None
           | [] \<Rightarrow> None)
     else None) [''head'', ''body'', ''html'']"

definition markup_at :: "string \<Rightarrow> markup option" where
  "markup_at s =
     (if starts_with s ''<!--'' then Some Comment
      else case raw_at s of Some n \<Rightarrow> Some (Raw_element n)
           | None \<Rightarrow> map_option (\<lambda>(n, k). Closing n k) (closing_at s))"

text \<open>What follows the end of a comment, or of an element whose content is text.\<close>

fun after_comment :: "string \<Rightarrow> string option" where
  "after_comment [] = None"
| "after_comment (c # s) = (if starts_with (c # s) ''-->'' then Some (drop 2 s) else after_comment s)"

fun after_element :: "string \<Rightarrow> string \<Rightarrow> string option" where
  "after_element n [] = None"
| "after_element n (c # s) =
     (if prefix_nocase (''</'' @ n) (c # s) \<and> (case drop (length n + 1) s of [] \<Rightarrow> False | d # _ \<Rightarrow> tag_end d)
      then Some (drop (length n + 2) s) else after_element n s)"

lemma after_comment_shorter: "after_comment s = Some r \<Longrightarrow> length r < length s"
  by (induction s) (auto split: if_splits)

lemma after_element_shorter: "after_element n s = Some r \<Longrightarrow> length r < length s"
  by (induction n s rule: after_element.induct) (auto split: if_splits)

lemma closing_at_positive: "closing_at s = Some (n, k) \<Longrightarrow> 0 < k"
  by (auto simp: closing_at_def Let_def dest!: first_some_SomeD split: if_splits list.splits)

lemma markup_at_Closing: "markup_at s = Some (Closing n k) \<Longrightarrow> 0 < k"
  by (auto simp: markup_at_def closing_at_positive split: if_splits option.splits)

text \<open>The first of each closing tag, with how much of the body is left there.\<close>

function closing_tags :: "(string, nat) dict \<Rightarrow> string \<Rightarrow> (string, nat) dict option" where
  "closing_tags found s =
     (case s of [] \<Rightarrow> Some found
      | c # cs \<Rightarrow>
        (case markup_at s of
           None \<Rightarrow> closing_tags found cs
         | Some Comment \<Rightarrow> (case after_comment (drop 4 s) of None \<Rightarrow> None | Some r \<Rightarrow> closing_tags found r)
         | Some (Raw_element n) \<Rightarrow>
             (case after_element n (drop (length n + 1) s) of None \<Rightarrow> None | Some r \<Rightarrow> closing_tags found r)
         | Some (Closing n k) \<Rightarrow>
             closing_tags (if n \<in> set (keys found) then found else dict_set n (length s) found) (drop k s)))"
  by pat_completeness auto
termination
  by (relation "measure (\<lambda>(found, s). length s)")
    (auto dest!: after_comment_shorter after_element_shorter markup_at_Closing)

declare closing_tags.simps [simp del]

definition injection_point :: "string \<Rightarrow> nat option" where
  "injection_point text =
     map_option (\<lambda>found.
       case first_some (map_of found) [''head'', ''body'', ''html''] of
         Some left \<Rightarrow> length text - left | None \<Rightarrow> length text)
     (closing_tags [] text)"

definition is_markup :: "string \<Rightarrow> bool" where
  "is_markup text \<longleftrightarrow>
     starts_with (dropWhile (\<lambda>c. c \<in> {CHR '' '', CHR 0x09, CHR 0x0D, CHR 0x0A, CHR 0x0C}) text) ''<''"

definition nonce_char :: "char \<Rightarrow> bool" where
  "nonce_char c \<longleftrightarrow> alphanumeric c \<or> c \<in> {CHR ''+'', CHR ''/'', CHR ''='', CHR ''_'', CHR ''-''}"

fun csp_nonce :: "string \<Rightarrow> string option" where
  "csp_nonce [] = None"
| "csp_nonce (c # s) =
     (let n = takeWhile nonce_char (drop 6 s) in
      if starts_with (c # s) (CHR 0x27 # ''nonce-'') \<and> n \<noteq> [] \<and> starts_with (drop (6 + length n) s) [CHR 0x27]
      then Some n else csp_nonce s)"

definition quoted :: "string \<Rightarrow> string" where "quoted s = CHR 0x22 # s @ [CHR 0x22]"

text \<open>The text of a response, and \<open>flow.response.text = s\<close>.\<close>

definition text_of_response :: "response \<Rightarrow> string" where
  "text_of_response r = (case body r of Raw s \<Rightarrow> s | _ \<Rightarrow> [])"

definition content_type :: "response \<Rightarrow> string" where
  "content_type r = lower (dict_get (headers r) ''content-type'' [])"

definition set_text :: "string \<Rightarrow> response \<Rightarrow> response" where
  "set_text s r = r\<lparr>body := Raw s\<rparr>"

definition set_header :: "string \<Rightarrow> string \<Rightarrow> response \<Rightarrow> response" where
  "set_header n v r = r\<lparr>headers := dict_set n v (headers r)\<rparr>"

definition on_answer :: "(response \<Rightarrow> response) \<Rightarrow> turn \<Rightarrow> turn" where
  "on_answer f t = t\<lparr>answer := map_option f (answer t)\<rparr>"

definition is_html :: "response \<Rightarrow> bool" where
  "is_html r \<longleftrightarrow> sublist ''text/html'' (content_type r)"

definition put_tag :: "string \<Rightarrow> string \<Rightarrow> string \<Rightarrow> response \<Rightarrow> response" where
  "put_tag attrs header_name header_value r =
     (let text = text_of_response r;
          nonce = (case csp_nonce (dict_get (headers r) ''content-security-policy'' []) of
                     None \<Rightarrow> [] | Some n \<Rightarrow> '' nonce='' @ quoted n) in
      case injection_point text of None \<Rightarrow> r
      | Some n \<Rightarrow> set_header header_name header_value
          (set_text (take n text @ ''<script '' @ attrs @ nonce @ ''></script>'' @ drop n text) r))"

definition inject_page_script :: "env \<Rightarrow> string \<Rightarrow> bool \<Rightarrow> turn \<Rightarrow> turn" where
  "inject_page_script e language judged t =
     (case answer t of None \<Rightarrow> t
      | Some r \<Rightarrow>
        let text = text_of_response r in
        if language = ''off'' \<and> \<not> judged \<or> \<not> is_html r \<or> text = [] \<or> sublist SCRIPT_PATH text \<or> \<not> is_markup text then t
        else (let t = with_secret e t;
                  attrs = ''src='' @ quoted SCRIPT_PATH @ '' data-kosheros-language='' @ quoted language
                    @ '' data-kosheros-judge='' @ quoted (if judged then ''1'' else ''0'')
                    @ '' data-kosheros-token='' @ quoted (page_token e t) @ '' defer'' in
              on_answer (put_tag attrs ''x-kosheros-page'' ''filter-script'') t))"

section \<open>The page as it arrives\<close>

definition MAX_PAGE :: nat where "MAX_PAGE = 2000000"

text \<open>The pictures and the menu items taken out of a page, and whether its menu is out of the text.\<close>

definition without_inline :: "env \<Rightarrow> turn \<Rightarrow> response \<Rightarrow> response \<times> bool" where
  "without_inline e t r =
     (let text = text_of_response r in
      if level_of_turn t = ''all'' \<and> sublist ''data:image/'' text \<and> \<not> fl_pictures t
      then (set_text (blank_inline e text) r, True) else (r, False))"

definition strip_shop_navigation :: "env \<Rightarrow> string \<Rightarrow> response \<Rightarrow> string \<Rightarrow> response \<times> string \<times> bool" where
  "strip_shop_navigation e host r text =
     (case strip_spec (site_table e) host of None \<Rightarrow> (r, text, False)
      | Some (tags, terms) \<Rightarrow>
        (case strip_items e tags terms text of (stripped, removed) \<Rightarrow>
           (if removed \<noteq> 0 then set_header ''x-kosheros'' (''items-removed='' @ show_nat removed) (set_text stripped r) else r,
            stripped, length text \<le> MAX_PAGE)))"

definition prepared :: "env \<Rightarrow> turn \<Rightarrow> response \<Rightarrow> response \<times> string \<times> bool" where
  "prepared e t r =
     (case without_inline e t r of (r', inlined) \<Rightarrow>
        if blocks t GATING_CATEGORY
        then (case strip_shop_navigation e (rq_host (rq t)) r' (text_of_response r') of
                (r'', text, stripped) \<Rightarrow> (r'', text, inlined \<or> stripped))
        else (r', text_of_response r', inlined))"

definition scored_text :: "env \<Rightarrow> string \<Rightarrow> string" where
  "scored_text e text = visible_text e (take MAX_SCORED_BYTES text)"

definition put_answer :: "response \<Rightarrow> turn \<Rightarrow> turn" where "put_answer r t = t\<lparr>answer := Some r\<rparr>"

definition MAX_REMEMBERED_PAGES :: nat where "MAX_REMEMBERED_PAGES = 64"

definition remember_page :: "string \<Rightarrow> string \<Rightarrow> turn \<Rightarrow> turn" where
  "remember_page url level t =
     t\<lparr>page_levels := (if level = ''clean'' then dict_pop url (page_levels t)
                       else keep_last MAX_REMEMBERED_PAGES (dict_set url level (page_levels t)))\<rparr>"

definition judge_page :: "env \<Rightarrow> string \<Rightarrow> bool \<Rightarrow> string \<Rightarrow> turn \<Rightarrow> turn" where
  "judge_page e language stripped text t =
     (let url = rq_url (rq t) in
      if level_of_turn t = ''none'' \<and> \<not> blocks t GATING_CATEGORY then inject_page_script e language False t
      else (case let_through t url of
              Inl x \<Rightarrow> raise_in t x
            | Inr True \<Rightarrow> inject_page_script e language False t
            | Inr False \<Rightarrow>
                (let level = score e text; t = remember_page url level t in
                 if at_least level (content_tolerance e t (rq_host (rq t)) stripped)
                 then block url ('' because the page reads as '' @ level) (''content:'' @ level) t
                 else inject_page_script e language True t)))"

definition filter_page :: "env \<Rightarrow> turn \<Rightarrow> turn" where
  "filter_page e t =
     (case answer t of None \<Rightarrow> t
      | Some r \<Rightarrow>
        let language = language_of_turn t in
        if level_of_turn t = ''none'' \<and> language = ''off'' \<and> \<not> blocks t GATING_CATEGORY \<or> \<not> is_html r then t
        else (case urlsplit (rq_url (rq t)) of
          Inl x \<Rightarrow> raise_in t x
        | Inr _ \<Rightarrow>
          if text_of_response r = [] then t
          else (case prepared e t r of (r', page, stripped) \<Rightarrow>
            let text = scored_text e page; t = put_answer r' t in
            if language \<noteq> ''off'' \<and> listed e text
            then (if language = ''block''
                  then block (rq_url (rq t)) '' because of the language on it'' ''language'' t
                  else (case clean_words e page of (cleaned, tally) \<Rightarrow>
                    judge_page e language stripped (scored_text e cleaned)
                      (if tally \<noteq> 0
                       then on_answer (set_header ''x-kosheros'' (''language-cleaned='' @ show_nat tally) \<circ> set_text cleaned) t
                       else t)))
            else judge_page e language stripped text t)))"

section \<open>Which pages are refused\<close>

definition refused_page :: "turn \<Rightarrow> bool" where
  "refused_page t \<longleftrightarrow> (case answer t of None \<Rightarrow> False
     | Some r \<Rightarrow> (case body r of Block_page _ _ _ \<Rightarrow> True | _ \<Rightarrow> False))"

definition raw_answer :: "turn \<Rightarrow> bool" where
  "raw_answer t \<longleftrightarrow> (\<exists>r s. answer t = Some r \<and> body r = Raw s)"

lemma raw_not_refused: "raw_answer t \<Longrightarrow> \<not> refused_page t"
  by (auto simp: raw_answer_def refused_page_def)

lemma raw_on_answer [simp]:
  "raw_answer t \<Longrightarrow> raw_answer (on_answer (set_header n v \<circ> set_text s) t)"
  by (auto simp: raw_answer_def on_answer_def set_text_def set_header_def)

lemma raw_put_tag: "body r = Raw s \<Longrightarrow> \<exists>s'. body (put_tag a n v r) = Raw s'"
  by (auto simp: put_tag_def set_text_def set_header_def Let_def split: option.split)

lemma raw_inject: "raw_answer t \<Longrightarrow> raw_answer (inject_page_script e l j t)"
proof -
  assume "raw_answer t"
  then obtain r s where "answer t = Some r" "body r = Raw s" by (auto simp: raw_answer_def)
  then show ?thesis
    using raw_put_tag by (auto simp: inject_page_script_def raw_answer_def on_answer_def with_secret_def Let_def)
qed

lemma refused_block [simp]: "refused_page (block url because why t)"
  by (simp add: refused_page_def block_def write_note_def make_response_def)

lemma raw_remember [simp]: "raw_answer (remember_page url l t) = raw_answer t"
  by (simp add: raw_answer_def remember_page_def)

lemma raw_raise [simp]: "raw_answer (raise_in t x) = raw_answer t"
  by (simp add: raw_answer_def raise_in_def)

lemma same_settings [simp]:
  "level_of_turn (remember_page url l t) = level_of_turn t" "blocks (remember_page url l t) = blocks t"
  "level_of_turn (put_answer r t) = level_of_turn t" "blocks (put_answer r t) = blocks t"
  "level_of_turn (on_answer f t) = level_of_turn t" "blocks (on_answer f t) = blocks t"
  "rq (put_answer r t) = rq t" "rq (on_answer f t) = rq t" "rq (remember_page url l t) = rq t"
  "let_through (put_answer r t) = let_through t" "let_through (on_answer f t) = let_through t"
  by (auto simp: level_of_turn_def remember_page_def blocks_def put_answer_def on_answer_def let_through_def fun_eq_iff)

lemma same_tolerance [simp]:
  "content_tolerance e (remember_page url l t) = content_tolerance e t"
  "content_tolerance e (put_answer r t) = content_tolerance e t"
  "content_tolerance e (on_answer f t) = content_tolerance e t"
  by (auto simp: content_tolerance_def fun_eq_iff)

lemma judge_page_refuses:
  assumes "raw_answer t"
  shows "refused_page (judge_page e l stripped text t) \<longleftrightarrow>
    (level_of_turn t \<noteq> ''none'' \<or> blocks t GATING_CATEGORY) \<and> let_through t (rq_url (rq t)) = Inr False
    \<and> at_least (score e text) (content_tolerance e t (rq_host (rq t)) stripped)"
  using assms raw_not_refused raw_inject
  by (auto simp: judge_page_def Let_def split: sum.split bool.split)

lemma prepared_raw:
  assumes "body r = Raw s" "prepared e t r = (r', page, stripped)"
  shows "\<exists>s'. body r' = Raw s'"
  using assms
  by (auto simp: prepared_def without_inline_def strip_shop_navigation_def set_text_def set_header_def Let_def
      split: option.splits prod.splits if_splits)

text \<open>
  What is judged: the page as it will be shown, its pictures, menus and bad language taken out
  first where the account's settings take them out.
\<close>

definition judged_text :: "env \<Rightarrow> turn \<Rightarrow> string \<Rightarrow> string" where
  "judged_text e t page =
     (if language_of_turn t \<noteq> ''off'' \<and> listed e (scored_text e page)
      then scored_text e (fst (clean_words e page)) else scored_text e page)"

text \<open>
  Property C28: exactly which pages are refused for their words.  A page in HTML that arrived for an account
  with anything to judge by is refused if and only if it holds a listed word and the account blocks such
  pages, or the account has a picture level or blocks immodest sites, no allow, bypass or pictures rule
  of its names the page, and what is left of the page after cleaning scores at least as high as the
  account's tolerance.
\<close>

theorem page_refused_exactly:
  assumes "answer t = Some r" "body r = Raw s" "s \<noteq> []" "is_html r" "urlsplit (rq_url (rq t)) = Inr u"
    and "prepared e t r = (r', page, stripped)"
  shows "refused_page (filter_page e t) \<longleftrightarrow>
    language_of_turn t = ''block'' \<and> listed e (scored_text e page)
    \<or> (level_of_turn t \<noteq> ''none'' \<or> blocks t GATING_CATEGORY) \<and> let_through t (rq_url (rq t)) = Inr False
      \<and> severity (content_tolerance e t (rq_host (rq t)) stripped) \<le> severity (score e (judged_text e t page))"
proof -
  let ?t = "put_answer r' t"
  have raw: "raw_answer ?t" "raw_answer (on_answer (set_header n v \<circ> set_text z) ?t)" for n v z
    using prepared_raw [OF assms(2,6)] by (auto simp: raw_answer_def put_answer_def on_answer_def set_header_def set_text_def)
  have plain: "\<not> refused_page t" using assms(1,2) by (simp add: refused_page_def)
  have tx: "text_of_response r = s" using assms(2) by (simp add: text_of_response_def)
  have j: "refused_page (judge_page e l b z ?t) \<longleftrightarrow>
      (level_of_turn t \<noteq> ''none'' \<or> blocks t GATING_CATEGORY) \<and> let_through t (rq_url (rq t)) = Inr False
      \<and> at_least (score e z) (content_tolerance e t (rq_host (rq t)) b)"
    "refused_page (judge_page e l b z (on_answer (set_header n v \<circ> set_text x) ?t)) \<longleftrightarrow>
      (level_of_turn t \<noteq> ''none'' \<or> blocks t GATING_CATEGORY) \<and> let_through t (rq_url (rq t)) = Inr False
      \<and> at_least (score e z) (content_tolerance e t (rq_host (rq t)) b)" for l b z n v x
    using judge_page_refuses [OF raw(1)] judge_page_refuses [OF raw(2)] by simp_all
  show ?thesis
    using assms(1,3-6) plain
    by (auto simp: filter_page_def tx j judged_text_def at_least_def Let_def split: prod.split)
qed

definition page_response :: "string \<Rightarrow> response" where
  "page_response s = make_response 200 (Raw s) [(''content-type'', ''text/html'')]"

definition page_turn :: "string \<Rightarrow> turn" where
  "page_turn s = put_answer (page_response s) ((example_turn ''news.example'' ''/a'')\<lparr>fl_uid := Some 1001\<rparr>)"

lemma page_turn_settings:
  "level_of_turn (page_turn s) = ''immodest''" "language_of_turn (page_turn s) = ''substitute''"
  "\<not> blocks (page_turn s) GATING_CATEGORY" "rules_for (px (page_turn s)) i = []"
  "rq_url (rq (page_turn s)) = ''https://news.example/a''" "answer (page_turn s) = Some (page_response s)"
  by (simp_all add: level_of_turn_def language_of_turn_def blocks_def page_turn_def put_answer_def example_turn_def
      media_level_for_def language_filter_for_def blocked_categories_for_def rules_for_def for_uid_def is_known_def
      empty_cache_def setting_def fail_closed_blocked_def DEFAULT_BLOCKED_def GATING_CATEGORY_def)

lemma page_refused_exactly_witness:
  "refused_page (filter_page example_env (page_turn ''a bikini''))
   \<and> \<not> refused_page (filter_page example_env (page_turn ''a book''))"
proof -
  let ?u = "\<lparr>url_host = ''news.example'', url_path = ''/a'', url_query = []\<rparr>"
  have u: "urlsplit ''https://news.example/a'' = Inr ?u" "urlsplit (whole_url ''https://news.example/a'') = Inr ?u"
    by code_simp+
  have r: "body (page_response s) = Raw s" "is_html (page_response s)" for s
    by (simp add: page_response_def make_response_def)
      (simp add: is_html_def content_type_def page_response_def make_response_def dict_get_def lower_def lower_char_def)
  have p: "prepared example_env (page_turn s) (page_response s) = (page_response s, s, False)" for s
    by (simp add: prepared_def without_inline_def page_turn_settings text_of_response_def r(1) Let_def)
  have l: "let_through (page_turn s) (rq_url (rq (page_turn s))) = Inr False" for s
    using u(2) by (simp add: let_through_def page_turn_settings decide_url_def whole_url_def decide_at_def ALLOW_def)
  have tol: "content_tolerance example_env (page_turn s) h False = ''immodest''" for s h
    by (simp add: content_tolerance_def page_turn_settings CONTENT_TOLERANCE_def dict_get_def)
  have sc: "score example_env ''a bikini'' = ''immodest''" "score example_env ''a book'' = ''clean''"
    "\<not> listed example_env ''a bikini''" "\<not> listed example_env ''a book''"
    "scored_text example_env ''a bikini'' = ''a bikini''" "scored_text example_env ''a book'' = ''a book''"
    by (simp_all add: example_env_def scored_text_def MAX_SCORED_BYTES_def sublist_code)
  have sev: "severity ''immodest'' = 1" "severity ''clean'' = 0"
    by (simp_all add: severity_def SEVERITY_def LEVELS_def dict_get_def upt_rec)
  have "refused_page (filter_page example_env (page_turn s)) \<longleftrightarrow>
      severity ''immodest'' \<le> severity (score example_env (judged_text example_env (page_turn s) s))" if "s \<noteq> []" for s
    using page_refused_exactly [OF page_turn_settings(6) r(1) that r(2) _ p, of ?u] u(1) l
    by (simp add: page_turn_settings tol)
  then show ?thesis by (simp add: judged_text_def sc sev)
qed

end
