(* ===== verification/ProxyCalm.thy ===== *)
theory ProxyCalm
  imports ProxyPages
begin

text \<open>
  The calmer sites in \<open>mitm/kosher_filter.py\<close>: the heartbeats that a page sends, the budget of the day
  they count against, and the script put into the page.  Seconds are whole numbers here.
\<close>

section \<open>The budget\<close>

definition CALM_BEAT_MAX_SECONDS :: int where "CALM_BEAT_MAX_SECONDS = 120"
definition CALM_TIME_FLUSH_SECONDS :: int where "CALM_TIME_FLUSH_SECONDS = 30"
definition CALM_SCRIPT_PATH :: string where "CALM_SCRIPT_PATH = ''/__kosheros__/calm.js''"
definition CALM_BEAT_PATH :: string where "CALM_BEAT_PATH = ''/__kosheros__/calm-beat''"

definition of_today :: "env \<Rightarrow> (string, day_time) dict \<Rightarrow> (string, day_time) dict" where
  "of_today e d = filter (\<lambda>(k, v). ct_day v = today e) d"

text \<open>The counts in memory, read from the file the first time; yesterday's are dropped.\<close>

definition load_store :: "env \<Rightarrow> turn \<Rightarrow> turn" where
  "load_store e t =
     (if calm_store t = None
      then t\<lparr>calm_store := Some (case calm_file t of None \<Rightarrow> [] | Some d \<Rightarrow> of_today e d)\<rparr> else t)"

definition store_of :: "turn \<Rightarrow> (string, day_time) dict" where
  "store_of t = (case calm_store t of None \<Rightarrow> [] | Some d \<Rightarrow> d)"

definition calm_key :: "turn \<Rightarrow> string \<Rightarrow> string" where
  "calm_key t site = uid_text (fl_uid t) @ '':'' @ site"

definition spent :: "turn \<Rightarrow> string \<Rightarrow> int" where
  "spent t k = (case map_of (store_of t) k of None \<Rightarrow> 0 | Some v \<Rightarrow> ct_seconds v)"

definition set_spent :: "env \<Rightarrow> string \<Rightarrow> int \<Rightarrow> turn \<Rightarrow> turn" where
  "set_spent e k s t = t\<lparr>calm_store := Some (dict_set k \<lparr>ct_day = today e, ct_seconds = s\<rparr> (store_of t))\<rparr>"

text \<open>\<open>_calm_entry\<close>: an entry of another day starts again at nothing.\<close>

definition calm_entry :: "env \<Rightarrow> string \<Rightarrow> turn \<Rightarrow> turn" where
  "calm_entry e k t =
     (let t = load_store e t in
      case map_of (store_of t) k of
        Some v \<Rightarrow> if ct_day v = today e then t else set_spent e k 0 t
      | None \<Rightarrow> set_spent e k 0 t)"

definition calm_remaining :: "env \<Rightarrow> string \<Rightarrow> int \<Rightarrow> turn \<Rightarrow> int \<times> turn" where
  "calm_remaining e site minutes t =
     (let t = calm_entry e (calm_key t site) t in (max 0 (minutes * 60 - spent t (calm_key t site)), t))"

definition calm_flush :: "env \<Rightarrow> bool \<Rightarrow> turn \<Rightarrow> turn" where
  "calm_flush e force t =
     (if store_of t = [] \<or> \<not> force \<and> mono e - calm_flushed t < CALM_TIME_FLUSH_SECONDS then t
      else t\<lparr>calm_flushed := mono e,
             calm_file := (if calm_writable e then Some (of_today e (store_of t)) else calm_file t)\<rparr>)"

definition calm_credit :: "env \<Rightarrow> string \<Rightarrow> int \<Rightarrow> int \<Rightarrow> turn \<Rightarrow> int \<times> turn" where
  "calm_credit e site seconds minutes t =
     (let k = calm_key t site;
          t = calm_entry e k t;
          total = min (minutes * 60 + CALM_BEAT_MAX_SECONDS) (spent t k + seconds) in
      (max 0 (minutes * 60 - total), calm_flush e False (set_spent e k total t)))"

section \<open>Heartbeats\<close>

definition beat_seconds :: "env \<Rightarrow> doc \<Rightarrow> int" where
  "beat_seconds e d =
     (let v = or_else d ''seconds'' (JInt 0);
          n = (case v of JInt i \<Rightarrow> i | JBool b \<Rightarrow> (if b then 1 else 0)
               | JStr s \<Rightarrow> (case read_float e s of None \<Rightarrow> 0 | Some i \<Rightarrow> i) | _ \<Rightarrow> 0) in
      max 0 (min CALM_BEAT_MAX_SECONDS n))"

definition count_beat :: "env \<Rightarrow> doc \<Rightarrow> string \<Rightarrow> string \<Rightarrow> turn \<Rightarrow> turn" where
  "count_beat e d url site t =
     (let settings = calm_for (px t) (fl_uid t); minutes = site_minutes settings site in
      if \<not> calm_applies settings site then refuse 404 ''this site is not calmed for this account'' t
      else if minutes \<le> 0 then answer_json [(''remaining'', JInt (-1)), (''over'', JBool False)] t
      else (case calm_credit e site (beat_seconds e d) minutes t of (remaining, t) \<Rightarrow>
             answer_json [(''remaining'', JInt remaining), (''over'', JBool (remaining \<le> 0))]
               (if remaining \<le> 0 then write_note ''block'' url (''calm:'' @ site) t else t)))"

definition calm_beat :: "env \<Rightarrow> turn \<Rightarrow> turn" where
  "calm_beat e t =
     (case request_json e t of
        JObj d \<Rightarrow>
          (let url = take 2048 (text_field e d ''url'') in
           case urlsplit url of
             Inl x \<Rightarrow> raise_in t x
           | Inr u \<Rightarrow>
               if lower (page_host t u) \<noteq> lower (rq_host (rq t)) then refuse 403 ''the address is not this page's'' t
               else (case site_for (Some (page_host t u)) of
                       None \<Rightarrow> refuse 404 ''this site is not calmed for this account'' t
                     | Some site \<Rightarrow> count_beat e d url site t))
      | _ \<Rightarrow> raise_in t no_attribute)"

definition serve_calm :: "env \<Rightarrow> turn \<Rightarrow> turn option" where
  "serve_calm e t =
     (let path = path_only (rq t); method = rq_method (rq t) in
      if path = CALM_SCRIPT_PATH \<and> method = ''GET''
      then Some (if calm_script e then cached_answer Script_body (calm_etag e) t
                 else refuse 404 ''the calm script is not installed'' t)
      else if path = CALM_BEAT_PATH \<and> method = ''POST''
      then Some (if page_token_ok e t then calm_beat e t else refuse 403 ''no page token'' t)
      else None)"

section \<open>The calmer page\<close>

definition inject_calm :: "env \<Rightarrow> string \<Rightarrow> doc \<Rightarrow> string \<Rightarrow> int \<Rightarrow> turn \<Rightarrow> turn" where
  "inject_calm e site settings page_mode minutes t =
     (case answer t of None \<Rightarrow> t
      | Some r \<Rightarrow>
        let text = text_of_response r in
        if text = [] \<or> sublist CALM_SCRIPT_PATH text \<or> \<not> is_markup text then t
        else (let (remaining, t) = (if minutes \<noteq> 0 then calm_remaining e site minutes t else (-1, t));
                  t = with_secret e t;
                  attrs = ''src='' @ quoted CALM_SCRIPT_PATH @ '' data-kosheros-calm-site='' @ quoted site
                    @ '' data-kosheros-calm-mode='' @ quoted page_mode
                    @ '' data-kosheros-calm-items='' @ quoted (show_int (feed_items settings))
                    @ '' data-kosheros-calm-remaining='' @ quoted (show_int remaining)
                    @ '' data-kosheros-calm-rules='' @ quoted (calm_rules e site)
                    @ '' data-kosheros-token='' @ quoted (page_token e t) @ '' defer'' in
              on_answer (put_tag attrs ''x-kosheros-calm'' (site @ '':'' @ page_mode)) t))"

definition over_page :: "string \<Rightarrow> turn \<Rightarrow> turn" where
  "over_page site t =
     write_note ''block'' (rq_url (rq t)) (''calm:'' @ site)
       (t\<lparr>answer := Some (make_response 403
            (Over_page (html_escape (case site_name site of Inl _ \<Rightarrow> site | Inr l \<Rightarrow> l))) html_type)\<rparr>)"

definition calm_filter :: "env \<Rightarrow> turn \<Rightarrow> turn" where
  "calm_filter e t =
     (case (site_for (Some (rq_host (rq t))), answer t) of
        (Some site, Some r) \<Rightarrow>
          (let settings = calm_for (px t) (fl_uid t) in
           if \<not> calm_applies settings site \<or> status r \<noteq> 200 \<or> \<not> is_html r then t
           else (case mode_for site (rq_path (rq t)) of
                   Inl x \<Rightarrow> raise_in t x
                 | Inr page_mode \<Rightarrow>
                     if page_mode = ''login'' then t
                     else (let minutes = site_minutes settings site;
                               (remaining, t') = (if minutes \<noteq> 0 then calm_remaining e site minutes t else (1, t)) in
                           if remaining \<le> 0 then over_page site t'
                           else inject_calm e site settings page_mode minutes t')))
      | _ \<Rightarrow> t)"

section \<open>What the budget counts\<close>

text \<open>An orderly restart: \<open>done\<close> writes the counts out, and the next proxy reads them.\<close>

datatype calm_event = Beat env int | Restart env

definition calm_step :: "string \<Rightarrow> int \<Rightarrow> calm_event \<Rightarrow> turn \<Rightarrow> turn" where
  "calm_step site minutes ev t =
     (case ev of Beat e seconds \<Rightarrow> snd (calm_credit e site seconds minutes t)
      | Restart e \<Rightarrow> (calm_flush e True t)\<lparr>calm_store := None\<rparr>)"

definition event_env :: "calm_event \<Rightarrow> env" where
  "event_env ev = (case ev of Beat e _ \<Rightarrow> e | Restart e \<Rightarrow> e)"

definition event_seconds :: "calm_event \<Rightarrow> int" where
  "event_seconds ev = (case ev of Beat _ s \<Rightarrow> s | Restart _ \<Rightarrow> 0)"

text \<open>What a day's count of a key is, in memory or, before it is read, in the file.\<close>

definition on_day :: "string \<Rightarrow> (string, day_time) dict \<Rightarrow> string \<Rightarrow> int" where
  "on_day d m k = (case map_of m k of Some v \<Rightarrow> if ct_day v = d then ct_seconds v else 0 | None \<Rightarrow> 0)"

definition counted :: "string \<Rightarrow> string \<Rightarrow> turn \<Rightarrow> int" where
  "counted d k t =
     (case calm_store t of Some m \<Rightarrow> on_day d m k
      | None \<Rightarrow> (case calm_file t of None \<Rightarrow> 0 | Some m \<Rightarrow> on_day d m k))"

definition counts_ok :: "turn \<Rightarrow> bool" where
  "counts_ok t \<longleftrightarrow> dict_ok (store_of t) \<and> (\<forall>m. calm_file t = Some m \<longrightarrow> dict_ok m)"

lemma map_of_filter_values:
  "dict_ok m \<Longrightarrow> map_of (filter (\<lambda>(k, v). P v) m) k = (case map_of m k of Some v \<Rightarrow> if P v then Some v else None | None \<Rightarrow> None)"
proof (induction m)
  case (Cons a m)
  then show ?case
    by (cases a) (auto simp: map_of_eq_None_iff image_iff split: option.split)
qed simp

lemma on_day_of_today: "dict_ok m \<Longrightarrow> on_day (today e) (of_today e m) k = on_day (today e) m k"
  by (simp add: on_day_def of_today_def map_of_filter_values split: option.split)

lemma dict_ok_of_today: "dict_ok m \<Longrightarrow> dict_ok (of_today e m)"
  by (simp add: of_today_def distinct_map distinct_filter inj_on_def)

lemma load_store_facts:
  assumes "counts_ok t"
  shows "counts_ok (load_store e t)" "counted (today e) k (load_store e t) = counted (today e) k t"
    "calm_store (load_store e t) \<noteq> None" "fl_uid (load_store e t) = fl_uid t"
  using assms by (auto simp: load_store_def counts_ok_def store_of_def counted_def on_day_of_today dict_ok_of_today
      on_day_def [of _ "[]"] split: option.splits)

lemma set_spent_facts:
  assumes "counts_ok t"
  shows "counts_ok (set_spent e k s t)" "spent (set_spent e k s t) k' = (if k' = k then s else spent t k')"
    "calm_store (set_spent e k s t) \<noteq> None" "fl_uid (set_spent e k s t) = fl_uid t"
  using assms by (auto simp: set_spent_def counts_ok_def store_of_def spent_def)

lemma counted_set_spent: "counted (today e) k (set_spent e k s t) = s"
  by (simp add: set_spent_def counted_def on_day_def)

lemma calm_entry_facts:
  assumes "counts_ok t"
  shows "counts_ok (calm_entry e k t)" "spent (calm_entry e k t) k = counted (today e) k t"
    "fl_uid (calm_entry e k t) = fl_uid t" "counted (today e) k (calm_entry e k t) = counted (today e) k t"
proof -
  note l = load_store_facts [OF assms, of e]
  have s: "counted (today e) k (load_store e t)
      = (case map_of (store_of (load_store e t)) k of Some v \<Rightarrow> if ct_day v = today e then ct_seconds v else 0 | None \<Rightarrow> 0)"
    using l(3) by (auto simp: counted_def store_of_def on_day_def)
  show "counts_ok (calm_entry e k t)" "fl_uid (calm_entry e k t) = fl_uid t"
    using l set_spent_facts [OF l(1)] by (auto simp: calm_entry_def Let_def split: option.split)
  show "spent (calm_entry e k t) k = counted (today e) k t"
    using l(2) s set_spent_facts [OF l(1)] by (auto simp: calm_entry_def Let_def spent_def [of "load_store e t"] split: option.splits)
  show "counted (today e) k (calm_entry e k t) = counted (today e) k t"
    using l(2) s by (auto simp: calm_entry_def Let_def counted_set_spent split: option.splits)
qed

lemma calm_flush_facts:
  assumes "counts_ok t"
  shows "counts_ok (calm_flush e f t)" "calm_store t \<noteq> None \<Longrightarrow> counted d k (calm_flush e f t) = counted d k t"
    "fl_uid (calm_flush e f t) = fl_uid t" "calm_store (calm_flush e f t) = calm_store t"
  using assms
  by (auto simp: calm_flush_def counts_ok_def store_of_def counted_def dict_ok_of_today split: option.splits)

lemma credit_facts:
  assumes "counts_ok t" "today e = d"
  shows "counts_ok (snd (calm_credit e site s m t))" "fl_uid (snd (calm_credit e site s m t)) = fl_uid t"
    "calm_store (snd (calm_credit e site s m t)) \<noteq> Some []"
    "counted d (calm_key t site) (snd (calm_credit e site s m t))
     = min (m * 60 + CALM_BEAT_MAX_SECONDS) (counted d (calm_key t site) t + s)"
proof -
  let ?k = "calm_key t site"
  note n = calm_entry_facts [OF assms(1), of e ?k]
  note p = set_spent_facts [OF n(1)]
  note f = calm_flush_facts [OF p(1)]
  show "counts_ok (snd (calm_credit e site s m t))" "fl_uid (snd (calm_credit e site s m t)) = fl_uid t"
    using n p f by (simp_all add: calm_credit_def Let_def)
  show "calm_store (snd (calm_credit e site s m t)) \<noteq> Some []"
    using f(4) by (simp add: calm_credit_def Let_def set_spent_def) (metis fst_set_dict_set insert_not_empty list.set(1) image_empty)
  show "counted d ?k (snd (calm_credit e site s m t)) = min (m * 60 + CALM_BEAT_MAX_SECONDS) (counted d ?k t + s)"
    using n(2) f(2) [OF p(3)] assms(2) by (auto simp: calm_credit_def Let_def counted_set_spent)
qed

lemma restart_facts:
  assumes "counts_ok t" "today e = d" "calm_writable e" "calm_store t \<noteq> Some []"
  shows "counts_ok (calm_step site m (Restart e) t)" "fl_uid (calm_step site m (Restart e) t) = fl_uid t"
    "calm_store (calm_step site m (Restart e) t) = None"
    "counted d k (calm_step site m (Restart e) t) = counted d k t"
proof -
  show "counts_ok (calm_step site m (Restart e) t)" "fl_uid (calm_step site m (Restart e) t) = fl_uid t"
    "calm_store (calm_step site m (Restart e) t) = None"
    using assms by (auto simp: calm_step_def calm_flush_def counts_ok_def store_of_def dict_ok_of_today)
  show "counted d k (calm_step site m (Restart e) t) = counted d k t"
  proof (cases "calm_store t")
    case (Some c)
    with assms have "dict_ok c" "c \<noteq> []" by (auto simp: counts_ok_def store_of_def)
    with Some assms(2,3) show ?thesis
      by (auto simp: calm_step_def calm_flush_def store_of_def counted_def on_day_of_today)
  qed (simp add: calm_step_def calm_flush_def store_of_def counted_def)
qed

lemma steps_facts:
  assumes "counts_ok t" "calm_store t \<noteq> Some []" and "\<forall>ev \<in> set evs. today (event_env ev) = d \<and> 0 \<le> event_seconds ev"
    and "\<forall>e. Restart e \<in> set evs \<longrightarrow> calm_writable e" and "counted d (calm_key t site) t \<le> cap"
    and cap: "cap = m * 60 + CALM_BEAT_MAX_SECONDS"
  shows "counts_ok (fold (calm_step site m) evs t) \<and> fl_uid (fold (calm_step site m) evs t) = fl_uid t
    \<and> counted d (calm_key t site) (fold (calm_step site m) evs t)
      = min cap (counted d (calm_key t site) t + sum_list (map event_seconds evs))"
  using assms(1-5)
proof (induction evs arbitrary: t)
  case (Cons ev evs)
  let ?t = "calm_step site m ev t"
  have sum: "0 \<le> sum_list (map event_seconds evs)" using Cons.prems(3) by (intro sum_list_nonneg) auto
  have step: "counts_ok ?t \<and> fl_uid ?t = fl_uid t \<and> calm_store ?t \<noteq> Some []
    \<and> counted d (calm_key t site) ?t = min cap (counted d (calm_key t site) t + event_seconds ev)"
  proof (cases ev)
    case (Beat e s)
    with Cons.prems(3) have "today e = d" by (auto simp: event_env_def)
    from credit_facts [OF Cons.prems(1) this, of site s m] Beat show ?thesis
      by (simp add: calm_step_def event_seconds_def cap)
  next
    case (Restart e)
    have "today (event_env ev) = d" using Cons.prems(3) by (meson list.set_intros(1))
    then have "today e = d" by (simp add: Restart event_env_def)
    have "Restart e \<in> set (ev # evs)" by (simp add: Restart)
    then have "calm_writable e" using Cons.prems(4) by blast
    then have "counts_ok (calm_step site m (Restart e) t) \<and> fl_uid (calm_step site m (Restart e) t) = fl_uid t
      \<and> calm_store (calm_step site m (Restart e) t) = None
      \<and> counted d (calm_key t site) (calm_step site m (Restart e) t) = counted d (calm_key t site) t"
      using restart_facts [OF Cons.prems(1) \<open>today e = d\<close> _ Cons.prems(2)] by (intro conjI)
    with Restart Cons.prems(5) show ?thesis
      by (simp add: event_seconds_def min_def)
  qed
  then have k: "calm_key ?t site = calm_key t site" by (simp add: calm_key_def)
  have "counted d (calm_key ?t site) ?t \<le> cap" using step k by simp
  with step Cons.prems(3,4) have "counts_ok (fold (calm_step site m) evs ?t)
    \<and> fl_uid (fold (calm_step site m) evs ?t) = fl_uid ?t
    \<and> counted d (calm_key ?t site) (fold (calm_step site m) evs ?t)
      = min cap (counted d (calm_key ?t site) ?t + sum_list (map event_seconds evs))"
    by (intro Cons.IH) auto
  moreover have "min cap (min cap (c + s) + z) = min cap (c + (s + z))" if "0 \<le> z" for c s z :: int
    using that by (simp add: min_def)
  ultimately show ?case using step k sum by simp
qed simp

text \<open>
  Property C39: a calmed site's budget of the day is spent by the seconds its pages were on screen and by
  nothing else: after any heartbeats, of any size, and any orderly restarts of the proxy between them,
  what the page is told is left is the budget less the sum of what was credited, never less than
  nothing, so the page closes exactly when the sum reaches the budget.
\<close>

theorem calm_budget_exact:
  assumes "counts_ok t" "calm_store t \<noteq> Some []"
    and "\<forall>ev \<in> set evs. today (event_env ev) = today e \<and> 0 \<le> event_seconds ev"
    and "\<forall>r. Restart r \<in> set evs \<longrightarrow> calm_writable r"
    and "counted (today e) (calm_key t site) t \<le> minutes * 60 + CALM_BEAT_MAX_SECONDS"
  shows "fst (calm_remaining e site minutes (fold (calm_step site minutes) evs t))
    = max 0 (minutes * 60 - (counted (today e) (calm_key t site) t + sum_list (map event_seconds evs)))"
proof -
  let ?t = "fold (calm_step site minutes) evs t"
  note s = steps_facts [OF assms(1-5) refl]
  then have "calm_key ?t site = calm_key t site" by (simp add: calm_key_def)
  moreover have "calm_key (calm_entry e (calm_key t site) ?t) site = calm_key t site"
    using s calm_entry_facts(3) [of ?t e "calm_key t site"] by (simp add: calm_key_def)
  moreover have "max 0 (b - min (b + CALM_BEAT_MAX_SECONDS) x) = max 0 (b - x)" for b x
    by (simp add: CALM_BEAT_MAX_SECONDS_def min_def max_def)
  ultimately show ?thesis
    using s calm_entry_facts(2) [of ?t e "calm_key t site"] by (simp add: calm_remaining_def Let_def)
qed

lemma calm_budget_exact_witness:
  "fst (calm_remaining example_env ''x'' 2 (fold (calm_step ''x'' 2)
     [Beat example_env 60, Restart example_env, Beat example_env 45] (example_turn ''x.com'' ''/''))) = 15"
proof -
  let ?t = "example_turn ''x.com'' ''/''"
  have "counts_ok ?t" "calm_store ?t \<noteq> Some []" "counted d k ?t = 0" for d k
    by (simp_all add: counts_ok_def store_of_def example_turn_def counted_def)
  then show ?thesis
    using calm_budget_exact [of ?t "[Beat example_env 60, Restart example_env, Beat example_env 45]" example_env "''x''" 2]
    by (simp add: event_env_def event_seconds_def CALM_BEAT_MAX_SECONDS_def example_env_def)
qed

end
