(* ===== verification/ProxyRequests.thy ===== *)
theory ProxyRequests
  imports ProxyCalm
begin

text \<open>
  The request hook of \<open>mitm/kosher_filter.py\<close>: what is answered by the proxy itself, what is refused
  and what is forwarded.  An exception leaves the request as it stands, which mitmproxy then forwards.
\<close>

section \<open>Searches\<close>

definition SAFESEARCH_PARAMS :: "(string, (string, string) dict) dict" where
  "SAFESEARCH_PARAMS =
    [(''google.'', [(''safe'', ''active'')]), (''bing.'', [(''adlt'', ''strict'')]),
     (''duckduckgo.'', [(''kp'', ''1'')]), (''search.yahoo.'', [(''vm'', ''r'')]), (''yandex.'', [(''fyandex'', ''1'')])]"

definition SEARCH_HOSTS :: "string list" where
  "SEARCH_HOSTS =
    [''google.'', ''bing.com'', ''duckduckgo.com'', ''search.yahoo.'', ''yandex.'', ''search.brave.com'', ''ecosia.org'',
     ''startpage.com'', ''ask.com'', ''search.marcia'', ''lite.duckduckgo.com'', ''html.duckduckgo.com'']"

definition QUERY_PARAMS :: "string list" where "QUERY_PARAMS = [''q'', ''p'', ''text'', ''query'', ''wd'']"

definition force_safesearch :: "env \<Rightarrow> request \<Rightarrow> request" where
  "force_safesearch e r =
     (case find (\<lambda>(marker, _). sublist marker (lower (rq_host r))) SAFESEARCH_PARAMS of
        None \<Rightarrow> r | Some (_, params) \<Rightarrow> fold (\<lambda>(k, v). query_set e k v) params r)"

definition search_query :: "env \<Rightarrow> request \<Rightarrow> string option" where
  "search_query e r =
     (if \<not> list_ex (\<lambda>m. sublist m (lower (rq_host r))) SEARCH_HOSTS then None
      else if rstrip (\<lambda>c. c = CHR ''/'') (path_only r)
                \<notin> set [[], ''/search'', ''/web'', ''/html'', ''/lite'', ''/search.php''] then None
      else first_some (\<lambda>k. case query_get e r k of Some v \<Rightarrow> if v = [] then None else Some v | None \<Rightarrow> None) QUERY_PARAMS)"

text \<open>The redirect to the local search; its \<open>urlencode\<close> is left out of the location.\<close>

definition LOCAL_SEARCH :: string where "LOCAL_SEARCH = ''http://127.0.0.1:8888/search''"

definition to_local_search :: "string \<Rightarrow> turn \<Rightarrow> turn" where
  "to_local_search query t =
     t\<lparr>answer := Some (make_response 302 (Raw [])
         [(''location'', LOCAL_SEARCH @ ''?q='' @ query), (''cache-control'', ''no-store'')])\<rparr>"

section \<open>Whose request it is\<close>

definition uid_of :: "turn \<Rightarrow> int option" where
  "uid_of t = (case uid_for_listener_port (px t) (fl_port t) of Some i \<Rightarrow> Some i | None \<Rightarrow> fl_owner t)"

section \<open>YouTube's header\<close>

definition YOUTUBE_HOSTS :: "string list" where
  "YOUTUBE_HOSTS =
    [''youtube.com'', ''youtube-nocookie.com'', ''youtubekids.com'', ''youtubei.googleapis.com'', ''youtube.googleapis.com'']"

definition youtube_applies :: "string \<Rightarrow> bool" where
  "youtube_applies host \<longleftrightarrow> list_ex (under (strip_dots host)) YOUTUBE_HOSTS"

definition restrict_header :: "doc \<Rightarrow> string option" where
  "restrict_header settings =
     map_of [(''moderate'', ''Moderate''), (''strict'', ''Strict'')]
       (setting (dict_get settings ''restrict'' (JStr ''moderate'')))"

definition with_restrict_header :: "turn \<Rightarrow> turn" where
  "with_restrict_header t =
     (if youtube_applies (rq_host (rq t))
      then (case restrict_header (youtube_for (px t) (fl_uid t)) of None \<Rightarrow> t
            | Some h \<Rightarrow> t\<lparr>rq := (rq t)\<lparr>rq_headers := dict_set ''youtube-restrict'' h (rq_headers (rq t))\<rparr>\<rparr>)
      else t)"

section \<open>A build's download\<close>

definition refuse_build_source :: "env \<Rightarrow> turn \<Rightarrow> turn option" where
  "refuse_build_source e t =
     (let host = rstrip (\<lambda>c. c = CHR ''.'') (lower (rq_host (rq t))); url = rq_url (rq t);
          refused = (case px_developers (px t) of
              None \<Rightarrow> Inr (if source_allows host DEFAULT_BUILD_SOURCES then None else Some ''build-source'')
            | Some ds \<Rightarrow> judge (blocked_categories_of (lists e)) host url ds) in
      case refused of
        Inl x \<Rightarrow> Some (raise_in t x)
      | Inr None \<Rightarrow> None
      | Inr (Some why) \<Rightarrow>
          Some (write_note ''block'' url why (t\<lparr>answer := Some (make_response 403 Build_refusal
            [(''content-type'', ''text/plain; charset=utf-8''), (''cache-control'', ''no-store'')])\<rparr>)))"

section \<open>Asking for a page\<close>

definition REQUEST_PATH :: string where "REQUEST_PATH = ''/__kosheros__/request''"

definition form_value :: "string \<Rightarrow> string \<Rightarrow> string" where
  "form_value text k = dict_get (parse_qsl text) k []"

definition handle_request_form :: "env \<Rightarrow> turn \<Rightarrow> turn" where
  "handle_request_form e t =
     (let text = rq_text (rq t);
          (outcome, spool) = (case fl_uid t of
              None \<Rightarrow> (Inl ''could not tell who is asking'', asked t)
            | Some u \<Rightarrow> submit (fresh_id e) (clock e) u (form_value text ''url'') (form_value text ''note'')
                         (form_value text ''why'') (asked t));
          page = (case outcome of
              Inl x \<Rightarrow> Asked_page ''Could not ask'' (html_escape x)
            | Inr _ \<Rightarrow> Asked_page ''Your request was sent''
                ''The administrator of this computer will see it. Nothing has changed yet.'') in
      t\<lparr>asked := spool,
        answer := Some (make_response 200 page (dict_set ''cache-control'' ''no-store'' html_type))\<rparr>)"

section \<open>The decision\<close>

definition referer_action :: "url_rule list \<Rightarrow> request \<Rightarrow> string option result" where
  "referer_action rs r =
     (let referer = req_header r ''referer'' in
      if referer = [] \<or> rs = [] then Inr None else map_sum id (Some \<circ> fst) (decide_url rs referer))"

definition blocked_shop_search :: "env \<Rightarrow> string \<Rightarrow> string option result" where
  "blocked_shop_search e url =
     bind_result (blocked_search (site_table e) url) (\<lambda>why.
     case why of Some w \<Rightarrow> Inr (Some w)
     | None \<Rightarrow> map_sum id (\<lambda>text. case text of
           Some s \<Rightarrow> if s \<noteq> [] \<and> search_blocked e s then Some ''a blocked search'' else None | None \<Rightarrow> None)
         (search_text (site_table e) url))"

definition shop_reason :: "env \<Rightarrow> string \<Rightarrow> string option result" where
  "shop_reason e url =
     bind_result (reason (site_table e) url) (\<lambda>why.
     case why of Some w \<Rightarrow> Inr (Some w) | None \<Rightarrow> blocked_shop_search e url)"

text \<open>Where no rule matches.\<close>

definition judge_by_lists :: "env \<Rightarrow> turn \<Rightarrow> turn" where
  "judge_by_lists e t =
     (let url = rq_url (rq t); host = rq_host (rq t) in
      if is_bare_address host then block url '' because it names an address rather than a site'' ''address'' t
      else let hit = sorted_list_of_set (blocked_categories_of_host e t host) in
      if hit \<noteq> [] then block url ('' because it is '' @ join '', '' hit) (''category:'' @ join '','' hit) t
      else if blocks t GATING_CATEGORY
      then (case shop_reason e url of
              Inl x \<Rightarrow> raise_in t x
            | Inr None \<Rightarrow> t
            | Inr (Some why) \<Rightarrow> block url ('' because it is '' @ why) (''shop:'' @ why) t)
      else t)"

definition decide_request :: "env \<Rightarrow> turn \<Rightarrow> turn" where
  "decide_request e t =
     (let url = rq_url (rq t); rs = rules_for (px t) (fl_uid t) in
      case decide_url rs url of
        Inl x \<Rightarrow> raise_in t x
      | Inr (action, pattern) \<Rightarrow>
          if action = BLOCK then block url [] (''rule:'' @ the pattern) t
          else (case referer_action rs (rq t) of
            Inl x \<Rightarrow> raise_in t x
          | Inr from \<Rightarrow>
              if action = BYPASS \<or> from = Some BYPASS then t\<lparr>fl_bypass := True\<rparr>
              else (let t = (if action = PICTURES \<or> from = Some PICTURES then t\<lparr>fl_pictures := True\<rparr> else t);
                        t = (if action = PICTURES then t\<lparr>fl_pictures_page := True\<rparr> else t) in
                    if pattern = None then judge_by_lists e t else t)))"

definition answer_reserved :: "env \<Rightarrow> turn \<Rightarrow> turn option" where
  "answer_reserved e t =
     (if rq_method (rq t) = ''POST'' \<and> path_only (rq t) = REQUEST_PATH then Some (handle_request_form e t)
      else case serve_page_filter e t of Some t' \<Rightarrow> Some t' | None \<Rightarrow> serve_calm e t)"

definition request_hook :: "env \<Rightarrow> turn \<Rightarrow> turn" where
  "request_hook e t0 =
     (let t = t0\<lparr>rq := force_safesearch e (rq t0), fl_uid := uid_of t0\<rparr> in
      case (if fl_uid t = Some BUILDER_UID then refuse_build_source e t else None) of
        Some t' \<Rightarrow> t'
      | None \<Rightarrow>
        (case answer_reserved e t of
           Some t' \<Rightarrow> t'
         | None \<Rightarrow>
           (case search_query e (rq t) of
              Some q \<Rightarrow> to_local_search q t
            | None \<Rightarrow> decide_request e (with_restrict_header t))))"

section \<open>What is forwarded\<close>

definition first_rule :: "url_rule list \<Rightarrow> split_url \<Rightarrow> url_rule option" where
  "first_rule rs u = find (\<lambda>r. rule_matches r (url_host u) (asked_path u)) rs"

lemma decide_url_first:
  assumes "urlsplit (whole_url url) = Inr u"
  shows "decide_url rs url
    = Inr (case first_rule rs u of Some r \<Rightarrow> (rule_action r, Some (rule_pattern r)) | None \<Rightarrow> (ALLOW, None))"
  using assms by (simp add: decide_url_def whole_url_def asked_path_def first_rule_def decide_at_def Let_def)

definition reserved_paths :: "string list" where
  "reserved_paths = [REQUEST_PATH, SCRIPT_PATH, WORDS_PATH, JUDGE_PATH, CALM_SCRIPT_PATH, CALM_BEAT_PATH]"

lemma not_reserved: "path_only (rq t) \<notin> set reserved_paths \<Longrightarrow> answer_reserved e t = None"
  by (simp add: answer_reserved_def serve_page_filter_def serve_calm_def reserved_paths_def Let_def)

text \<open>Whether the page a request comes from is one a bypass rule names.\<close>

definition from_bypassed :: "url_rule list \<Rightarrow> request \<Rightarrow> split_url \<Rightarrow> bool" where
  "from_bypassed rs r v \<longleftrightarrow>
     req_header r ''referer'' \<noteq> [] \<and> (\<exists>x. first_rule rs v = Some x \<and> rule_action x = BYPASS)"

lemma referer_action_bypass:
  assumes "urlsplit (whole_url (req_header r ''referer'')) = Inr v"
  obtains a where "referer_action rs r = Inr a" and "a = Some BYPASS \<longleftrightarrow> from_bypassed rs r v"
proof
  show "referer_action rs r = Inr (if req_header r ''referer'' = [] \<or> rs = [] then None
    else Some (case first_rule rs v of Some x \<Rightarrow> rule_action x | None \<Rightarrow> ALLOW))"
    by (simp add: referer_action_def decide_url_first [OF assms] Let_def split: option.split)
  show "(if req_header r ''referer'' = [] \<or> rs = [] then None
    else Some (case first_rule rs v of Some x \<Rightarrow> rule_action x | None \<Rightarrow> ALLOW)) = Some BYPASS \<longleftrightarrow> from_bypassed rs r v"
    by (auto simp: from_bypassed_def first_rule_def ALLOW_def BYPASS_def split: option.splits)
qed

lemma restrict_header_keeps [simp]:
  "px (with_restrict_header t) = px t" "fl_uid (with_restrict_header t) = fl_uid t"
  "answer (with_restrict_header t) = answer t" "failed (with_restrict_header t) = failed t"
  "fl_bypass (with_restrict_header t) = fl_bypass t"
  "rq_url (rq (with_restrict_header t)) = rq_url (rq t)" "rq_host (rq (with_restrict_header t)) = rq_host (rq t)"
  "req_header (rq (with_restrict_header t)) ''referer'' = req_header (rq t) ''referer''"
  by (simp_all add: with_restrict_header_def req_header_def split: option.split)

lemma restrict_header_judges [simp]:
  "referer_action rs (rq (with_restrict_header t)) = referer_action rs (rq t)"
  "blocked_categories_of_host e (with_restrict_header t) = blocked_categories_of_host e t"
  "blocks (with_restrict_header t) = blocks t"
  by (auto simp: referer_action_def blocked_categories_of_host_def blocks_def fun_eq_iff)

lemma request_hook_decides:
  assumes "fl_uid t \<noteq> Some BUILDER_UID" "fl_uid t = uid_of t" "force_safesearch e (rq t) = rq t"
    and "path_only (rq t) \<notin> set reserved_paths" "search_query e (rq t) = None"
  shows "request_hook e t = decide_request e (with_restrict_header t)"
proof -
  have same: "t\<lparr>rq := force_safesearch e (rq t), fl_uid := uid_of t\<rparr> = t"
    using assms(2,3) by simp
  show ?thesis using assms(1,4,5) by (simp add: request_hook_def same not_reserved Let_def)
qed

lemma answer_block [simp]: "answer (block url because why t) \<noteq> None" "failed (block url because why t) = failed t"
  "fl_bypass (block url because why t) = fl_bypass t"
  by (simp_all add: block_def write_note_def)

lemma finite_blocked [simp]: "finite (blocked_categories_of_host e t host)"
  by (simp add: blocked_categories_of_host_def categories_of_def Let_def split: option.split)

lemma shop_reason_returns: "split_address url = Inr u \<Longrightarrow> \<exists>w. shop_reason e url = Inr w"
  by (auto simp: shop_reason_def reason_def blocked_shop_search_def blocked_search_def search_text_def split: option.split)

lemma judge_by_lists_answer:
  assumes "split_address (rq_url (rq t)) = Inr u" and "answer t = None"
  shows "answer (judge_by_lists e t) = None \<longleftrightarrow>
      \<not> is_bare_address (rq_host (rq t)) \<and> blocked_categories_of_host e t (rq_host (rq t)) = {}
      \<and> (blocks t GATING_CATEGORY \<longrightarrow> shop_reason e (rq_url (rq t)) = Inr None)"
    and "failed (judge_by_lists e t) = failed t" and "fl_bypass (judge_by_lists e t) = fl_bypass t"
  using shop_reason_returns [OF assms(1), of e] assms(2)
  by (auto simp: judge_by_lists_def Let_def sorted_list_of_set_eq_Nil_iff split: option.splits)

text \<open>
  Property C2: exactly what a filtered account's browser gets from the web.  A request that the proxy does
  not answer itself is forwarded if and only if the first of the account's rules that matches it is not
  a block rule, or no rule matches and the page it comes from is one a bypass rule names, or its host is
  a name (not an address), in none of the account's blocked categories, and, when the account blocks
  immodest sites, its address is no shop's department and no search for one.  The filter steps aside
  for the answer exactly for a bypass rule on the page or on the page it comes from.
\<close>

theorem forwarded_exactly:
  assumes "answer t = None" "failed t = None" "\<not> fl_bypass t"
    and "fl_uid t \<noteq> Some BUILDER_UID" "fl_uid t = uid_of t" "force_safesearch e (rq t) = rq t"
    and "path_only (rq t) \<notin> set reserved_paths" "search_query e (rq t) = None"
    and "urlsplit (whole_url (rq_url (rq t))) = Inr u"
    and "urlsplit (whole_url (req_header (rq t) ''referer'')) = Inr v"
  shows "(answer (request_hook e t) = None \<longleftrightarrow>
      (case first_rule (rules_for (px t) (fl_uid t)) u of
         Some r \<Rightarrow> rule_action r \<noteq> BLOCK
       | None \<Rightarrow> from_bypassed (rules_for (px t) (fl_uid t)) (rq t) v
           \<or> \<not> is_bare_address (rq_host (rq t)) \<and> blocked_categories_of_host e t (rq_host (rq t)) = {}
             \<and> (blocks t GATING_CATEGORY \<longrightarrow> shop_reason e (rq_url (rq t)) = Inr None)))
    \<and> (fl_bypass (request_hook e t) \<longleftrightarrow>
      (case first_rule (rules_for (px t) (fl_uid t)) u of
         Some r \<Rightarrow> rule_action r = BYPASS \<or> rule_action r \<noteq> BLOCK \<and> from_bypassed (rules_for (px t) (fl_uid t)) (rq t) v
       | None \<Rightarrow> from_bypassed (rules_for (px t) (fl_uid t)) (rq t) v))
    \<and> failed (request_hook e t) = None"
proof -
  let ?rs = "rules_for (px t) (fl_uid t)"
  let ?t = "with_restrict_header t"
  note hook = request_hook_decides [OF assms(4-8)]
  obtain via where r: "referer_action ?rs (rq t) = Inr via" "via = Some BYPASS \<longleftrightarrow> from_bypassed ?rs (rq t) v"
    by (rule referer_action_bypass [OF assms(10)])
  have addr: "split_address (rq_url (rq t)) = Inr u" using assms(9) by (simp add: split_address_def whole_url_def)
  have keep: "blocked_categories_of_host e (?t\<lparr>fl_pictures := b\<rparr>) = blocked_categories_of_host e t"
    "blocks (?t\<lparr>fl_pictures := b\<rparr>) = blocks t" for b
    by (auto simp: blocked_categories_of_host_def blocks_def fun_eq_iff)
  note j = judge_by_lists_answer [where e = e]
  show ?thesis
  proof (cases "first_rule ?rs u")
    case None
    then have d: "decide_url ?rs (rq_url (rq t)) = Inr (ALLOW, None)" by (simp add: decide_url_first [OF assms(9)])
    show ?thesis
      using j [of ?t u] j [of "?t\<lparr>fl_pictures := True\<rparr>" u] assms(1-3) addr r None
      by (auto simp: hook decide_request_def d ALLOW_def BLOCK_def BYPASS_def PICTURES_def keep Let_def)
  next
    case (Some x)
    then have d: "decide_url ?rs (rq_url (rq t)) = Inr (rule_action x, Some (rule_pattern x))"
      by (simp add: decide_url_first [OF assms(9)])
    show ?thesis
      using assms(1-3) r Some by (auto simp: hook decide_request_def d BLOCK_def BYPASS_def Let_def)
  qed
qed

text \<open>
  A Referer that \<open>urlsplit\<close> refuses ends the hook after the account's block rules and before
  its categories: for an account with any rule at all, an address no rule matches is forwarded whatever
  its host, unmarked and with no block written down.
\<close>

theorem bad_referer_skips_lists:
  assumes "fl_uid t \<noteq> Some BUILDER_UID" "fl_uid t = uid_of t" "force_safesearch e (rq t) = rq t"
    and "path_only (rq t) \<notin> set reserved_paths" "search_query e (rq t) = None"
    and "urlsplit (whole_url (rq_url (rq t))) = Inr u" "first_rule (rules_for (px t) (fl_uid t)) u = None"
    and "rules_for (px t) (fl_uid t) \<noteq> []" "req_header (rq t) ''referer'' \<noteq> []"
    and "urlsplit (whole_url (req_header (rq t) ''referer'')) = Inl x"
  shows "request_hook e t = (with_restrict_header t)\<lparr>failed := Some x\<rparr>"
proof -
  have d: "decide_url (rules_for (px t) (fl_uid t)) (rq_url (rq t)) = Inr (ALLOW, None)"
    using assms(7) by (simp add: decide_url_first [OF assms(6)])
  have "decide_url rs (req_header (rq t) ''referer'') = Inl x" for rs
    using assms(10) by (simp add: decide_url_def whole_url_def)
  then have "referer_action (rules_for (px t) (fl_uid t)) (rq t) = Inl x"
    using assms(8,9) by (simp add: referer_action_def Let_def)
  then show ?thesis
    by (simp add: request_hook_decides [OF assms(1-5)] decide_request_def d ALLOW_def BLOCK_def raise_in_def Let_def)
qed

section \<open>Examples\<close>

definition visit :: "string \<Rightarrow> turn" where
  "visit host = (example_turn host ''/'')\<lparr>fl_uid := Some 1001\<rparr>"

lemma visit_facts:
  "fl_uid (visit h) = Some 1001" "fl_uid (visit h) = uid_of (visit h)" "answer (visit h) = None" "failed (visit h) = None"
  "\<not> fl_bypass (visit h)" "path_only (rq (visit h)) \<notin> set reserved_paths" "rq_host (rq (visit h)) = h"
  "rules_for (px (visit h)) (Some 1001) = []" "rq_url (rq (visit h)) = ''https://'' @ h @ ''/''"
  "req_header (rq (visit h)) ''referer'' = []"
  by (simp_all add: visit_def example_turn_def uid_of_def uid_for_listener_port_def path_only_def before_query_def
      reserved_paths_def REQUEST_PATH_def SCRIPT_PATH_def WORDS_PATH_def JUDGE_PATH_def CALM_SCRIPT_PATH_def
      CALM_BEAT_PATH_def rules_for_def for_uid_def is_known_def empty_cache_def req_header_def dict_get_def)

lemma visit_search: "force_safesearch example_env (rq (visit h)) = rq (visit h)"
  "search_query example_env (rq (visit h)) = None"
proof -
  have "query_set example_env k v r = r" "query_get example_env r k = None" for k v r
    by (simp_all add: example_env_def)
  then show "force_safesearch example_env (rq (visit h)) = rq (visit h)" "search_query example_env (rq (visit h)) = None"
    by (simp_all add: force_safesearch_def search_query_def SAFESEARCH_PARAMS_def QUERY_PARAMS_def split: option.split)
qed

lemma visit_floor: "blocks (visit h) c \<longleftrightarrow> c \<in> set DEFAULT_BLOCKED" "system_allowed_for (px (visit h)) i = []"
  by (auto simp: blocks_def blocked_categories_for_def system_allowed_for_def for_uid_def is_known_def visit_def
      example_turn_def empty_cache_def fail_closed_blocked_def)

lemma no_names: "host_in h [] = False"
  by (simp add: host_in_def Let_def)

lemma forwarded_exactly_witness:
  "answer (request_hook example_env (visit ''casino.example'')) \<noteq> None
   \<and> answer (request_hook example_env (visit ''news.example'')) = None
   \<and> answer (request_hook example_env (visit ''10.0.0.7'')) \<noteq> None"
proof -
  have nb: "Some (1001 :: int) \<noteq> Some BUILDER_UID" by (simp add: BUILDER_UID_def)
  have u: "urlsplit (whole_url (''https://'' @ h @ ''/'')) = Inr \<lparr>url_host = h, url_path = ''/'', url_query = []\<rparr>"
    if "h \<in> {''casino.example'', ''news.example'', ''10.0.0.7''}" for h
    using that by (elim insertE emptyE; hypsubst; code_simp)
  have v: "urlsplit (whole_url []) = Inr \<lparr>url_host = [], url_path = [], url_query = []\<rparr>" by code_simp
  have "categories_of (lists example_env) ''casino.example'' = {''gambling''}"
    "categories_of (lists example_env) ''news.example'' = {}"
    by code_simp+
  then have b: "blocked_categories_of_host example_env (visit ''casino.example'') ''casino.example'' = {''gambling''}"
    "blocked_categories_of_host example_env (visit ''news.example'') ''news.example'' = {}"
    by (simp_all only: blocked_categories_of_host_def visit_floor no_names if_False DEFAULT_BLOCKED_def) auto
  have "strip (\<lambda>c. c \<in> {CHR ''['', CHR '']''}) (strip is_space ''10.0.0.7'') = ''10.0.0.7''" by code_simp
  moreover have "parse_ipv4 ''10.0.0.7'' \<noteq> None"
    by (simp add: parse_ipv4_def parse_octet_def is_digits_def nat_of_digits_def)
  ultimately have a: "is_bare_address ''10.0.0.7''" by (simp add: is_bare_address_def Let_def)
  have n: "\<not> is_bare_address ''casino.example''" "\<not> is_bare_address ''news.example''" by code_simp+
  have g: "\<not> blocks (visit h) GATING_CATEGORY" for h by (simp add: visit_floor DEFAULT_BLOCKED_def GATING_CATEGORY_def)
  have "(answer (request_hook example_env (visit h)) = None \<longleftrightarrow>
      \<not> is_bare_address h \<and> blocked_categories_of_host example_env (visit h) h = {})"
    if "h \<in> {''casino.example'', ''news.example'', ''10.0.0.7''}" for h
  proof -
    have uh: "urlsplit (whole_url (rq_url (rq (visit h)))) = Inr \<lparr>url_host = h, url_path = ''/'', url_query = []\<rparr>"
      using u [OF that] by (simp add: visit_facts)
    have vh: "urlsplit (whole_url (req_header (rq (visit h)) ''referer''))
      = Inr \<lparr>url_host = [], url_path = [], url_query = []\<rparr>"
      using v by (simp add: visit_facts)
    have nh: "fl_uid (visit h) \<noteq> Some BUILDER_UID" using nb by (simp add: visit_facts)
    show ?thesis
      using forwarded_exactly [OF visit_facts(3-5) nh visit_facts(2) visit_search(1) visit_facts(6) visit_search(2) uh vh] g
      by (simp add: visit_facts first_rule_def from_bypassed_def)
  qed
  then show ?thesis using a b n by auto
qed

text \<open>The same visit by an account with one rule and a Referer no parser takes.\<close>

definition evader :: turn where
  "evader =
     (let t = visit ''casino.example'' in
      t\<lparr>rq := (rq t)\<lparr>rq_headers := [(''referer'', ''http://['')]\<rparr>,
        px := (px t)\<lparr>px_rules := [(1001, [\<lparr>rule_action = BLOCK, rule_pattern = ''bad.example''\<rparr>])],
                    px_blocked := [(1001, [JStr ''gambling''])]\<rparr>\<rparr>)"

lemma evader_facts:
  "fl_uid evader = Some 1001" "fl_uid evader = uid_of evader" "answer evader = None"
  "path_only (rq evader) \<notin> set reserved_paths" "rq_url (rq evader) = ''https://casino.example/''"
  "rules_for (px evader) (Some 1001) = [\<lparr>rule_action = BLOCK, rule_pattern = ''bad.example''\<rparr>]"
  "req_header (rq evader) ''referer'' = ''http://[''" "blocks evader ''gambling''" "rq_host (rq evader) = ''casino.example''"
  using visit_facts [of "''casino.example''"]
  by (simp_all add: evader_def Let_def path_only_def uid_of_def uid_for_listener_port_def rules_for_def for_uid_def
      is_known_def dict_get_def req_header_def blocks_def blocked_categories_for_def)
    (simp_all add: visit_def example_turn_def)

lemma evader_search: "force_safesearch example_env (rq evader) = rq evader" "search_query example_env (rq evader) = None"
proof -
  have "query_set example_env k v r = r" "query_get example_env r k = None" for k v r
    by (simp_all add: example_env_def)
  then show "force_safesearch example_env (rq evader) = rq evader" "search_query example_env (rq evader) = None"
    by (simp_all add: force_safesearch_def search_query_def SAFESEARCH_PARAMS_def QUERY_PARAMS_def split: option.split)
qed

lemma bad_referer_skips_lists_witness:
  "answer (request_hook example_env evader) = None \<and> failed (request_hook example_env evader) = Some bad_url
   \<and> ''gambling'' \<in> categories_of (lists example_env) (rq_host (rq evader)) \<and> blocks evader ''gambling''"
proof -
  have nb: "fl_uid evader \<noteq> Some BUILDER_UID" by (simp add: evader_facts(1) BUILDER_UID_def)
  have u: "urlsplit (whole_url (rq_url (rq evader)))
    = Inr \<lparr>url_host = ''casino.example'', url_path = ''/'', url_query = []\<rparr>"
    unfolding evader_facts by code_simp
  have "\<not> rule_matches \<lparr>rule_action = BLOCK, rule_pattern = ''bad.example''\<rparr> ''casino.example'' ''/''" by code_simp
  then have f: "first_rule (rules_for (px evader) (fl_uid evader))
      \<lparr>url_host = ''casino.example'', url_path = ''/'', url_query = []\<rparr> = None"
    by (simp add: evader_facts(1,6) first_rule_def asked_path_def)
  have r: "rules_for (px evader) (fl_uid evader) \<noteq> []" "req_header (rq evader) ''referer'' \<noteq> []"
    by (simp_all add: evader_facts(1,6,7))
  have x: "urlsplit (whole_url (req_header (rq evader) ''referer'')) = Inl bad_url"
    unfolding evader_facts by code_simp
  have c: "''gambling'' \<in> categories_of (lists example_env) ''casino.example''" by code_simp
  show ?thesis
    using bad_referer_skips_lists [OF nb evader_facts(2) evader_search(1) evader_facts(4) evader_search(2) u f r x] c
    by (simp add: evader_facts(3,8,9))
qed

end
