(* ===== verification/ProxyMedia.thy ===== *)
theory ProxyMedia
  imports ProxyRequests
begin

text \<open>
  Pictures and clips in \<open>mitm/kosher_filter.py\<close>: what the headers of an answer decide, what the
  detector's verdict decides, and what is never held.  The detector, the decoder and the editor of
  pictures are the fields of \<open>detector\<close>; which page a picture was on, for the activity log, is left out.
\<close>

section \<open>What a response is\<close>

definition PLAYLIST_TYPES :: "string list" where
  "PLAYLIST_TYPES = [''application/vnd.apple.mpegurl'', ''application/x-mpegurl'', ''application/dash+xml'']"
definition VIDEO_TYPES :: "string list" where "VIDEO_TYPES = ''video/'' # PLAYLIST_TYPES"
definition OCTET_TYPES :: "string list" where "OCTET_TYPES = [''application/octet-stream'', ''binary/octet-stream'']"
definition VIDEO_EXTENSIONS :: "string list" where
  "VIDEO_EXTENSIONS =
    [''.mp4'', ''.m4v'', ''.webm'', ''.mov'', ''.m4s'', ''.ts'', ''.mkv'', ''.ogv'', ''.3gp'', ''.gifv'']"
definition IMAGE_EXTENSIONS :: "string list" where
  "IMAGE_EXTENSIONS = [''.gif'', ''.png'', ''.jpg'', ''.jpeg'', ''.webp'', ''.avif'', ''.bmp'']"
definition VIDEO_CHECKED_LEVELS :: "string list" where
  "VIDEO_CHECKED_LEVELS = [''nsfw'', ''suggestive'', ''immodest'', ''people'']"
definition VIDEO_STRICT_LEVELS :: "string list" where
  "VIDEO_STRICT_LEVELS = [''all'', ''people'', ''immodest'', ''suggestive'']"
definition STREAM_TYPES :: "string list" where
  "STREAM_TYPES =
    [''application/octet-stream'', ''application/zip'', ''application/gzip'', ''application/x-tar'',
     ''application/x-7z-compressed'', ''application/x-xz'', ''application/x-bzip2'', ''application/pdf'',
     ''application/wasm'', ''application/vnd.debian.binary-package'', ''application/x-rpm'',
     ''application/x-iso9660-image'', ''font/'', ''audio/'']"
definition STREAM_LARGE_BYTES :: int where "STREAM_LARGE_BYTES = 8 * 1024 * 1024"
definition MIN_IMAGE_BYTES :: nat where "MIN_IMAGE_BYTES = 2500"
definition VIDEO_MAX_BYTES :: int where "VIDEO_MAX_BYTES = 40 * 1024 * 1024"
definition PICTURES_REFERRER_POLICY :: string where "PICTURES_REFERRER_POLICY = ''no-referrer-when-downgrade''"

definition IMMODEST_SOURCES :: "(string, string list) dict" where
  "IMMODEST_SOURCES =
    [(''nsfw'', [''adult'']), (''suggestive'', [''adult'', ''immodest'']), (''immodest'', [''adult'', ''immodest'']),
     (''people'', [''adult'', ''immodest''])]"

definition starts_any :: "string \<Rightarrow> string list \<Rightarrow> bool" where
  "starts_any s ps \<longleftrightarrow> list_ex (starts_with s) ps"

definition path_extension :: "request \<Rightarrow> string" where
  "path_extension r =
     (case urlsplit (rq_url r) of Inl _ \<Rightarrow> []
      | Inr u \<Rightarrow>
          (let p = lower (url_path u); tail = after_last CHR ''.'' p in
           if CHR ''.'' \<in> set p \<and> CHR ''/'' \<notin> set tail then CHR ''.'' # tail else []))"

definition is_image :: "turn \<Rightarrow> response \<Rightarrow> bool" where
  "is_image t r \<longleftrightarrow> starts_with (content_type r) ''image/''
     \<or> starts_any (content_type r) OCTET_TYPES \<and> path_extension (rq t) \<in> set IMAGE_EXTENSIONS"

definition is_video :: "turn \<Rightarrow> response \<Rightarrow> bool" where
  "is_video t r \<longleftrightarrow> starts_any (content_type r) VIDEO_TYPES
     \<or> starts_any (content_type r) OCTET_TYPES \<and> path_extension (rq t) \<in> set VIDEO_EXTENSIONS"

definition is_playlist :: "response \<Rightarrow> bool" where
  "is_playlist r \<longleftrightarrow> starts_any (content_type r) PLAYLIST_TYPES"

definition content_length :: "response \<Rightarrow> int option" where
  "content_length r =
     (case int_of_text (dict_get (headers r) ''content-length'' []) of Inl _ \<Rightarrow> None | Inr n \<Rightarrow> Some n)"

definition digits_of :: "string \<Rightarrow> string" where "digits_of s = takeWhile is_digit s"

text \<open>\<open>bytes (\d+)-(\d+)/(\d+|\*)\<close> at the start of the header.\<close>

definition parse_range :: "string \<Rightarrow> (int \<times> int option) option" where
  "parse_range h =
     (let s1 = drop 6 h; a = digits_of s1; s2 = drop (length a + 1) s1; b = digits_of s2;
          s3 = drop (length b + 1) s2; c = digits_of s3 in
      if starts_with h ''bytes '' \<and> a \<noteq> [] \<and> starts_with (drop (length a) s1) ''-'' \<and> b \<noteq> []
         \<and> starts_with (drop (length b) s2) ''/''
      then (if c \<noteq> [] then Some (int (nat_of_digits a), Some (int (nat_of_digits c)))
            else if starts_with s3 ''*'' then Some (int (nat_of_digits a), None) else None)
      else None)"

definition range_info :: "response \<Rightarrow> int \<times> int option" where
  "range_info r =
     (case parse_range (dict_get (headers r) ''content-range'' []) of
        Some x \<Rightarrow> x | None \<Rightarrow> (0, content_length r))"

section \<open>Verdicts\<close>

record judgement =
  v_level :: string
  v_person :: bool

definition HIDE_AT :: "(string, string) dict" where
  "HIDE_AT =
    [(''nsfw'', ''nsfw''), (''suggestive'', ''suggestive''), (''immodest'', ''immodest''), (''people'', ''immodest''),
     (''all'', ''clean'')]"

definition hides :: "string \<Rightarrow> judgement \<Rightarrow> bool" where
  "hides level v \<longleftrightarrow>
     (case map_of HIDE_AT level of None \<Rightarrow> False
      | Some threshold \<Rightarrow> threshold = ''clean'' \<or> level = ''people'' \<and> v_person v \<or> at_least (v_level v) threshold)"

definition in_context :: "judgement \<Rightarrow> string \<Rightarrow> string \<Rightarrow> bool" where
  "in_context v page tolerance \<longleftrightarrow>
     v_person v \<and> page \<noteq> [] \<and> dict_get SEVERITY tolerance 99 \<le> dict_get SEVERITY page 0"

text \<open>
  The detector: what it says of the picture or clip at hand, what it remembers of a clip, and what the
  editor can do with a picture.
\<close>

record detector =
  checker_available :: bool
  cached_clip :: "string \<Rightarrow> int option \<Rightarrow> judgement option"
  sampled_clip :: "string \<Rightarrow> int option \<Rightarrow> judgement option"
  clip_verdict :: "string \<Rightarrow> int option \<Rightarrow> judgement option"
  picture_verdict :: "judgement option"
  picture_bytes :: nat
  picture_animated :: bool
  cover_dominant :: bool
  cover_made :: bool
  cover_type :: string

section \<open>Clips\<close>

definition video_decision :: "env \<Rightarrow> detector \<Rightarrow> turn \<Rightarrow> response \<Rightarrow> string" where
  "video_decision e d t r =
     (let level = level_of_turn t; uncheckable = (if level \<in> set VIDEO_STRICT_LEVELS then ''refuse'' else ''stream'') in
      if level = ''none'' then ''stream''
      else if blocked_categories_of_host e t (rq_host (rq t)) \<noteq> {} then ''refuse''
      else if level \<notin> set VIDEO_CHECKED_LEVELS then ''refuse''
      else if \<not> checker_available d then uncheckable
      else (case range_info r of (first, whole_size) \<Rightarrow>
        (case cached_clip d (rq_url (rq t)) whole_size of
           Some v \<Rightarrow> if hides level v then ''refuse'' else ''stream''
         | None \<Rightarrow>
             let whole = (case whole_size of None \<Rightarrow> content_length r | Some n \<Rightarrow> Some n) in
             if first > 0 \<or> (case whole of Some n \<Rightarrow> n > VIDEO_MAX_BYTES | None \<Rightarrow> False)
             then (if whole \<noteq> None \<and> (status r = 206 \<or> sublist ''bytes'' (lower (dict_get (headers r) ''accept-ranges'' [])))
                   then ''sample'' else uncheckable)
             else ''hold'')))"

definition stream_answer :: "turn \<Rightarrow> turn" where
  "stream_answer t = on_answer (\<lambda>r. r\<lparr>streaming := Streamed\<rparr>) t"

definition video_blocked :: "(string, string) dict" where
  "video_blocked = [(''content-type'', ''text/plain''), (''x-kosheros'', ''video-blocked'')]"

definition refuse_video :: "bool \<Rightarrow> turn \<Rightarrow> turn" where
  "refuse_video before_body t =
     (if before_body
      then on_answer (\<lambda>r. r\<lparr>status := 403, headers := video_blocked, streaming := Discarded\<rparr>) t
      else t\<lparr>answer := Some (make_response 403 (Raw []) video_blocked)\<rparr>)"

definition settle_before_body :: "string \<Rightarrow> judgement option \<Rightarrow> turn \<Rightarrow> turn" where
  "settle_before_body level v t =
     (case v of
        None \<Rightarrow> if level \<in> set VIDEO_STRICT_LEVELS then refuse_video True t
                else stream_answer (on_answer (set_header ''x-kosheros'' ''video-unchecked'') t)
      | Some w \<Rightarrow> if hides level w then refuse_video True t
                  else stream_answer (on_answer (set_header ''x-kosheros'' (''video-checked='' @ v_level w)) t))"

definition video_settle :: "string \<Rightarrow> judgement option \<Rightarrow> turn \<Rightarrow> turn" where
  "video_settle level v t =
     (case v of
        None \<Rightarrow> if level \<in> set VIDEO_STRICT_LEVELS then refuse_video False t
                else on_answer (set_header ''x-kosheros'' ''video-unchecked'') t
      | Some w \<Rightarrow> if hides level w then refuse_video False t
                  else on_answer (set_header ''x-kosheros'' (''video-checked='' @ v_level w)) t)"

definition playlist_refused :: "env \<Rightarrow> turn \<Rightarrow> bool" where
  "playlist_refused e t \<longleftrightarrow>
     (let level = level_of_turn t in
      level \<noteq> ''none'' \<and> (blocked_categories_of_host e t (rq_host (rq t)) \<noteq> {} \<or> level \<notin> set VIDEO_CHECKED_LEVELS))"

definition filter_video :: "env \<Rightarrow> detector \<Rightarrow> turn \<Rightarrow> response \<Rightarrow> turn" where
  "filter_video e d t r =
     (if is_playlist r then (if playlist_refused e t then refuse_video False t else t)
      else (let decision = video_decision e d t r; level = level_of_turn t; whole_size = snd (range_info r) in
            if decision = ''stream'' then t
            else if decision = ''refuse'' then refuse_video False t
            else if decision = ''sample'' then video_settle level (sampled_clip d (rq_url (rq t)) whole_size) t
            else video_settle level (clip_verdict d (rq_url (rq t)) whole_size) t))"

section \<open>Pictures\<close>

definition CLEAN_URL_SECONDS :: int where "CLEAN_URL_SECONDS = 900"
definition MAX_CLEAN_URLS :: nat where "MAX_CLEAN_URLS = 4000"

definition remember_clean :: "env \<Rightarrow> string \<Rightarrow> turn \<Rightarrow> turn" where
  "remember_clean e level t =
     (let url = rq_url (rq t) in
      if url = [] then t
      else t\<lparr>clean_urls := keep_last MAX_CLEAN_URLS (dict_set (url, level) (mono e) (clean_urls t))\<rparr>)"

definition recently_clean :: "env \<Rightarrow> string \<Rightarrow> turn \<Rightarrow> bool \<times> turn" where
  "recently_clean e level t =
     (let k = (rq_url (rq t), level) in
      if rq_url (rq t) = [] then (False, t)
      else case map_of (clean_urls t) k of
        None \<Rightarrow> (False, t)
      | Some seen \<Rightarrow> if mono e - seen > CLEAN_URL_SECONDS then (False, t\<lparr>clean_urls := dict_pop k (clean_urls t)\<rparr>)
                     else (True, t))"

definition picture_headers :: "string \<Rightarrow> string \<Rightarrow> response \<Rightarrow> response" where
  "picture_headers ct mark r =
     r\<lparr>headers := dict_pop ''content-length'' (dict_set ''x-kosheros'' mark (dict_set ''content-type'' ct (headers r)))\<rparr>"

definition blank_image :: "turn \<Rightarrow> turn" where
  "blank_image t = on_answer (\<lambda>r. picture_headers ''image/png'' ''image-hidden'' (r\<lparr>body := Blank_picture\<rparr>)) t"

text \<open>Its result says whether the response is settled.\<close>

definition image_prejudge :: "env \<Rightarrow> detector \<Rightarrow> string \<Rightarrow> turn \<Rightarrow> bool \<times> turn" where
  "image_prejudge e d level t =
     (let host = rq_host (rq t) in
      if level = ''all'' then (True, blank_image t)
      else if picture_bytes d < MIN_IMAGE_BYTES then (True, t)
      else if blocked_categories_of_host e t host \<noteq> {} then (True, blank_image t)
      else (case map_of IMMODEST_SOURCES level of
              None \<Rightarrow> (False, t)
            | Some sources \<Rightarrow>
              (case urlsplit (req_header (rq t) ''referer'') of
                 Inl x \<Rightarrow> (True, raise_in t x)
               | Inr u \<Rightarrow>
                   if list_ex (\<lambda>h. h \<noteq> [] \<and> categories_of (lists e) h \<inter> set sources \<noteq> {}) [host, url_host u]
                   then (True, blank_image t) else (False, t))))"

definition is_search_thumb :: "string \<Rightarrow> bool" where
  "is_search_thumb host \<longleftrightarrow>
     (let h = lower host in
      ends_with h ''mm.bing.net'' \<or> h = ''i.ytimg.com'' \<or> ends_with h ''.ytimg.com''
      \<or> starts_with h ''encrypted-tbn'' \<and> ends_with h ''.gstatic.com''
      \<or> h = ''external-content.duckduckgo.com'' \<or> ends_with h ''.qwant.com'' \<and> sublist ''pics'' h)"

definition referring_page_level :: "turn \<Rightarrow> string" where
  "referring_page_level t = dict_get (page_levels t) (req_header (rq t) ''referer'') []"

definition image_settle :: "env \<Rightarrow> detector \<Rightarrow> string \<Rightarrow> judgement option \<Rightarrow> turn \<Rightarrow> bool \<times> turn" where
  "image_settle e d level v t =
     (case v of
        None \<Rightarrow> (True, blank_image t)
      | Some w \<Rightarrow>
        if level \<in> {''immodest'', ''suggestive'', ''people''} \<and> v_person w \<and> is_search_thumb (rq_host (rq t))
        then (True, blank_image t)
        else if \<not> hides level w
        then (if in_context w (referring_page_level t) (dict_get CONTENT_TOLERANCE level ''nsfw'')
              then (True, blank_image t) else (True, remember_clean e level t))
        else if picture_animated d then (True, blank_image t)
        else if setting (cover_style_for (px t) (fl_uid t)) = ''frost'' \<and> cover_dominant d then (True, blank_image t)
        else (False, t))"

definition apply_cover :: "detector \<Rightarrow> judgement option \<Rightarrow> turn \<Rightarrow> turn" where
  "apply_cover d v t =
     (if cover_made d
      then on_answer (\<lambda>r. picture_headers (cover_type d)
             (''image-covered='' @ (case v of None \<Rightarrow> [] | Some w \<Rightarrow> v_level w)) (r\<lparr>body := Covered_picture\<rparr>)) t
      else blank_image t)"

definition filter_image :: "env \<Rightarrow> detector \<Rightarrow> turn \<Rightarrow> turn" where
  "filter_image e d t =
     (let level = level_of_turn t in
      if level = ''none'' then t
      else (case image_prejudge e d level t of (settled, t) \<Rightarrow>
        if settled then t
        else (case image_settle e d level (picture_verdict d) t of (settled, t) \<Rightarrow>
          if settled then t else apply_cover d (picture_verdict d) t)))"

section \<open>The headers\<close>

definition PREVIEW_PATHS :: "string list" where "PREVIEW_PATHS = [''/an_webp/'', ''/an_/'']"

definition is_moving_thumbnail :: "request \<Rightarrow> bool" where
  "is_moving_thumbnail r \<longleftrightarrow>
     is_search_thumb (rq_host r)
     \<and> (list_ex (\<lambda>p. sublist p (path_only r)) PREVIEW_PATHS \<or> sublist ''_6s.'' (path_only r))"

definition on_headers :: "env \<Rightarrow> detector \<Rightarrow> turn \<Rightarrow> response \<Rightarrow> turn" where
  "on_headers e d t r =
     (let level = level_of_turn t in
      if starts_any (content_type r) PLAYLIST_TYPES then t
      else if is_video t r
      then (let decision = video_decision e d t r in
            if decision = ''stream'' then stream_answer t
            else if decision = ''refuse'' then refuse_video True t
            else if decision = ''sample''
            then settle_before_body level (sampled_clip d (rq_url (rq t)) (snd (range_info r))) t
            else t)
      else if is_image t r
      then (if is_moving_thumbnail (rq t) then t
            else if level = ''none'' \<or> fl_pictures t then stream_answer t
            else (case recently_clean e level t of (fresh, t) \<Rightarrow> if fresh then stream_answer t else t))
      else if sublist ''text/html'' (content_type r) \<or> youtube_applies (rq_host (rq t)) then t
      else (case is_suggestions (site_table e) (rq_url (rq t)) of
              Inl x \<Rightarrow> raise_in t x
            | Inr True \<Rightarrow> t
            | Inr False \<Rightarrow>
                if starts_any (content_type r) STREAM_TYPES
                   \<or> (case content_length r of Some n \<Rightarrow> n > STREAM_LARGE_BYTES \<and> \<not> starts_with (content_type r) ''text/''
                      | None \<Rightarrow> False)
                then stream_answer t else t))"

definition responseheaders_hook :: "env \<Rightarrow> detector \<Rightarrow> turn \<Rightarrow> turn" where
  "responseheaders_hook e d t =
     (if fl_uid t = None \<or> fl_bypass t then stream_answer t
      else (let t = (if fl_pictures_page t
                     then on_answer (set_header ''referrer-policy'' PICTURES_REFERRER_POLICY) t else t) in
            case answer t of None \<Rightarrow> t | Some r \<Rightarrow> on_headers e d t r))"

end
