(* ===== verification/YouTube.thy ===== *)
theory YouTube
  imports ProxyMedia FamilyGroups
begin

text \<open>
  YouTube in \<open>mitm/kosher_filter.py\<close>: channels under their many spellings, the feeds with the entries
  an account cannot play taken out, and which videos play.
\<close>

section \<open>Addresses of the app\<close>

definition WATCH_PATHS :: "string list" where
  "WATCH_PATHS = [''/watch'', ''/shorts'', ''/embed'', ''/live'', ''/v/'']"
definition PLAYER_PATHS :: "string list" where
  "PLAYER_PATHS = [''/youtubei/v1/player'', ''/youtubei/v1/reel/reel_item_watch'']"
definition REEL_PATHS :: "string list" where "REEL_PATHS = [''/youtubei/v1/reel/'']"
definition FEED_PATHS :: "string list" where
  "FEED_PATHS = [''/youtubei/v1/browse'', ''/youtubei/v1/search'', ''/youtubei/v1/next'', ''/youtubei/v1/guide'']"
definition SHORTS_KIND :: string where "SHORTS_KIND = ''shorts''"
definition SHORTS_KEYS :: "string list" where
  "SHORTS_KEYS = [''reelShelfRenderer'', ''reelItemRenderer'', ''shortsLockupViewModel'', ''reelWatchEndpoint'']"
definition PREVIEW_KEYS :: "string list" where
  "PREVIEW_KEYS =
    [''inlinePlaybackRenderer'', ''movingThumbnailRenderer'', ''movingThumbnailDetails'',
     ''animatedThumbnailRenderer'', ''richGridMovingThumbnailRenderer'', ''onHoverInlinePlaybackRenderer'']"
definition CHANNEL_KEYS :: "string list" where
  "CHANNEL_KEYS = [''ownerText'', ''longBylineText'', ''shortBylineText'']"

definition is_player_api :: "request \<Rightarrow> bool" where "is_player_api r \<longleftrightarrow> starts_any (path_only r) PLAYER_PATHS"
definition is_reel_api :: "request \<Rightarrow> bool" where "is_reel_api r \<longleftrightarrow> starts_any (path_only r) REEL_PATHS"
definition is_feed_api :: "request \<Rightarrow> bool" where "is_feed_api r \<longleftrightarrow> starts_any (path_only r) FEED_PATHS"
definition is_shorts_page :: "request \<Rightarrow> bool" where "is_shorts_page r \<longleftrightarrow> starts_with (path_only r) ''/shorts''"

definition playing_a_short :: "request \<Rightarrow> bool" where
  "playing_a_short r \<longleftrightarrow>
     is_reel_api r
     \<or> (let referer = req_header r ''referer'' in
        sublist ''/shorts/'' referer \<or> ends_with (rstrip (\<lambda>c. c = CHR ''/'') referer) ''/shorts'')"

section \<open>Feeds\<close>

text \<open>Every walk stops at a depth: a shape is looked for twelve levels down, a feed is pruned twenty-four.\<close>

definition SHAPE_DEPTH :: nat where "SHAPE_DEPTH = 12"
definition FEED_DEPTH :: nat where "FEED_DEPTH = 24"

lemma size_value: "(k, v) \<in> set d \<Longrightarrow> size v < size (JObj d)"
  by (induction d) (auto simp: less_Suc_eq)

lemma size_item: "x \<in> set xs \<Longrightarrow> size x < size (JList xs)"
  by (induction xs) auto

function mentions_shorts :: "nat \<Rightarrow> json \<Rightarrow> bool" where
  "mentions_shorts n (JObj d) =
     (n \<le> SHAPE_DEPTH \<and> (list_ex (\<lambda>k. k \<in> set SHORTS_KEYS) (keys d)
        \<or> list_ex (\<lambda>v. mentions_shorts (n + 1) v) (map snd d)))"
| "mentions_shorts n (JList xs) = (n \<le> SHAPE_DEPTH \<and> list_ex (\<lambda>v. mentions_shorts (n + 1) v) xs)"
| "mentions_shorts n JNull = False" | "mentions_shorts n (JBool b) = False"
| "mentions_shorts n (JInt i) = False" | "mentions_shorts n (JStr s) = False"
  by pat_completeness auto
termination
  by (relation "measure (\<lambda>(n, v). size v)") (use size_value size_item in \<open>force simp del: json.size\<close>)+

function prune_previews :: "nat \<Rightarrow> json \<Rightarrow> json" where
  "prune_previews n (JObj d) =
     (if n > FEED_DEPTH then JObj d
      else JObj (map (\<lambda>(k, v). (k, prune_previews (n + 1) v)) (filter (\<lambda>(k, v). k \<notin> set PREVIEW_KEYS) d)))"
| "prune_previews n (JList xs) = (if n > FEED_DEPTH then JList xs else JList (map (prune_previews (n + 1)) xs))"
| "prune_previews n JNull = JNull" | "prune_previews n (JBool b) = JBool b"
| "prune_previews n (JInt i) = JInt i" | "prune_previews n (JStr s) = JStr s"
  by pat_completeness auto
termination
  by (relation "measure (\<lambda>(n, v). size v)") (use size_value size_item in \<open>force simp del: json.size\<close>)+

definition is_obj :: "json \<Rightarrow> bool" where "is_obj v \<longleftrightarrow> as_obj v \<noteq> None"

function prune_shorts :: "nat \<Rightarrow> json \<Rightarrow> json" where
  "prune_shorts n (JObj d) =
     (if n > FEED_DEPTH then JObj d else JObj (map (\<lambda>(k, v). (k, prune_shorts (n + 1) v)) d))"
| "prune_shorts n (JList xs) =
     (if n > FEED_DEPTH then JList xs
      else JList (map (prune_shorts (n + 1)) (filter (\<lambda>v. \<not> (is_obj v \<and> mentions_shorts 0 v)) xs)))"
| "prune_shorts n JNull = JNull" | "prune_shorts n (JBool b) = JBool b"
| "prune_shorts n (JInt i) = JInt i" | "prune_shorts n (JStr s) = JStr s"
  by pat_completeness auto
termination
  by (relation "measure (\<lambda>(n, v). size v)") (use size_value size_item in \<open>force simp del: json.size\<close>)+

section \<open>Channels\<close>

definition is_word :: "char \<Rightarrow> bool" where "is_word c \<longleftrightarrow> alphanumeric c \<or> c = CHR ''_''"

definition drop_nocase :: "string list \<Rightarrow> string \<Rightarrow> string" where
  "drop_nocase ps s = (case find (\<lambda>p. prefix_nocase p s) ps of None \<Rightarrow> s | Some p \<Rightarrow> drop (length p) s)"

definition is_channel_id :: "string \<Rightarrow> bool" where
  "is_channel_id s \<longleftrightarrow> starts_with s ''UC'' \<and> length s = 24 \<and> list_all (\<lambda>c. is_word c \<or> c = CHR ''-'') (drop 2 s)"

definition drop_first_of :: "string list \<Rightarrow> string \<Rightarrow> string" where
  "drop_first_of ps s = (case find (starts_with s) ps of None \<Rightarrow> s | Some p \<Rightarrow> drop (length p) s)"

definition site_prefixes :: "string list" where
  "site_prefixes =
    [''www.youtube.com/'', ''www.youtu.be/'', ''m.youtube.com/'', ''m.youtu.be/'', ''youtube.com/'', ''youtu.be/'']"

definition channel_part :: "string \<Rightarrow> string" where
  "channel_part value =
     (let v = drop_first_of [''https://'', ''http://'', ''//''] value;
          v = drop_nocase site_prefixes v;
          v = strip (\<lambda>c. c = CHR ''/'') (before CHR ''#'' (before CHR ''?'' v));
          v = drop_nocase [''channel/'', ''c/'', ''user/''] v in
      strip is_space (before CHR ''/'' v))"

definition channel_key :: "string \<Rightarrow> string option" where
  "channel_key value =
     (let v = strip is_space value; v = (if v = [] then [] else channel_part v) in
      if v = [] then None
      else if is_channel_id v then Some v
      else if starts_with v ''@'' \<or> CHR '' '' \<notin> set v then Some (''@'' @ lower (dropWhile (\<lambda>c. c = CHR ''@'') v))
      else Some (lower v))"

definition channel_keys :: "string list \<Rightarrow> string list" where
  "channel_keys vs = List.map_filter channel_key vs"

text \<open>\<open>(v.get(k) or {})\<close> and \<open>(v.get(k) or [])\<close>, of objects and lists only.\<close>

definition obj_at :: "doc \<Rightarrow> string \<Rightarrow> doc" where
  "obj_at d k = (case map_of d k of Some (JObj x) \<Rightarrow> x | _ \<Rightarrow> [])"

definition list_at :: "doc \<Rightarrow> string \<Rightarrow> json list" where
  "list_at d k = (case map_of d k of Some (JList xs) \<Rightarrow> xs | _ \<Rightarrow> [])"

definition str_at :: "doc \<Rightarrow> string \<Rightarrow> string" where
  "str_at d k = (case map_of d k of Some (JStr s) \<Rightarrow> s | _ \<Rightarrow> [])"

definition run_names :: "json \<Rightarrow> string list" where
  "run_names r =
     (case r of
        JObj d \<Rightarrow>
          (let endpoint = obj_at (obj_at d ''navigationEndpoint'') ''browseEndpoint'';
               url = str_at endpoint ''canonicalBaseUrl'' in
           filter (\<lambda>s. s \<noteq> []) [str_at d ''text'', str_at endpoint ''browseId'']
             @ (if starts_with url ''/@'' then [drop 1 url] else []))
      | _ \<Rightarrow> [])"

definition renderer_channel :: "doc \<Rightarrow> string list" where
  "renderer_channel item =
     concat (map (\<lambda>k. concat (map run_names (list_at (obj_at item k) ''runs''))) CHANNEL_KEYS)
       @ filter (\<lambda>s. s \<noteq> []) [str_at item ''channelId'']"

text \<open>An entry goes when one of its renderers names a channel and none that is allowed.\<close>

definition unapproved :: "string list \<Rightarrow> json \<Rightarrow> bool" where
  "unapproved allowed v \<longleftrightarrow>
     (case v of
        JObj d \<Rightarrow> list_ex (\<lambda>(k, r). case r of
            JObj item \<Rightarrow> (let named = channel_keys (renderer_channel item) in
                         named \<noteq> [] \<and> \<not> list_ex (\<lambda>c. c \<in> set allowed) named)
          | _ \<Rightarrow> False) d
      | _ \<Rightarrow> False)"

function prune_feed :: "string list \<Rightarrow> nat \<Rightarrow> json \<Rightarrow> json" where
  "prune_feed allowed n (JObj d) =
     (if n > FEED_DEPTH then JObj d else JObj (map (\<lambda>(k, v). (k, prune_feed allowed (n + 1) v)) d))"
| "prune_feed allowed n (JList xs) =
     (if n > FEED_DEPTH then JList xs
      else JList (map (prune_feed allowed (n + 1)) (filter (\<lambda>v. \<not> unapproved allowed v) xs)))"
| "prune_feed allowed n JNull = JNull" | "prune_feed allowed n (JBool b) = JBool b"
| "prune_feed allowed n (JInt i) = JInt i" | "prune_feed allowed n (JStr s) = JStr s"
  by pat_completeness auto
termination
  by (relation "measure (\<lambda>(a, n, v). size v)") (use size_value size_item in \<open>force simp del: json.size\<close>)+

section \<open>What a player's answer says of its video\<close>

text \<open>\<open>"name"\s*:\s*"([^"]+)"\<close> at the start of a text: the value and what follows it.\<close>

definition field_here :: "string \<Rightarrow> string \<Rightarrow> string option" where
  "field_here n s =
     (let k = quoted n; s1 = dropWhile is_space (drop (length k) s); s2 = dropWhile is_space (drop 1 s1);
          v = takeWhile (\<lambda>c. c \<noteq> CHR 0x22) (drop 1 s2) in
      if starts_with s k \<and> starts_with s1 '':'' \<and> starts_with s2 [CHR 0x22] \<and> length v + 1 < length s2
      then Some v else None)"

fun search_from :: "(string \<Rightarrow> 'a option) \<Rightarrow> string \<Rightarrow> 'a option" where
  "search_from f [] = f []"
| "search_from f (c # s) = (case f (c # s) of Some x \<Rightarrow> Some x | None \<Rightarrow> search_from f s)"

definition nonempty :: "string \<Rightarrow> string option" where "nonempty s = (if s = [] then None else Some s)"

definition field_of :: "string \<Rightarrow> string \<Rightarrow> string option" where
  "field_of n s = search_from (\<lambda>s. Option.bind (field_here n s) nonempty) s"

text \<open>The category of the video's own renderer: within 60000 characters of its name.\<close>

definition microformat_category :: "string \<Rightarrow> string option" where
  "microformat_category s =
     (let k = quoted ''playerMicroformatRenderer'' in
      search_from (\<lambda>s. if starts_with s k
        then first_some (\<lambda>i. Option.bind (field_here ''category'' (drop (length k + i) s)) nonempty)
               [0..<min 60000 (length s) + 1]
        else None) s)"

definition category_number :: "string \<Rightarrow> string option" where
  "category_number s =
     search_from (\<lambda>s.
       let rest = drop 10 s; sep = takeWhile (\<lambda>c. c \<in> {CHR 0x22, CHR 0x5C, CHR '':''} \<or> is_space c) rest;
           n = digits_of (drop (length sep) rest) in
       if starts_with s ''categoryId'' \<and> sep \<noteq> [] \<and> n \<noteq> [] then Some n else None) s"

definition category_id :: "string option \<Rightarrow> string option" where
  "category_id found = Option.bind found (\<lambda>s. case youtube_category_id (Some s) of Some i \<Rightarrow> nonempty i | None \<Rightarrow> None)"

definition category_of :: "string \<Rightarrow> string option" where
  "category_of text =
     (case category_id (microformat_category text) of Some i \<Rightarrow> Some i
      | None \<Rightarrow> (case category_id (field_of ''category'' text) of Some i \<Rightarrow> Some i
        | None \<Rightarrow> category_id (category_number text)))"

definition owner_handle :: "string \<Rightarrow> string option" where
  "owner_handle s =
     search_from (\<lambda>s. Option.bind (field_here ''ownerProfileUrl'' s) (\<lambda>v.
       let tail = after_last CHR ''/'' v in
       if CHR ''/'' \<in> set v \<and> starts_with tail ''@'' \<and> length tail > 1 then Some tail else None)) s"

definition canonical_handle :: "string \<Rightarrow> string option" where
  "canonical_handle s =
     search_from (\<lambda>s. Option.bind (field_here ''canonicalBaseUrl'' s) (\<lambda>v.
       if starts_with v ''/@'' \<and> length v > 2 then Some (drop 1 v) else None)) s"

definition channel_of :: "string \<Rightarrow> string list" where
  "channel_of text =
     (case field_of ''channelId'' text of None \<Rightarrow> [] | Some c \<Rightarrow> [c])
     @ (case owner_handle text of Some h \<Rightarrow> [h]
        | None \<Rightarrow> (case canonical_handle text of None \<Rightarrow> [] | Some h \<Rightarrow> [h]))"

definition only_approved :: string where "only_approved = '' because only approved channels are allowed''"
definition kind_off :: string where "kind_off = '' because that kind of video is turned off''"
definition kind_unknown :: string where "kind_unknown = '' because the video's kind could not be checked''"

definition youtube_verdict :: "string \<Rightarrow> string list \<Rightarrow> string list \<Rightarrow> bool \<Rightarrow> string option" where
  "youtube_verdict text allowed blocked strict_unknown =
     (if allowed \<noteq> [] \<and> \<not> list_ex (\<lambda>c. c \<in> set (channel_keys allowed)) (channel_keys (channel_of text))
      then Some only_approved
      else (let kinds = filter (\<lambda>k. k \<noteq> SHORTS_KIND) blocked in
            if kinds = [] then None
            else (case category_of text of
                    Some c \<Rightarrow> if c \<in> set kinds then Some kind_off else None
                  | None \<Rightarrow> if strict_unknown then Some kind_unknown else None)))"

section \<open>The answers\<close>

definition YOUTUBE_MAX_FEED :: nat where "YOUTUBE_MAX_FEED = 512 * 1024 * 8"

definition strings_at :: "doc \<Rightarrow> string \<Rightarrow> string list" where
  "strings_at d k = List.map_filter as_str (list_at d k)"

definition pruned_feed :: "string list \<Rightarrow> bool \<Rightarrow> json \<Rightarrow> json" where
  "pruned_feed allowed no_shorts v =
     (let v = (if allowed = [] then v else prune_feed (channel_keys allowed) 0 v);
          v = (if no_shorts then prune_shorts 0 v else v) in
      prune_previews 0 v)"

text \<open>\<open>json.dumps\<close> of the answer is not modelled: the document is the body.\<close>

definition json_answer :: "json \<Rightarrow> string \<Rightarrow> response \<Rightarrow> response" where
  "json_answer v mark r =
     r\<lparr>body := Document_body v,
       headers := dict_pop ''content-length'' (dict_set ''x-kosheros'' mark (headers r))\<rparr>"

definition filter_feed :: "env \<Rightarrow> string list \<Rightarrow> bool \<Rightarrow> turn \<Rightarrow> response \<Rightarrow> turn" where
  "filter_feed e allowed no_shorts t r =
     (let text = text_of_response r in
      if text = [] \<or> length text > YOUTUBE_MAX_FEED then t
      else (case json_loads e text of None \<Rightarrow> t
            | Some v \<Rightarrow> (let p = pruned_feed allowed no_shorts v in
                if json_eq p v then t else put_answer (json_answer p ''youtube-feed-filtered'' r) t)))"

definition unplayable :: "string \<Rightarrow> json" where
  "unplayable why =
     (let title = JStr ''Blocked by KosherOS'';
          detail = JStr (rstrip (\<lambda>c. c = CHR ''.'') why @
            ''. You can ask the administrator of this computer for it. Nothing changes until they say yes.'') in
      JObj [(''playabilityStatus'', JObj
              [(''status'', JStr ''ERROR''), (''reason'', title),
               (''errorScreen'', JObj [(''playerErrorMessageRenderer'', JObj
                  [(''reason'', JObj [(''simpleText'', title)]), (''subreason'', JObj [(''simpleText'', detail)])])])]),
            (''videoDetails'', JObj [])])"

definition refuse_player :: "string \<Rightarrow> turn \<Rightarrow> turn" where
  "refuse_player why t =
     on_answer (\<lambda>r. (json_answer (unplayable why) ''youtube-blocked'' r)
       \<lparr>headers := dict_pop ''content-length'' (dict_set ''x-kosheros'' ''youtube-blocked''
                    (dict_set ''content-type'' ''application/json'' (headers r)))\<rparr>) t"

definition filter_player :: "string list \<Rightarrow> string list \<Rightarrow> turn \<Rightarrow> response \<Rightarrow> turn" where
  "filter_player allowed blocked t r =
     (if text_of_response r = [] then t
      else (case youtube_verdict (text_of_response r) allowed blocked True of
              None \<Rightarrow> t
            | Some why \<Rightarrow> refuse_player (if why = only_approved then ''Only approved channels can be watched on this computer''
                                     else ''That kind of video is turned off on this computer'') t))"

definition filter_youtube :: "env \<Rightarrow> turn \<Rightarrow> turn" where
  "filter_youtube e t =
     (case answer t of None \<Rightarrow> t
      | Some r \<Rightarrow>
        let settings = youtube_for (px t) (fl_uid t);
            allowed = strings_at settings ''allowed_channels''; blocked = strings_at settings ''blocked_categories'';
            no_shorts = SHORTS_KIND \<in> set blocked; url = rq_url (rq t) in
        if allowed = [] \<and> blocked = [] then t
        else if is_player_api (rq t) \<or> no_shorts \<and> is_reel_api (rq t)
        then (if no_shorts \<and> playing_a_short (rq t) then refuse_player ''Shorts are turned off on this computer'' t
              else filter_player allowed blocked t r)
        else if is_feed_api (rq t) then filter_feed e allowed no_shorts t r
        else if \<not> starts_any (rq_path (rq t)) WATCH_PATHS \<or> \<not> is_html r then t
        else if no_shorts \<and> is_shorts_page (rq t)
        then block url '' because Shorts are turned off'' ''youtube:shorts'' t
        else (case youtube_verdict (text_of_response r) allowed blocked False of
                None \<Rightarrow> t
              | Some why \<Rightarrow> block url why (''youtube:'' @ (if why = only_approved then ''channel'' else ''category'')) t))"

section \<open>What is left of a feed\<close>

text \<open>A value and the values inside it, with how deep they are.\<close>

inductive inside :: "nat \<Rightarrow> json \<Rightarrow> json \<Rightarrow> bool" where
  here: "inside 0 v v"
| under_key: "(k, x) \<in> set d \<Longrightarrow> inside n x w \<Longrightarrow> inside (Suc n) (JObj d) w"
| in_list: "x \<in> set xs \<Longrightarrow> inside n x w \<Longrightarrow> inside (Suc n) (JList xs) w"

inductive_cases inside_objE: "inside n (JObj d) w"
inductive_cases inside_listE: "inside n (JList xs) w"
inductive_simps inside_zero: "inside 0 v w"
inductive_simps inside_null: "inside n JNull w"
inductive_simps inside_bool: "inside n (JBool b) w"
inductive_simps inside_int: "inside n (JInt i) w"
inductive_simps inside_str: "inside n (JStr s) w"

lemmas inside_leaf = inside_null inside_bool inside_int inside_str

text \<open>The three passes over a value at depth \<open>n\<close>, and the entries of a list that they keep.\<close>

definition trim :: "string list \<Rightarrow> bool \<Rightarrow> nat \<Rightarrow> json \<Rightarrow> json" where
  "trim allowed no_shorts n v =
     prune_previews n ((if no_shorts then prune_shorts n else id)
       ((if allowed = [] then id else prune_feed (channel_keys allowed) n) v))"

definition stays :: "string list \<Rightarrow> bool \<Rightarrow> nat \<Rightarrow> json \<Rightarrow> bool" where
  "stays allowed no_shorts n v \<longleftrightarrow>
     (allowed \<noteq> [] \<longrightarrow> \<not> unapproved (channel_keys allowed) v)
     \<and> \<not> (no_shorts \<and> is_obj v
          \<and> mentions_shorts 0 ((if allowed = [] then id else prune_feed (channel_keys allowed) (n + 1)) v))"

lemma pruned_feed_trim: "pruned_feed allowed no_shorts v = trim allowed no_shorts 0 v"
  by (simp add: pruned_feed_def trim_def)

lemma is_obj_prune [simp]: "is_obj (prune_feed a n v) = is_obj v" "is_obj (prune_shorts n v) = is_obj v"
  "is_obj (prune_previews n v) = is_obj v"
  by (cases v; simp add: is_obj_def)+

lemma trim_list:
  "n \<le> FEED_DEPTH \<Longrightarrow> trim allowed no_shorts n (JList xs)
     = JList (map (trim allowed no_shorts (n + 1)) (filter (stays allowed no_shorts n) xs))"
  by (cases "allowed = []"; cases no_shorts) (simp_all add: trim_def [abs_def] stays_def [abs_def] filter_map o_def conj_commute)

lemma trim_obj:
  "n \<le> FEED_DEPTH \<Longrightarrow> trim allowed no_shorts n (JObj d)
     = JObj (map (\<lambda>(k, v). (k, trim allowed no_shorts (n + 1) v)) (filter (\<lambda>(k, v). k \<notin> set PREVIEW_KEYS) d))"
  by (cases "allowed = []"; cases no_shorts) (auto simp: trim_def filter_map o_def case_prod_unfold)

lemma trim_leaf: "trim allowed no_shorts n JNull = JNull" "trim allowed no_shorts n (JBool b) = JBool b"
  "trim allowed no_shorts n (JInt i) = JInt i" "trim allowed no_shorts n (JStr s) = JStr s"
  by (simp_all add: trim_def)

lemma mentions_obj:
  "mentions_shorts n (JObj d) \<longleftrightarrow>
     n \<le> SHAPE_DEPTH \<and> (\<exists>k v. (k, v) \<in> set d \<and> (k \<in> set SHORTS_KEYS \<or> mentions_shorts (Suc n) v))"
  by (auto simp: list_ex_iff Bex_def)

declare mentions_shorts.simps(1) [simp del] mentions_obj [simp]

text \<open>Taking parts out of a value never makes it mention a short.\<close>

lemma mentions_shorts_pruned:
  "mentions_shorts m (prune_shorts n v) \<Longrightarrow> mentions_shorts m v"
  "mentions_shorts m (prune_previews n v) \<Longrightarrow> mentions_shorts m v"
proof -
  show "mentions_shorts m v" if "mentions_shorts m (prune_shorts n v)"
    using that
  proof (induction n v arbitrary: m rule: prune_shorts.induct)
    case (1 n d)
    show ?case
    proof (cases "n > FEED_DEPTH")
      case False
      with 1(2) obtain k x where x: "(k, x) \<in> set d" "m \<le> SHAPE_DEPTH"
        and "k \<in> set SHORTS_KEYS \<or> mentions_shorts (Suc m) (prune_shorts (n + 1) x)" by auto
      with 1(1) [OF False x(1) refl] show ?thesis by auto
    qed (use 1(2) in simp)
  next
    case (2 n xs)
    then show ?case by (cases "n > FEED_DEPTH") (auto simp: list_ex_iff)
  qed simp_all
  show "mentions_shorts m v" if "mentions_shorts m (prune_previews n v)"
    using that
  proof (induction n v arbitrary: m rule: prune_previews.induct)
    case (1 n d)
    show ?case
    proof (cases "n > FEED_DEPTH")
      case False
      with 1(2) obtain k x where x: "(k, x) \<in> set (filter (\<lambda>(k, v). k \<notin> set PREVIEW_KEYS) d)" "m \<le> SHAPE_DEPTH"
        and "k \<in> set SHORTS_KEYS \<or> mentions_shorts (Suc m) (prune_previews (n + 1) x)" by auto
      with 1(1) [OF False x(1) refl] show ?thesis by auto
    qed (use 1(2) in simp)
  next
    case (2 n xs)
    then show ?case by (cases "n > FEED_DEPTH") (auto simp: list_ex_iff)
  qed simp_all
qed

lemma trim_shorts:
  "mentions_shorts m (trim allowed no_shorts n v)
     \<Longrightarrow> mentions_shorts m ((if allowed = [] then id else prune_feed (channel_keys allowed) n) v)"
  by (cases no_shorts) (auto simp: trim_def dest!: mentions_shorts_pruned)

lemma is_obj_trim [simp]: "is_obj (trim allowed no_shorts n v) = is_obj v"
  by (simp add: trim_def)

lemma inside_trim:
  assumes "inside k (trim allowed no_shorts n v) w" "n + k \<le> FEED_DEPTH"
  shows "(\<forall>d. w = JObj d \<longrightarrow> set (keys d) \<inter> set PREVIEW_KEYS = {})
    \<and> (\<forall>ys. w = JList ys \<longrightarrow> (\<exists>xs. inside k v (JList xs)
         \<and> ys = map (trim allowed no_shorts (n + k + 1)) (filter (stays allowed no_shorts (n + k)) xs)))"
  using assms
proof (induction k arbitrary: n v)
  case 0
  then show ?case
    by (cases v) (auto simp: inside_zero trim_obj trim_list trim_leaf intro: inside.intros)
next
  case (Suc k)
  then have n: "n \<le> FEED_DEPTH" "n + 1 + k \<le> FEED_DEPTH" by simp_all
  obtain x where x: "inside k (trim allowed no_shorts (n + 1) x) w"
    and up: "\<And>u. inside k x u \<Longrightarrow> inside (Suc k) v u"
  proof (cases v)
    case (JObj d)
    with Suc.prems(1) n(1) obtain q x where "(q, x) \<in> set d" "inside k (trim allowed no_shorts (n + 1) x) w"
      by (auto simp: trim_obj elim!: inside_objE)
    with that [of x] show thesis by (auto simp: JObj intro: inside.under_key)
  next
    case (JList xs)
    with Suc.prems(1) n(1) obtain x where "x \<in> set xs" "inside k (trim allowed no_shorts (n + 1) x) w"
      by (auto simp: trim_list elim!: inside_listE)
    with that [of x] show thesis by (auto simp: JList intro: inside.in_list)
  qed (use Suc.prems in \<open>auto simp: trim_leaf inside_leaf\<close>)
  from Suc.IH [OF x n(2)] show ?case using up by fastforce
qed

text \<open>
  Property C31: what is left of a YouTube feed, down to the depth the filter walks.  Nothing in it plays on
  hover; and each of its lists is a list of the feed as it came, in its order, without exactly the
  entries that name channels and none that the account may watch and, where Shorts are turned off, the
  entries that mention one.  No entry that is left mentions a short.
\<close>

theorem feed_pruned_exactly:
  assumes "inside n (pruned_feed allowed no_shorts v) w" "n \<le> FEED_DEPTH"
  shows "(\<forall>d. w = JObj d \<longrightarrow> set (keys d) \<inter> set PREVIEW_KEYS = {})
    \<and> (\<forall>ys. w = JList ys \<longrightarrow>
         (\<exists>xs. inside n v (JList xs) \<and> ys = map (trim allowed no_shorts (n + 1)) (filter (stays allowed no_shorts n) xs))
         \<and> (no_shorts \<longrightarrow> (\<forall>y \<in> set ys. is_obj y \<longrightarrow> \<not> mentions_shorts 0 y)))"
proof -
  have "\<not> mentions_shorts 0 (trim allowed no_shorts (n + 1) x)"
    if "stays allowed no_shorts n x" "is_obj x" no_shorts for x
    using that trim_shorts [of 0 allowed no_shorts "n + 1" x] by (auto simp: stays_def)
  then show ?thesis
    using inside_trim [of n allowed no_shorts 0 v w] assms by (fastforce simp: pruned_feed_trim)
qed

definition example_feed :: json where
  "example_feed = JObj [(''contents'', JList
     [JObj [(''reelItemRenderer'', JNull)],
      JObj [(''videoRenderer'', JObj [(''channelId'', JStr ''UCother'')])],
      JObj [(''videoRenderer'', JObj [(''channelId'', JStr ''@Torah''), (''inlinePlaybackRenderer'', JNull)])]])]"

definition example_left :: json where
  "example_left = JObj [(''videoRenderer'', JObj [(''channelId'', JStr ''@Torah'')])]"

lemma example_pruned: "pruned_feed [''@torah''] True example_feed = JObj [(''contents'', JList [example_left])]"
  by code_simp

theorem feed_pruned_exactly_witness:
  "pruned_feed [''@torah''] True example_feed = JObj [(''contents'', JList [example_left])]
   \<and> \<not> mentions_shorts 0 example_left"
proof -
  have "inside 1 (pruned_feed [''@torah''] True example_feed) (JList [example_left])"
    unfolding example_pruned by (auto intro: inside.intros)
  from feed_pruned_exactly [OF this] show ?thesis
    by (simp add: example_pruned FEED_DEPTH_def example_left_def is_obj_def)
qed

section \<open>Names of a channel\<close>

text \<open>A displayed title of one word has the key of the handle spelled like it, whoever shows it.\<close>

definition impostor_id :: string where "impostor_id = ''UC0123456789012345678901''"

lemma impostor_key: "channel_key impostor_id = Some impostor_id"
proof -
  have "channel_part (strip is_space impostor_id) = impostor_id" "strip is_space impostor_id \<noteq> []" by code_simp+
  moreover have "is_channel_id impostor_id"
    by (simp add: impostor_id_def is_channel_id_def is_word_def alphanumeric_def is_letter_def is_digit_def starts_with_def)
  ultimately show ?thesis by (simp add: channel_key_def Let_def impostor_id_def)
qed

lemma key_of_handle: "channel_key ''@veritasium'' = Some ''@veritasium''" by code_simp
lemma key_of_title: "channel_key ''Veritasium'' = Some ''@veritasium''" by code_simp

lemma title_taken_for_handle:
  "channel_key ''Veritasium'' = channel_key ''@veritasium''"
  "\<not> unapproved (channel_keys [''@veritasium''])
     (JObj [(''videoRenderer'',
             JObj [(''ownerText'', JObj [(''runs'', JList [JObj [(''text'', JStr ''Veritasium'')]])]),
                   (''channelId'', JStr impostor_id)])])"
  by (simp_all add: key_of_handle key_of_title impostor_key unapproved_def channel_keys_def renderer_channel_def
      CHANNEL_KEYS_def obj_at_def list_at_def str_at_def run_names_def starts_with_def Let_def List.map_filter_simps)
end
