(* ===== verification/ProxyAnswers.thy ===== *)
theory ProxyAnswers
  imports YouTube
begin

text \<open>
  The response hook of \<open>mitm/kosher_filter.py\<close>, with the suggestions of a search box
  (\<open>kosherd/src/kosherd/suggest.py\<close>); and what comes through of an answer after both its hooks.
\<close>

section \<open>Suggestions\<close>

definition MAX_BYTES :: nat where "MAX_BYTES = 512 * 1024"
definition MAX_DEPTH :: nat where "MAX_DEPTH = 12"

function text_in :: "nat \<Rightarrow> json \<Rightarrow> string" where
  "text_in n (JStr s) = (if n > MAX_DEPTH then [] else s)"
| "text_in n (JList xs) = (if n > MAX_DEPTH then [] else join '' '' (map (text_in (n + 1)) xs))"
| "text_in n (JObj d) = (if n > MAX_DEPTH then [] else join '' '' (map (\<lambda>(k, v). text_in (n + 1) v) d))"
| "text_in n JNull = []" | "text_in n (JBool b) = []" | "text_in n (JInt i) = []"
  by pat_completeness auto
termination
  by (relation "measure (\<lambda>(n, v). size v)") (use size_value size_item in \<open>force simp del: json.size\<close>)+

definition blocked_entry :: "(string \<Rightarrow> bool) \<Rightarrow> json \<Rightarrow> bool" where
  "blocked_entry is_blocked v \<longleftrightarrow> text_in 0 v \<noteq> [] \<and> is_blocked (text_in 0 v)"

function prune_entries :: "(string \<Rightarrow> bool) \<Rightarrow> nat \<Rightarrow> json \<Rightarrow> json" where
  "prune_entries p n (JList xs) =
     (if n > MAX_DEPTH then JList xs
      else JList (map (prune_entries p (n + 1)) (filter (\<lambda>v. \<not> blocked_entry p v) xs)))"
| "prune_entries p n (JObj d) =
     (if n > MAX_DEPTH then JObj d else JObj (map (\<lambda>(k, v). (k, prune_entries p (n + 1) v)) d))"
| "prune_entries p n JNull = JNull" | "prune_entries p n (JBool b) = JBool b"
| "prune_entries p n (JInt i) = JInt i" | "prune_entries p n (JStr s) = JStr s"
  by pat_completeness auto
termination
  by (relation "measure (\<lambda>(p, n, v). size v)") (use size_value size_item in \<open>force simp del: json.size\<close>)+

text \<open>\<open>filter_json\<close>: \<open>None\<close> when the answer is left alone.\<close>

definition filter_json :: "env \<Rightarrow> (string \<Rightarrow> bool) \<Rightarrow> string \<Rightarrow> json option" where
  "filter_json e is_blocked s =
     (if s = [] \<or> length s > MAX_BYTES then None
      else (case json_loads e s of None \<Rightarrow> None
            | Some v \<Rightarrow> (let p = prune_entries is_blocked 0 v in if json_eq p v then None else Some p)))"

definition is_blocked_suggestion :: "env \<Rightarrow> turn \<Rightarrow> string \<Rightarrow> bool" where
  "is_blocked_suggestion e t s \<longleftrightarrow>
     search_blocked e s \<or> blocked_term (site_table e) s \<noteq> None
     \<or> at_least (score e s) (content_tolerance e t [] False)"

definition filter_suggestions :: "env \<Rightarrow> turn \<Rightarrow> turn" where
  "filter_suggestions e t =
     (case answer t of None \<Rightarrow> t
      | Some r \<Rightarrow>
        if \<not> blocks t GATING_CATEGORY then t
        else (case filter_json e (is_blocked_suggestion e t) (text_of_response r) of
                None \<Rightarrow> t
              | Some v \<Rightarrow> put_answer (json_answer v ''suggestions-filtered'' r) t))"

section \<open>The hook\<close>

definition youtube_limited :: "turn \<Rightarrow> bool" where
  "youtube_limited t \<longleftrightarrow>
     (let settings = youtube_for (px t) (fl_uid t) in
      strings_at settings ''allowed_channels'' \<noteq> [] \<or> strings_at settings ''blocked_categories'' \<noteq> [])"

definition youtube_preview_refused :: "turn \<Rightarrow> bool" where
  "youtube_preview_refused t \<longleftrightarrow> is_moving_thumbnail (rq t) \<and> youtube_limited t"

definition filter_text :: "env \<Rightarrow> turn \<Rightarrow> turn" where
  "filter_text e t =
     (if youtube_applies (rq_host (rq t)) then filter_youtube e t
      else (case is_suggestions (site_table e) (rq_url (rq t)) of
              Inl x \<Rightarrow> raise_in t x
            | Inr True \<Rightarrow> filter_suggestions e t
            | Inr False \<Rightarrow> filter_page e t))"

text \<open>An exception ends the hook that raises it; the next hook of the same flow starts anew.\<close>

definition response_hook :: "env \<Rightarrow> detector \<Rightarrow> turn \<Rightarrow> turn" where
  "response_hook e d t =
     (case answer t of None \<Rightarrow> t
      | Some r \<Rightarrow>
        if fl_uid t = None \<or> streaming r \<noteq> Held then t
        else if is_image t r
        then (if youtube_preview_refused t then blank_image t else filter_image e d t)
        else if is_video t r then filter_video e d t r
        else (let t' = filter_text e (t\<lparr>failed := None\<rparr>) in
              if failed t' \<noteq> None then t' else calm_filter e t'))"

text \<open>Both hooks of an answer, one after the other.\<close>

definition answered :: "env \<Rightarrow> detector \<Rightarrow> turn \<Rightarrow> turn" where
  "answered e d t = response_hook e d (responseheaders_hook e d t)"

text \<open>What of the site's own answer reaches the person: the body as the site sent it.\<close>

definition passes :: "string \<Rightarrow> turn \<Rightarrow> bool" where
  "passes s t \<longleftrightarrow> (\<exists>r. answer t = Some r \<and> streaming r \<noteq> Discarded \<and> body r = Raw s)"

section \<open>Kinds of answer\<close>

lemma starts_any_prefix: "starts_any s ps \<longleftrightarrow> (\<exists>p \<in> set ps. prefix p s)"
  by (simp add: starts_any_def starts_with_def list_ex_iff)

lemma header_after [simp]:
  "dict_get (headers (set_header n v r)) k x = (if k = n then v else dict_get (headers r) k x)"
  "body (set_header n v r) = body r" "streaming (set_header n v r) = streaming r" "status (set_header n v r) = status r"
  by (simp_all add: set_header_def)

lemma kind_after [simp]:
  assumes "n \<noteq> ''content-type''"
  shows "content_type (set_header n v r) = content_type r" "is_image t (set_header n v r) = is_image t r"
    "is_video t (set_header n v r) = is_video t r" "is_playlist (set_header n v r) = is_playlist r"
  using assms by (simp_all add: content_type_def is_image_def is_video_def is_playlist_def)

lemma decision_after [simp]:
  assumes "n \<notin> {''content-type'', ''content-length'', ''content-range'', ''accept-ranges''}"
  shows "content_length (set_header n v r) = content_length r" "range_info (set_header n v r) = range_info r"
    "video_decision e d t (set_header n v r) = video_decision e d t r"
proof -
  show l: "content_length (set_header n v r) = content_length r" using assms by (auto simp: content_length_def)
  then show i: "range_info (set_header n v r) = range_info r"
    using assms by (auto simp: range_info_def cong: option.case_cong)
  have a: "dict_get (headers (set_header n v r)) ''accept-ranges'' [] = dict_get (headers r) ''accept-ranges'' []"
    using assms by auto
  show "video_decision e d t (set_header n v r) = video_decision e d t r"
    unfolding video_decision_def l i a header_after(4) by (rule refl)
qed

lemma turn_after [simp]:
  "rq (on_answer f t) = rq t" "px (on_answer f t) = px t" "fl_uid (on_answer f t) = fl_uid t"
  "level_of_turn (on_answer f t) = level_of_turn t" "is_image (on_answer f t) r = is_image t r"
  "is_video (on_answer f t) r = is_video t r"
  "answer (on_answer f t) = map_option f (answer t)" "clean_urls (on_answer f t) = clean_urls t"
  "page_levels (on_answer f t) = page_levels t" "fl_pictures (on_answer f t) = fl_pictures t"
  "blocked_categories_of_host e (on_answer f t) h = blocked_categories_of_host e t h"
  by (simp_all add: on_answer_def level_of_turn_def is_image_def is_video_def blocked_categories_of_host_def blocks_def)

lemma decision_of_turn [simp]: "video_decision e d (on_answer f t) r = video_decision e d t r"
  unfolding video_decision_def turn_after by (rule refl)

lemma not_both: "is_image t r \<Longrightarrow> \<not> is_video t r"
  by (auto simp: is_image_def is_video_def starts_any_prefix starts_with_def OCTET_TYPES_def VIDEO_TYPES_def
      PLAYLIST_TYPES_def IMAGE_EXTENSIONS_def VIDEO_EXTENSIONS_def prefix_def)

section \<open>Clips\<close>

text \<open>A clip that is fetched in pieces or is too large to hold; and one whose source can be asked for samples.\<close>

definition in_pieces :: "response \<Rightarrow> bool" where
  "in_pieces r \<longleftrightarrow> fst (range_info r) > 0 \<or>
     (case snd (range_info r) of Some n \<Rightarrow> n > VIDEO_MAX_BYTES
      | None \<Rightarrow> (case content_length r of Some n \<Rightarrow> n > VIDEO_MAX_BYTES | None \<Rightarrow> False))"

definition sampleable :: "response \<Rightarrow> bool" where
  "sampleable r \<longleftrightarrow> (snd (range_info r) \<noteq> None \<or> content_length r \<noteq> None)
     \<and> (status r = 206 \<or> sublist ''bytes'' (lower (dict_get (headers r) ''accept-ranges'' [])))"

definition judgeable :: "env \<Rightarrow> detector \<Rightarrow> turn \<Rightarrow> bool" where
  "judgeable e d t \<longleftrightarrow> level_of_turn t \<noteq> ''none'' \<and> blocked_categories_of_host e t (rq_host (rq t)) = {}
     \<and> level_of_turn t \<in> set VIDEO_CHECKED_LEVELS \<and> checker_available d"

text \<open>What is known of a clip when its answer has to be let through or not.\<close>

definition clip_seen :: "detector \<Rightarrow> turn \<Rightarrow> response \<Rightarrow> judgement option" where
  "clip_seen d t r =
     (let url = rq_url (rq t); whole_size = snd (range_info r) in
      if \<not> checker_available d then None
      else case cached_clip d url whole_size of Some w \<Rightarrow> Some w
      | None \<Rightarrow> if \<not> in_pieces r then clip_verdict d url whole_size
                else if sampleable r then sampled_clip d url whole_size else None)"

lemma video_decision_judgeable:
  assumes "judgeable e d t"
  shows "video_decision e d t r =
    (case cached_clip d (rq_url (rq t)) (snd (range_info r)) of
       Some v \<Rightarrow> if hides (level_of_turn t) v then ''refuse'' else ''stream''
     | None \<Rightarrow> if \<not> in_pieces r then ''hold'' else if sampleable r then ''sample''
               else if level_of_turn t \<in> set VIDEO_STRICT_LEVELS then ''refuse'' else ''stream'')"
  using assms
  by (cases "range_info r"; cases "snd (range_info r)")
     (simp_all add: video_decision_def judgeable_def in_pieces_def sampleable_def Let_def cong: option.case_cong)

lemma video_decision_settled:
  assumes "\<not> judgeable e d t"
  shows "video_decision e d t r =
    (if level_of_turn t = ''none'' then ''stream''
     else if blocked_categories_of_host e t (rq_host (rq t)) \<noteq> {} \<or> level_of_turn t \<notin> set VIDEO_CHECKED_LEVELS
       \<or> level_of_turn t \<in> set VIDEO_STRICT_LEVELS then ''refuse'' else ''stream'')"
  using assms
  by (cases "level_of_turn t = ''none''"; cases "level_of_turn t \<in> set VIDEO_CHECKED_LEVELS"; cases "checker_available d")
     (simp_all add: video_decision_def judgeable_def Let_def)

lemma video_decision_values: "video_decision e d t r \<in> {''stream'', ''refuse'', ''sample'', ''hold''}"
  by (cases "judgeable e d t"; cases "cached_clip d (rq_url (rq t)) (snd (range_info r))")
     (simp_all add: video_decision_judgeable video_decision_settled)

text \<open>The three ways a clip passes: unheld, sampled through its source, or held and judged.\<close>

definition settles :: "string \<Rightarrow> judgement option \<Rightarrow> bool" where
  "settles level v \<longleftrightarrow> (case v of None \<Rightarrow> level \<notin> set VIDEO_STRICT_LEVELS | Some w \<Rightarrow> \<not> hides level w)"

lemma video_decision_passes:
  "video_decision e d t r = ''stream''
   \<or> video_decision e d t r = ''sample'' \<and> settles (level_of_turn t) (sampled_clip d (rq_url (rq t)) (snd (range_info r)))
   \<or> video_decision e d t r = ''hold'' \<and> settles (level_of_turn t) (clip_verdict d (rq_url (rq t)) (snd (range_info r)))
   \<longleftrightarrow> level_of_turn t = ''none''
   \<or> blocked_categories_of_host e t (rq_host (rq t)) = {} \<and> level_of_turn t \<in> set VIDEO_CHECKED_LEVELS
     \<and> settles (level_of_turn t) (clip_seen d t r)"
proof (cases "judgeable e d t")
  case True
  then have j: "level_of_turn t \<noteq> ''none''" "blocked_categories_of_host e t (rq_host (rq t)) = {}"
    "level_of_turn t \<in> set VIDEO_CHECKED_LEVELS" "checker_available d"
    by (simp_all add: judgeable_def)
  show ?thesis
    by (cases "cached_clip d (rq_url (rq t)) (snd (range_info r))"; cases "in_pieces r"; cases "sampleable r")
       (simp_all add: video_decision_judgeable [OF True] j clip_seen_def settles_def)
next
  case False
  then show ?thesis
    by (auto simp: video_decision_settled judgeable_def clip_seen_def settles_def)
qed

lemma clip_settled:
  assumes "answer t = Some r" "body r = Raw s" "s \<noteq> []" "streaming r = Held" "fl_uid t = Some i"
    and "is_video t r" "\<not> is_playlist r"
  shows "passes s (response_hook e d (on_headers e d t r)) \<longleftrightarrow>
    video_decision e d t r = ''stream''
    \<or> video_decision e d t r = ''sample'' \<and> settles (level_of_turn t) (sampled_clip d (rq_url (rq t)) (snd (range_info r)))
    \<or> video_decision e d t r = ''hold'' \<and> settles (level_of_turn t) (clip_verdict d (rq_url (rq t)) (snd (range_info r)))"
proof -
  have p: "\<not> starts_any (content_type r) PLAYLIST_TYPES" using assms(7) by (simp add: is_playlist_def)
  have i: "\<not> is_image t r" using not_both assms(6) by blast
  note f = p i assms assms(3) [symmetric] on_headers_def response_hook_def passes_def Let_def refuse_video_def stream_answer_def
    settle_before_body_def make_response_def settles_def
  have "video_decision e d t r = ''stream'' \<or> video_decision e d t r = ''refuse''
      \<or> video_decision e d t r = ''sample'' \<or> video_decision e d t r = ''hold''"
    using video_decision_values [of e d t r] by simp
  then consider "video_decision e d t r = ''stream''" | "video_decision e d t r = ''refuse''"
    | "video_decision e d t r = ''sample''" | "video_decision e d t r = ''hold''" by blast
  then show ?thesis
  proof cases
    case 3
    then show ?thesis by (cases "sampled_clip d (rq_url (rq t)) (snd (range_info r))") (simp_all add: f)
  next
    case 4
    then show ?thesis
      by (cases "clip_verdict d (rq_url (rq t)) (snd (range_info r))") (simp_all add: f filter_video_def video_settle_def)
  qed (simp_all add: f)
qed

text \<open>
  Property C29: a clip from an account's filtered web plays if and only if the account has no picture level, or
  its site is in none of the account's blocked categories, clips can be judged at the level, and what is
  known of the clip (a remembered verdict, the judgement of the whole clip, or of samples fetched from
  its source when it comes in pieces or is too large) does not hide it.  A clip nothing is known of
  plays at the mildest level and at no other.
\<close>

theorem clip_plays_exactly:
  assumes "answer t = Some r" "body r = Raw s" "s \<noteq> []" "streaming r = Held" "fl_uid t = Some i" "\<not> fl_bypass t"
    and "is_video t r" "\<not> is_playlist r"
  shows "passes s (answered e d t) \<longleftrightarrow>
    level_of_turn t = ''none''
    \<or> blocked_categories_of_host e t (rq_host (rq t)) = {} \<and> level_of_turn t \<in> set VIDEO_CHECKED_LEVELS
      \<and> settles (level_of_turn t) (clip_seen d t r)"
proof -
  let ?f = "set_header ''referrer-policy'' PICTURES_REFERRER_POLICY"
  have "passes s (answered e d t) \<longleftrightarrow> passes s (response_hook e d (on_headers e d t r))"
  proof (cases "fl_pictures_page t")
    case True
    have "answered e d t = response_hook e d (on_headers e d (on_answer ?f t) (?f r))"
      using assms(1,5,6) True by (simp add: answered_def responseheaders_hook_def)
    moreover have "range_info (?f r) = range_info r" by simp
    ultimately show ?thesis
      using clip_settled [of "on_answer ?f t" "?f r" s i e d] clip_settled [of t r s i e d] assms
      by simp
  next
    case False
    then show ?thesis using assms(1,5,6) by (simp add: answered_def responseheaders_hook_def)
  qed
  then show ?thesis
    by (simp only: clip_settled [OF assms(1-5,7,8)] video_decision_passes)
qed

section \<open>Pictures\<close>

definition immodest_source :: "env \<Rightarrow> turn \<Rightarrow> split_url \<Rightarrow> bool" where
  "immodest_source e t u \<longleftrightarrow>
     (\<exists>h \<in> {rq_host (rq t), url_host u}. h \<noteq> []
        \<and> categories_of (lists e) h \<inter> set (dict_get IMMODEST_SOURCES (level_of_turn t) []) \<noteq> {})"

definition person_in_search :: "turn \<Rightarrow> judgement \<Rightarrow> bool" where
  "person_in_search t w \<longleftrightarrow>
     level_of_turn t \<in> {''immodest'', ''suggestive'', ''people''} \<and> v_person w \<and> is_search_thumb (rq_host (rq t))"

definition picture_shown :: "env \<Rightarrow> detector \<Rightarrow> turn \<Rightarrow> split_url \<Rightarrow> bool" where
  "picture_shown e d t u \<longleftrightarrow> level_of_turn t \<noteq> ''all''
     \<and> (picture_bytes d < MIN_IMAGE_BYTES
        \<or> blocked_categories_of_host e t (rq_host (rq t)) = {} \<and> \<not> immodest_source e t u
          \<and> (\<exists>w. picture_verdict d = Some w \<and> \<not> person_in_search t w \<and> \<not> hides (level_of_turn t) w
               \<and> \<not> in_context w (referring_page_level t) (dict_get CONTENT_TOLERANCE (level_of_turn t) ''nsfw'')))"

lemma hidden [simp]: "answer t = Some r \<Longrightarrow> \<not> passes s (blank_image t)"
  by (simp add: passes_def blank_image_def on_answer_def picture_headers_def)

lemma covered [simp]: "answer t = Some r \<Longrightarrow> \<not> passes s (apply_cover d v t)"
  by (simp add: apply_cover_def) (simp add: passes_def on_answer_def picture_headers_def)

lemma image_prejudge_result:
  assumes "urlsplit (req_header (rq t) ''referer'') = Inr u"
  shows "image_prejudge e d (level_of_turn t) t =
    (if level_of_turn t = ''all'' then (True, blank_image t)
     else if picture_bytes d < MIN_IMAGE_BYTES then (True, t)
     else if blocked_categories_of_host e t (rq_host (rq t)) \<noteq> {} \<or> immodest_source e t u then (True, blank_image t)
     else (False, t))"
  using assms
  by (cases "map_of IMMODEST_SOURCES (level_of_turn t)")
     (auto simp: image_prejudge_def immodest_source_def dict_get_def Let_def)

lemma image_settle_result:
  assumes "answer t = Some r" "body r = Raw s" "streaming r = Held" "picture_verdict d = v"
  shows "passes s (case image_settle e d (level_of_turn t) v t of (settled, t) \<Rightarrow> if settled then t else apply_cover d v t)
    \<longleftrightarrow> (\<exists>w. v = Some w \<and> \<not> person_in_search t w \<and> \<not> hides (level_of_turn t) w
         \<and> \<not> in_context w (referring_page_level t) (dict_get CONTENT_TOLERANCE (level_of_turn t) ''nsfw''))"
proof (cases v)
  case (Some w)
  have "passes s (remember_clean e l t)" for l
    using assms by (simp add: passes_def remember_clean_def Let_def)
  moreover have "person_in_search t w \<longleftrightarrow> level_of_turn t \<in> {''immodest'', ''suggestive'', ''people''} \<and> v_person w
      \<and> is_search_thumb (rq_host (rq t))" by (simp add: person_in_search_def)
  ultimately show ?thesis using assms(1) by (auto simp: image_settle_def Some)
qed (use assms(1) in \<open>simp add: image_settle_def\<close>)

lemma picture_filtered:
  assumes "answer t = Some r" "body r = Raw s" "streaming r = Held" "urlsplit (req_header (rq t) ''referer'') = Inr u"
  shows "passes s (filter_image e d t) \<longleftrightarrow> level_of_turn t = ''none'' \<or> picture_shown e d t u"
proof -
  have t: "passes s t" using assms by (simp add: passes_def)
  show ?thesis
    using t image_settle_result [OF assms(1-3) refl, where e = e and d = d] assms(1)
    by (simp add: filter_image_def image_prejudge_result [OF assms(4)] picture_shown_def Let_def)
qed

lemma picture_shown_memory [simp]:
  "picture_shown e d (t\<lparr>clean_urls := m\<rparr>) u = picture_shown e d t u"
  "picture_shown e d (on_answer f t) u = picture_shown e d t u"
  "level_of_turn (t\<lparr>clean_urls := m\<rparr>) = level_of_turn t" "is_image (t\<lparr>clean_urls := m\<rparr>) r = is_image t r"
  by (simp_all add: picture_shown_def immodest_source_def person_in_search_def referring_page_level_def
      level_of_turn_def is_image_def blocked_categories_of_host_def blocks_def)

lemma recently_clean_after [simp]: "fst (recently_clean e l (on_answer f t)) = fst (recently_clean e l t)"
  by (simp add: recently_clean_def Let_def split: option.split)

lemma recently_clean_turn: "\<exists>m. snd (recently_clean e l t) = t\<lparr>clean_urls := m\<rparr>"
  by (auto simp: recently_clean_def Let_def split: option.split intro: exI [of _ "clean_urls t"])

lemma picture_headers:
  assumes "answer t = Some r" "body r = Raw s" "streaming r = Held" "fl_uid t = Some i"
    and "is_image t r" "\<not> is_moving_thumbnail (rq t)" "urlsplit (req_header (rq t) ''referer'') = Inr u"
  shows "passes s (response_hook e d (on_headers e d t r)) \<longleftrightarrow>
    level_of_turn t = ''none'' \<or> fl_pictures t \<or> fst (recently_clean e (level_of_turn t) t) \<or> picture_shown e d t u"
proof -
  have v: "\<not> is_video t r" using not_both assms(5) by blast
  then have p: "\<not> starts_any (content_type r) PLAYLIST_TYPES"
    by (auto simp: is_video_def VIDEO_TYPES_def starts_any_def)
  obtain b m where c: "recently_clean e (level_of_turn t) t = (b, t\<lparr>clean_urls := m\<rparr>)"
    using recently_clean_turn [of e "level_of_turn t" t] by (metis prod.collapse)
  have s: "passes s (response_hook e d (stream_answer t'))" if "answer t' = Some r" for t'
    using that assms(2,4) by (simp add: stream_answer_def response_hook_def passes_def)
  have f: "passes s (response_hook e d (t\<lparr>clean_urls := m\<rparr>)) \<longleftrightarrow> level_of_turn t = ''none'' \<or> picture_shown e d t u"
    using picture_filtered [of "t\<lparr>clean_urls := m\<rparr>" r s u, where e = e and d = d] assms
    by (simp add: response_hook_def youtube_preview_refused_def)
  show ?thesis
    using assms(1,5,6) by (simp add: on_headers_def p v c s f Let_def)
qed

text \<open>
  Property C30: a picture from an account's filtered web is shown as it came if and only if the account has
  no picture level; an administrator's rule allows the pictures of its page; its address was judged clean at
  this level less than a quarter of an hour ago; or the level is not the one without pictures and the
  picture is too small to matter, or its site and the site of its page are none the account or the
  level refuses and the detector looked at it and found nothing that hides it, no person on a thumbnail
  of a search at the modest levels, and none on a page that reads worse than the level bears.
\<close>

theorem picture_shown_exactly:
  assumes "answer t = Some r" "body r = Raw s" "streaming r = Held" "fl_uid t = Some i" "\<not> fl_bypass t"
    and "is_image t r" "\<not> is_moving_thumbnail (rq t)" "urlsplit (req_header (rq t) ''referer'') = Inr u"
  shows "passes s (answered e d t) \<longleftrightarrow>
    level_of_turn t = ''none'' \<or> fl_pictures t \<or> fst (recently_clean e (level_of_turn t) t) \<or> picture_shown e d t u"
proof -
  let ?f = "set_header ''referrer-policy'' PICTURES_REFERRER_POLICY"
  show ?thesis
    using assms picture_headers [of t r s i u, where e = e and d = d]
      picture_headers [of "on_answer ?f t" "?f r" s i u, where e = e and d = d]
    by (cases "fl_pictures_page t") (simp_all add: answered_def responseheaders_hook_def)
qed

section \<open>What is offered under a search box\<close>

lemma inside_entries:
  assumes "inside k (prune_entries p n v) (JList ys)" "n + k \<le> MAX_DEPTH"
  shows "\<exists>xs. inside k v (JList xs)
    \<and> ys = map (prune_entries p (n + k + 1)) (filter (\<lambda>x. \<not> blocked_entry p x) xs)"
  using assms
proof (induction k arbitrary: n v)
  case 0
  then show ?case by (cases v) (auto simp: inside_zero split: if_splits intro: inside.intros)
next
  case (Suc k)
  then have n: "n \<le> MAX_DEPTH" "n + 1 + k \<le> MAX_DEPTH" by simp_all
  obtain x where x: "inside k (prune_entries p (n + 1) x) (JList ys)"
    and up: "\<And>u. inside k x u \<Longrightarrow> inside (Suc k) v u"
  proof (cases v)
    case (JObj d)
    with Suc.prems(1) n(1) obtain q x where "(q, x) \<in> set d" "inside k (prune_entries p (n + 1) x) (JList ys)"
      by (auto elim!: inside_objE)
    with that [of x] show thesis by (auto simp: JObj intro: inside.under_key)
  next
    case (JList xs)
    with Suc.prems(1) n(1) obtain x where "x \<in> set xs" "inside k (prune_entries p (n + 1) x) (JList ys)"
      by (auto elim!: inside_listE)
    with that [of x] show thesis by (auto simp: JList intro: inside.in_list)
  qed (use Suc.prems in \<open>auto simp: inside_leaf\<close>)
  from Suc.IH [OF x n(2)] show ?case using up by fastforce
qed

text \<open>
  Property C32: what a shop's search box offers to finish a word with.  For an account that blocks immodest
  sites the answer is left alone or replaced by one in which every list, down to the depth the filter
  walks, is a list of the answer that came, in its order, without exactly the entries whose words are
  blocked: by the list of searches, by a department's term, or by reading as badly as the account's
  tolerance.  It is left alone only if nothing was to go.
\<close>

theorem suggestions_left_exactly:
  assumes "answer t = Some r" "body r = Raw s" "s \<noteq> []" "length s \<le> MAX_BYTES" "json_loads e s = Some v"
    and "blocks t GATING_CATEGORY"
  shows "(\<exists>r'. answer (filter_suggestions e t) = Some r'
      \<and> (if json_eq (prune_entries (is_blocked_suggestion e t) 0 v) v then r' = r
         else body r' = Document_body (prune_entries (is_blocked_suggestion e t) 0 v)))
    \<and> (\<forall>n ys. inside n (prune_entries (is_blocked_suggestion e t) 0 v) (JList ys) \<longrightarrow> n \<le> MAX_DEPTH \<longrightarrow>
        (\<exists>xs. inside n v (JList xs)
           \<and> ys = map (prune_entries (is_blocked_suggestion e t) (n + 1))
                    (filter (\<lambda>x. \<not> blocked_entry (is_blocked_suggestion e t) x) xs)))"
proof -
  let ?p = "prune_entries (is_blocked_suggestion e t) 0 v"
  have "\<exists>r'. answer (filter_suggestions e t) = Some r'
      \<and> (if json_eq ?p v then r' = r else body r' = Document_body ?p)"
    using assms
    by (auto simp: filter_suggestions_def filter_json_def text_of_response_def put_answer_def json_answer_def Let_def)
  moreover have "\<exists>xs. inside n v (JList xs)
           \<and> ys = map (prune_entries (is_blocked_suggestion e t) (n + 1))
                    (filter (\<lambda>x. \<not> blocked_entry (is_blocked_suggestion e t) x) xs)"
    if "inside n ?p (JList ys)" "n \<le> MAX_DEPTH" for n ys
    using inside_entries [OF that(1)] that(2) by simp
  ultimately show ?thesis by blast
qed

section \<open>Examples\<close>

definition served :: "string \<Rightarrow> string \<Rightarrow> string \<Rightarrow> turn" where
  "served host ct s = put_answer (make_response 200 (Raw s) [(''content-type'', ct)]) (visit host)"

definition seeing :: "string \<Rightarrow> detector" where
  "seeing level =
     \<lparr>checker_available = True, cached_clip = (\<lambda>_ _. None), sampled_clip = (\<lambda>_ _. None),
      clip_verdict = (\<lambda>_ _. Some \<lparr>v_level = level, v_person = True\<rparr>),
      picture_verdict = Some \<lparr>v_level = level, v_person = True\<rparr>, picture_bytes = 9000, picture_animated = False,
      cover_dominant = False, cover_made = True, cover_type = ''image/png''\<rparr>"

lemma served_facts:
  "answer (served h ct s) = Some (make_response 200 (Raw s) [(''content-type'', ct)])" "rq (served h ct s) = rq (visit h)"
  "fl_uid (served h ct s) = Some 1001" "\<not> fl_bypass (served h ct s)" "level_of_turn (served h ct s) = ''immodest''"
  "\<not> fl_pictures (served h ct s)" "clean_urls (served h ct s) = []" "page_levels (served h ct s) = []"
  "blocked_categories_of_host e (served h ct s) g = blocked_categories_of_host e (visit h) g"
  by (simp_all add: served_def put_answer_def visit_def example_turn_def level_of_turn_def media_level_for_def
      for_uid_def is_known_def empty_cache_def setting_def blocked_categories_of_host_def blocks_def
      blocked_categories_for_def system_allowed_for_def)

lemma served_floor:
  "blocked_categories_of_host example_env (served h ct s) ''news.example'' = {}"
proof -
  have "categories_of (lists example_env) ''news.example'' = {}" by code_simp
  then show ?thesis
    by (simp only: served_facts blocked_categories_of_host_def visit_floor no_names if_False) simp
qed

lemma clip_plays_exactly_witness:
  "passes ''clip'' (answered example_env (seeing ''clean'') (served ''news.example'' ''video/mp4'' ''clip''))
   \<and> \<not> passes ''clip'' (answered example_env (seeing ''nsfw'') (served ''news.example'' ''video/mp4'' ''clip''))"
proof -
  let ?r = "make_response 200 (Raw ''clip'') [(''content-type'', ''video/mp4'')]"
  let ?t = "served ''news.example'' ''video/mp4'' ''clip''"
  have r: "body ?r = Raw ''clip''" "''clip'' \<noteq> []" "streaming ?r = Held" by (simp_all add: make_response_def)
  have ct: "content_type ?r = ''video/mp4''"
    by (simp add: content_type_def make_response_def dict_get_def lower_def lower_char_def)
  have v: "is_video ?t ?r" by (simp add: is_video_def ct starts_any_def VIDEO_TYPES_def starts_with_def)
  have p: "\<not> is_playlist ?r" by (simp add: is_playlist_def ct starts_any_def PLAYLIST_TYPES_def starts_with_def)
  have i: "content_length ?r = None" "range_info ?r = (0, None)" by code_simp+
  have c: "clip_seen (seeing l) ?t ?r = Some \<lparr>v_level = l, v_person = True\<rparr>" for l
    by (simp add: clip_seen_def in_pieces_def i seeing_def)
  have "\<not> hides ''immodest'' \<lparr>v_level = ''clean'', v_person = True\<rparr>"
    "hides ''immodest'' \<lparr>v_level = ''nsfw'', v_person = True\<rparr>" by code_simp+
  then show ?thesis
    using clip_plays_exactly [OF served_facts(1) r served_facts(3,4) v p, of example_env]
    by (simp add: served_facts(2,5) visit_facts(7) served_floor VIDEO_CHECKED_LEVELS_def settles_def c)
qed

lemma picture_shown_exactly_witness:
  "passes ''picture'' (answered example_env (seeing ''clean'') (served ''news.example'' ''image/png'' ''picture''))
   \<and> \<not> passes ''picture'' (answered example_env (seeing ''nsfw'') (served ''news.example'' ''image/png'' ''picture''))"
proof -
  let ?r = "make_response 200 (Raw ''picture'') [(''content-type'', ''image/png'')]"
  let ?t = "served ''news.example'' ''image/png'' ''picture''"
  let ?u = "\<lparr>url_host = [], url_path = [], url_query = []\<rparr>"
  have r: "body ?r = Raw ''picture''" "streaming ?r = Held" by (simp_all add: make_response_def)
  have "content_type ?r = ''image/png''"
    by (simp add: content_type_def make_response_def dict_get_def lower_def lower_char_def)
  then have v: "is_image ?t ?r" by (simp add: is_image_def starts_with_def)
  have s: "\<not> is_search_thumb ''news.example''" by code_simp
  then have m: "\<not> is_moving_thumbnail (rq ?t)" by (simp add: is_moving_thumbnail_def served_facts(2) visit_facts(7))
  have "urlsplit [] = Inr ?u" by code_simp
  then have u: "urlsplit (req_header (rq ?t) ''referer'') = Inr ?u" by (simp add: served_facts(2) visit_facts(10))
  have c: "categories_of (lists example_env) ''news.example'' = {}" by code_simp
  have h: "\<not> hides ''immodest'' \<lparr>v_level = ''clean'', v_person = True\<rparr>"
    "hides ''immodest'' \<lparr>v_level = ''nsfw'', v_person = True\<rparr>" by code_simp+
  have x: "\<not> in_context w [] l" for w l by (simp add: in_context_def)
  have n: "\<not> fst (recently_clean example_env l ?t)" for l by (simp add: recently_clean_def served_facts(7) Let_def)
  have "picture_shown example_env (seeing l) ?t ?u \<longleftrightarrow> \<not> hides ''immodest'' \<lparr>v_level = l, v_person = True\<rparr>" for l
    by (simp add: picture_shown_def served_facts(2,5,8) visit_facts(7,10) served_floor immodest_source_def c
        person_in_search_def s referring_page_level_def dict_get_def x seeing_def MIN_IMAGE_BYTES_def)
  then show ?thesis
    using picture_shown_exactly [OF served_facts(1) r served_facts(3,4) v m u, of example_env] h
    by (simp add: served_facts(5,6) n)
qed

definition shop_env :: env where
  "shop_env = example_env\<lparr>json_loads := (\<lambda>_. Some (JList [JStr ''lingerie'', JStr ''linen'']))\<rparr>"

definition shopper :: turn where
  "shopper =
     (let t = served ''shop.example'' ''application/json'' ''[...]'' in
      t\<lparr>px := (px t)\<lparr>px_rules := [(1001, [])], px_blocked := [(1001, [JStr ''immodest''])]\<rparr>\<rparr>)"

lemma suggestions_left_exactly_witness:
  "\<exists>r. answer (filter_suggestions shop_env shopper) = Some r \<and> body r = Document_body (JList [JStr ''linen''])"
proof -
  let ?r = "make_response 200 (Raw ''[...]'') [(''content-type'', ''application/json'')]"
  let ?p = "is_blocked_suggestion shop_env shopper"
  have a: "answer shopper = Some ?r" by (simp add: shopper_def served_facts Let_def)
  have r: "body ?r = Raw ''[...]''" "''[...]'' \<noteq> []" "length ''[...]'' \<le> MAX_BYTES"
    by (simp_all add: make_response_def MAX_BYTES_def)
  have j: "json_loads shop_env ''[...]'' = Some (JList [JStr ''lingerie'', JStr ''linen''])" by (simp add: shop_env_def)
  have b: "blocks shopper GATING_CATEGORY"
    by (simp add: shopper_def blocks_def blocked_categories_for_def for_uid_def is_known_def served_def put_answer_def
        visit_def Let_def dict_get_def GATING_CATEGORY_def)
  have "?p ''lingerie''" "\<not> ?p ''linen''" by code_simp+
  then have e: "blocked_entry ?p (JStr ''lingerie'')" "\<not> blocked_entry ?p (JStr ''linen'')"
    by (simp_all add: blocked_entry_def)
  have p: "prune_entries ?p 0 (JList [JStr ''lingerie'', JStr ''linen'']) = JList [JStr ''linen'']" by (simp add: e)
  have "\<not> json_eq (JList [JStr ''linen'']) (JList [JStr ''lingerie'', JStr ''linen''])" by code_simp
  then show ?thesis using conjunct1 [OF suggestions_left_exactly [OF a r j b]] unfolding p by auto
qed

end
