(* ===== verification/AiText.thy ===== *)
theory AiText
  imports ProxyAnswers
begin

text \<open>
  What a generated answer may say and show: \<open>ai_text.py\<close>, \<open>ai_images.py\<close> and \<open>ai_json.py\<close> under
  \<open>kosherd/src/kosherd\<close>.  Text is kept as its UTF-8 bytes, so that a length counts bytes where the code counts characters (the same for ASCII); the word list, the scorer, the detector of pictures, base64,
  the JSON parser and printers, \<open>str()\<close>, what decodes as UTF-8 and decoding with replacements are the fields of \<open>ai_filters\<close>.  An error is the reason of the refusal,
  the word \<open>OutputBlocked\<close> carries for the activity log; \<open>wrong_type\<close> is the one exception that is no refusal.
\<close>

section \<open>Plain text\<close>

record ai_filters =
  ai_language :: string
  ai_tolerance :: "string option"
  word_listed :: "string \<Rightarrow> bool"
  word_clean :: "string \<Rightarrow> string"
  word_terms :: "string list"
  score_terms :: "string list"
  text_score :: "string \<Rightarrow> string"
  image_level :: string
  image_judge :: "string \<Rightarrow> judgement option"
  b64_decode :: "string \<Rightarrow> string option"
  ai_loads :: "string \<Rightarrow> json option"
  ai_dumps :: "json \<Rightarrow> string"
  ai_dumps_spaced :: "json \<Rightarrow> string"
  ai_repr :: "json \<Rightarrow> string"
  ai_utf8 :: "string \<Rightarrow> bool"
  ai_lossy :: "string \<Rightarrow> string"

definition MAX_TEXT_CHARS :: nat where "MAX_TEXT_CHARS = 1000000"

definition protocol :: string where "protocol = ''protocol''"

definition lookahead :: "ai_filters \<Rightarrow> nat" where
  "lookahead f = max 256 (fold max (map length (word_terms f @ score_terms f)) 0 * 8 + 64)"

definition text_check :: "ai_filters \<Rightarrow> string \<Rightarrow> string result" where
  "text_check f s =
     (if length s > MAX_TEXT_CHARS then Inl protocol
      else if ai_language f = ''block'' \<and> word_listed f s then Inl ''language''
      else if (case ai_tolerance f of None \<Rightarrow> False | Some l \<Rightarrow> at_least (text_score f s) l) then Inl ''content''
      else if ai_language f = ''substitute'' then Inr (word_clean f s)
      else Inr s)"

text \<open>Up to and with the last space.\<close>

definition upto_space :: "string \<Rightarrow> string" where
  "upto_space s = rev (dropWhile (\<lambda>c. c \<noteq> CHR '' '') (rev s))"

definition withhold :: "ai_filters \<Rightarrow> string \<Rightarrow> string" where
  "withhold f s = upto_space (take (length s - lookahead f) s)"

section \<open>Streamed text\<close>

text \<open>\<open>g\<close> is the check of the whole text so far: of the plain text, or of text with inline pictures.\<close>

record text_stream =
  ts_raw :: string
  ts_released :: string

definition new_stream :: text_stream where "new_stream = \<lparr>ts_raw = [], ts_released = []\<rparr>"

definition push :: "ai_filters \<Rightarrow> (string \<Rightarrow> string result) \<Rightarrow> string \<Rightarrow> text_stream \<Rightarrow> (string \<times> text_stream) result" where
  "push f g text ts =
     (case g (ts_raw ts @ text) of
        Inl x \<Rightarrow> Inl x
      | Inr cleaned \<Rightarrow>
          let old = ts_released ts; new = upto_space (drop (length old) (take (length cleaned - lookahead f) cleaned)) in
          if \<not> starts_with cleaned old then Inl protocol
          else Inr (new, ts\<lparr>ts_raw := ts_raw ts @ text, ts_released := old @ new\<rparr>))"

definition finish :: "(string \<Rightarrow> string result) \<Rightarrow> text_stream \<Rightarrow> (string \<times> text_stream) result" where
  "finish g ts =
     (case g (ts_raw ts) of
        Inl x \<Rightarrow> Inl x
      | Inr cleaned \<Rightarrow>
          if \<not> starts_with cleaned (ts_released ts) then Inl protocol
          else Inr (drop (length (ts_released ts)) cleaned, ts\<lparr>ts_released := cleaned\<rparr>))"

section \<open>Pictures in an answer\<close>

definition MAX_IMAGE_BYTES :: nat where "MAX_IMAGE_BYTES = 12 * 1024 * 1024"
definition BLANK_IMAGE :: string where
  "BLANK_IMAGE = ''iVBORw0KGgoAAAANSUhEUgAAAAEAAAABCAYAAAAfFcSJAAAADUlEQVR42mP8z8BQDwAEhQGAhKmMIQAAAABJRU5ErkJggg==''"

definition image_base64 :: "ai_filters \<Rightarrow> string \<Rightarrow> string result" where
  "image_base64 f encoded =
     (if image_level f = ''none'' then Inr encoded
      else if image_level f = ''all'' then Inr BLANK_IMAGE
      else if length encoded > MAX_IMAGE_BYTES * 4 div 3 + 4 then Inl protocol
      else (case b64_decode f encoded of None \<Rightarrow> Inl protocol
            | Some decoded \<Rightarrow>
              (case image_judge f decoded of None \<Rightarrow> Inr BLANK_IMAGE
               | Some v \<Rightarrow> Inr (if hides (image_level f) v then BLANK_IMAGE else encoded))))"

definition image_data_uri :: "ai_filters \<Rightarrow> string \<Rightarrow> string result" where
  "image_data_uri f uri =
     (if CHR '','' \<notin> set uri \<or> \<not> ends_with (lower (before CHR '','' uri)) '';base64'' then Inl protocol
      else (case image_base64 f (after CHR '','' uri) of
              Inl x \<Rightarrow> Inl x
            | Inr filtered \<Rightarrow> Inr (if filtered = BLANK_IMAGE then ''data:image/png;base64,'' @ filtered else uri)))"

text \<open>\<open>DATA_IMAGE\<close> at the start of a text: how long its match is.\<close>

definition image_mark :: string where "image_mark = ''data:image/''"

definition data_image_at :: "string \<Rightarrow> nat option" where
  "data_image_at s =
     (let a = takeWhile (\<lambda>c. \<not> is_space c \<and> c \<notin> {CHR 0x22, CHR 0x27, CHR ''<'', CHR ''>'', CHR '')'', CHR '',''})
                (drop (length image_mark) s);
          s2 = drop (length image_mark + length a) s;
          b = takeWhile (\<lambda>c. alphanumeric c \<or> c \<in> {CHR ''+'', CHR ''/'', CHR ''=''}) (drop 1 s2) in
      if prefix_nocase image_mark s \<and> a \<noteq> [] \<and> starts_with s2 '','' \<and> b \<noteq> []
      then Some (length image_mark + length a + 1 + length b) else None)"

lemma data_image_at_pos:
  assumes "data_image_at s = Some n" shows "0 < n" "s \<noteq> []"
  using assms by (auto simp: data_image_at_def image_mark_def prefix_nocase_def Let_def split: if_splits)

function sub_images :: "(string \<Rightarrow> string result) \<Rightarrow> string \<Rightarrow> string result" where
  "sub_images g s =
     (case data_image_at s of
        Some n \<Rightarrow> (case g (take n s) of Inl x \<Rightarrow> Inl x
                 | Inr r \<Rightarrow> (case sub_images g (drop n s) of Inl x \<Rightarrow> Inl x | Inr rest \<Rightarrow> Inr (r @ rest)))
      | None \<Rightarrow> (case s of [] \<Rightarrow> Inr []
               | c # cs \<Rightarrow> (case sub_images g cs of Inl x \<Rightarrow> Inl x | Inr rest \<Rightarrow> Inr (c # rest))))"
  by pat_completeness auto
termination
  by (relation "measure (\<lambda>(g, s). length s)") (auto intro!: diff_less dest: data_image_at_pos)

function count_images :: "string \<Rightarrow> nat" where
  "count_images s =
     (case data_image_at s of
        Some n \<Rightarrow> Suc (count_images (drop n s))
      | None \<Rightarrow> (case s of [] \<Rightarrow> 0 | c # cs \<Rightarrow> count_images cs))"
  by pat_completeness auto
termination
  by (relation "measure length") (auto intro!: diff_less dest: data_image_at_pos)

declare sub_images.simps [simp del] count_images.simps [simp del]

fun count_marks :: "string \<Rightarrow> nat" where
  "count_marks [] = 0"
| "count_marks (c # s) = (if prefix_nocase image_mark (c # s) then 1 else 0) + count_marks s"

definition ai_string :: "ai_filters \<Rightarrow> string \<Rightarrow> string result" where
  "ai_string f s =
     (if count_marks s \<noteq> count_images s then Inl ''image''
      else (case sub_images (image_data_uri f) s of Inl x \<Rightarrow> Inl x | Inr checked \<Rightarrow> text_check f checked))"

section \<open>Documents\<close>

definition TEXT_FIELDS :: "string list" where
  "TEXT_FIELDS =
    [''text'', ''thinking'', ''completion'', ''title'', ''name'', ''description'', ''code'', ''markdown'', ''fallbackMarkdown'',
     ''html'', ''snippet'', ''caption'', ''alt'', ''message'', ''summary'', ''answer'', ''reasoning'', ''parts'', ''content'']"
definition TEXT_TABLES :: "string list" where "TEXT_TABLES = [''constants'']"
definition EMBEDDED_JSON :: "string list" where "EMBEDDED_JSON = [''conversationState'']"
definition ALL_TEXT :: string where "ALL_TEXT = ''*''"
definition IMAGE_FIELDS :: "string list" where "IMAGE_FIELDS = [''b64_json'', ''partial_image_b64'']"
definition TOOL_CALLS :: "string list" where
  "TOOL_CALLS = [''tool_use'', ''server_tool_use'', ''function_call'', ''custom_tool_call'', ''mcp_call'']"
definition AI_MAX_DEPTH :: nat where "AI_MAX_DEPTH = 64"

definition ai_parse :: "ai_filters \<Rightarrow> string \<Rightarrow> json result" where
  "ai_parse f s = (case ai_loads f s of None \<Rightarrow> Inl protocol | Some v \<Rightarrow> Inr v)"

definition ai_mapping :: "json \<Rightarrow> doc result" where
  "ai_mapping v = (case v of JObj d \<Rightarrow> Inr d | _ \<Rightarrow> Inl protocol)"

text \<open>\<open>value.get("type") in TOOL_CALLS\<close>: a list or an object is not hashable.\<close>

definition is_tool_call :: "doc \<Rightarrow> bool result" where
  "is_tool_call d =
     (case map_of d ''type'' of
        Some (JStr s) \<Rightarrow> Inr (s \<in> set TOOL_CALLS)
      | Some (JList xs) \<Rightarrow> Inl wrong_type
      | Some (JObj x) \<Rightarrow> Inl wrong_type
      | _ \<Rightarrow> Inr False)"

text \<open>A call of a tool is checked whole, and never changed: \<open>Inr ()\<close> when it may pass.\<close>

fun each :: "('a \<Rightarrow> unit result) \<Rightarrow> 'a list \<Rightarrow> unit result" where
  "each g [] = Inr ()"
| "each g (x # xs) = (case g x of Inl e \<Rightarrow> Inl e | Inr _ \<Rightarrow> each g xs)"

fun every :: "('a \<Rightarrow> 'b result) \<Rightarrow> 'a list \<Rightarrow> 'b list result" where
  "every g [] = Inr []"
| "every g (x # xs) =
     (case g x of Inl e \<Rightarrow> Inl e | Inr y \<Rightarrow> (case every g xs of Inl e \<Rightarrow> Inl e | Inr ys \<Rightarrow> Inr (y # ys)))"

lemma each_cong [fundef_cong]: "xs = ys \<Longrightarrow> (\<And>x. x \<in> set ys \<Longrightarrow> g x = h x) \<Longrightarrow> each g xs = each h ys"
  by (induction xs arbitrary: ys) (auto split: sum.split)

lemma every_cong [fundef_cong]: "xs = ys \<Longrightarrow> (\<And>x. x \<in> set ys \<Longrightarrow> g x = h x) \<Longrightarrow> every g xs = every h ys"
  by (induction xs arbitrary: ys) (auto split: sum.split)

function tool :: "ai_filters \<Rightarrow> json \<Rightarrow> unit result" where
  "tool f (JStr s) = (case ai_string f s of Inl x \<Rightarrow> Inl x | Inr r \<Rightarrow> if r = s then Inr () else Inl ''language'')"
| "tool f (JList xs) = each (tool f) xs"
| "tool f (JObj d) = each (\<lambda>(k, v). tool f v) d"
| "tool f JNull = Inr ()" | "tool f (JBool b) = Inr ()" | "tool f (JInt i) = Inr ()"
  by pat_completeness auto
termination
  by (relation "measure (\<lambda>(f, v). size v)") (use size_value size_item in \<open>force simp del: json.size\<close>)+

definition child_field :: "string \<Rightarrow> string \<Rightarrow> string" where
  "child_field field k = (if field = ALL_TEXT then ALL_TEXT else if field \<in> set TEXT_TABLES then ''text'' else k)"

text \<open>\<open>value\<close> of an object of type \<open>base64\<close> under \<open>data\<close>, and the media type of a picture that was replaced.\<close>

definition clean_data :: "ai_filters \<Rightarrow> doc \<Rightarrow> doc \<Rightarrow> doc result" where
  "clean_data f d r =
     (case (map_of d ''type'', map_of d ''data'') of
        (Some (JStr ty), Some (JStr x)) \<Rightarrow>
          if ty \<noteq> ''base64'' then Inr r
          else (case image_base64 f x of Inl e \<Rightarrow> Inl e
                | Inr y \<Rightarrow> let r = dict_set ''data'' (JStr y) r in
                          Inr (if y \<noteq> x then dict_set ''media_type'' (JStr ''image/png'') r else r))
      | _ \<Rightarrow> Inr r)"

function (sequential) ai_clean :: "ai_filters \<Rightarrow> string \<Rightarrow> nat \<Rightarrow> json \<Rightarrow> json result" where
  "ai_clean f field n v =
     (if n > AI_MAX_DEPTH then Inl protocol
      else (case v of
        JStr s \<Rightarrow>
          if field \<in> set EMBEDDED_JSON
          then (case ai_loads f s of
                  None \<Rightarrow> (case ai_string f s of Inl x \<Rightarrow> Inl x | Inr r \<Rightarrow> Inr (JStr r))
                | Some inner \<Rightarrow> (case ai_clean f ALL_TEXT (n + 1) inner of Inl x \<Rightarrow> Inl x | Inr w \<Rightarrow> Inr (JStr (ai_dumps f w))))
          else if field \<in> set TEXT_FIELDS \<or> field = ALL_TEXT
          then (case ai_string f s of Inl x \<Rightarrow> Inl x | Inr r \<Rightarrow> Inr (JStr r))
          else if field \<in> set IMAGE_FIELDS
          then (case image_base64 f s of Inl x \<Rightarrow> Inl x | Inr r \<Rightarrow> Inr (JStr r))
          else if prefix_nocase image_mark s
          then (case image_data_uri f s of Inl x \<Rightarrow> Inl x | Inr r \<Rightarrow> Inr (JStr r))
          else Inr (JStr s)
      | JList xs \<Rightarrow> (case every (ai_clean f field (n + 1)) xs of Inl x \<Rightarrow> Inl x | Inr ys \<Rightarrow> Inr (JList ys))
      | JObj d \<Rightarrow>
          (case is_tool_call d of
             Inl x \<Rightarrow> Inl x
           | Inr True \<Rightarrow> (case tool f (JObj d) of Inl x \<Rightarrow> Inl x | Inr _ \<Rightarrow> Inr (JObj d))
           | Inr False \<Rightarrow>
             (case every (\<lambda>(k, x). case ai_clean f (child_field field k) (n + 1) x of Inl e \<Rightarrow> Inl e | Inr y \<Rightarrow> Inr (k, y)) d of
                Inl x \<Rightarrow> Inl x
              | Inr r \<Rightarrow> (case clean_data f d r of Inl x \<Rightarrow> Inl x | Inr r \<Rightarrow> Inr (JObj r))))
      | _ \<Rightarrow> Inr v))"
  by pat_completeness auto
termination
  by (relation "measure (\<lambda>(f, field, n, v). Suc AI_MAX_DEPTH - n)") auto

function (sequential) ai_blank :: "ai_filters \<Rightarrow> string \<Rightarrow> nat \<Rightarrow> json \<Rightarrow> json result" where
  "ai_blank f field n v =
     (if n > AI_MAX_DEPTH then Inl protocol
      else (case v of
        JStr s \<Rightarrow>
          if field \<in> set EMBEDDED_JSON
          then (case ai_loads f s of
                  None \<Rightarrow> Inr (JStr [])
                | Some inner \<Rightarrow> (case ai_blank f ALL_TEXT (n + 1) inner of Inl x \<Rightarrow> Inl x | Inr w \<Rightarrow> Inr (JStr (ai_dumps f w))))
          else if field \<in> set TEXT_FIELDS \<or> field = ALL_TEXT \<or> field \<in> set IMAGE_FIELDS \<or> prefix_nocase image_mark s
          then Inr (JStr []) else Inr (JStr s)
      | JList xs \<Rightarrow> (case every (ai_blank f field (n + 1)) xs of Inl x \<Rightarrow> Inl x | Inr ys \<Rightarrow> Inr (JList ys))
      | JObj d \<Rightarrow>
          (case every (\<lambda>(k, x). case ai_blank f (child_field field k) (n + 1) x of Inl e \<Rightarrow> Inl e | Inr y \<Rightarrow> Inr (k, y)) d of
             Inl x \<Rightarrow> Inl x | Inr r \<Rightarrow> Inr (JObj r))
      | _ \<Rightarrow> Inr v))"
  by pat_completeness auto
termination
  by (relation "measure (\<lambda>(f, field, n, v). Suc AI_MAX_DEPTH - n)") auto

declare ai_clean.simps [simp del] ai_blank.simps [simp del]

section \<open>What is released of a stream\<close>

fun pushes :: "ai_filters \<Rightarrow> (string \<Rightarrow> string result) \<Rightarrow> string list \<Rightarrow> text_stream \<Rightarrow> (string list \<times> text_stream) result" where
  "pushes f g [] ts = Inr ([], ts)"
| "pushes f g (x # xs) ts =
     (case push f g x ts of Inl e \<Rightarrow> Inl e
      | Inr (out, ts) \<Rightarrow> (case pushes f g xs ts of Inl e \<Rightarrow> Inl e | Inr (outs, ts) \<Rightarrow> Inr (out # outs, ts)))"

lemma upto_space_prefix: "prefix (upto_space s) s"
proof -
  have "suffix (dropWhile (\<lambda>c. c \<noteq> CHR '' '') (rev s)) (rev s)" by (rule suffix_dropWhile)
  then show ?thesis by (simp add: upto_space_def suffix_to_prefix)
qed

lemma upto_space_last: "upto_space s \<noteq> [] \<Longrightarrow> last (upto_space s) = CHR '' ''"
  using hd_dropWhile [of "\<lambda>c. c \<noteq> CHR '' ''" "rev s"] by (auto simp: upto_space_def last_rev)

lemma pushE:
  assumes "push f g x ts = Inr (out, ts')"
  obtains c where "g (ts_raw ts @ x) = Inr c" "prefix (ts_released ts) c" "ts_raw ts' = ts_raw ts @ x"
    "ts_released ts' = ts_released ts @ out" "prefix (ts_released ts @ out) c"
    "out \<noteq> [] \<longrightarrow> last out = CHR '' '' \<and> length (ts_released ts @ out) + lookahead f \<le> length c"
proof -
  from assms obtain c where c: "g (ts_raw ts @ x) = Inr c" "prefix (ts_released ts) c"
    and o: "out = upto_space (drop (length (ts_released ts)) (take (length c - lookahead f) c))"
    and t: "ts' = ts\<lparr>ts_raw := ts_raw ts @ x, ts_released := ts_released ts @ out\<rparr>"
    by (auto simp: push_def starts_with_def Let_def split: sum.splits if_splits)
  have p: "prefix out (drop (length (ts_released ts)) (take (length c - lookahead f) c))"
    using upto_space_prefix o by simp
  from c(2) obtain z where z: "c = ts_released ts @ z" by (auto simp: prefix_def)
  have q: "prefix out z"
  proof -
    have "drop (length (ts_released ts)) (take n c) = take (n - length (ts_released ts)) z" for n
      unfolding drop_take by (simp add: z)
    with p show ?thesis by (metis prefix_order.trans take_is_prefix)
  qed
  have "length (ts_released ts @ out) + lookahead f \<le> length c" if "out \<noteq> []"
    using prefix_length_le [OF p] that by (cases out) auto
  then show thesis
    using that [OF c] t q upto_space_last o z by auto
qed

lemma pushes_run:
  assumes "pushes f g xs ts = Inr (outs, ts')"
  shows "ts_raw ts' = ts_raw ts @ concat xs" "ts_released ts' = ts_released ts @ concat outs" "length outs = length xs"
  using assms
  by (induction xs arbitrary: ts outs) (auto split: sum.splits elim!: pushE)

lemma pushes_Suc:
  assumes "pushes f g xs ts = Inr (outs, ts')" "k < length xs"
  shows "\<exists>tk t'. pushes f g (take k xs) ts = Inr (take k outs, tk) \<and> push f g (xs ! k) tk = Inr (outs ! k, t')"
  using assms
proof (induction xs arbitrary: ts outs k)
  case (Cons x xs)
  then show ?case by (cases k) (fastforce split: sum.splits)+
qed simp

lemma pushes_held:
  assumes "pushes f g xs new_stream = Inr (outs, ts)" "k \<le> length xs" "concat (take k outs) \<noteq> []"
  shows "\<exists>j \<le> k. \<exists>c. g (concat (take j xs)) = Inr c \<and> prefix (concat (take k outs)) c
    \<and> last (concat (take k outs)) = CHR '' '' \<and> length (concat (take k outs)) + lookahead f \<le> length c"
  using assms(2,3)
proof (induction k)
  case (Suc k)
  then have k: "k < length xs" "k < length outs" using pushes_run(3) [OF assms(1)] by auto
  obtain tk t' where p: "pushes f g (take k xs) new_stream = Inr (take k outs, tk)" "push f g (xs ! k) tk = Inr (outs ! k, t')"
    using pushes_Suc [OF assms(1) k(1)] by blast
  have tk: "ts_raw tk = concat (take k xs)" "ts_released tk = concat (take k outs)"
    using pushes_run [OF p(1)] by (simp_all add: new_stream_def)
  have out: "concat (take (Suc k) outs) = concat (take k outs) @ outs ! k"
    "concat (take (Suc k) xs) = concat (take k xs) @ xs ! k"
    using k by (simp_all add: take_Suc_conv_app_nth)
  show ?case
  proof (cases "outs ! k = []")
    case True
    with Suc.prems out(1) have "concat (take k outs) \<noteq> []" by simp
    from Suc.IH [OF _ this] Suc.prems(1) show ?thesis using True out(1) le_SucI by (metis Suc_leD append_Nil2)
  next
    case False
    from p(2) show ?thesis
      by (rule pushE) (use False tk out in \<open>auto intro!: exI [of _ "Suc k"]\<close>)
  qed
qed simp

lemma stream_total:
  assumes "pushes f g xs new_stream = Inr (outs, ts)" "finish g ts = Inr (rest, ts')"
  shows "g (concat xs) = Inr (concat outs @ rest)"
  using assms(2) pushes_run [OF assms(1)]
  by (auto simp: new_stream_def finish_def starts_with_def prefix_def split: sum.splits if_splits)

text \<open>
  Property C33: the text of an answer is let out only when checked.  However the answer is cut into pieces,
  what was let out in the end is the check's version of the whole text, no more and no less; and at any
  time before, what is out is the beginning of the check's version of the text so far, ends with a space,
  and stays behind it by at least the lookahead, the most room a listed term can take.
\<close>

theorem streamed_text_checked:
  assumes "pushes f g xs new_stream = Inr (outs, ts)" "finish g ts = Inr (rest, ts')"
  shows "g (concat xs) = Inr (concat outs @ rest)
    \<and> (\<forall>k \<le> length xs. concat (take k outs) = []
        \<or> (\<exists>j \<le> k. \<exists>c. g (concat (take j xs)) = Inr c \<and> prefix (concat (take k outs)) c
            \<and> last (concat (take k outs)) = CHR '' '' \<and> length (concat (take k outs)) + lookahead f \<le> length c))"
  using stream_total [OF assms] pushes_held [OF assms(1)] by blast

definition example_filters :: ai_filters where
  "example_filters =
     \<lparr>ai_language = ''substitute'', ai_tolerance = Some ''immodest'', word_listed = sublist ''darn'',
      word_clean = map (\<lambda>c. if c = CHR ''!'' then CHR ''.'' else c), word_terms = [''darn''], score_terms = [''bikini''],
      text_score = (\<lambda>s. if sublist ''bikini'' s then ''immodest'' else ''clean''), image_level = ''immodest'',
      image_judge = (\<lambda>_. None), b64_decode = (\<lambda>_. None), ai_loads = (\<lambda>_. None), ai_dumps = (\<lambda>_. []), ai_dumps_spaced = (\<lambda>_. []),
      ai_repr = (\<lambda>_. []), ai_utf8 = (\<lambda>_. True), ai_lossy = (\<lambda>s. s)\<rparr>"

abbreviation calm_down :: "string \<Rightarrow> string" where
  "calm_down \<equiv> map (\<lambda>c. if c = CHR ''!'' then CHR ''.'' else c)"

lemma example_check:
  assumes "length s \<le> 1000000" "\<not> sublist ''bikini'' s"
  shows "text_check example_filters s = Inr (calm_down s)"
proof -
  have "\<not> at_least ''clean'' ''immodest''" by code_simp
  with assms show ?thesis by (simp add: text_check_def MAX_TEXT_CHARS_def example_filters_def)
qed

lemma example_push:
  assumes "length (y @ x) \<le> 256" "g (y @ x) = Inr (calm_down (y @ x))"
  shows "push example_filters g x \<lparr>ts_raw = y, ts_released = []\<rparr> = Inr ([], \<lparr>ts_raw = y @ x, ts_released = []\<rparr>)"
proof -
  have "length (y @ x) - lookahead example_filters = 0" using assms(1) by (simp add: lookahead_def)
  then show ?thesis using assms(2) by (simp add: push_def starts_with_def upto_space_def)
qed

lemma streamed_text_checked_witness:
  "\<exists>outs ts rest ts'. pushes example_filters (text_check example_filters) [''Hi! '', ''there!''] new_stream = Inr (outs, ts)
     \<and> finish (text_check example_filters) ts = Inr (rest, ts') \<and> concat outs @ rest = ''Hi. there.''"
proof -
  have n: "\<not> sublist ''bikini'' ''Hi! ''" "\<not> sublist ''bikini'' ''Hi! there!''" by code_simp+
  have p: "pushes example_filters (text_check example_filters) [''Hi! '', ''there!''] new_stream
      = Inr ([[], []], \<lparr>ts_raw = ''Hi! there!'', ts_released = []\<rparr>)"
    using n by (simp add: example_push example_check new_stream_def)
  have f: "finish (text_check example_filters) \<lparr>ts_raw = ''Hi! there!'', ts_released = []\<rparr>
      = Inr (''Hi. there.'', \<lparr>ts_raw = ''Hi! there!'', ts_released = ''Hi. there.''\<rparr>)"
    using n by (simp add: finish_def example_check starts_with_def)
  show ?thesis using conjunct1 [OF streamed_text_checked [OF p f]] p f by simp
qed

text \<open>Text without the mark of a picture.\<close>

lemma no_image_mark:
  assumes "count_marks s = 0" shows "count_images s = 0" "sub_images g s = Inr s"
proof -
  have "count_images s = 0 \<and> sub_images g s = Inr s"
    using assms
  proof (induction s)
    case Nil
    then show ?case by (subst count_images.simps, subst sub_images.simps) (simp add: data_image_at_def image_mark_def prefix_nocase_def)
  next
    case (Cons c s)
    then have "data_image_at (c # s) = None" by (simp add: data_image_at_def split: if_splits)
    with Cons show ?case by (subst count_images.simps, subst sub_images.simps) (simp split: if_splits)
  qed
  then show "count_images s = 0" "sub_images g s = Inr s" by simp_all
qed

lemma plain_string: "count_marks s = 0 \<Longrightarrow> ai_string f s = text_check f s"
  by (simp add: ai_string_def no_image_mark)

section \<open>What a cleaned document holds\<close>

text \<open>Where a text stands in a document, by the field it is under.\<close>

datatype place = Prose | Picture | Picture_uri | Document | Literal | In_call

definition place_of :: "string \<Rightarrow> string \<Rightarrow> place" where
  "place_of field s =
     (if field \<in> set EMBEDDED_JSON then Document
      else if field \<in> set TEXT_FIELDS \<or> field = ALL_TEXT then Prose
      else if field \<in> set IMAGE_FIELDS then Picture
      else if prefix_nocase image_mark s then Picture_uri else Literal)"

function texts_in :: "json \<Rightarrow> string list" where
  "texts_in (JStr s) = [s]"
| "texts_in (JList xs) = concat (map texts_in xs)"
| "texts_in (JObj d) = concat (map (\<lambda>(k, v). texts_in v) d)"
| "texts_in JNull = []" | "texts_in (JBool b) = []" | "texts_in (JInt i) = []"
  by pat_completeness auto
termination
  by (relation "measure size") (use size_value size_item in \<open>force simp del: json.size\<close>)+

text \<open>
  A picture in an object of type \<open>base64\<close> stands beside its media type, which becomes PNG's when
  the picture was replaced.
\<close>

definition picture_places :: "ai_filters \<Rightarrow> doc \<Rightarrow> (string \<times> (place \<times> string) list) list \<Rightarrow> (string \<times> (place \<times> string) list) list" where
  "picture_places f d r =
     (case (map_of d ''type'', map_of d ''data'') of
        (Some (JStr ty), Some (JStr x)) \<Rightarrow>
          if ty \<noteq> ''base64'' then r
          else let r = dict_set ''data'' [(Picture, x)] r in
            if image_base64 f x = Inr x then r else dict_set ''media_type'' [(Literal, ''image/png'')] r
      | _ \<Rightarrow> r)"

function placed :: "ai_filters \<Rightarrow> string \<Rightarrow> json \<Rightarrow> (place \<times> string) list" where
  "placed f field (JStr s) = [(place_of field s, s)]"
| "placed f field (JList xs) = concat (map (placed f field) xs)"
| "placed f field (JObj d) =
     (if is_tool_call d = Inr True then map (Pair In_call) (texts_in (JObj d))
      else concat (map snd (picture_places f d (map (\<lambda>(k, v). (k, placed f (child_field field k) v)) d))))"
| "placed f field JNull = []" | "placed f field (JBool b) = []" | "placed f field (JInt i) = []"
  by pat_completeness auto
termination
  by (relation "measure (\<lambda>(f, field, v). size v)") (auto intro: size_value size_item simp del: json.size)

text \<open>What becomes of a text at a place.\<close>

definition settled :: "ai_filters \<Rightarrow> place \<times> string \<Rightarrow> string \<Rightarrow> bool" where
  "settled f p s \<longleftrightarrow>
     (case fst p of
        Prose \<Rightarrow> ai_string f (snd p) = Inr s
      | In_call \<Rightarrow> ai_string f (snd p) = Inr s \<and> s = snd p
      | Picture \<Rightarrow> image_base64 f (snd p) = Inr s
      | Picture_uri \<Rightarrow> image_data_uri f (snd p) = Inr s
      | Literal \<Rightarrow> s = snd p
      | Document \<Rightarrow> (case ai_loads f (snd p) of None \<Rightarrow> ai_string f (snd p) = Inr s
          | Some v \<Rightarrow> \<exists>n w. ai_clean f ALL_TEXT n v = Inr w \<and> s = ai_dumps f w))"

lemma every_Inr: "every g xs = Inr ys \<longleftrightarrow> list_all2 (\<lambda>x y. g x = Inr y) xs ys"
proof (induction xs arbitrary: ys)
  case (Cons x xs)
  show ?case
    by (cases "g x"; cases "every g xs"; cases ys) (auto simp flip: Cons)
qed auto

lemma each_Inr: "each g xs = Inr u \<longleftrightarrow> (\<forall>x \<in> set xs. isl (g x) = False)"
  by (induction xs) (auto split: sum.splits)

lemma tool_texts: "tool f v = Inr u \<Longrightarrow> s \<in> set (texts_in v) \<Longrightarrow> ai_string f s = Inr s"
proof (induction f v rule: tool.induct)
  case (2 f xs)
  from 2(3) obtain x where x: "x \<in> set xs" "s \<in> set (texts_in x)" by auto
  moreover have "tool f x = Inr u" using 2(2) x(1) by (cases "tool f x") (auto simp: each_Inr)
  ultimately show ?case using 2(1) by blast
next
  case (3 f d)
  from 3(3) obtain k x where x: "(k, x) \<in> set d" "s \<in> set (texts_in x)" by auto
  moreover have "tool f x = Inr u" using 3(2) x(1) by (cases "tool f x") (force simp: each_Inr)+
  ultimately show ?case using 3(1) by blast
qed (auto split: sum.splits if_splits)

lemma list_all2_dict_set:
  assumes "list_all2 (\<lambda>(k, p) (k', v). k = k' \<and> P p v) ps d" "P p v"
  shows "list_all2 (\<lambda>(k, p) (k', v). k = k' \<and> P p v) (dict_set k p ps) (dict_set k v d)"
  using assms
  by (induction rule: list_all2_induct) (auto split: prod.splits)

lemma picture_places_settled:
  assumes "list_all2 (\<lambda>(k, p) (k', v). k = k' \<and> list_all2 (settled f) p (texts_in v)) ps r" "clean_data f d r = Inr r'"
  shows "list_all2 (\<lambda>(k, p) (k', v). k = k' \<and> list_all2 (settled f) p (texts_in v)) (picture_places f d ps) r'"
  using assms
  by (auto simp: clean_data_def picture_places_def settled_def Let_def
      split: option.splits json.splits sum.splits if_splits intro!: list_all2_dict_set)

lemma list_all2_concat: "list_all2 (\<lambda>x y. list_all2 P (g x) (h y)) xs ys \<Longrightarrow> list_all2 P (concat (map g xs)) (concat (map h ys))"
  by (induction rule: list_all2_induct) (auto intro: list_all2_appendI)

text \<open>
  Property C34: in whatever document of an answer is let out, each text was checked according to where
  it stood in the document that came, one for one and in order: prose went through the account's word list
  and scorer, pictures (under their own field, as data addresses, or as the data of an object of type
  base64, whose media type becomes PNG's when the picture was replaced) through the detector, a document
  inside a text was walked as prose throughout, and a call of a tool passed only as the check leaves every
  text in it as it is.
\<close>

theorem document_texts_checked:
  assumes "ai_clean f field n v = Inr w"
  shows "list_all2 (settled f) (placed f field v) (texts_in w)"
  using assms
proof (induction f field n v arbitrary: w rule: ai_clean.induct)
  case (1 f field n v)
  have n: "\<not> n > AI_MAX_DEPTH" using 1(4) by (auto simp: ai_clean.simps split: if_splits)
  show ?case
  proof (cases v)
    case (JStr s)
    then show ?thesis
      using 1(4) n
      by (auto simp: ai_clean.simps [of f field n "JStr s"] place_of_def settled_def split: if_splits sum.splits option.splits; blast)
  next
    case (JList xs)
    from 1(4) n obtain ys where w: "w = JList ys" and ys: "list_all2 (\<lambda>x y. ai_clean f field (n + 1) x = Inr y) xs ys"
      by (auto simp: JList ai_clean.simps [of f field n] every_Inr split: sum.splits)
    have "list_all2 (\<lambda>x y. list_all2 (settled f) (placed f field x) (texts_in y)) xs ys"
      using ys by (rule list.rel_mono_strong) (use 1(2) [OF n JList] in blast)
    from list_all2_concat [OF this] show ?thesis by (simp add: JList w)
  next
    case (JObj d)
    show ?thesis
    proof (cases "is_tool_call d = Inr True")
      case True
      with 1(4) n have "w = JObj d" "tool f (JObj d) = Inr ()"
        by (auto simp: JObj ai_clean.simps [of f field n] split: sum.splits)
      then show ?thesis
        using tool_texts [of f "JObj d" "()"] True
        by (simp add: JObj list.rel_map list_all2_same settled_def del: texts_in.simps)
    next
      case False
      then have b: "is_tool_call d = Inr False"
        using 1(4) n by (auto simp: JObj ai_clean.simps [of f field n] split: sum.splits bool.splits)
      obtain r r' where w: "w = JObj r'" and r': "clean_data f d r = Inr r'"
        and r: "list_all2 (\<lambda>a y. (case a of (k, x) \<Rightarrow>
            (case ai_clean f (child_field field k) (n + 1) x of Inl e \<Rightarrow> Inl e | Inr y \<Rightarrow> Inr (k, y))) = Inr y) d r"
        using 1(4) n b by (auto simp: JObj ai_clean.simps [of f field n] every_Inr split: sum.splits)
      have "list_all2 (\<lambda>(k, p) (k', v). k = k' \<and> list_all2 (settled f) p (texts_in v))
          (map (\<lambda>(k, v). (k, placed f (child_field field k) v)) d) r"
        unfolding list.rel_map using r
      proof (rule list.rel_mono_strong)
        fix a y
        assume a: "a \<in> set d" "(case a of (k, x) \<Rightarrow>
            (case ai_clean f (child_field field k) (n + 1) x of Inl e \<Rightarrow> Inl e | Inr y \<Rightarrow> Inr (k, y))) = Inr y"
        obtain k x where k: "a = (k, x)" by (cases a)
        with a(2) obtain z where z: "ai_clean f (child_field field k) (n + 1) x = Inr z" "y = (k, z)"
          by (auto split: sum.splits)
        with 1(3) [OF n JObj b refl a(1) k [symmetric] z(1)]
        show "(\<lambda>(k, p) (k', v). k = k' \<and> list_all2 (settled f) p (texts_in v))
            (case a of (k, v) \<Rightarrow> (k, placed f (child_field field k) v)) y"
          by (simp add: k z(2))
      qed
      from picture_places_settled [OF this r'] have "list_all2 (\<lambda>x y. list_all2 (settled f) (snd x) (case y of (k, v) \<Rightarrow> texts_in v))
          (picture_places f d (map (\<lambda>(k, v). (k, placed f (child_field field k) v)) d)) r'"
        by (rule list.rel_mono_strong) auto
      from list_all2_concat [OF this] show ?thesis using False by (simp add: JObj w)
    qed
  qed (use 1(4) n in \<open>auto simp: ai_clean.simps\<close>)
qed

definition example_picture :: json where
  "example_picture = JObj [(''text'', JStr ''Hi!''), (''source'', JObj [(''type'', JStr ''base64''), (''data'', JStr ''AAAA'')])]"

lemma document_texts_checked_witness:
  "\<exists>w. ai_clean (example_filters\<lparr>image_level := ''all''\<rparr>) [] 0 example_picture = Inr w
   \<and> texts_in w = [''Hi.'', ''base64'', BLANK_IMAGE, ''image/png'']
   \<and> list_all2 (settled (example_filters\<lparr>image_level := ''all''\<rparr>))
       [(Prose, ''Hi!''), (Literal, ''base64''), (Picture, ''AAAA''), (Literal, ''image/png'')] (texts_in w)"
proof -
  let ?f = "example_filters\<lparr>image_level := ''all''\<rparr>"
  let ?w = "JObj [(''text'', JStr ''Hi.''), (''source'', JObj [(''type'', JStr ''base64''), (''data'', JStr BLANK_IMAGE),
      (''media_type'', JStr ''image/png'')])]"
  have "count_marks ''Hi!'' = 0" "\<not> sublist ''bikini'' ''Hi!''" by code_simp+
  moreover have "text_check ?f s = text_check example_filters s" for s by (simp add: text_check_def example_filters_def)
  ultimately have t: "ai_string ?f ''Hi!'' = Inr ''Hi.''" by (simp add: plain_string example_check)
  have m: "\<not> prefix_nocase image_mark ''base64''" "\<not> prefix_nocase image_mark ''AAAA''" by code_simp+
  have b: "image_base64 ?f ''AAAA'' = Inr BLANK_IMAGE" "BLANK_IMAGE \<noteq> ''AAAA''"
    by (simp_all add: image_base64_def BLANK_IMAGE_def)
  note fields = AI_MAX_DEPTH_def is_tool_call_def TOOL_CALLS_def child_field_def ALL_TEXT_def TEXT_TABLES_def
      EMBEDDED_JSON_def TEXT_FIELDS_def IMAGE_FIELDS_def
  have c: "ai_clean ?f [] 0 example_picture = Inr ?w"
    by (simp add: ai_clean.simps example_picture_def fields clean_data_def m t b)
  have p: "placed ?f [] example_picture = [(Prose, ''Hi!''), (Literal, ''base64''), (Picture, ''AAAA''), (Literal, ''image/png'')]"
    by (simp add: example_picture_def fields picture_places_def place_of_def m b)
  show ?thesis using document_texts_checked [OF c] c p by simp
qed

end
