(* ===== verification/AiFraming.thy ===== *)
theory AiFraming
  imports AiText
begin

text \<open>
  How a streamed answer is cut into events and lines: \<open>ai_sse.py\<close> and the \<open>LineDecoder\<close> of \<open>ai_lines.py\<close>
  under \<open>kosherd/src/kosherd\<close>.  Bytes are characters; \<open>utf8\<close> says which bytes decode.
\<close>

definition MAX_EVENT_BYTES :: nat where "MAX_EVENT_BYTES = 16 * 1024 * 1024"

definition LF :: char where "LF = CHR 0x0A"
definition CR :: char where "CR = CHR 0x0D"
definition BOM :: string where "BOM = [CHR 0xEF, CHR 0xBB, CHR 0xBF]"

section \<open>Events\<close>

type_synonym event = "string list"

definition drop_space :: "string \<Rightarrow> string" where
  "drop_space s = (if starts_with s '' '' then drop 1 s else s)"

definition field_of_line :: "string \<Rightarrow> string" where "field_of_line l = before CHR '':'' l"
definition value_of_line :: "string \<Rightarrow> string" where "value_of_line l = drop_space (after CHR '':'' l)"

definition decoded :: "(string \<Rightarrow> bool) \<Rightarrow> string \<Rightarrow> string result" where
  "decoded utf8 s = (if utf8 s then Inr s else Inl protocol)"

definition event_name :: "(string \<Rightarrow> bool) \<Rightarrow> event \<Rightarrow> string result" where
  "event_name utf8 ev =
     (let names = map value_of_line (filter (\<lambda>l. field_of_line l = ''event'') ev) in
      if names = [] then Inr ''message'' else decoded utf8 (last names))"

definition event_data :: "(string \<Rightarrow> bool) \<Rightarrow> event \<Rightarrow> string option result" where
  "event_data utf8 ev =
     (let values = map value_of_line (filter (\<lambda>l. field_of_line l = ''data'') ev) in
      if values = [] then Inr None
      else (case decoded utf8 (join [LF] values) of Inl x \<Rightarrow> Inl x | Inr s \<Rightarrow> Inr (Some s)))"

definition with_data :: "string \<Rightarrow> event \<Rightarrow> event" where
  "with_data s ev = filter (\<lambda>l. field_of_line l \<noteq> ''data'') ev @ map (\<lambda>p. ''data: '' @ p) (split_on LF s)"

definition encode :: "event \<Rightarrow> string" where
  "encode ev = join [LF] ev @ [LF, LF]"

text \<open>\<open>Event.encode(data)\<close>.\<close>

definition encode_data :: "string \<Rightarrow> event \<Rightarrow> string" where
  "encode_data s ev = encode (with_data s ev)"

section \<open>The decoder of events\<close>

record sse =
  sse_line :: string
  sse_lines :: "string list"
  sse_size :: nat
  after_cr :: bool
  sse_prefix :: string
  started :: bool

definition new_sse :: sse where
  "new_sse = \<lparr>sse_line = [], sse_lines = [], sse_size = 0, after_cr = False, sse_prefix = [], started = False\<rparr>"

definition sse_byte :: "char \<Rightarrow> sse \<Rightarrow> (event list \<times> sse) result" where
  "sse_byte b d =
     (if after_cr d \<and> b = LF then Inr ([], d\<lparr>after_cr := False\<rparr>)
      else let d = d\<lparr>after_cr := (b = CR), sse_size := sse_size d + 1\<rparr> in
        if sse_size d > MAX_EVENT_BYTES then Inl protocol
        else if b \<noteq> LF \<and> b \<noteq> CR then Inr ([], d\<lparr>sse_line := sse_line d @ [b]\<rparr>)
        else if sse_line d \<noteq> [] then Inr ([], d\<lparr>sse_lines := sse_lines d @ [sse_line d], sse_line := []\<rparr>)
        else Inr (if sse_lines d = [] then [] else [sse_lines d], d\<lparr>sse_lines := [], sse_size := 0\<rparr>))"

fun sse_bytes :: "string \<Rightarrow> sse \<Rightarrow> (event list \<times> sse) result" where
  "sse_bytes [] d = Inr ([], d)"
| "sse_bytes (b # bs) d =
     (case sse_byte b d of Inl x \<Rightarrow> Inl x
      | Inr (evs, d) \<Rightarrow> (case sse_bytes bs d of Inl x \<Rightarrow> Inl x | Inr (es2, d) \<Rightarrow> Inr (evs @ es2, d)))"

definition sse_feed :: "string \<Rightarrow> sse \<Rightarrow> (event list \<times> sse) result" where
  "sse_feed chunk d =
     (if started d then sse_bytes chunk d
      else let data = sse_prefix d @ chunk in
        if length data < 3 \<and> starts_with BOM data then Inr ([], d\<lparr>sse_prefix := data\<rparr>)
        else sse_bytes (if starts_with data BOM then drop 3 data else data) (d\<lparr>sse_prefix := [], started := True\<rparr>))"

definition sse_finish :: "sse \<Rightarrow> unit result" where
  "sse_finish d = (if sse_prefix d \<noteq> [] \<or> sse_line d \<noteq> [] \<or> sse_lines d \<noteq> [] then Inl protocol else Inr ())"

section \<open>The decoder of lines\<close>

definition complete_lines :: "string \<Rightarrow> string list" where "complete_lines s = butlast (split_on LF s)"
definition open_line :: "string \<Rightarrow> string" where "open_line s = last (split_on LF s)"

definition line_feed :: "string \<Rightarrow> string \<Rightarrow> (string list \<times> string) result" where
  "line_feed chunk buffer =
     (if length (buffer @ chunk) > MAX_EVENT_BYTES then Inl protocol
      else Inr (complete_lines (buffer @ chunk), open_line (buffer @ chunk)))"

text \<open>\<open>bytes.strip()\<close>.\<close>

definition byte_space :: "char \<Rightarrow> bool" where "byte_space c \<longleftrightarrow> of_char c \<in> {9, 10, 11, 12, 13, 32 :: nat}"

definition line_finish :: "string \<Rightarrow> string list" where
  "line_finish buffer = (if strip byte_space buffer = [] then [] else [buffer])"

section \<open>Any cutting gives the same\<close>

fun feeds :: "(string \<Rightarrow> 'd \<Rightarrow> ('e list \<times> 'd) result) \<Rightarrow> string list \<Rightarrow> 'd \<Rightarrow> ('e list \<times> 'd) result" where
  "feeds g [] d = Inr ([], d)"
| "feeds g (x # xs) d =
     (case g x d of Inl e \<Rightarrow> Inl e
      | Inr (es, d) \<Rightarrow> (case feeds g xs d of Inl e \<Rightarrow> Inl e | Inr (es2, d) \<Rightarrow> Inr (es @ es2, d)))"

definition andthen :: "('e list \<times> 'd) result \<Rightarrow> ('d \<Rightarrow> ('e list \<times> 'd) result) \<Rightarrow> ('e list \<times> 'd) result" where
  "andthen r g = (case r of Inl e \<Rightarrow> Inl e
     | Inr (es, d) \<Rightarrow> (case g d of Inl e \<Rightarrow> Inl e | Inr (es2, d) \<Rightarrow> Inr (es @ es2, d)))"

text \<open>A decoder whose state holds all there is to know of what came: it is indifferent to the cutting.\<close>

locale decoder =
  fixes feed :: "string \<Rightarrow> 'd \<Rightarrow> ('e list \<times> 'd) result" and fit :: "'d \<Rightarrow> bool"
  assumes feed_nil: "fit d \<Longrightarrow> feed [] d = Inr ([], d)"
    and feed_append: "fit d \<Longrightarrow> feed (a @ b) d = andthen (feed a d) (feed b)"
    and feed_fit: "fit d \<Longrightarrow> feed a d = Inr (es, d') \<Longrightarrow> fit d'"
begin

lemma feeds_concat: "fit d \<Longrightarrow> feeds feed xs d = feed (concat xs) d"
proof (induction xs arbitrary: d)
  case (Cons x xs)
  show ?case
  proof (cases "feed x d")
    case (Inr p)
    then obtain es d' where p: "feed x d = Inr (es, d')" by (cases p) auto
    from Cons.IH [OF feed_fit [OF Cons.prems p]] show ?thesis
      using p by (simp add: feed_append [OF Cons.prems] andthen_def)
  qed (simp add: feed_append [OF Cons.prems] andthen_def)
qed (simp add: feed_nil)

lemma same_for_any_cut: "fit d \<Longrightarrow> concat xs = concat ys \<Longrightarrow> feeds feed xs d = feeds feed ys d"
  by (simp add: feeds_concat)

end

lemma sse_bytes_append: "sse_bytes (a @ b) d = andthen (sse_bytes a d) (sse_bytes b)"
  by (induction a arbitrary: d) (auto simp: andthen_def split: sum.splits prod.splits)

lemma sse_byte_started: "sse_byte b d = Inr (es, d') \<Longrightarrow> started d' = started d \<and> sse_prefix d' = sse_prefix d"
  by (auto simp: sse_byte_def Let_def split: if_splits)

lemma sse_bytes_started: "sse_bytes bs d = Inr (es, d') \<Longrightarrow> started d' = started d \<and> sse_prefix d' = sse_prefix d"
  by (induction bs arbitrary: d es) (auto split: sum.splits dest!: sse_byte_started)

text \<open>Before the first byte is judged, what is held is a proper beginning of the mark, and nothing else is.\<close>

definition sse_fit :: "sse \<Rightarrow> bool" where
  "sse_fit d \<longleftrightarrow> (if started d then sse_prefix d = [] else length (sse_prefix d) < 3 \<and> prefix (sse_prefix d) BOM)"

lemma short_prefix: "prefix (a @ b) BOM \<Longrightarrow> prefix a BOM"
  by (metis append_prefixD)

interpretation sse: decoder sse_feed sse_fit
proof
  fix d assume "sse_fit d"
  then show "sse_feed [] d = Inr ([], d)"
    by (auto simp: sse_feed_def sse_fit_def starts_with_def split: if_splits)
next
  fix d a b assume d: "sse_fit d"
  show "sse_feed (a @ b) d = andthen (sse_feed a d) (sse_feed b)"
  proof (cases "started d")
    case True
    then show ?thesis
      by (auto simp: sse_feed_def sse_bytes_append andthen_def dest!: sse_bytes_started split: sum.splits)
  next
    case False
    let ?p = "sse_prefix d"
    let ?held = "\<lambda>s. length s < 3 \<and> prefix s BOM"
    let ?strip = "\<lambda>s. if prefix BOM s then drop 3 s else s"
    have b: "length BOM = 3" by (simp add: BOM_def)
    show ?thesis
    proof (cases "?held (?p @ a)")
      case True
      then show ?thesis using False by (simp add: sse_feed_def starts_with_def andthen_def Let_def split: sum.split)
    next
      case n: False
      then have nn: "\<not> ?held (?p @ a @ b)" using short_prefix [of "?p @ a" b] by auto
      let ?d = "d\<lparr>sse_prefix := [], started := True\<rparr>"
      have e: "?strip (?p @ a @ b) = ?strip (?p @ a) @ b"
      proof (cases "prefix BOM (?p @ a)")
        case True
        then have "prefix BOM (?p @ a @ b)" using prefix_prefix [of BOM "?p @ a" b] by simp
        moreover have "3 \<le> length (?p @ a)" using True b prefix_length_le by fastforce
        ultimately show ?thesis using True by simp
      next
        case False
        have "\<not> prefix BOM (?p @ a @ b)"
        proof
          assume "prefix BOM (?p @ a @ b)"
          then have "prefix BOM (?p @ a) \<or> prefix (?p @ a) BOM"
            using prefix_same_cases [of BOM "(?p @ a) @ b" "?p @ a"] by simp
          with False have q: "strict_prefix (?p @ a) BOM" by auto
          from n b prefix_length_less [OF q] strict_prefixE [OF q] show False by (auto simp: strict_prefix_def)
        qed
        with False show ?thesis by simp
      qed
      have l: "sse_feed (a @ b) d = sse_bytes (?strip (?p @ a) @ b) ?d"
        unfolding e [symmetric] sse_feed_def Let_def starts_with_def using nn False by (simp only: if_False)
      have r: "sse_feed a d = sse_bytes (?strip (?p @ a)) ?d"
        unfolding sse_feed_def Let_def starts_with_def using n False by (simp only: if_False)
      have f: "sse_feed b d' = sse_bytes b d'" if "sse_bytes z ?d = Inr (es, d')" for z es d'
        using sse_bytes_started [OF that] by (simp add: sse_feed_def)
      show ?thesis
        unfolding l r sse_bytes_append by (auto simp: andthen_def f split: sum.split)
    qed
  qed
next
  fix d a es d' assume "sse_fit d" "sse_feed a d = Inr (es, d')"
  then show "sse_fit d'"
    by (auto simp: sse_feed_def sse_fit_def starts_with_def Let_def dest: sse_bytes_started split: if_splits)
qed

lemma split_on_extend: "split_on c (a @ b) = butlast (split_on c a) @ split_on c (last (split_on c a) @ b)"
proof (induction a)
  case (Cons x a)
  obtain y ys where "split_on c a = y # ys" by (meson list.exhaust split_on_not_Nil)
  with Cons show ?case by (cases ys) (auto split: list.split)
qed simp

lemma lines_append:
  "complete_lines (a @ b) = complete_lines a @ complete_lines (open_line a @ b)"
  "open_line (a @ b) = open_line (open_line a @ b)"
  by (simp_all add: complete_lines_def open_line_def split_on_extend [of LF a b] butlast_append)

lemma line_feeds:
  "feeds line_feed xs b = Inr (ls, r) \<Longrightarrow> b = open_line z \<Longrightarrow>
     complete_lines z @ ls = complete_lines (z @ concat xs) \<and> r = open_line (z @ concat xs)"
proof (induction xs arbitrary: b ls z)
  case (Cons x xs)
  from Cons.prems obtain l1 l2 where l: "line_feed x (open_line z) = Inr (l1, open_line (z @ x))"
    "feeds line_feed xs (open_line (z @ x)) = Inr (l2, r)" "ls = l1 @ l2" "l1 = complete_lines (open_line z @ x)"
    using lines_append(2) [of z x] by (auto simp: line_feed_def [of x b] line_feed_def [of x "open_line z"] split: if_splits sum.splits)
  from Cons.IH [OF l(2) refl] show ?case using l(3,4) lines_append(1) [of z x] by simp
qed simp

text \<open>
  Property C36: where the network cuts an answer makes no difference to what is read of it.  However the
  bytes of an event stream are cut, across lines, between a carriage return and its line feed, or inside
  the byte order mark, the same events come out and the same streams are refused; and a stream of lines
  that is not refused gives the lines of its bytes, the last one when the stream ends.
\<close>

theorem framing_any_cut:
  assumes "concat xs = concat ys"
  shows "feeds sse_feed xs new_sse = feeds sse_feed ys new_sse
    \<and> (\<forall>ls r. feeds line_feed xs [] = Inr (ls, r) \<longrightarrow> ls @ [r] = split_on LF (concat ys))"
proof -
  have "sse_fit new_sse" by (simp add: sse_fit_def new_sse_def)
  moreover have "ls @ [r] = split_on LF (concat ys)" if "feeds line_feed xs [] = Inr (ls, r)" for ls r
    using line_feeds [OF that, of "[]"] assms split_on_not_Nil [of LF "concat ys"]
    by (simp add: open_line_def complete_lines_def)
  ultimately show ?thesis using sse.same_for_any_cut [OF _ assms] by blast
qed

lemma framing_any_cut_witness:
  "feeds sse_feed [''data: '', ''a'' @ [CR], [LF, LF]] new_sse = feeds sse_feed [''data: a'' @ [CR, LF, LF]] new_sse
   \<and> feeds line_feed [''a'', LF # ''b''] [] = Inr ([''a''], ''b'') \<and> [''a''] @ [''b''] = split_on LF (''a'' @ LF # ''b'')"
proof -
  have c: "concat [''data: '', ''a'' @ [CR], [LF, LF]] = concat [''data: a'' @ [CR, LF, LF]]" by simp
  have d: "concat [''a'', LF # ''b''] = concat [''a'' @ LF # ''b'']" by simp
  have "split_on LF ''a'' = [''a'']" "split_on LF (''a'' @ LF # ''b'') = [''a'', ''b'']"
    by (simp_all add: split_on_append split_on_id LF_def)
  then have l: "feeds line_feed [''a'', LF # ''b''] [] = Inr ([''a''], ''b'')"
    by (simp add: line_feed_def complete_lines_def open_line_def MAX_EVENT_BYTES_def)
  show ?thesis using framing_any_cut [OF c] framing_any_cut [OF d] l by simp
qed

section \<open>An event that was rewritten\<close>

definition fresh :: sse where
  "fresh = \<lparr>sse_line = [], sse_lines = [], sse_size = 0, after_cr = False, sse_prefix = [], started = True\<rparr>"

definition frameable :: "event \<Rightarrow> bool" where
  "frameable ev \<longleftrightarrow> ev \<noteq> [] \<and> length (encode ev) \<le> MAX_EVENT_BYTES \<and> (\<forall>l \<in> set ev. l \<noteq> [] \<and> LF \<notin> set l \<and> CR \<notin> set l)"

lemma line_bytes:
  assumes "LF \<notin> set l" "CR \<notin> set l" "\<not> after_cr d" "sse_size d + length l \<le> MAX_EVENT_BYTES"
  shows "sse_bytes l d = Inr ([], d\<lparr>sse_line := sse_line d @ l, sse_size := sse_size d + length l\<rparr>)"
  using assms
proof (induction l arbitrary: d)
  case (Cons b l)
  then show ?case by (auto simp: sse_byte_def Let_def)
qed simp

lemma lf_byte:
  assumes "\<not> after_cr d" "sse_line d \<noteq> []" "sse_size d < MAX_EVENT_BYTES"
  shows "sse_byte LF d = Inr ([], d\<lparr>sse_lines := sse_lines d @ [sse_line d], sse_line := [], sse_size := sse_size d + 1\<rparr>)"
  using assms by (simp add: sse_byte_def Let_def LF_def CR_def)

lemma event_bytes:
  assumes "\<forall>l \<in> set ev. l \<noteq> [] \<and> LF \<notin> set l \<and> CR \<notin> set l" "\<not> after_cr d" "sse_line d = []"
    and "sse_size d + sum_list (map (\<lambda>l. length l + 1) ev) \<le> MAX_EVENT_BYTES"
  shows "sse_bytes (concat (map (\<lambda>l. l @ [LF]) ev)) d
    = Inr ([], d\<lparr>sse_lines := sse_lines d @ ev, sse_size := sse_size d + sum_list (map (\<lambda>l. length l + 1) ev)\<rparr>)"
  using assms
proof (induction ev arbitrary: d)
  case (Cons l ev)
  let ?d = "d\<lparr>sse_line := l, sse_size := sse_size d + length l\<rparr>"
  let ?e = "d\<lparr>sse_lines := sse_lines d @ [l], sse_size := sse_size d + length l + 1\<rparr>"
  have "sse_bytes l d = Inr ([], ?d)" using Cons.prems by (subst line_bytes) auto
  moreover have "sse_byte LF ?d = Inr ([], ?e)" using Cons.prems by (subst lf_byte) auto
  moreover have "sse_bytes (concat (map (\<lambda>l. l @ [LF]) ev)) ?e
      = Inr ([], ?e\<lparr>sse_lines := sse_lines ?e @ ev, sse_size := sse_size ?e + sum_list (map (\<lambda>l. length l + 1) ev)\<rparr>)"
    using Cons.prems by (intro Cons.IH) auto
  ultimately show ?case by (simp add: sse_bytes_append andthen_def)
qed simp

lemma encode_lines: "ev \<noteq> [] \<Longrightarrow> encode ev = concat (map (\<lambda>l. l @ [LF]) ev) @ [LF]"
proof -
  have "ev \<noteq> [] \<Longrightarrow> join [LF] ev @ [LF] = concat (map (\<lambda>l. l @ [LF]) ev)"
    by (induction "[LF]" ev rule: join.induct) auto
  then show "ev \<noteq> [] \<Longrightarrow> encode ev = concat (map (\<lambda>l. l @ [LF]) ev) @ [LF]" by (simp add: encode_def)
qed

lemma encoded_length: "ev \<noteq> [] \<Longrightarrow> length (encode ev) = sum_list (map (\<lambda>l. length l + 1) ev) + 1"
  by (simp add: encode_lines length_concat o_def)

lemma encode_decoded: "frameable ev \<Longrightarrow> sse_feed (encode ev) fresh = Inr ([ev], fresh)"
proof -
  assume f: "frameable ev"
  then have ne: "ev \<noteq> []" and l: "sum_list (map (\<lambda>l. length l + 1) ev) + 1 \<le> MAX_EVENT_BYTES"
    by (auto simp: frameable_def encoded_length)
  have "sse_bytes (concat (map (\<lambda>l. l @ [LF]) ev)) fresh
      = Inr ([], fresh\<lparr>sse_lines := ev, sse_size := sum_list (map (\<lambda>l. length l + 1) ev)\<rparr>)"
    using event_bytes [of ev fresh] f l by (simp add: fresh_def frameable_def)
  moreover have "sse_byte LF (fresh\<lparr>sse_lines := ev, sse_size := sum_list (map (\<lambda>l. length l + 1) ev)\<rparr>) = Inr ([ev], fresh)"
    using ne l by (simp add: sse_byte_def fresh_def LF_def CR_def)
  ultimately show ?thesis
    by (simp add: sse_feed_def encode_lines [OF ne] sse_bytes_append andthen_def) (simp add: fresh_def)
qed

lemma data_line: "field_of_line (''data: '' @ p) = ''data''" "value_of_line (''data: '' @ p) = p"
  by (simp_all add: field_of_line_def value_of_line_def before_def after_def drop_space_def starts_with_def)

lemmas data_line_simps = data_line data_line [simplified]

lemma data_rewritten: "utf8 s \<Longrightarrow> event_data utf8 (with_data s ev) = Inr (Some s)"
  by (simp add: event_data_def with_data_def filter_map o_def data_line_simps decoded_def)

lemma name_kept: "event_name utf8 (with_data s ev) = event_name utf8 ev"
proof -
  have "filter (\<lambda>l. field_of_line l = ''event'') (with_data s ev) = filter (\<lambda>l. field_of_line l = ''event'') ev"
    by (auto simp: with_data_def filter_map o_def data_line_simps intro!: filter_cong)
  then show ?thesis by (simp add: event_name_def)
qed

text \<open>
  Property C37: an event that was checked and rewritten reaches the page as one event with the checked data,
  its own name, and its other fields.  Written out and read again it is the same event; its data is the
  text that was put in, with any line breaks; and nothing of the data it had is left in it.
\<close>

theorem rewritten_event_arrives:
  assumes "frameable (with_data s ev)" "utf8 s"
  shows "sse_feed (encode_data s ev) fresh = Inr ([with_data s ev], fresh)
    \<and> event_data utf8 (with_data s ev) = Inr (Some s) \<and> event_name utf8 (with_data s ev) = event_name utf8 ev
    \<and> filter (\<lambda>l. field_of_line l \<noteq> ''data'') (with_data s ev) = filter (\<lambda>l. field_of_line l \<noteq> ''data'') ev"
proof -
  have "filter (\<lambda>l. field_of_line l \<noteq> ''data'') (with_data s ev) = filter (\<lambda>l. field_of_line l \<noteq> ''data'') ev"
    by (simp add: with_data_def filter_map o_def data_line_simps)
  then show ?thesis
    using encode_decoded [OF assms(1)] data_rewritten [of utf8 s ev] name_kept assms(2) by (simp add: encode_data_def)
qed

lemma rewritten_event_arrives_witness:
  "sse_feed (encode_data ''{}'' [''event: delta'', ''data: {secret}'']) fresh
     = Inr ([[''event: delta'', ''data: {}'']], fresh)"
proof -
  have w: "with_data ''{}'' [''event: delta'', ''data: {secret}''] = [''event: delta'', ''data: {}'']"
    by (simp add: with_data_def field_of_line_def before_def LF_def)
  have "frameable (with_data ''{}'' [''event: delta'', ''data: {secret}''])"
    unfolding w by (simp add: frameable_def encode_def LF_def CR_def MAX_EVENT_BYTES_def)
  from conjunct1 [OF rewritten_event_arrives [OF this, of "\<lambda>_. True"]] show ?thesis by (simp add: w)
qed

end
