(* ===== verification/AiDelta.thy ===== *)
theory AiDelta
  imports AiFraming
begin

text \<open>
  The patches ChatGPT sends instead of whole documents: \<open>kosherd/src/kosherd/ai_delta.py\<close>.  A patch names a
  path in the document of a channel and an operation; a field left out is that of the patch before.
\<close>

definition OPERATIONS :: "string list" where
  "OPERATIONS = [''add'', ''replace'', ''append'', ''remove'', ''truncate'', ''patch'']"
definition MAX_PATH :: nat where "MAX_PATH = 2048"
definition MAX_CHANNEL :: int where "MAX_CHANNEL = 1024"

record patch =
  pt_p :: string
  pt_o :: string
  pt_v :: json
  pt_c :: int

definition default_patch :: patch where
  "default_patch = \<lparr>pt_p = [], pt_o = ''add'', pt_v = JNull, pt_c = 0\<rparr>"

definition field_or :: "doc \<Rightarrow> string \<Rightarrow> json \<Rightarrow> json" where
  "field_or d k v = (case map_of d k of None \<Rightarrow> v | Some x \<Rightarrow> x)"

definition parse_patch :: "json \<Rightarrow> patch \<Rightarrow> patch result" where
  "parse_patch data base =
     (case ai_mapping data of Inl x \<Rightarrow> Inl x
      | Inr item \<Rightarrow>
        (case field_or item ''p'' (JStr (pt_p base)) of
           JStr path \<Rightarrow>
             if length path > MAX_PATH then Inl protocol
             else (case field_or item ''o'' (JStr (pt_o base)) of
               JStr op \<Rightarrow>
                 if op \<notin> set OPERATIONS then Inl protocol
                 else (case field_or item ''c'' (JInt (pt_c base)) of
                         JInt c \<Rightarrow> if c < 0 \<or> c > MAX_CHANNEL then Inl protocol
                                  else Inr \<lparr>pt_p = path, pt_o = op, pt_v = field_or item ''v'' JNull, pt_c = c\<rparr>
                       | _ \<Rightarrow> Inl protocol)
             | JList xs \<Rightarrow> Inl wrong_type
             | JObj x \<Rightarrow> Inl wrong_type
             | _ \<Rightarrow> Inl protocol)
         | _ \<Rightarrow> Inl protocol))"

section \<open>Paths\<close>

text \<open>\<open>token.replace("~1", "/").replace("~0", "~")\<close>.\<close>

fun replace_pair :: "char \<Rightarrow> char \<Rightarrow> char \<Rightarrow> string \<Rightarrow> string" where
  "replace_pair a b c (x # y # s) = (if x = a \<and> y = b then c # replace_pair a b c s else x # replace_pair a b c (y # s))"
| "replace_pair a b c s = s"

definition unescape :: "string \<Rightarrow> string" where
  "unescape t = replace_pair CHR ''~'' CHR ''0'' CHR ''~'' (replace_pair CHR ''~'' CHR ''1'' CHR ''/'' t)"

definition token_of :: "string \<Rightarrow> string" where "token_of p = unescape (before CHR ''/'' (drop 1 p))"

definition rest_of :: "string \<Rightarrow> string" where
  "rest_of p = (let r = after CHR ''/'' (drop 1 p) in if r = [] then [] else CHR ''/'' # r)"

definition index_of :: "string \<Rightarrow> nat option" where
  "index_of t = (if t \<noteq> [] \<and> list_all is_digit t then Some (nat_of_digits t) else None)"

definition insert_at :: "nat \<Rightarrow> 'a \<Rightarrow> 'a list \<Rightarrow> 'a list" where
  "insert_at i x xs = take i xs @ x # drop i xs"

definition remove_at :: "nat \<Rightarrow> 'a list \<Rightarrow> 'a list" where
  "remove_at i xs = take i xs @ drop (i + 1) xs"

section \<open>Applying a patch\<close>

fun fold_result :: "('a \<Rightarrow> 'b \<Rightarrow> 'b result) \<Rightarrow> 'a list \<Rightarrow> 'b \<Rightarrow> 'b result" where
  "fold_result g [] r = Inr r"
| "fold_result g (x # xs) r = (case g x r of Inl e \<Rightarrow> Inl e | Inr r \<Rightarrow> fold_result g xs r)"

lemma fold_result_cong [fundef_cong]:
  "xs = ys \<Longrightarrow> r = q \<Longrightarrow> (\<And>x r. x \<in> set ys \<Longrightarrow> g x r = h x r) \<Longrightarrow> fold_result g xs r = fold_result h ys q"
  by (induction xs arbitrary: ys r q) (auto split: sum.split)

definition PATCH_DEPTH :: nat where "PATCH_DEPTH = 32"

definition append_values :: "json \<Rightarrow> json \<Rightarrow> json result" where
  "append_values root v =
     (case (root, v) of
        (JStr a, JStr b) \<Rightarrow> Inr (JStr (a @ b))
      | (JList a, JList b) \<Rightarrow> Inr (JList (a @ b))
      | (JObj a, JObj b) \<Rightarrow> Inr (JObj (fold (\<lambda>(k, x). dict_set k x) b a))
      | _ \<Rightarrow> Inl protocol)"

definition truncate_value :: "json \<Rightarrow> json \<Rightarrow> json result" where
  "truncate_value root v =
     (case v of
        JInt n \<Rightarrow>
          if n < 0 then Inl protocol
          else (case root of JStr s \<Rightarrow> Inr (JStr (take (nat n) s)) | JList xs \<Rightarrow> Inr (JList (take (nat n) xs))
                | _ \<Rightarrow> Inl protocol)
      | _ \<Rightarrow> Inl protocol)"

function (sequential) apply_patch :: "json \<Rightarrow> patch \<Rightarrow> nat \<Rightarrow> json result" where
  "apply_patch root pt depth =
     (if depth > PATCH_DEPTH then Inl protocol
      else if pt_p pt \<noteq> []
      then (if \<not> starts_with (pt_p pt) ''/'' then Inl protocol
            else let token = token_of (pt_p pt); rest = rest_of (pt_p pt); child = pt\<lparr>pt_p := rest\<rparr> in
              (case root of
                 JObj d \<Rightarrow>
                   if rest = [] \<and> pt_o pt = ''remove'' then Inr (JObj (dict_pop token d))
                   else (case apply_patch (field_or d token JNull) child (depth + 1) of
                           Inl x \<Rightarrow> Inl x | Inr v \<Rightarrow> Inr (JObj (dict_set token v d)))
               | JList xs \<Rightarrow>
                   (case index_of token of None \<Rightarrow> Inl protocol
                    | Some i \<Rightarrow>
                        if i > length xs then Inl protocol
                        else if rest = [] \<and> pt_o pt = ''add'' then Inr (JList (insert_at i (pt_v pt) xs))
                        else if i \<ge> length xs then Inl protocol
                        else if rest = [] \<and> pt_o pt = ''remove'' then Inr (JList (remove_at i xs))
                        else (case apply_patch (xs ! i) child (depth + 1) of
                                Inl x \<Rightarrow> Inl x | Inr v \<Rightarrow> Inr (JList (xs[i := v]))))
               | _ \<Rightarrow> Inl protocol))
      else if pt_o pt \<in> {''add'', ''replace''} then Inr (pt_v pt)
      else if pt_o pt = ''remove'' then Inr JNull
      else if pt_o pt = ''append'' then append_values root (pt_v pt)
      else if pt_o pt = ''truncate'' then truncate_value root (pt_v pt)
      else (case pt_v pt of
              JList items \<Rightarrow>
                if length items > 512 then Inl protocol
                else fold_result (\<lambda>item r. case parse_patch item default_patch of
                       Inl x \<Rightarrow> Inl x | Inr q \<Rightarrow> apply_patch r q (depth + 1)) items root
            | _ \<Rightarrow> Inl protocol))"
  by pat_completeness auto
termination
  by (relation "measure (\<lambda>(root, pt, depth). Suc PATCH_DEPTH - depth)") auto

declare apply_patch.simps [simp del]

section \<open>Channels\<close>

record channels =
  ch_previous :: patch
  ch_documents :: "(int, json) dict"

definition new_channels :: channels where
  "new_channels = \<lparr>ch_previous = default_patch, ch_documents = []\<rparr>"

definition update_channel :: "json \<Rightarrow> channels \<Rightarrow> ((int \<times> json) \<times> channels) result" where
  "update_channel value ch =
     (case parse_patch value (ch_previous ch) of Inl x \<Rightarrow> Inl x
      | Inr pt \<Rightarrow>
        if map_of (ch_documents ch) (pt_c pt) = None \<and> length (ch_documents ch) \<ge> 32 then Inl protocol
        else (case apply_patch (case map_of (ch_documents ch) (pt_c pt) of None \<Rightarrow> JNull | Some v \<Rightarrow> v) pt 0 of
                Inl x \<Rightarrow> Inl x
              | Inr v \<Rightarrow> Inr ((pt_c pt, v),
                  ch\<lparr>ch_previous := pt, ch_documents := dict_set (pt_c pt) v (ch_documents ch)\<rparr>)))"

section \<open>What a patch changes\<close>

lemma rest_of_shorter: "p \<noteq> [] \<Longrightarrow> length (rest_of p) < length p"
  using length_dropWhile_le [of "\<lambda>x. x \<noteq> CHR ''/''" "drop 1 p"]
  by (cases p) (auto simp: rest_of_def after_def Let_def)

function at_path :: "json \<Rightarrow> string \<Rightarrow> json option" where
  "at_path v p =
     (if p = [] then Some v
      else if \<not> starts_with p ''/'' then None
      else (case v of
        JObj d \<Rightarrow> (case map_of d (token_of p) of None \<Rightarrow> None | Some x \<Rightarrow> at_path x (rest_of p))
      | JList xs \<Rightarrow> (case index_of (token_of p) of None \<Rightarrow> None
          | Some i \<Rightarrow> if i < length xs then at_path (xs ! i) (rest_of p) else None)
      | _ \<Rightarrow> None))"
  by pat_completeness auto
termination
  by (relation "measure (\<lambda>(v, p). length p)") (auto dest: rest_of_shorter)

declare at_path.simps [simp del]

function tokens :: "string \<Rightarrow> string list" where
  "tokens p = (if p = [] then [] else token_of p # tokens (rest_of p))"
  by pat_completeness auto
termination
  by (relation "measure length") (auto dest: rest_of_shorter)

declare tokens.simps [simp del]

lemma tokens_Nil [simp]: "tokens [] = []"
  by (simp add: tokens.simps)

text \<open>Two paths that part at some step, in an object or in a list.\<close>

definition same_step :: "string \<Rightarrow> string \<Rightarrow> bool" where
  "same_step a b \<longleftrightarrow> a = b \<or> index_of a \<noteq> None \<and> index_of a = index_of b"

fun apart :: "string list \<Rightarrow> string list \<Rightarrow> bool" where
  "apart (a # as) (b # bs) \<longleftrightarrow> \<not> same_step a b \<or> apart as bs"
| "apart as bs \<longleftrightarrow> False"

lemma patch_at:
  assumes "at_path v p = Some x" "pt_o pt \<notin> {''add'', ''remove''}" "pt_p pt = p"
    and "depth + length (tokens p) \<le> PATCH_DEPTH"
    and "apply_patch x (pt\<lparr>pt_p := []\<rparr>) (depth + length (tokens p)) = Inr y"
  shows "\<exists>w. apply_patch v pt depth = Inr w \<and> at_path w p = Some y
    \<and> (\<forall>q. apart (tokens p) (tokens q) \<longrightarrow> at_path w q = at_path v q)"
  using assms
proof (induction v p arbitrary: depth pt rule: at_path.induct)
  case (1 v p)
  show ?case
  proof (cases "p = []")
    case True
    with 1(3,5,7) have "x = v" "pt\<lparr>pt_p := []\<rparr> = pt" by (auto simp: at_path.simps)
    with 1(7) True show ?thesis by (auto simp: at_path.simps tokens.simps)
  next
    case p: False
    with 1(3) have s: "starts_with p ''/''" by (auto simp: at_path.simps [of v p] split: if_splits)
    have t: "tokens p = token_of p # tokens (rest_of p)" using p by (simp add: tokens.simps)
    then have d: "\<not> depth > PATCH_DEPTH" "depth + 1 + length (tokens (rest_of p)) \<le> PATCH_DEPTH" using 1(6) by simp_all
    let ?c = "pt\<lparr>pt_p := rest_of p\<rparr>"
    have y: "apply_patch x (?c\<lparr>pt_p := []\<rparr>) (depth + 1 + length (tokens (rest_of p))) = Inr y" using 1(7) by (simp add: t)
    show ?thesis
    proof (cases v)
      case (JObj m)
      with 1(3) p s obtain z where z: "map_of m (token_of p) = Some z" "at_path z (rest_of p) = Some x"
        by (auto simp: at_path.simps [of "JObj m" p] split: option.splits)
      from 1(2) [OF p _ JObj z(1,2), of ?c "depth + 1"] s 1(4) d(2) y obtain w where
        w: "apply_patch z ?c (depth + 1) = Inr w" "at_path w (rest_of p) = Some y"
        and f: "\<forall>q. apart (tokens (rest_of p)) (tokens q) \<longrightarrow> at_path w q = at_path z q" by auto
      let ?w = "JObj (dict_set (token_of p) w m)"
      have "apply_patch v pt depth = Inr ?w"
        using 1(4,5) p s d(1) z(1) w(1) by (simp add: apply_patch.simps [of "JObj m" pt] JObj field_or_def Let_def)
      moreover have "at_path ?w p = Some y" using p s w(2) by (simp add: at_path.simps [of ?w p])
      moreover have "at_path ?w q = at_path v q" if "apart (tokens p) (tokens q)" for q
        using that f z(1) by (cases "q = []") (auto simp: t tokens.simps [of q] at_path.simps [of _ q] JObj same_step_def)
      ultimately show ?thesis by blast
    next
      case (JList xs)
      with 1(3) p s obtain i where i: "index_of (token_of p) = Some i" "i < length xs" "at_path (xs ! i) (rest_of p) = Some x"
        by (auto simp: at_path.simps [of "JList xs" p] split: option.splits if_splits)
      from 1(1) [OF p _ JList i(1,2,3), of ?c "depth + 1"] s 1(4) d(2) y obtain w where
        w: "apply_patch (xs ! i) ?c (depth + 1) = Inr w" "at_path w (rest_of p) = Some y"
        and f: "\<forall>q. apart (tokens (rest_of p)) (tokens q) \<longrightarrow> at_path w q = at_path (xs ! i) q" by auto
      let ?w = "JList (xs[i := w])"
      have "apply_patch v pt depth = Inr ?w"
        using 1(4,5) p s d(1) i(1,2) w(1) by (simp add: apply_patch.simps [of "JList xs" pt] JList Let_def)
      moreover have "at_path ?w p = Some y" using p s w(2) i(1,2) by (simp add: at_path.simps [of ?w p])
      moreover have "at_path ?w q = at_path v q" if "apart (tokens p) (tokens q)" for q
        using that f i(1,2) by (cases "q = []")
          (auto simp: t tokens.simps [of q] at_path.simps [of _ q] JList same_step_def nth_list_update split: option.split)
      ultimately show ?thesis by blast
    qed (use 1(3) p s in \<open>auto simp: at_path.simps [of _ p]\<close>)
  qed
qed

fun updates :: "json list \<Rightarrow> channels \<Rightarrow> channels result" where
  "updates [] ch = Inr ch"
| "updates (v # vs) ch = (case update_channel v ch of Inl x \<Rightarrow> Inl x | Inr (_, ch) \<Rightarrow> updates vs ch)"

definition more_text :: "string \<Rightarrow> json" where "more_text s = JObj [(''v'', JStr s)]"

lemma append_step:
  assumes "ch_previous ch = \<lparr>pt_p = p, pt_o = ''append'', pt_v = v0, pt_c = c\<rparr>" "map_of (ch_documents ch) c = Some doc"
    and "at_path doc p = Some (JStr t)" "length (tokens p) \<le> PATCH_DEPTH" "length p \<le> MAX_PATH" "0 \<le> c" "c \<le> MAX_CHANNEL"
  shows "\<exists>w. update_channel (more_text s) ch
      = Inr ((c, w), ch\<lparr>ch_previous := \<lparr>pt_p = p, pt_o = ''append'', pt_v = JStr s, pt_c = c\<rparr>,
                         ch_documents := dict_set c w (ch_documents ch)\<rparr>)
    \<and> at_path w p = Some (JStr (t @ s)) \<and> (\<forall>q. apart (tokens p) (tokens q) \<longrightarrow> at_path w q = at_path doc q)"
proof -
  let ?pt = "\<lparr>pt_p = p, pt_o = ''append'', pt_v = JStr s, pt_c = c\<rparr>"
  have "parse_patch (more_text s) (ch_previous ch) = Inr ?pt"
    using assms by (simp add: parse_patch_def more_text_def ai_mapping_def field_or_def OPERATIONS_def)
  moreover have "apply_patch (JStr t) (?pt\<lparr>pt_p := []\<rparr>) (0 + length (tokens p)) = Inr (JStr (t @ s))"
    using assms(4) by (simp add: apply_patch.simps append_values_def)
  ultimately show ?thesis
    using patch_at [of doc p "JStr t" ?pt 0] assms(2-4) by (auto simp: update_channel_def)
qed

text \<open>
  Property C38: the document the filter judges is the one the page will show.  After a patch that appends at
  a path, any run of patches that carry only more text, with the path, the operation and the channel left
  to the one before, leaves at that path the text that was there with all of theirs behind it, in order,
  changes nothing at any path that parts from it, and no other channel.
\<close>

theorem deltas_accumulate:
  assumes "ch_previous ch = \<lparr>pt_p = p, pt_o = ''append'', pt_v = v0, pt_c = c\<rparr>" "map_of (ch_documents ch) c = Some doc"
    and "at_path doc p = Some (JStr t)" "length (tokens p) \<le> PATCH_DEPTH" "length p \<le> MAX_PATH" "0 \<le> c" "c \<le> MAX_CHANNEL"
  shows "\<exists>ch' doc'. updates (map more_text ss) ch = Inr ch' \<and> map_of (ch_documents ch') c = Some doc'
    \<and> at_path doc' p = Some (JStr (t @ concat ss))
    \<and> (\<forall>q. apart (tokens p) (tokens q) \<longrightarrow> at_path doc' q = at_path doc q)
    \<and> (\<forall>k. k \<noteq> c \<longrightarrow> map_of (ch_documents ch') k = map_of (ch_documents ch) k)"
  using assms
proof (induction ss arbitrary: ch v0 doc t)
  case (Cons s ss)
  from append_step [OF Cons.prems, of s] obtain w where
    w: "update_channel (more_text s) ch
      = Inr ((c, w), ch\<lparr>ch_previous := \<lparr>pt_p = p, pt_o = ''append'', pt_v = JStr s, pt_c = c\<rparr>,
                         ch_documents := dict_set c w (ch_documents ch)\<rparr>)" (is "_ = Inr (_, ?ch)")
    and a: "at_path w p = Some (JStr (t @ s))" "\<And>q. apart (tokens p) (tokens q) \<Longrightarrow> at_path w q = at_path doc q"
    by blast
  have "ch_previous ?ch = \<lparr>pt_p = p, pt_o = ''append'', pt_v = JStr s, pt_c = c\<rparr>"
    "map_of (ch_documents ?ch) c = Some w" by simp_all
  from Cons.IH [OF this a(1) Cons.prems(4-7)] obtain ch' doc' where
    "updates (map more_text ss) ?ch = Inr ch'" "map_of (ch_documents ch') c = Some doc'"
    "at_path doc' p = Some (JStr ((t @ s) @ concat ss))"
    "\<forall>q. apart (tokens p) (tokens q) \<longrightarrow> at_path doc' q = at_path w q"
    "\<forall>k. k \<noteq> c \<longrightarrow> map_of (ch_documents ch') k = map_of (ch_documents ?ch) k" by blast
  then show ?case using w a(2) by simp
qed simp

definition example_channels :: channels where
  "example_channels =
     \<lparr>ch_previous = \<lparr>pt_p = ''/message/parts/0'', pt_o = ''append'', pt_v = JNull, pt_c = 0\<rparr>,
      ch_documents = [(0, JObj [(''id'', JInt 7), (''message'', JObj [(''parts'', JList [JStr ''Hel''])])])]\<rparr>"

lemma deltas_accumulate_witness:
  "\<exists>ch' doc'. updates (map more_text [''lo '', ''there'']) example_channels = Inr ch'
     \<and> map_of (ch_documents ch') 0 = Some doc' \<and> at_path doc' ''/message/parts/0'' = Some (JStr ''Hello there'')
     \<and> at_path doc' ''/id'' = Some (JInt 7)"
proof -
  let ?doc = "JObj [(''id'', JInt 7), (''message'', JObj [(''parts'', JList [JStr ''Hel''])])]"
  let ?p = "''/message/parts/0''"
  have t: "tokens ?p = [''message'', ''parts'', ''0'']" "tokens ''/id'' = [''id'']" by code_simp+
  have a: "at_path ?doc ?p = Some (JStr ''Hel'')" "at_path ?doc ''/id'' = Some (JInt 7)" by code_simp+
  have q: "apart (tokens ?p) (tokens ''/id'')" unfolding t by code_simp
  have c: "ch_previous example_channels = \<lparr>pt_p = ?p, pt_o = ''append'', pt_v = JNull, pt_c = 0\<rparr>"
    "map_of (ch_documents example_channels) 0 = Some ?doc" by (simp_all add: example_channels_def)
  have l: "length (tokens ?p) \<le> PATCH_DEPTH" "length ?p \<le> MAX_PATH" "0 \<le> (0 :: int)" "0 \<le> MAX_CHANNEL"
    unfolding t by (simp_all add: PATCH_DEPTH_def MAX_PATH_def MAX_CHANNEL_def)
  show ?thesis using deltas_accumulate [OF c a(1) l, of "[''lo '', ''there'']"] q a(2) by auto
qed

end
