(* ===== verification/AiLines.thy ===== *)
theory AiLines
  imports AiDelta
begin

text \<open>
  ChatGPT's conversation as one JSON object a line: \<open>LineStream\<close> of \<open>kosherd/src/kosherd/ai_lines.py\<close>.
  The callback that notes a refusal is the list of the reasons noted.
\<close>

definition BLOCKED_TEXT :: string where
  "BLOCKED_TEXT = ''This answer was not shown. It did not pass the filter set for this account.''"
definition MAX_LINES :: nat where "MAX_LINES = 100000"

record line_stream =
  ln_buffer :: string
  ln_markdown :: "(string, text_stream) dict"
  ln_snapshots :: "(string, doc) dict"
  ln_blocked :: "string list"
  ln_count :: nat
  ln_notes :: "string list"

definition new_line_stream :: line_stream where
  "new_line_stream =
     \<lparr>ln_buffer = [], ln_markdown = [], ln_snapshots = [], ln_blocked = [], ln_count = 0, ln_notes = []\<rparr>"

text \<open>What \<open>except OutputBlocked\<close> takes.\<close>

definition is_blocked_error :: "string \<Rightarrow> bool" where "is_blocked_error x \<longleftrightarrow> x \<noteq> wrong_type"

definition clean_doc :: "ai_filters \<Rightarrow> doc \<Rightarrow> doc result" where
  "clean_doc f d = (case ai_clean f [] 0 (JObj d) of Inl x \<Rightarrow> Inl x | Inr w \<Rightarrow> ai_mapping w)"

definition blank_doc :: "ai_filters \<Rightarrow> doc \<Rightarrow> doc result" where
  "blank_doc f d = (case ai_blank f [] 0 (JObj d) of Inl x \<Rightarrow> Inl x | Inr w \<Rightarrow> ai_mapping w)"

section \<open>The renderer's snapshot\<close>

definition check_constant :: "ai_filters \<Rightarrow> string \<times> json \<Rightarrow> (string \<times> json) result" where
  "check_constant f e =
     (case e of (k, v) \<Rightarrow>
        (case (case v of JStr s \<Rightarrow> (case ai_string f s of Inl x \<Rightarrow> Inl x | Inr r \<Rightarrow> Inr (JStr r)) | _ \<Rightarrow> ai_clean f [] 0 v) of
           Inl x \<Rightarrow> Inl x | Inr w \<Rightarrow> Inr (k, w)))"

definition hold_last :: "ai_filters \<Rightarrow> doc \<Rightarrow> doc" where
  "hold_last f d =
     (if d = [] then d
      else (case last d of (k, JStr s) \<Rightarrow> butlast d @ [(k, JStr (withhold f s))] | _ \<Rightarrow> d))"

definition snapshot_entry :: "ai_filters \<Rightarrow> bool \<Rightarrow> string \<times> json \<Rightarrow> (string \<times> json \<times> json) result" where
  "snapshot_entry f is_streaming e =
     (case e of (k, v) \<Rightarrow>
        (case v of
           JObj d \<Rightarrow>
             if k = ''constants''
             then (case every (check_constant f) d of Inl x \<Rightarrow> Inl x
                   | Inr r \<Rightarrow> Inr (k, JObj r, JObj (if is_streaming then hold_last f r else r)))
             else (case ai_clean f k 0 v of Inl x \<Rightarrow> Inl x | Inr w \<Rightarrow> Inr (k, w, w))
         | JStr s \<Rightarrow>
             if k = ''fallbackMarkdown''
             then (case ai_string f s of Inl x \<Rightarrow> Inl x
                   | Inr r \<Rightarrow> Inr (k, JStr r, JStr (if is_streaming then withhold f r else r)))
             else (case ai_clean f k 0 v of Inl x \<Rightarrow> Inl x | Inr w \<Rightarrow> Inr (k, w, w))
         | _ \<Rightarrow> (case ai_clean f k 0 v of Inl x \<Rightarrow> Inl x | Inr w \<Rightarrow> Inr (k, w, w))))"

text \<open>\<open>_snapshot\<close>: complete, and with the tail held back.\<close>

definition check_snapshot :: "ai_filters \<Rightarrow> bool \<Rightarrow> doc \<Rightarrow> (doc \<times> doc) result" where
  "check_snapshot f is_streaming d =
     (case every (snapshot_entry f is_streaming) d of Inl x \<Rightarrow> Inl x
      | Inr r \<Rightarrow> Inr (map (\<lambda>(k, full, kept). (k, full)) r, map (\<lambda>(k, full, kept). (k, kept)) r))"

section \<open>The notice\<close>

definition notice_snapshot :: "doc \<Rightarrow> doc \<Rightarrow> doc" where
  "notice_snapshot original s =
     (let s = (case map_of original ''code'' of Some (JStr c) \<Rightarrow> dict_set ''code'' (JStr c) s | _ \<Rightarrow> s);
          s = (case map_of s ''constants'' of
                 Some (JObj ((k, v) # c)) \<Rightarrow> dict_set ''constants'' (JObj ((k, JStr BLOCKED_TEXT) # c)) s
               | _ \<Rightarrow> s) in
      if map_of s ''fallbackMarkdown'' \<noteq> None then dict_set ''fallbackMarkdown'' (JStr BLOCKED_TEXT) s else s)"

definition notice_doc :: "ai_filters \<Rightarrow> bool \<Rightarrow> doc \<Rightarrow> doc result" where
  "notice_doc f first data =
     (case blank_doc f data of Inl x \<Rightarrow> Inl x
      | Inr line \<Rightarrow>
        let line = dict_set ''markdown'' (JStr (if first then BLOCKED_TEXT else [])) line in
        Inr (case (map_of line ''dil'', map_of data ''dil'') of
               (Some (JObj s), Some (JObj original)) \<Rightarrow> dict_set ''dil'' (JObj (notice_snapshot original s)) line
             | _ \<Rightarrow> line))"

definition line_of :: "ai_filters \<Rightarrow> doc \<Rightarrow> string" where "line_of f d = ai_dumps f (JObj d) @ [LF]"

definition notice :: "ai_filters \<Rightarrow> bool \<Rightarrow> doc \<Rightarrow> string result" where
  "notice f first data = (case notice_doc f first data of Inl x \<Rightarrow> Inl x | Inr d \<Rightarrow> Inr (line_of f d))"

section \<open>A line of content\<close>

definition message_of :: "ai_filters \<Rightarrow> doc \<Rightarrow> string" where
  "message_of f data =
     (case map_of data ''messageId'' of None \<Rightarrow> [] | Some (JStr s) \<Rightarrow> s | Some v \<Rightarrow> ai_repr f v)"

definition is_streaming_line :: "doc \<Rightarrow> bool" where
  "is_streaming_line data \<longleftrightarrow> map_of data ''status'' = Some (JStr ''streaming'')"

definition stream_of :: "string \<Rightarrow> doc \<Rightarrow> line_stream \<Rightarrow> text_stream" where
  "stream_of m data ls =
     (if map_of data ''mode'' = Some (JStr ''replace'') then new_stream
      else (case map_of (ln_markdown ls) m of None \<Rightarrow> new_stream | Some ts \<Rightarrow> ts))"

text \<open>The snapshot of a line, if it has one, and the snapshots kept for the message.\<close>

definition line_snapshot ::
  "ai_filters \<Rightarrow> string \<Rightarrow> doc \<Rightarrow> line_stream \<Rightarrow> (json option \<times> (string, doc) dict) result" where
  "line_snapshot f m data ls =
     (case map_of data ''dil'' of
        Some (JObj d) \<Rightarrow> (case check_snapshot f (is_streaming_line data) d of Inl x \<Rightarrow> Inl x
          | Inr (full, kept) \<Rightarrow> Inr (Some (JObj kept), dict_set m full (ln_snapshots ls)))
      | Some JNull \<Rightarrow> Inr (None, ln_snapshots ls)
      | other \<Rightarrow> Inr (other, ln_snapshots ls))"

text \<open>The markdown let out with a line, and the stream after it: none once the message is complete.\<close>

definition line_markdown :: "ai_filters \<Rightarrow> bool \<Rightarrow> string \<Rightarrow> text_stream \<Rightarrow> (string \<times> text_stream option) result" where
  "line_markdown f is_streaming text ts =
     (case push f (ai_string f) text ts of Inl x \<Rightarrow> Inl x
      | Inr (out, ts) \<Rightarrow>
        if is_streaming then Inr (out, Some ts)
        else (case finish (ai_string f) ts of Inl x \<Rightarrow> Inl x | Inr (rest, _) \<Rightarrow> Inr (out @ rest, None)))"

definition checked_content :: "ai_filters \<Rightarrow> string \<Rightarrow> doc \<Rightarrow> line_stream \<Rightarrow> (doc \<times> line_stream) result" where
  "checked_content f m data ls =
     (case map_of data ''markdown'' of
        Some (JStr text) \<Rightarrow>
          (case line_markdown f (is_streaming_line data) text (stream_of m data ls) of Inl x \<Rightarrow> Inl x
           | Inr (out, ts) \<Rightarrow>
             (case line_snapshot f m data ls of Inl x \<Rightarrow> Inl x
              | Inr (shot, shots) \<Rightarrow>
                let is_done = \<not> is_streaming_line data;
                    shot = (if is_done \<and> shot = None then map_option JObj (map_of shots m) else shot);
                    shots = (if is_done then dict_pop m shots else shots) in
                (case clean_doc f (filter (\<lambda>(k, v). k \<notin> {''markdown'', ''dil''}) data) of Inl x \<Rightarrow> Inl x
                 | Inr d \<Rightarrow>
                   let d = dict_set ''markdown'' (JStr out) d;
                       d = (case shot of None \<Rightarrow> d | Some v \<Rightarrow> dict_set ''dil'' v d) in
                   Inr (d, ls\<lparr>ln_markdown := (case ts of None \<Rightarrow> dict_pop m (ln_markdown ls)
                                              | Some ts \<Rightarrow> dict_set m ts (ln_markdown ls)),
                              ln_snapshots := shots\<rparr>))))
      | _ \<Rightarrow> Inl protocol)"

definition content_line :: "ai_filters \<Rightarrow> doc \<Rightarrow> line_stream \<Rightarrow> (string \<times> line_stream) result" where
  "content_line f data ls =
     (let m = message_of f data in
      if m \<in> set (ln_blocked ls) then (case notice f False data of Inl x \<Rightarrow> Inl x | Inr s \<Rightarrow> Inr (s, ls))
      else (case checked_content f m data ls of
              Inr (d, ls) \<Rightarrow> Inr (line_of f d, ls)
            | Inl x \<Rightarrow>
                if \<not> is_blocked_error x then Inl x
                else (case notice f True data of Inl y \<Rightarrow> Inl y
                      | Inr s \<Rightarrow> Inr (s, ls\<lparr>ln_blocked := m # ln_blocked ls, ln_markdown := dict_pop m (ln_markdown ls),
                                         ln_snapshots := dict_pop m (ln_snapshots ls), ln_notes := ln_notes ls @ [x]\<rparr>))))"

section \<open>Any line\<close>

definition other_line :: "ai_filters \<Rightarrow> doc \<Rightarrow> line_stream \<Rightarrow> (string \<times> line_stream) result" where
  "other_line f data ls =
     (case clean_doc f data of
        Inr d \<Rightarrow> Inr (line_of f d, ls)
      | Inl x \<Rightarrow>
          if \<not> is_blocked_error x then Inl x
          else (case blank_doc f data of Inl y \<Rightarrow> Inl y
                | Inr d \<Rightarrow> Inr (line_of f d, ls\<lparr>ln_notes := ln_notes ls @ [x]\<rparr>)))"

definition stream_line :: "ai_filters \<Rightarrow> string \<Rightarrow> line_stream \<Rightarrow> (string \<times> line_stream) result" where
  "stream_line f raw ls =
     (if strip byte_space raw = [] then Inr (raw @ [LF], ls)
      else let ls = ls\<lparr>ln_count := ln_count ls + 1\<rparr> in
        if ln_count ls > MAX_LINES then Inl protocol
        else (case ai_parse f raw of Inl x \<Rightarrow> Inl x
              | Inr v \<Rightarrow> (case ai_mapping v of Inl x \<Rightarrow> Inl x
                | Inr data \<Rightarrow>
                    if map_of data ''type'' = Some (JStr ''content'') then content_line f data ls
                    else other_line f data ls)))"

text \<open>One output for each of a list of inputs, the state handed on.\<close>

fun thread :: "('a \<Rightarrow> 's \<Rightarrow> ('b \<times> 's) result) \<Rightarrow> 'a list \<Rightarrow> 's \<Rightarrow> ('b list \<times> 's) result" where
  "thread g [] s = Inr ([], s)"
| "thread g (x # xs) s =
     (case g x s of Inl e \<Rightarrow> Inl e
      | Inr (y, s) \<Rightarrow> (case thread g xs s of Inl e \<Rightarrow> Inl e | Inr (ys, s) \<Rightarrow> Inr (y # ys, s)))"

lemma thread_cong [fundef_cong]:
  "xs = ys \<Longrightarrow> s = t \<Longrightarrow> (\<And>x s. x \<in> set ys \<Longrightarrow> g x s = h x s) \<Longrightarrow> thread g xs s = thread h ys t"
  by (induction xs arbitrary: ys s t) (auto split: sum.split prod.split)

definition lines_feed :: "ai_filters \<Rightarrow> string \<Rightarrow> line_stream \<Rightarrow> (string \<times> line_stream) result" where
  "lines_feed f chunk ls =
     (case line_feed chunk (ln_buffer ls) of Inl x \<Rightarrow> Inl x
      | Inr (raws, rest) \<Rightarrow> (case thread (stream_line f) raws (ls\<lparr>ln_buffer := rest\<rparr>) of Inl x \<Rightarrow> Inl x
          | Inr (outs, ls) \<Rightarrow> Inr (concat outs, ls)))"

definition lines_finish :: "ai_filters \<Rightarrow> line_stream \<Rightarrow> (string \<times> line_stream) result" where
  "lines_finish f ls =
     (case thread (stream_line f) (line_finish (ln_buffer ls)) (ls\<lparr>ln_buffer := []\<rparr>) of Inl x \<Rightarrow> Inl x
      | Inr (outs, ls) \<Rightarrow> Inr (concat outs, ls))"

section \<open>An answer from its first line to its last\<close>

definition markdown_of :: "doc \<Rightarrow> string" where
  "markdown_of d = (case map_of d ''markdown'' of Some (JStr s) \<Rightarrow> s | _ \<Rightarrow> [])"

definition replaces :: "doc \<Rightarrow> bool" where "replaces d \<longleftrightarrow> map_of d ''mode'' = Some (JStr ''replace'')"

text \<open>Lines of content that all pass, of any messages, and those of one of them with what became of each.\<close>

abbreviation contents :: "ai_filters \<Rightarrow> doc list \<Rightarrow> line_stream \<Rightarrow> (doc list \<times> line_stream) result" where
  "contents f \<equiv> thread (\<lambda>d. checked_content f (message_of f d) d)"

definition lines_of :: "ai_filters \<Rightarrow> string \<Rightarrow> doc list \<Rightarrow> doc list" where
  "lines_of f m datas = filter (\<lambda>d. message_of f d = m) datas"

definition shown_of :: "ai_filters \<Rightarrow> string \<Rightarrow> doc list \<Rightarrow> doc list \<Rightarrow> string" where
  "shown_of f m datas docs = concat (map (markdown_of \<circ> snd) (filter (\<lambda>(d, _). message_of f d = m) (zip datas docs)))"

definition entry :: "string \<Rightarrow> line_stream \<Rightarrow> text_stream" where
  "entry m ls = (case map_of (ln_markdown ls) m of None \<Rightarrow> new_stream | Some ts \<Rightarrow> ts)"

lemma thread_append:
  "thread g (xs @ ys) s =
     (case thread g xs s of Inl e \<Rightarrow> Inl e
      | Inr (ys1, s) \<Rightarrow> (case thread g ys s of Inl e \<Rightarrow> Inl e | Inr (ys2, s) \<Rightarrow> Inr (ys1 @ ys2, s)))"
  by (induction xs arbitrary: s) (auto split: sum.splits prod.splits)

lemma thread_length: "thread g xs s = Inr (ys, t) \<Longrightarrow> length ys = length xs"
  by (induction xs arbitrary: s ys) (auto split: sum.splits)

lemma checked_contentE:
  assumes "checked_content f m data ls = Inr (d, ls')"
  obtains out ts where "line_markdown f (is_streaming_line data) (markdown_of data) (stream_of m data ls) = Inr (out, ts)"
    "markdown_of d = out"
    "ln_markdown ls' = (case ts of None \<Rightarrow> dict_pop m (ln_markdown ls) | Some ts \<Rightarrow> dict_set m ts (ln_markdown ls))"
proof -
  from assms obtain x where t: "map_of data ''markdown'' = Some (JStr x)"
    by (auto simp: checked_content_def split: option.splits json.splits)
  then have md: "markdown_of data = x" by (simp add: markdown_of_def)
  from assms t obtain out ts where
    l: "line_markdown f (is_streaming_line data) x (stream_of m data ls) = Inr (out, ts)"
    by (auto simp: checked_content_def split: sum.splits)
  from assms t l obtain shot shots where sh: "line_snapshot f m data ls = Inr (shot, shots)"
    by (auto simp: checked_content_def split: sum.splits)
  have "ln_markdown ls' = (case ts of None \<Rightarrow> dict_pop m (ln_markdown ls) | Some ts \<Rightarrow> dict_set m ts (ln_markdown ls))"
    using assms by (simp add: checked_content_def t l sh Let_def split: sum.splits) (auto split: option.splits)
  moreover have "markdown_of d = out"
    using assms by (simp add: checked_content_def t l sh Let_def split: sum.splits) (auto simp: markdown_of_def split: option.splits)
  ultimately show thesis using that l md by simp
qed

lemma line_streamed:
  assumes "checked_content f m data ls = Inr (d, ls')" "is_streaming_line data" "stream_of m data ls = entry m ls"
  shows "push f (ai_string f) (markdown_of data) (entry m ls) = Inr (markdown_of d, entry m ls')"
  using assms(1)
proof (rule checked_contentE)
  fix out ts
  assume "line_markdown f (is_streaming_line data) (markdown_of data) (stream_of m data ls) = Inr (out, ts)"
    "markdown_of d = out"
    "ln_markdown ls' = (case ts of None \<Rightarrow> dict_pop m (ln_markdown ls) | Some ts \<Rightarrow> dict_set m ts (ln_markdown ls))"
  then show ?thesis
    using assms(2,3) by (auto simp: line_markdown_def entry_def split: sum.splits)
qed

lemma line_finished:
  assumes "checked_content f m data ls = Inr (d, ls')" "\<not> is_streaming_line data" "stream_of m data ls = entry m ls"
  shows "\<exists>out rest ts ts'. push f (ai_string f) (markdown_of data) (entry m ls) = Inr (out, ts)
    \<and> finish (ai_string f) ts = Inr (rest, ts') \<and> markdown_of d = out @ rest"
  using assms(1)
proof (rule checked_contentE)
  fix out ts
  assume "line_markdown f (is_streaming_line data) (markdown_of data) (stream_of m data ls) = Inr (out, ts)"
    "markdown_of d = out"
  then show ?thesis
    using assms(2,3) by (auto simp: line_markdown_def split: sum.splits)
qed

lemma other_message: "checked_content f m' data ls = Inr (d, ls') \<Longrightarrow> m' \<noteq> m \<Longrightarrow> entry m ls' = entry m ls"
  by (erule checked_contentE) (auto simp: entry_def split: option.splits)

lemma not_replaced: "\<not> replaces d \<Longrightarrow> stream_of m d ls = entry m ls"
  by (simp add: stream_of_def entry_def replaces_def)

lemma first_line: "map_of (ln_markdown ls) m = None \<Longrightarrow> stream_of m d ls = entry m ls"
  by (simp add: stream_of_def entry_def)

lemma contents_streamed:
  assumes "contents f datas ls = Inr (docs, ls')"
    and "\<forall>d \<in> set (lines_of f m datas). is_streaming_line d \<and> \<not> replaces d"
  shows "\<exists>outs. pushes f (ai_string f) (map markdown_of (lines_of f m datas)) (entry m ls) = Inr (outs, entry m ls')
    \<and> concat outs = shown_of f m datas docs"
  using assms
proof (induction datas arbitrary: ls docs)
  case (Cons data datas)
  from Cons.prems(1) obtain d l ds where one: "checked_content f (message_of f data) data ls = Inr (d, l)"
    and rest: "contents f datas l = Inr (ds, ls')" and docs: "docs = d # ds"
    by (auto split: sum.splits)
  from Cons.IH [OF rest] Cons.prems(2) obtain outs where
    o: "pushes f (ai_string f) (map markdown_of (lines_of f m datas)) (entry m l) = Inr (outs, entry m ls')"
      "concat outs = shown_of f m datas ds"
    by (auto simp: lines_of_def)
  show ?case
  proof (cases "message_of f data = m")
    case True
    then have "is_streaming_line data" "\<not> replaces data" using Cons.prems(2) by (auto simp: lines_of_def)
    with True one have "push f (ai_string f) (markdown_of data) (entry m ls) = Inr (markdown_of d, entry m l)"
      using line_streamed not_replaced by blast
    with o True show ?thesis by (simp add: lines_of_def shown_of_def docs)
  next
    case False
    with o other_message [OF one False] show ?thesis by (simp add: lines_of_def shown_of_def docs)
  qed
qed (simp add: lines_of_def shown_of_def)

lemma pushes_append:
  "pushes f g (xs @ ys) ts =
     (case pushes f g xs ts of Inl e \<Rightarrow> Inl e
      | Inr (ys1, ts) \<Rightarrow> (case pushes f g ys ts of Inl e \<Rightarrow> Inl e | Inr (ys2, ts) \<Rightarrow> Inr (ys1 @ ys2, ts)))"
  by (induction xs arbitrary: ts) (auto split: sum.splits prod.splits)

text \<open>
  Property C35: an answer that passes is, from its first line to its last, the check's version of the whole
  answer.  Whatever lines of other messages come between, and however the answer was cut into lines,
  what its lines show together is what the check makes of all their text together.
\<close>

theorem finished_answer_checked:
  assumes "contents f (first # datas @ [final]) ls = Inr (docs, ls')" "map_of (ln_markdown ls) m = None"
    and "message_of f first = m" "is_streaming_line first"
    and "\<forall>d \<in> set (lines_of f m datas). is_streaming_line d \<and> \<not> replaces d"
    and "message_of f final = m" "\<not> is_streaming_line final" "\<not> replaces final"
  shows "ai_string f (concat (map markdown_of (lines_of f m (first # datas @ [final]))))
    = Inr (shown_of f m (first # datas @ [final]) docs)"
proof -
  from assms(1) obtain d1 l1 ds l2 dn where
    one: "checked_content f m first ls = Inr (d1, l1)" and mid: "contents f datas l1 = Inr (ds, l2)"
    and fin: "checked_content f m final l2 = Inr (dn, ls')" and docs: "docs = d1 # ds @ [dn]"
    by (auto simp: thread_append assms(3,6) split: sum.splits)
  have e: "entry m ls = new_stream" using assms(2) by (simp add: entry_def)
  have p1: "push f (ai_string f) (markdown_of first) new_stream = Inr (markdown_of d1, entry m l1)"
    using line_streamed [OF one assms(4) first_line [OF assms(2)]] e by simp
  obtain outs where p2: "pushes f (ai_string f) (map markdown_of (lines_of f m datas)) (entry m l1) = Inr (outs, entry m l2)"
    and o: "concat outs = shown_of f m datas ds"
    using contents_streamed [OF mid assms(5)] by blast
  obtain out rest ts ts' where p3: "push f (ai_string f) (markdown_of final) (entry m l2) = Inr (out, ts)"
    "finish (ai_string f) ts = Inr (rest, ts')" "markdown_of dn = out @ rest"
    using line_finished [OF fin assms(7) not_replaced [OF assms(8)]] by blast
  have "pushes f (ai_string f) (markdown_of first # map markdown_of (lines_of f m datas) @ [markdown_of final]) new_stream
      = Inr (markdown_of d1 # outs @ [out], ts)"
    using p1 p2 p3(1) by (simp add: pushes_append)
  from stream_total [OF this p3(2)] show ?thesis
    using assms(3,6) thread_length [OF mid]
    by (simp add: lines_of_def shown_of_def docs o [symmetric] p3(3)) (simp add: shown_of_def o)
qed

definition example_lines :: "doc list" where
  "example_lines =
     [[(''markdown'', JStr ''Hi! ''), (''status'', JStr ''streaming'')],
      [(''markdown'', JStr ''there!''), (''status'', JStr ''done'')]]"

lemma finished_answer_checked_witness:
  "\<exists>docs ls. contents example_filters example_lines new_line_stream = Inr (docs, ls)
     \<and> shown_of example_filters [] example_lines docs = ''Hi. there.''"
proof -
  let ?f = example_filters and ?g = "ai_string example_filters"
  let ?a = "[(''markdown'', JStr ''Hi! ''), (''status'', JStr ''streaming'')]"
    and ?b = "[(''markdown'', JStr ''there!''), (''status'', JStr ''done'')]"
  have n: "\<not> sublist ''bikini'' ''Hi! ''" "\<not> sublist ''bikini'' ''Hi! there!''" by code_simp+
  have m: "count_marks ''Hi! '' = 0" "count_marks ''Hi! there!'' = 0" by code_simp+
  have g: "?g ''Hi! '' = Inr ''Hi. ''" "?g ''Hi! there!'' = Inr ''Hi. there.''"
    using n m by (simp_all add: plain_string example_check)
  have p: "push ?f ?g ''Hi! '' \<lparr>ts_raw = [], ts_released = []\<rparr> = Inr ([], \<lparr>ts_raw = ''Hi! '', ts_released = []\<rparr>)"
    "push ?f ?g ''there!'' \<lparr>ts_raw = ''Hi! '', ts_released = []\<rparr> = Inr ([], \<lparr>ts_raw = ''Hi! there!'', ts_released = []\<rparr>)"
    by (simp_all add: example_push g)
  have e: "finish ?g \<lparr>ts_raw = ''Hi! there!'', ts_released = []\<rparr>
      = Inr (''Hi. there.'', \<lparr>ts_raw = ''Hi! there!'', ts_released = ''Hi. there.''\<rparr>)"
    by (simp add: finish_def g starts_with_def)
  have k: "\<not> prefix_nocase image_mark ''streaming''" "\<not> prefix_nocase image_mark ''done''" by code_simp+
  have c: "clean_doc ?f [(''status'', JStr s)] = Inr [(''status'', JStr s)]" if "\<not> prefix_nocase image_mark s" for s
    using that
    by (simp add: clean_doc_def ai_mapping_def ai_clean.simps AI_MAX_DEPTH_def is_tool_call_def child_field_def ALL_TEXT_def
        TEXT_TABLES_def EMBEDDED_JSON_def TEXT_FIELDS_def IMAGE_FIELDS_def clean_data_def)
  let ?s = "new_line_stream\<lparr>ln_markdown := [([], \<lparr>ts_raw = ''Hi! '', ts_released = []\<rparr>)]\<rparr>"
  have l1: "checked_content ?f [] ?a new_line_stream = Inr ([(''status'', JStr ''streaming''), (''markdown'', JStr [])], ?s)"
    by (simp add: checked_content_def line_markdown_def is_streaming_line_def stream_of_def new_line_stream_def new_stream_def
        p line_snapshot_def c k Let_def)
  have l2: "checked_content ?f [] ?b ?s = Inr ([(''status'', JStr ''done''), (''markdown'', JStr ''Hi. there.'')], new_line_stream)"
    by (simp add: checked_content_def line_markdown_def is_streaming_line_def stream_of_def new_line_stream_def
        p e line_snapshot_def c k Let_def dict_pop_def)
  have t: "contents ?f (?a # [] @ [?b]) new_line_stream
      = Inr ([[(''status'', JStr ''streaming''), (''markdown'', JStr [])],
              [(''status'', JStr ''done''), (''markdown'', JStr ''Hi. there.'')]], new_line_stream)"
    using l1 l2 by (simp add: message_of_def)
  have "?g (concat (map markdown_of (lines_of ?f [] (?a # [] @ [?b])))) = Inr (shown_of ?f [] (?a # [] @ [?b])
      [[(''status'', JStr ''streaming''), (''markdown'', JStr [])], [(''status'', JStr ''done''), (''markdown'', JStr ''Hi. there.'')]])"
    by (rule finished_answer_checked [OF t])
      (simp_all add: new_line_stream_def message_of_def is_streaming_line_def replaces_def lines_of_def)
  then show ?thesis
    using t by (simp add: example_lines_def lines_of_def message_of_def markdown_of_def g)
qed

end
