(* ===== verification/AiApi.thy ===== *)
theory AiApi
  imports AiLines
begin

text \<open>
  The events of AI programming interfaces: \<open>ai_generic.py\<close> and \<open>ai_api.py\<close> under \<open>kosherd/src/kosherd\<close>, that is
  the prose of a shape nobody taught the filter, and the events of Anthropic's, OpenAI's and Google's
  protocols.  Letters and spaces are those of ASCII.  A key of a stream is a value of \<open>api_key\<close>, a tuple that
  begins with a word of its own in the code; Python's \<open>True\<close> and \<open>1\<close> are one key (\<open>dict_key\<close>), and a
  list or an object is none at all.  The closure that builds an event of a stream is a value of \<open>template\<close>.
\<close>

section \<open>Prose of an unknown shape\<close>

definition SCORE_WINDOW :: nat where "SCORE_WINDOW = 200000"

definition is_prose :: "ai_filters \<Rightarrow> string \<Rightarrow> bool" where
  "is_prose f s =
     (let t = strip is_space s in
      t \<noteq> [] \<and> (list_ex is_space t \<or> list_all is_letter t \<and> word_listed f t))"

definition last_chars :: "nat \<Rightarrow> string \<Rightarrow> string" where
  "last_chars n s = drop (length s - n) s"

definition generic_string :: "ai_filters \<Rightarrow> string \<Rightarrow> string \<Rightarrow> (string \<times> string) result" where
  "generic_string f v context =
     bind_result (ai_string f v) (\<lambda>checked.
     let context = last_chars SCORE_WINDOW (context @ [LF] @ v) in
     bind_result (text_check f context) (\<lambda>_. Inr (checked, context)))"

definition generic_text :: "ai_filters \<Rightarrow> string \<Rightarrow> string \<Rightarrow> (string \<times> string) result" where
  "generic_text f v context = (if is_prose f v then generic_string f v context else Inr (v, context))"

text \<open>The document, and the prose of the stream so far.\<close>

function (sequential) generic_clean :: "ai_filters \<Rightarrow> string \<Rightarrow> nat \<Rightarrow> json \<Rightarrow> string \<Rightarrow> (json \<times> string) result" where
  "generic_clean f field n v context =
     (if n > AI_MAX_DEPTH then Inl protocol
      else (case v of
        JStr s \<Rightarrow>
          if field \<in> set EMBEDDED_JSON
          then (case ai_loads f s of
                  None \<Rightarrow> (case generic_text f s context of Inl x \<Rightarrow> Inl x | Inr (r, c) \<Rightarrow> Inr (JStr r, c))
                | Some inner \<Rightarrow> (case generic_clean f [] (n + 1) inner context of Inl x \<Rightarrow> Inl x
                    | Inr (w, c) \<Rightarrow> Inr (JStr (ai_dumps f w), c)))
          else if field \<in> set IMAGE_FIELDS
          then (case image_base64 f s of Inl x \<Rightarrow> Inl x | Inr r \<Rightarrow> Inr (JStr r, context))
          else if prefix_nocase image_mark s
          then (case image_data_uri f s of Inl x \<Rightarrow> Inl x | Inr r \<Rightarrow> Inr (JStr r, context))
          else (case generic_text f s context of Inl x \<Rightarrow> Inl x | Inr (r, c) \<Rightarrow> Inr (JStr r, c))
      | JList xs \<Rightarrow> (case thread (generic_clean f field (n + 1)) xs context of Inl x \<Rightarrow> Inl x
                    | Inr (ys, c) \<Rightarrow> Inr (JList ys, c))
      | JObj d \<Rightarrow>
          (case thread (\<lambda>(k, x) c. case generic_clean f k (n + 1) x c of Inl e \<Rightarrow> Inl e | Inr (y, c) \<Rightarrow> Inr ((k, y), c)) d context of
             Inl x \<Rightarrow> Inl x | Inr (r, c) \<Rightarrow> Inr (JObj r, c))
      | _ \<Rightarrow> Inr (v, context)))"
  by pat_completeness auto
termination
  by (relation "measure (\<lambda>(f, field, n, v, context). Suc AI_MAX_DEPTH - n)") auto

declare generic_clean.simps [simp del]

section \<open>The state of one generation\<close>

definition ANTHROPIC :: "string list" where
  "ANTHROPIC =
     [''message_start'', ''content_block_start'', ''content_block_delta'', ''content_block_stop'',
      ''message_delta'', ''message_stop'', ''ping'', ''error'', ''completion'']"
definition RESPONSES_TEXT :: "(string \<times> string) list" where
  "RESPONSES_TEXT =
     [(''response.output_text'', ''text''), (''response.reasoning_summary_text'', ''text''),
      (''response.reasoning_text'', ''text''), (''response.refusal'', ''refusal'')]"
definition RESPONSES_ARGUMENTS :: "(string \<times> string) list" where
  "RESPONSES_ARGUMENTS =
     [(''response.function_call_arguments'', ''arguments''), (''response.custom_tool_call_input'', ''input'')]"
definition STREAM_KEYS :: "string list" where
  "STREAM_KEYS = [''item_id'', ''output_index'', ''content_index'', ''summary_index'']"
definition MAX_STREAMS :: nat where "MAX_STREAMS = 256"
definition MAX_INPUT :: nat where "MAX_INPUT = 1000000"

datatype api_key =
  Completion | Block int | Responses string "json list" | Arguments string json json | Chat json string
| Chat_call json json | Gemini json

datatype template =
  Completion_event | Block_event int string | Responses_event doc string | Chat_event json json string | Gemini_event json

definition dict_key :: "json \<Rightarrow> json" where
  "dict_key v = (case v of JBool b \<Rightarrow> JInt (if b then 1 else 0) | _ \<Rightarrow> v)"

definition hashable :: "json \<Rightarrow> bool" where
  "hashable v = (case v of JList xs \<Rightarrow> False | JObj d \<Rightarrow> False | _ \<Rightarrow> True)"

fun key_ok :: "api_key \<Rightarrow> bool" where
  "key_ok (Responses p xs) = list_all hashable xs"
| "key_ok (Arguments p i j) = (hashable i \<and> hashable j)"
| "key_ok (Chat i k) = hashable i"
| "key_ok (Chat_call i j) = (hashable i \<and> hashable j)"
| "key_ok (Gemini i) = hashable i"
| "key_ok _ = True"

definition api_get :: "api_key \<Rightarrow> (api_key, 'v) dict \<Rightarrow> 'v option result" where
  "api_get k d = (if key_ok k then Inr (map_of d k) else Inl wrong_type)"

text \<open>\<open>d.pop(k, None)\<close>, which does not hash its key when the dictionary is empty.\<close>

definition api_pop :: "api_key \<Rightarrow> (api_key, 'v) dict \<Rightarrow> ('v option \<times> (api_key, 'v) dict) result" where
  "api_pop k d =
     (if d = [] then Inr (None, d) else if key_ok k then Inr (map_of d k, dict_pop k d) else Inl wrong_type)"

text \<open>With the arguments of a call is the index of the call as it came first.\<close>

record api =
  ap_context :: string
  ap_streams :: "(api_key, text_stream \<times> template) dict"
  ap_inputs :: "(api_key, json \<times> string) dict"
  ap_ended :: bool

definition new_api :: api where
  "new_api = \<lparr>ap_context = [], ap_streams = [], ap_inputs = [], ap_ended = False\<rparr>"

definition optional :: "doc \<Rightarrow> string \<Rightarrow> json" where
  "optional d k = (case map_of d k of None \<Rightarrow> JNull | Some v \<Rightarrow> v)"

definition call_index :: "doc \<Rightarrow> json" where
  "call_index d = (case map_of d ''index'' of None \<Rightarrow> JInt 0 | Some v \<Rightarrow> v)"

definition type_in :: "doc \<Rightarrow> string list \<Rightarrow> bool result" where
  "type_in d xs =
     (case optional d ''type'' of
        JStr s \<Rightarrow> Inr (s \<in> set xs) | JList ys \<Rightarrow> Inl wrong_type | JObj x \<Rightarrow> Inl wrong_type | _ \<Rightarrow> Inr False)"

fun event_of :: "template \<Rightarrow> string \<Rightarrow> doc" where
  "event_of Completion_event t = [(''type'', JStr ''completion''), (''completion'', JStr t)]"
| "event_of (Block_event i fl) t =
     [(''type'', JStr ''content_block_delta''), (''index'', JInt i),
      (''delta'', JObj [(''type'', JStr (fl @ ''_delta'')), (fl, JStr t)])]"
| "event_of (Responses_event base ty) t = dict_set ''delta'' (JStr t) (dict_set ''type'' (JStr ty) base)"
| "event_of (Chat_event ident i fl) t =
     [(''id'', ident), (''object'', JStr ''chat.completion.chunk''),
      (''choices'', JList [JObj [(''index'', i), (''delta'', JObj [(fl, JStr t)]), (''finish_reason'', JNull)]])]"
| "event_of (Gemini_event i) t =
     [(''candidates'', JList [JObj [(''index'', i), (''content'', JObj [(''role'', JStr ''model''),
        (''parts'', JList [JObj [(''text'', JStr t)]])])]])]"

section \<open>Streams and arguments\<close>

text \<open>
  \<open>_stream(key, template).push(text)\<close>; with \<open>is_last\<close>, also \<open>finish()\<close>, and the stream removed.
\<close>

definition stream_push ::
  "ai_filters \<Rightarrow> api_key \<Rightarrow> template \<Rightarrow> bool \<Rightarrow> string \<Rightarrow> api \<Rightarrow> (string \<times> api) result" where
  "stream_push f k t is_last text st =
     bind_result (api_get k (ap_streams st)) (\<lambda>found.
     if found = None \<and> length (ap_streams st) \<ge> MAX_STREAMS then Inl protocol
     else let (ts, t) = (case found of None \<Rightarrow> (new_stream, t) | Some p \<Rightarrow> p) in
       bind_result (push f (ai_string f) text ts) (\<lambda>(out, ts).
       if is_last
       then bind_result (finish (ai_string f) ts) (\<lambda>(rest, _).
              Inr (out @ rest, st\<lparr>ap_streams := dict_pop k (ap_streams st)\<rparr>))
       else Inr (out, st\<lparr>ap_streams := dict_set k (ts, t) (ap_streams st)\<rparr>)))"

fun flush :: "ai_filters \<Rightarrow> api_key list \<Rightarrow> api \<Rightarrow> (doc list \<times> api) result" where
  "flush f [] st = Inr ([], st)"
| "flush f (k # ks) st =
     bind_result (api_pop k (ap_streams st)) (\<lambda>(found, streams).
     let st = st\<lparr>ap_streams := streams\<rparr> in
     case found of
       None \<Rightarrow> flush f ks st
     | Some (ts, t) \<Rightarrow>
         bind_result (finish (ai_string f) ts) (\<lambda>(text, _).
         bind_result (flush f ks st) (\<lambda>(out, st).
         Inr ((if text = [] then [] else [event_of t text]) @ out, st))))"

definition hold :: "api_key \<Rightarrow> json \<Rightarrow> json \<Rightarrow> api \<Rightarrow> api result" where
  "hold k i part st =
     (case part of
        JStr s \<Rightarrow>
          if length (ap_inputs st) \<ge> 128 then Inl protocol
          else bind_result (api_get k (ap_inputs st)) (\<lambda>found.
            let (j, old) = (case found of None \<Rightarrow> (i, []) | Some p \<Rightarrow> p) in
            if length (old @ s) > MAX_INPUT then Inl protocol
            else Inr (st\<lparr>ap_inputs := dict_set k (j, old @ s) (ap_inputs st)\<rparr>))
      | _ \<Rightarrow> Inl protocol)"

definition arguments :: "ai_filters \<Rightarrow> string \<Rightarrow> json" where
  "arguments f s = (case ai_loads f s of None \<Rightarrow> JStr s | Some v \<Rightarrow> v)"

definition api_finish :: "ai_filters \<Rightarrow> api \<Rightarrow> (doc list \<times> api) result" where
  "api_finish f st = (if ap_inputs st \<noteq> [] then Inl protocol else flush f (keys (ap_streams st)) st)"

section \<open>Anthropic's messages\<close>

definition completion_event :: "ai_filters \<Rightarrow> doc \<Rightarrow> api \<Rightarrow> (doc list \<times> api) result" where
  "completion_event f data st =
     (case optional data ''completion'' of
        JStr v \<Rightarrow>
          let is_last = truthy (optional data ''stop_reason'') in
          bind_result (stream_push f Completion Completion_event is_last v st) (\<lambda>(out, st).
          Inr ([dict_set ''completion'' (JStr out) data], st\<lparr>ap_ended := ap_ended st \<or> is_last\<rparr>))
      | _ \<Rightarrow> Inl protocol)"

definition block_index :: "doc \<Rightarrow> int result" where
  "block_index data =
     (case call_index data of JInt i \<Rightarrow> if i < 0 \<or> i > 1024 then Inl protocol else Inr i | _ \<Rightarrow> Inl protocol)"

definition block_event :: "ai_filters \<Rightarrow> string \<Rightarrow> doc \<Rightarrow> int \<Rightarrow> api \<Rightarrow> (doc list \<times> api) result" where
  "block_event f field data i st =
     bind_result (ai_mapping (optional data field)) (\<lambda>block.
     bind_result (type_in block [''tool_use'', ''server_tool_use'']) (\<lambda>call.
     bind_result (if call then tool f (JObj block) else Inr ()) (\<lambda>_.
     if optional block ''type'' = JStr ''input_json_delta''
     then bind_result (hold (Block i) (JInt i) (optional block ''partial_json'') st) (\<lambda>st.
       Inr ([dict_set field (JObj (dict_set ''partial_json'' (JStr []) block)) data], st))
     else bind_result (type_in block [''thinking'', ''thinking_delta'']) (\<lambda>thinking.
       let fl = (if thinking then ''thinking'' else ''text'') in
       case optional block fl of
         JStr v \<Rightarrow>
           bind_result (stream_push f (Block i) (Block_event i fl) False v st) (\<lambda>(out, st).
           Inr ([dict_set field (JObj (dict_set fl (JStr out) block)) data], st))
       | _ \<Rightarrow> bind_result (clean_doc f data) (\<lambda>d. Inr ([d], st))))))"

definition input_delta :: "int \<Rightarrow> string \<Rightarrow> doc" where
  "input_delta i s =
     [(''type'', JStr ''content_block_delta''), (''index'', JInt i),
      (''delta'', JObj [(''type'', JStr ''input_json_delta''), (''partial_json'', JStr s)])]"

definition stop_block :: "ai_filters \<Rightarrow> int \<Rightarrow> api \<Rightarrow> (doc list \<times> api) result" where
  "stop_block f i st =
     bind_result (flush f [Block i] st) (\<lambda>(out, st).
     bind_result (api_pop (Block i) (ap_inputs st)) (\<lambda>(found, inputs).
     let st = st\<lparr>ap_inputs := inputs\<rparr> in
     case found of
       None \<Rightarrow> Inr (out, st)
     | Some (_, whole) \<Rightarrow>
         bind_result (ai_parse f whole) (\<lambda>v.
         bind_result (tool f v) (\<lambda>_. Inr (out @ [input_delta i whole], st)))))"

definition stop_message :: "ai_filters \<Rightarrow> api \<Rightarrow> (doc list \<times> api) result" where
  "stop_message f st =
     bind_result (api_finish f st) (\<lambda>(out, st). Inr (out, st\<lparr>ap_ended := True\<rparr>))"

definition anthropic_event :: "ai_filters \<Rightarrow> string \<Rightarrow> doc \<Rightarrow> api \<Rightarrow> (doc list \<times> api) result" where
  "anthropic_event f ty data st =
     (if ty = ''completion'' then completion_event f data st
      else bind_result (block_index data) (\<lambda>i.
        if ty = ''content_block_start'' then block_event f ''content_block'' data i st
        else if ty = ''content_block_delta'' then block_event f ''delta'' data i st
        else bind_result (if ty = ''content_block_stop'' then stop_block f i st
                          else if ty = ''message_stop'' then stop_message f st
                          else Inr ([], st)) (\<lambda>(out, st).
          bind_result (clean_doc f data) (\<lambda>d. Inr (out @ [d], st)))))"

section \<open>OpenAI's responses\<close>

definition stream_base :: "doc \<Rightarrow> doc" where
  "stream_base data = concat (map (\<lambda>n. case map_of data n of None \<Rightarrow> [] | Some v \<Rightarrow> [(n, v)]) STREAM_KEYS)"

definition responses_key :: "string \<Rightarrow> doc \<Rightarrow> api_key" where
  "responses_key p data = Responses p (map (\<lambda>n. dict_key (optional data n)) STREAM_KEYS)"

definition arguments_key :: "string \<Rightarrow> doc \<Rightarrow> api_key" where
  "arguments_key p data = Arguments p (dict_key (optional data ''item_id'')) (dict_key (optional data ''output_index''))"

definition responses_text :: "ai_filters \<Rightarrow> string \<Rightarrow> string \<Rightarrow> string \<Rightarrow> doc \<Rightarrow> api \<Rightarrow> (doc list \<times> api) result" where
  "responses_text f ty p fl data st =
     (if ty = p @ ''.delta''
      then (case optional data ''delta'' of
              JStr v \<Rightarrow>
                bind_result (stream_push f (responses_key p data) (Responses_event (stream_base data) ty) False v st) (\<lambda>(out, st).
                Inr ([dict_set ''delta'' (JStr out) data], st))
            | _ \<Rightarrow> Inl protocol)
      else bind_result (flush f [responses_key p data] st) (\<lambda>(out, st).
        case optional data fl of
          JStr v \<Rightarrow> bind_result (ai_string f v) (\<lambda>r. Inr (out @ [dict_set fl (JStr r) data], st))
        | _ \<Rightarrow> Inr (out @ [data], st)))"

definition responses_arguments :: "ai_filters \<Rightarrow> string \<Rightarrow> string \<Rightarrow> string \<Rightarrow> doc \<Rightarrow> api \<Rightarrow> (doc list \<times> api) result" where
  "responses_arguments f ty p fl data st =
     (if ty = p @ ''.delta''
      then bind_result (hold (arguments_key p data) JNull (optional data ''delta'') st) (\<lambda>st.
        Inr ([dict_set ''delta'' (JStr []) data], st))
      else bind_result (api_pop (arguments_key p data) (ap_inputs st)) (\<lambda>(_, inputs).
        let st = st\<lparr>ap_inputs := inputs\<rparr> in
        case optional data fl of
          JStr v \<Rightarrow>
            bind_result (tool f (arguments f v)) (\<lambda>_.
            Inr ([dict_set ''delta'' (JStr v) (dict_set ''type'' (JStr (p @ ''.delta'')) (stream_base data)), data], st))
        | _ \<Rightarrow> Inr ([data], st)))"

definition responses_object :: "ai_filters \<Rightarrow> string \<Rightarrow> doc \<Rightarrow> api \<Rightarrow> (doc list \<times> api) result" where
  "responses_object f ty data st =
     (case optional data ''response'' of
        JObj r \<Rightarrow>
          bind_result (if optional r ''output'' = JNull then Inr r
                       else bind_result (ai_clean f ''output'' 0 (optional r ''output'')) (\<lambda>w. Inr (dict_set ''output'' w r))) (\<lambda>r.
          Inr ([dict_set ''response'' (JObj r) data],
            st\<lparr>ap_ended := ap_ended st \<or> ty \<in> {''response.completed'', ''response.failed'', ''response.incomplete''}\<rparr>))
      | _ \<Rightarrow> bind_result (clean_doc f data) (\<lambda>d. Inr ([d], st)))"

text \<open>Which of the streams an event's type names.\<close>

definition names_stream :: "string \<Rightarrow> string \<times> string \<Rightarrow> bool" where
  "names_stream ty e = (ty = fst e @ ''.delta'' \<or> ty = fst e @ ''.done'')"

definition responses_event :: "ai_filters \<Rightarrow> string \<Rightarrow> doc \<Rightarrow> api \<Rightarrow> (doc list \<times> api) result" where
  "responses_event f ty data st =
     (case find (names_stream ty) RESPONSES_TEXT of
        Some (p, fl) \<Rightarrow> responses_text f ty p fl data st
      | None \<Rightarrow>
        (case find (names_stream ty) RESPONSES_ARGUMENTS of
           Some (p, fl) \<Rightarrow> responses_arguments f ty p fl data st
         | None \<Rightarrow> responses_object f ty data st))"

section \<open>OpenAI's chat completions\<close>

definition chat_field ::
  "ai_filters \<Rightarrow> json \<Rightarrow> json \<Rightarrow> string \<Rightarrow> doc \<times> api \<Rightarrow> (unit \<times> (doc \<times> api)) result" where
  "chat_field f ident index fl s =
     (case s of (delta, st) \<Rightarrow>
        (case optional delta fl of
           JStr v \<Rightarrow>
             bind_result (stream_push f (Chat (dict_key index) fl) (Chat_event ident index fl) False v st) (\<lambda>(out, st).
             Inr ((), (dict_set fl (JStr out) delta, st)))
         | _ \<Rightarrow> Inr ((), (delta, st))))"

definition chat_call :: "json \<Rightarrow> json \<Rightarrow> api \<Rightarrow> (json \<times> api) result" where
  "chat_call index v st =
     bind_result (ai_mapping v) (\<lambda>call.
     case optional call ''function'' of
       JObj fn \<Rightarrow>
         (case optional fn ''arguments'' of
            JStr s \<Rightarrow>
              bind_result (hold (Chat_call (dict_key index) (dict_key (call_index call))) (call_index call) (JStr s) st) (\<lambda>st.
              Inr (JObj (dict_set ''function'' (JObj (dict_set ''arguments'' (JStr []) fn)) call), st))
          | _ \<Rightarrow> Inr (JObj call, st))
     | _ \<Rightarrow> Inr (JObj call, st))"

definition chat_delta :: "ai_filters \<Rightarrow> json \<Rightarrow> json \<Rightarrow> doc \<Rightarrow> api \<Rightarrow> (doc \<times> api) result" where
  "chat_delta f ident index delta st =
     bind_result (thread (chat_field f ident index) [''content'', ''reasoning_content'', ''reasoning''] (delta, st)) (\<lambda>(_, delta, st).
     case optional delta ''tool_calls'' of
       JList calls \<Rightarrow>
         bind_result (thread (chat_call index) calls st) (\<lambda>(calls, st).
         Inr (dict_set ''tool_calls'' (JList calls) delta, st))
     | _ \<Rightarrow> Inr (delta, st))"

definition call_delta :: "json \<Rightarrow> json \<Rightarrow> json \<Rightarrow> string \<Rightarrow> doc" where
  "call_delta ident index j s =
     [(''id'', ident), (''object'', JStr ''chat.completion.chunk''),
      (''choices'', JList [JObj [(''index'', index), (''finish_reason'', JNull),
        (''delta'', JObj [(''tool_calls'', JList [JObj [(''index'', j), (''function'', JObj [(''arguments'', JStr s)])]])])]])]"

definition release_call :: "ai_filters \<Rightarrow> json \<Rightarrow> json \<Rightarrow> api_key \<Rightarrow> api \<Rightarrow> (doc \<times> api) result" where
  "release_call f ident index k st =
     (case map_of (ap_inputs st) k of
        None \<Rightarrow> Inl ''KeyError''
      | Some (j, s) \<Rightarrow>
          bind_result (tool f (arguments f s)) (\<lambda>_.
          Inr (call_delta ident index j s, st\<lparr>ap_inputs := dict_pop k (ap_inputs st)\<rparr>)))"

fun of_choice :: "json \<Rightarrow> api_key \<Rightarrow> bool" where
  "of_choice index (Chat i k) = (i = dict_key index)"
| "of_choice index (Chat_call i j) = (i = dict_key index)"
| "of_choice index _ = False"

definition end_choice :: "ai_filters \<Rightarrow> json \<Rightarrow> json \<Rightarrow> api \<Rightarrow> (doc list \<times> api) result" where
  "end_choice f ident index st =
     bind_result (flush f (filter (of_choice index) (keys (ap_streams st))) st) (\<lambda>(out, st).
     bind_result (thread (release_call f ident index) (filter (of_choice index) (keys (ap_inputs st))) st) (\<lambda>(calls, st).
     Inr (out @ calls, st)))"

definition chat_choice :: "ai_filters \<Rightarrow> json \<Rightarrow> json \<Rightarrow> api \<Rightarrow> ((json \<times> doc list) \<times> api) result" where
  "chat_choice f ident v st =
     bind_result (ai_mapping v) (\<lambda>c.
     let index = call_index c in
     bind_result (case optional c ''delta'' of
         JObj delta \<Rightarrow> bind_result (chat_delta f ident index delta st) (\<lambda>(delta, st). Inr (dict_set ''delta'' (JObj delta) c, st))
       | _ \<Rightarrow> Inr (c, st)) (\<lambda>(c, st).
     bind_result (case optional c ''message'' of
         JObj m \<Rightarrow> bind_result (ai_clean f ''message'' 0 (JObj m)) (\<lambda>w. Inr (dict_set ''message'' w c))
       | _ \<Rightarrow> Inr c) (\<lambda>c.
     bind_result (if truthy (optional c ''finish_reason'') then end_choice f ident index st else Inr ([], st)) (\<lambda>(out, st).
     Inr ((JObj c, out), st)))))"

definition chat_event :: "ai_filters \<Rightarrow> json list \<Rightarrow> doc \<Rightarrow> api \<Rightarrow> (doc list \<times> api) result" where
  "chat_event f choices data st =
     bind_result (thread (chat_choice f (optional data ''id'')) choices st) (\<lambda>(done_choices, st).
     Inr (concat (map snd done_choices) @ [dict_set ''choices'' (JList (map fst done_choices)) data], st))"

section \<open>Gemini\<close>

definition gemini_part :: "ai_filters \<Rightarrow> json \<Rightarrow> string \<Rightarrow> (json list \<times> string) result" where
  "gemini_part f v text =
     bind_result (ai_mapping v) (\<lambda>part.
     case optional part ''text'' of
       JStr s \<Rightarrow> Inr ([], text @ s)
     | _ \<Rightarrow>
         bind_result (if map_of part ''functionCall'' \<noteq> None then tool f (JObj part) else Inr ()) (\<lambda>_.
         bind_result (clean_doc f part) (\<lambda>d. Inr ([JObj d], text))))"

definition gemini_candidate :: "ai_filters \<Rightarrow> json \<Rightarrow> api \<Rightarrow> (json \<times> api) result" where
  "gemini_candidate f v st =
     bind_result (ai_mapping v) (\<lambda>c.
     let index = call_index c in
     case optional c ''content'' of
       JObj content \<Rightarrow>
         (case optional content ''parts'' of
            JList parts \<Rightarrow>
              bind_result (thread (gemini_part f) parts []) (\<lambda>(kept, text).
              bind_result (stream_push f (Gemini (dict_key index)) (Gemini_event index) (truthy (optional c ''finishReason'')) text st)
                (\<lambda>(out, st).
              Inr (JObj (dict_set ''content''
                (JObj (dict_set ''parts'' (JList (concat kept @ [JObj [(''text'', JStr out)]])) content)) c), st)))
          | _ \<Rightarrow> Inr (JObj c, st))
     | _ \<Rightarrow> Inr (JObj c, st))"

definition gemini_event :: "ai_filters \<Rightarrow> json list \<Rightarrow> doc \<Rightarrow> api \<Rightarrow> (doc list \<times> api) result" where
  "gemini_event f xs data st =
     bind_result (thread (gemini_candidate f) xs st) (\<lambda>(cs, st).
     Inr ([dict_set ''candidates'' (JList cs) data], st))"

section \<open>Any event\<close>

definition generic_doc :: "ai_filters \<Rightarrow> json \<Rightarrow> api \<Rightarrow> (json \<times> api) result" where
  "generic_doc f v st =
     bind_result (generic_clean f [] 0 v (ap_context st)) (\<lambda>(w, context). Inr (w, st\<lparr>ap_context := context\<rparr>))"

definition shaped_event :: "ai_filters \<Rightarrow> doc \<Rightarrow> api \<Rightarrow> (doc list \<times> api) result" where
  "shaped_event f data st =
     (case optional data ''choices'' of
        JList choices \<Rightarrow> chat_event f choices data st
      | _ \<Rightarrow>
        (case optional data ''candidates'' of
           JList xs \<Rightarrow> gemini_event f xs data st
         | _ \<Rightarrow> bind_result (generic_doc f (JObj data) st) (\<lambda>(w, st).
             bind_result (ai_mapping w) (\<lambda>d. Inr ([d], st)))))"

definition api_event :: "ai_filters \<Rightarrow> doc \<Rightarrow> api \<Rightarrow> (doc list \<times> api) result" where
  "api_event f data st =
     (case optional data ''type'' of
        JStr ty \<Rightarrow>
          if ty \<in> set ANTHROPIC then anthropic_event f ty data st
          else if starts_with ty ''response.'' then responses_event f ty data st
          else shaped_event f data st
      | _ \<Rightarrow> shaped_event f data st)"

section \<open>A stream of events, and one of lines\<close>

definition MAX_EVENTS :: nat where "MAX_EVENTS = 100000"

record api_stream =
  as_api :: api
  as_decoder :: sse
  as_named :: bool
  as_events :: nat

definition new_api_stream :: api_stream where
  "new_api_stream = \<lparr>as_api = new_api, as_decoder = new_sse, as_named = False, as_events = 0\<rparr>"

definition api_encode :: "ai_filters \<Rightarrow> bool \<Rightarrow> doc \<Rightarrow> string" where
  "api_encode f named d =
     encode_data (ai_dumps f (JObj d)) (case optional d ''type'' of JStr ty \<Rightarrow> if named then [''event: '' @ ty] else [] | _ \<Rightarrow> [])"

definition unread_event :: "ai_filters \<Rightarrow> event \<Rightarrow> string \<Rightarrow> api_stream \<Rightarrow> (string \<times> api_stream) result" where
  "unread_event f ev payload s =
     bind_result (generic_text f payload (ap_context (as_api s))) (\<lambda>(r, context).
     Inr (encode_data r ev, s\<lparr>as_api := (as_api s)\<lparr>ap_context := context\<rparr>\<rparr>))"

definition read_event :: "ai_filters \<Rightarrow> bool \<Rightarrow> event \<Rightarrow> json \<Rightarrow> api_stream \<Rightarrow> (string \<times> api_stream) result" where
  "read_event f lenient ev v s =
     (case v of
        JObj d \<Rightarrow>
          bind_result (api_event f d (as_api s)) (\<lambda>(outs, st).
          Inr (concat (map (api_encode f (as_named s)) (butlast outs)) @ encode_data (ai_dumps f (JObj (last outs))) ev,
               s\<lparr>as_api := st\<rparr>))
      | _ \<Rightarrow>
          if \<not> lenient then Inl protocol
          else bind_result (generic_doc f v (as_api s)) (\<lambda>(w, st). Inr (encode_data (ai_dumps f w) ev, s\<lparr>as_api := st\<rparr>)))"

definition stream_event :: "ai_filters \<Rightarrow> bool \<Rightarrow> event \<Rightarrow> api_stream \<Rightarrow> (string \<times> api_stream) result" where
  "stream_event f lenient ev s =
     bind_result (event_data (ai_utf8 f) ev) (\<lambda>payload.
     case payload of
       None \<Rightarrow> Inr (encode ev, s)
     | Some p \<Rightarrow>
         if strip is_space p = ''[DONE]''
         then bind_result (api_finish f (as_api s)) (\<lambda>(outs, st).
                Inr (concat (map (api_encode f (as_named s)) outs) @ encode ev, s\<lparr>as_api := st\<rparr>))
         else bind_result (event_name (ai_utf8 f) ev) (\<lambda>nm.
           let s = s\<lparr>as_named := (nm \<noteq> ''message'')\<rparr> in
           case ai_loads f p of
             None \<Rightarrow> if \<not> lenient then Inl protocol else unread_event f ev p s
           | Some v \<Rightarrow> read_event f lenient ev v s))"

definition count_event :: "ai_filters \<Rightarrow> bool \<Rightarrow> event \<Rightarrow> api_stream \<Rightarrow> (string \<times> api_stream) result" where
  "count_event f lenient ev s =
     (let s = s\<lparr>as_events := as_events s + 1\<rparr> in
      if as_events s > MAX_EVENTS then Inl protocol else stream_event f lenient ev s)"

definition api_stream_feed :: "ai_filters \<Rightarrow> bool \<Rightarrow> string \<Rightarrow> api_stream \<Rightarrow> (string \<times> api_stream) result" where
  "api_stream_feed f lenient chunk s =
     bind_result (sse_feed chunk (as_decoder s)) (\<lambda>(evs, d).
     bind_result (thread (count_event f lenient) evs (s\<lparr>as_decoder := d\<rparr>)) (\<lambda>(outs, s). Inr (concat outs, s)))"

definition api_stream_finish :: "ai_filters \<Rightarrow> api_stream \<Rightarrow> (string \<times> api_stream) result" where
  "api_stream_finish f s =
     bind_result (sse_finish (as_decoder s)) (\<lambda>_.
     bind_result (api_finish f (as_api s)) (\<lambda>(outs, st).
     Inr (concat (map (api_encode f (as_named s)) outs), s\<lparr>as_api := st\<rparr>)))"

record api_lines =
  al_api :: api
  al_buffer :: string
  al_lines :: nat

definition new_api_lines :: api_lines where
  "new_api_lines = \<lparr>al_api = new_api, al_buffer = [], al_lines = 0\<rparr>"

definition api_line :: "ai_filters \<Rightarrow> bool \<Rightarrow> string \<Rightarrow> api_lines \<Rightarrow> (string \<times> api_lines) result" where
  "api_line f lenient raw s =
     (if strip byte_space raw = [] then Inr (raw @ [LF], s)
      else let s = s\<lparr>al_lines := al_lines s + 1\<rparr> in
        if al_lines s > MAX_LINES then Inl protocol
        else (case ai_loads f raw of
          None \<Rightarrow>
            if \<not> lenient then Inl protocol
            else bind_result (generic_text f (ai_lossy f raw) (ap_context (al_api s))) (\<lambda>(r, context).
              Inr (r @ [LF], s\<lparr>al_api := (al_api s)\<lparr>ap_context := context\<rparr>\<rparr>))
        | Some (JObj d) \<Rightarrow>
            bind_result (api_event f d (al_api s)) (\<lambda>(outs, st).
            Inr (concat (map (line_of f) outs), s\<lparr>al_api := st\<rparr>))
        | Some v \<Rightarrow>
            if \<not> lenient then Inl protocol
            else bind_result (generic_doc f v (al_api s)) (\<lambda>(w, st). Inr (ai_dumps f w @ [LF], s\<lparr>al_api := st\<rparr>))))"

definition api_lines_feed :: "ai_filters \<Rightarrow> bool \<Rightarrow> string \<Rightarrow> api_lines \<Rightarrow> (string \<times> api_lines) result" where
  "api_lines_feed f lenient chunk s =
     bind_result (line_feed chunk (al_buffer s)) (\<lambda>(raws, rest).
     bind_result (thread (api_line f lenient) raws (s\<lparr>al_buffer := rest\<rparr>)) (\<lambda>(outs, s). Inr (concat outs, s)))"

definition api_lines_finish :: "ai_filters \<Rightarrow> bool \<Rightarrow> api_lines \<Rightarrow> (string \<times> api_lines) result" where
  "api_lines_finish f lenient s =
     bind_result (thread (api_line f lenient) (line_finish (al_buffer s)) (s\<lparr>al_buffer := []\<rparr>)) (\<lambda>(outs, s).
     bind_result (api_finish f (al_api s)) (\<lambda>(items, st).
     Inr (concat outs @ concat (map (line_of f) items), s\<lparr>al_api := st\<rparr>)))"

end
