(* ===== verification/AiBlocks.thy ===== *)
theory AiBlocks
  imports AiApi
begin

text \<open>
  What the events of an answer's blocks show: the text of a block as a whole is checked, and the arguments
  of a tool are let out only when complete and checked.  The lemmas before are about what a cleaned
  document keeps, and about which streams an event leaves alone.
\<close>

section \<open>What a clean leaves of a document\<close>

lemma every_fields:
  assumes "every (\<lambda>(k, x). case g k x of Inl e \<Rightarrow> Inl e | Inr y \<Rightarrow> Inr (k, y)) d = Inr r"
  shows "case map_of d k of None \<Rightarrow> map_of r k = None | Some x \<Rightarrow> \<exists>y. g k x = Inr y \<and> map_of r k = Some y"
  using assms by (induction d arbitrary: r) (auto split: sum.splits option.splits)

lemma clean_data_fields:
  assumes "clean_data f d r = Inr q" "k \<noteq> ''data''" "k \<noteq> ''media_type''" shows "map_of q k = map_of r k"
  using assms by (auto simp: clean_data_def Let_def split: option.splits json.splits if_splits sum.splits)

lemma clean_fields:
  assumes "ai_clean f fld n (JObj d) = Inr w" "k \<noteq> ''data''" "k \<noteq> ''media_type''"
  obtains r where "w = JObj r"
    "map_of r k = map_of d k \<or> (\<exists>x y. map_of d k = Some x \<and> ai_clean f (child_field fld k) (n + 1) x = Inr y \<and> map_of r k = Some y)"
proof -
  have n: "\<not> n > AI_MAX_DEPTH" using assms(1) by (auto simp: ai_clean.simps split: if_splits)
  consider (call) "is_tool_call d = Inr True" | (walk) "is_tool_call d = Inr False"
    using assms(1) n by (auto simp: ai_clean.simps [of f fld n] split: sum.splits)
  then show thesis
  proof cases
    case call
    then show thesis
      using assms(1) n that [of d] by (auto simp: ai_clean.simps [of f fld n] split: sum.splits)
  next
    case walk
    then obtain r q where r: "every (\<lambda>(k, x). case ai_clean f (child_field fld k) (n + 1) x of Inl e \<Rightarrow> Inl e | Inr y \<Rightarrow> Inr (k, y)) d = Inr r"
      and q: "clean_data f d r = Inr q" "w = JObj q"
      using assms(1) n by (auto simp: ai_clean.simps [of f fld n] split: sum.splits)
    show thesis
      using every_fields [OF r, of k] clean_data_fields [OF q(1) assms(2,3)] that [OF q(2)] by (auto split: option.splits)
  qed
qed

lemma clean_scalar: "ai_clean f k n v = Inr w \<Longrightarrow> (case v of JStr s \<Rightarrow> \<exists>t. w = JStr t | JList xs \<Rightarrow> \<exists>ys. w = JList ys
    | JObj d \<Rightarrow> \<exists>e. w = JObj e | _ \<Rightarrow> w = v)"
  by (subst (asm) ai_clean.simps) (auto split: json.splits if_splits sum.splits option.splits bool.splits)

lemma data_uri_mark: "image_data_uri f s = Inr r \<Longrightarrow> prefix_nocase image_mark s \<Longrightarrow> prefix_nocase image_mark r"
  by (auto simp: image_data_uri_def image_mark_def prefix_nocase_def split: if_splits sum.splits) (simp_all add: lower_def lower_char_def)

lemma clean_type:
  assumes "ai_clean f fld n (JObj d) = Inr (JObj r)" "child_field fld ''type'' = ''type''" "\<not> prefix_nocase image_mark w"
  shows "optional r ''type'' = JStr w \<longleftrightarrow> optional d ''type'' = JStr w"
  using assms(1)
proof (rule clean_fields [of _ _ _ _ _ "''type''"])
  fix q
  assume q: "JObj r = JObj q" and "map_of q ''type'' = map_of d ''type'' \<or> (\<exists>x y. map_of d ''type'' = Some x
    \<and> ai_clean f (child_field fld ''type'') (n + 1) x = Inr y \<and> map_of q ''type'' = Some y)"
  then consider "map_of r ''type'' = map_of d ''type''"
    | x y where "map_of d ''type'' = Some x" "ai_clean f ''type'' (n + 1) x = Inr y" "map_of r ''type'' = Some y"
    using assms(2) by auto
  then show ?thesis
  proof cases
    case (2 x y)
    have "y = JStr w \<longleftrightarrow> x = JStr w"
    proof (cases x)
      case (JStr s)
      show ?thesis
      proof (cases "prefix_nocase image_mark s")
        case True
        with 2(2) JStr obtain t where "y = JStr t" "image_data_uri f s = Inr t"
          by (auto simp: ai_clean.simps EMBEDDED_JSON_def TEXT_FIELDS_def ALL_TEXT_def IMAGE_FIELDS_def split: if_splits sum.splits)
        with True JStr assms(3) show ?thesis using data_uri_mark by auto
      next
        case False
        with 2(2) JStr show ?thesis
          by (auto simp: ai_clean.simps EMBEDDED_JSON_def TEXT_FIELDS_def ALL_TEXT_def IMAGE_FIELDS_def split: if_splits sum.splits)
      qed
    qed (use clean_scalar [OF 2(2)] in auto)
    with 2 show ?thesis by (simp add: optional_def)
  qed (simp add: optional_def)
qed simp_all

lemma clean_no_string:
  assumes "ai_clean f fld n (JObj d) = Inr (JObj r)" "k \<noteq> ''data''" "k \<noteq> ''media_type''" "\<forall>s. optional d k \<noteq> JStr s"
  shows "optional r k \<noteq> JStr s"
  using assms(1)
proof (rule clean_fields [OF _ assms(2,3)])
  fix q
  assume "JObj r = JObj q" and "map_of q k = map_of d k \<or> (\<exists>x y. map_of d k = Some x
    \<and> ai_clean f (child_field fld k) (n + 1) x = Inr y \<and> map_of q k = Some y)"
  then show ?thesis
  proof (elim disjE exE conjE)
    fix x y
    assume a: "map_of d k = Some x" "ai_clean f (child_field fld k) (n + 1) x = Inr y" "map_of q k = Some y" "JObj r = JObj q"
    from a(1) assms(4) have "\<forall>s. x \<noteq> JStr s" by (simp add: optional_def)
    with clean_scalar [OF a(2)] have "y \<noteq> JStr s" by (cases x) auto
    with a show ?thesis by (simp add: optional_def)
  next
    assume "map_of q k = map_of d k" "JObj r = JObj q"
    with assms(4) show ?thesis by (simp add: optional_def)
  qed
qed

section \<open>The text of a block\<close>

definition block_kind :: "doc \<Rightarrow> string" where
  "block_kind d = (case optional d ''type'' of JStr ty \<Rightarrow> if ty \<in> set ANTHROPIC - {''completion''} then ty else [] | _ \<Rightarrow> [])"

definition of_block :: "int \<Rightarrow> doc \<Rightarrow> bool" where
  "of_block i d \<longleftrightarrow> block_kind d \<noteq> [] \<and> call_index d = JInt i"

definition block_of :: "doc \<Rightarrow> json" where
  "block_of d =
     (if block_kind d = ''content_block_start'' then optional d ''content_block''
      else if block_kind d = ''content_block_delta'' then optional d ''delta'' else JNull)"

definition block_text_field :: "doc \<Rightarrow> string" where
  "block_text_field b = (if optional b ''type'' \<in> {JStr ''thinking'', JStr ''thinking_delta''} then ''thinking'' else ''text'')"

text \<open>The text in an event of a block, if there is one.\<close>

definition block_texts :: "doc \<Rightarrow> string list" where
  "block_texts d =
     (case block_of d of
        JObj b \<Rightarrow> if optional b ''type'' = JStr ''input_json_delta'' then []
                 else (case optional b (block_text_field b) of JStr s \<Rightarrow> [s] | _ \<Rightarrow> [])
      | _ \<Rightarrow> [])"

abbreviation texts :: "doc list \<Rightarrow> string list" where "texts ds \<equiv> concat (map block_texts ds)"

lemma optional_set [simp]: "optional (dict_set k v d) k' = (if k' = k then v else optional d k')"
  by (simp add: optional_def)

lemma call_index_set [simp]: "k \<noteq> ''index'' \<Longrightarrow> call_index (dict_set k v d) = call_index d"
  by (simp add: call_index_def)

lemma block_kind_set [simp]: "k \<noteq> ''type'' \<Longrightarrow> block_kind (dict_set k v d) = block_kind d"
  by (simp add: block_kind_def)

subsection \<open>What leaves a stream alone\<close>

lemma stream_push_other:
  assumes "stream_push f k t l x st = Inr (out, st')" "k \<noteq> k'"
  shows "map_of (ap_streams st') k' = map_of (ap_streams st) k'" "ap_inputs st' = ap_inputs st"
  using assms by (auto simp: stream_push_def bind_result_Inr_iff split: if_splits prod.splits option.splits)

lemma flush_other:
  "flush f ks st = Inr (out, st') \<Longrightarrow> k \<notin> set ks \<Longrightarrow>
     map_of (ap_streams st') k = map_of (ap_streams st) k \<and> ap_inputs st' = ap_inputs st"
proof (induction ks arbitrary: st out)
  case (Cons k' ks)
  from Cons.prems(1) obtain found streams where p: "api_pop k' (ap_streams st) = Inr (found, streams)"
    by (auto simp: bind_result_Inr_iff)
  then have s: "map_of streams k = map_of (ap_streams st) k"
    using Cons.prems(2) by (auto simp: api_pop_def split: if_splits)
  show ?case
    using Cons.prems Cons.IH [of "st\<lparr>ap_streams := streams\<rparr>"] p s
    by (auto simp: bind_result_Inr_iff Let_def split: option.splits prod.splits)
qed simp

lemma hold_streams: "hold k i v st = Inr st' \<Longrightarrow> ap_streams st' = ap_streams st"
  by (auto simp: hold_def bind_result_def Let_def split: json.split_asm if_split_asm prod.split_asm option.split_asm sum.split_asm)

lemma thread_keeps:
  assumes "\<And>x s y t. x \<in> set xs \<Longrightarrow> g x s = Inr (y, t) \<Longrightarrow> h t = h s"
  shows "thread g xs s = Inr (ys, t) \<Longrightarrow> h t = h s"
  using assms
proof (induction xs arbitrary: s ys)
  case (Cons x xs)
  from Cons.prems(1) obtain y u zs where "g x s = Inr (y, u)" "thread g xs u = Inr (zs, t)"
    by (auto split: sum.splits)
  with Cons.IH [of u zs] Cons.prems(2) show ?case by (metis list.set_intros)
qed simp

definition no_block :: "api_key \<Rightarrow> bool" where "no_block k \<longleftrightarrow> (\<nexists>i. k = Block i)"

abbreviation block_stream :: "int \<Rightarrow> api \<Rightarrow> (text_stream \<times> template) option" where
  "block_stream i st \<equiv> map_of (ap_streams st) (Block i)"

lemma chat_field_other: "chat_field f ident ix fl s = Inr (u, t) \<Longrightarrow> block_stream i (snd t) = block_stream i (snd s)"
  by (auto simp: chat_field_def bind_result_Inr_iff split: prod.splits json.splits dest: stream_push_other(1) [of _ _ _ _ _ _ _ _ "Block i"])

lemma chat_call_other: "chat_call ix v s = Inr (u, t) \<Longrightarrow> ap_streams t = ap_streams s"
  by (auto simp: chat_call_def bind_result_def hold_streams split: json.split_asm sum.split_asm)

lemma chat_delta_other: "chat_delta f ident ix d s = Inr (e, t) \<Longrightarrow> block_stream i t = block_stream i s"
proof -
  assume a: "chat_delta f ident ix d s = Inr (e, t)"
  then obtain us d2 s2 where 1: "thread (chat_field f ident ix) [''content'', ''reasoning_content'', ''reasoning''] (d, s) = Inr (us, (d2, s2))"
    by (auto simp: chat_delta_def bind_result_Inr_iff)
  have "block_stream i s2 = block_stream i s"
    using thread_keeps [where h = "\<lambda>p. block_stream i (snd p)", OF chat_field_other 1] by simp
  moreover have "block_stream i t = block_stream i s2"
    using a 1 by (auto simp: chat_delta_def bind_result_Inr_iff split: json.split_asm prod.split_asm
        dest!: thread_keeps [where h = ap_streams and g = "chat_call ix", OF chat_call_other, rotated])
  ultimately show ?thesis by simp
qed

lemma release_call_other: "release_call f ident ix k s = Inr (d, t) \<Longrightarrow> ap_streams t = ap_streams s"
  by (auto simp: release_call_def bind_result_Inr_iff split: option.splits)

lemma end_choice_other: "end_choice f ident ix s = Inr (out, t) \<Longrightarrow> block_stream i t = block_stream i s"
proof -
  assume "end_choice f ident ix s = Inr (out, t)"
  then obtain o1 s1 o2 where "flush f (filter (of_choice ix) (keys (ap_streams s))) s = Inr (o1, s1)"
    "thread (release_call f ident ix) (filter (of_choice ix) (keys (ap_inputs s1))) s1 = Inr (o2, t)"
    by (auto simp: end_choice_def bind_result_Inr_iff split: prod.splits)
  moreover from this(2) have "ap_streams t = ap_streams s1"
    by (rule thread_keeps [where h = ap_streams, OF release_call_other, rotated])
  ultimately show ?thesis using flush_other [of f _ s o1 s1 "Block i"] by auto
qed

lemma chat_choice_other: "chat_choice f ident v s = Inr (r, t) \<Longrightarrow> block_stream i t = block_stream i s"
  by (auto simp: chat_choice_def bind_result_def Let_def split: json.split_asm sum.split_asm if_split_asm
      dest!: chat_delta_other [where i = i] end_choice_other [where i = i])

lemma gemini_candidate_other: "gemini_candidate f v s = Inr (r, t) \<Longrightarrow> block_stream i t = block_stream i s"
  by (auto simp: gemini_candidate_def bind_result_def Let_def split: json.split_asm sum.split_asm
      dest!: stream_push_other(1) [where k' = "Block i"])

lemma shaped_event_other: "shaped_event f d s = Inr (out, t) \<Longrightarrow> block_stream i t = block_stream i s"
  by (auto simp: shaped_event_def chat_event_def gemini_event_def generic_doc_def bind_result_def
      split: json.split_asm sum.split_asm
      dest!: thread_keeps [where h = "block_stream i" and g = "chat_choice f ident" for f ident, OF chat_choice_other, rotated]
        thread_keeps [where h = "block_stream i" and g = "gemini_candidate f" for f, OF gemini_candidate_other, rotated])

lemma responses_text_other:
  assumes "responses_text f ty p fl d s = Inr (out, t)" shows "block_stream i t = block_stream i s"
proof (cases "ty = p @ ''.delta''")
  case True
  with assms show ?thesis
    by (cases "optional d ''delta''")
      (auto simp: responses_text_def responses_key_def bind_result_Inr_iff dest: stream_push_other(1) [where k' = "Block i"])
next
  case False
  with assms obtain o1 s1 where "flush f [responses_key p d] s = Inr (o1, s1)" "t = s1"
    by (cases "optional d fl") (auto simp: responses_text_def bind_result_Inr_iff simp del: flush.simps)
  with flush_other [of f _ s o1 s1 "Block i"] show ?thesis by (simp add: responses_key_def del: flush.simps)
qed

lemma responses_arguments_other:
  assumes "responses_arguments f ty p fl d s = Inr (out, t)" shows "ap_streams t = ap_streams s"
  using assms
  by (cases "optional d fl") (auto simp: responses_arguments_def bind_result_Inr_iff Let_def hold_streams split: if_splits)

lemma responses_object_other:
  assumes "responses_object f ty d s = Inr (out, t)" shows "ap_streams t = ap_streams s"
  using assms by (cases "optional d ''response''") (auto simp: responses_object_def bind_result_Inr_iff)

lemma responses_event_other: "responses_event f ty d s = Inr (out, t) \<Longrightarrow> block_stream i t = block_stream i s"
  by (auto simp: responses_event_def responses_arguments_other responses_object_other
      split: option.split_asm dest: responses_text_other [where i = i])

lemma completion_event_other: "completion_event f d s = Inr (out, t) \<Longrightarrow> block_stream i t = block_stream i s"
  by (auto simp: completion_event_def bind_result_def Let_def split: json.split_asm sum.split_asm
      dest!: stream_push_other(1) [where k' = "Block i"])

lemma block_event_other: "block_event f fl d j s = Inr (out, t) \<Longrightarrow> j \<noteq> i \<Longrightarrow> block_stream i t = block_stream i s"
  by (auto simp: block_event_def bind_result_def Let_def hold_streams split: json.split_asm sum.split_asm if_split_asm
      dest!: stream_push_other(1) [where k' = "Block i"])

lemma stop_block_other: "stop_block f j s = Inr (out, t) \<Longrightarrow> j \<noteq> i \<Longrightarrow> block_stream i t = block_stream i s"
  by (auto simp: stop_block_def bind_result_def Let_def simp del: flush.simps
      split: sum.split_asm option.split_asm prod.split_asm dest!: flush_other [where k = "Block i"])

lemma block_index_int: "block_index d = Inr j \<Longrightarrow> call_index d = JInt j"
  by (auto simp: block_index_def split: json.split_asm if_split_asm)

lemma anthropic_event_other:
  assumes "anthropic_event f ty d s = Inr (out, t)" "ty = ''completion'' \<or> call_index d \<noteq> JInt i" "ty \<noteq> ''message_stop''"
  shows "block_stream i t = block_stream i s"
  using assms
  by (auto simp: anthropic_event_def bind_result_def split: sum.split_asm if_split_asm
      dest!: block_index_int completion_event_other [where i = i] block_event_other [where i = i] stop_block_other [where i = i])

lemma api_event_other:
  assumes "api_event f d s = Inr (out, t)" "\<not> of_block i d" "block_kind d \<noteq> ''message_stop''"
  shows "block_stream i t = block_stream i s"
proof (cases "optional d ''type''")
  case (JStr ty)
  show ?thesis
  proof (cases "ty \<in> set ANTHROPIC")
    case True
    then have "ty \<noteq> []" by (auto simp: ANTHROPIC_def)
    with True JStr assms show ?thesis
      by (intro anthropic_event_other [of f ty d s out t i])
        (auto simp: api_event_def of_block_def block_kind_def split: if_splits)
  next
    case False
    with JStr assms(1) show ?thesis
      by (auto simp: api_event_def split: if_splits intro: responses_event_other shaped_event_other)
  qed
qed (use assms(1) shaped_event_other in \<open>auto simp: api_event_def\<close>)

subsection \<open>What an event of a block shows\<close>

definition block_entry :: "int \<Rightarrow> api \<Rightarrow> text_stream" where
  "block_entry i s = (case block_stream i s of None \<Rightarrow> new_stream | Some (ts, t) \<Rightarrow> ts)"

definition well_named :: "int \<Rightarrow> api \<Rightarrow> bool" where
  "well_named i s \<longleftrightarrow> (\<forall>ts t. block_stream i s = Some (ts, t) \<longrightarrow> t \<in> {Block_event i ''text'', Block_event i ''thinking''})"

lemma block_api:
  assumes "of_block i d" shows "api_event f d s = anthropic_event f (block_kind d) d s"
proof -
  have k: "block_kind d \<noteq> []" using assms by (simp add: of_block_def)
  then obtain ty where t: "optional d ''type'' = JStr ty"
    unfolding block_kind_def by (cases "optional d ''type''") simp_all
  with k have "ty \<in> set ANTHROPIC" "block_kind d = ty"
    unfolding block_kind_def by (simp_all split: if_split_asm)
  with t show ?thesis unfolding api_event_def by simp
qed

lemma clean_doc_clean: "clean_doc f d = Inr e \<Longrightarrow> ai_clean f [] 0 (JObj d) = Inr (JObj e)"
  by (auto simp: clean_doc_def ai_mapping_def split: sum.split_asm json.split_asm)

lemma mark_colon: "prefix_nocase image_mark w \<Longrightarrow> CHR '':'' \<in> set w"
proof -
  assume "prefix_nocase image_mark w"
  then have "lower (take (length image_mark) w) = image_mark" by (simp add: prefix_nocase_def)
  then have "CHR '':'' \<in> set (lower (take (length image_mark) w))" by (simp add: image_mark_def)
  then obtain c where c: "c \<in> set w" "lower_char c = CHR '':''" by (auto simp: lower_def dest: in_set_takeD)
  let ?n = "of_char c :: nat"
  have "\<not> (65 \<le> ?n \<and> ?n \<le> 90)"
  proof
    assume n: "65 \<le> ?n \<and> ?n \<le> 90"
    with c(2) have "char_of (?n + 32) = CHR '':''" by (simp add: lower_char_def Let_def)
    then have "of_char (char_of (?n + 32) :: char) = (of_char (CHR '':'') :: nat)" by simp
    with n show False by (simp add: of_char_of)
  qed
  with c show ?thesis by (simp add: lower_char_def Let_def split: if_splits)
qed

lemma no_mark: "w \<in> set ANTHROPIC \<union> {''thinking'', ''thinking_delta'', ''input_json_delta''} \<Longrightarrow> \<not> prefix_nocase image_mark w"
  using mark_colon [of w] by (auto simp: ANTHROPIC_def)

lemma type_child [simp]:
  "child_field [] ''type'' = ''type''" "child_field ''content_block'' ''type'' = ''type''" "child_field ''delta'' ''type'' = ''type''"
  "child_field [] ''content_block'' = ''content_block''" "child_field [] ''delta'' = ''delta''"
  by (simp_all add: child_field_def ALL_TEXT_def TEXT_TABLES_def)

lemma clean_kind:
  assumes "clean_doc f d = Inr e" shows "block_kind e = block_kind d"
proof -
  have "\<forall>w \<in> set ANTHROPIC. optional e ''type'' = JStr w \<longleftrightarrow> optional d ''type'' = JStr w"
    using clean_type [OF clean_doc_clean [OF assms]] no_mark by simp
  then show ?thesis by (auto simp: block_kind_def split: json.split)
qed

lemma clean_block:
  assumes "clean_doc f d = Inr e" "fl \<in> {''content_block'', ''delta''}" "optional d fl = JObj b"
  shows "\<exists>c. optional e fl = JObj c \<and> (c = b \<or> ai_clean f fl 1 (JObj b) = Inr (JObj c))"
  using clean_doc_clean [OF assms(1)]
proof (rule clean_fields [of _ _ _ _ _ fl])
  fix r
  assume r: "JObj e = JObj r" "map_of r fl = map_of d fl \<or> (\<exists>x y. map_of d fl = Some x
    \<and> ai_clean f (child_field [] fl) (0 + 1) x = Inr y \<and> map_of r fl = Some y)"
  have d: "map_of d fl = Some (JObj b)" using assms(3) by (auto simp: optional_def split: option.splits)
  have "child_field [] fl = fl" using assms(2) by auto
  with r d clean_scalar [of f fl "0 + 1" "JObj b"] show ?thesis by (auto simp: optional_def)
qed (use assms(2) in auto)

lemma clean_block_texts:
  assumes "clean_doc f d = Inr e" "fl \<in> {''content_block'', ''delta''}" "optional d fl = JObj b"
    "\<forall>v. optional b (block_text_field b) \<noteq> JStr v"
  shows "\<exists>c. optional e fl = JObj c \<and> (\<forall>v. optional c (block_text_field c) \<noteq> JStr v)"
proof -
  obtain c where c: "optional e fl = JObj c" "c = b \<or> ai_clean f fl 1 (JObj b) = Inr (JObj c)"
    using clean_block [OF assms(1-3)] by blast
  have "\<forall>v. optional c (block_text_field c) \<noteq> JStr v"
  proof (cases "c = b")
    case False
    with c have a: "ai_clean f fl 1 (JObj b) = Inr (JObj c)" by simp
    have "optional c ''type'' = JStr w \<longleftrightarrow> optional b ''type'' = JStr w" if "w \<in> {''thinking'', ''thinking_delta''}" for w
    proof (rule clean_type [OF a])
      show "child_field fl ''type'' = ''type''" using assms(2) by auto
      show "\<not> prefix_nocase image_mark w" using no_mark that by blast
    qed
    then have "block_text_field c = block_text_field b" by (simp add: block_text_field_def)
    moreover have "block_text_field b \<noteq> ''data''" "block_text_field b \<noteq> ''media_type''" by (simp_all add: block_text_field_def)
    ultimately show ?thesis using clean_no_string [OF a] assms(4) by metis
  qed (use assms(4) in simp)
  with c(1) show ?thesis by blast
qed

lemma type_in_iff: "type_in b ws = Inr x \<Longrightarrow> x \<longleftrightarrow> (\<exists>w \<in> set ws. optional b ''type'' = JStr w)"
  by (auto simp: type_in_def split: json.split_asm)

lemma stream_push_text:
  assumes "stream_push f (Block i) (Block_event i fl) False v s = Inr (out, t)" "fl \<in> {''text'', ''thinking''}" "well_named i s"
  shows "push f (ai_string f) v (block_entry i s) = Inr (out, block_entry i t) \<and> block_stream i t \<noteq> None \<and> well_named i t"
proof -
  obtain ts tm where e: "(case block_stream i s of None \<Rightarrow> (new_stream, Block_event i fl) | Some p \<Rightarrow> p) = (ts, tm)"
    by (meson surj_pair)
  with assms(1) obtain ts' where p: "push f (ai_string f) v ts = Inr (out, ts')"
    and t: "t = s\<lparr>ap_streams := dict_set (Block i) (ts', tm) (ap_streams s)\<rparr>"
    by (auto simp: stream_push_def api_get_def bind_result_def split: if_split_asm sum.split_asm)
  have "ts = block_entry i s" using e by (auto simp: block_entry_def split: option.splits)
  moreover have "tm \<in> {Block_event i ''text'', Block_event i ''thinking''}"
    using e assms(2,3) by (auto simp: well_named_def split: option.splits)
  ultimately show ?thesis using p t by (simp add: block_entry_def well_named_def)
qed

text \<open>An event of a block pushes its text, if it has one, and shows what is let out.\<close>

definition shows_text :: "ai_filters \<Rightarrow> int \<Rightarrow> string list \<Rightarrow> string list \<Rightarrow> api \<Rightarrow> api \<Rightarrow> bool" where
  "shows_text f i sent shown s t \<longleftrightarrow>
     (\<exists>os. pushes f (ai_string f) sent (block_entry i s) = Inr (os, block_entry i t) \<and> concat os = concat shown)
     \<and> (block_stream i t = None \<longleftrightarrow> sent = [] \<and> block_stream i s = None) \<and> (well_named i s \<longrightarrow> well_named i t)"

lemma shows_nothing: "block_stream i t = block_stream i s \<Longrightarrow> concat shown = [] \<Longrightarrow> shows_text f i [] shown s t"
  by (auto simp: shows_text_def block_entry_def well_named_def)

lemma block_event_shows:
  assumes "block_event f fl d i s = Inr (outs, t)" "well_named i s"
    and k: "(fl = ''content_block'' \<and> block_kind d = ''content_block_start'') \<or> (fl = ''delta'' \<and> block_kind d = ''content_block_delta'')"
  shows "shows_text f i (block_texts d) (texts outs) s t"
proof -
  have fl: "fl \<in> {''content_block'', ''delta''}" "fl \<noteq> ''type''" using k by auto
  have bo: "block_of e = optional e fl" if "block_kind e = block_kind d" for e
    using that k by (auto simp: block_of_def)
  from assms(1) obtain b call where b: "optional d fl = JObj b" and
    rest: "(if optional b ''type'' = JStr ''input_json_delta''
     then bind_result (hold (Block i) (JInt i) (optional b ''partial_json'') s) (\<lambda>st.
       Inr ([dict_set fl (JObj (dict_set ''partial_json'' (JStr []) b)) d], st))
     else bind_result (type_in b [''thinking'', ''thinking_delta'']) (\<lambda>thinking.
       let tf = (if thinking then ''thinking'' else ''text'') in
       case optional b tf of
         JStr v \<Rightarrow>
           bind_result (stream_push f (Block i) (Block_event i tf) False v s) (\<lambda>(out, st).
           Inr ([dict_set fl (JObj (dict_set tf (JStr out) b)) d], st))
       | _ \<Rightarrow> bind_result (clean_doc f d) (\<lambda>e. Inr ([e], s)))) = Inr (outs, t)"
    by (auto simp: block_event_def ai_mapping_def elim!: bind_InrE split: json.split_asm)
  show ?thesis
  proof (cases "optional b ''type'' = JStr ''input_json_delta''")
    case True
    with rest have "ap_streams t = ap_streams s" "outs = [dict_set fl (JObj (dict_set ''partial_json'' (JStr []) b)) d]"
      by (auto simp: bind_result_Inr_iff hold_streams)
    moreover have "block_texts d = []" using True b by (simp add: block_texts_def bo)
    moreover have "block_texts (dict_set fl (JObj (dict_set ''partial_json'' (JStr []) b)) d) = []"
      using True fl by (simp add: block_texts_def bo)
    ultimately show ?thesis by (simp add: shows_nothing)
  next
    case False
    with rest obtain thinking where th: "type_in b [''thinking'', ''thinking_delta''] = Inr thinking" by (auto elim: bind_InrE)
    have tf: "(if thinking then ''thinking'' else ''text'') = block_text_field b"
      using type_in_iff [OF th] by (simp add: block_text_field_def)
    show ?thesis
    proof (cases "\<exists>v. optional b (block_text_field b) = JStr v")
      case True
      then obtain v where v: "optional b (block_text_field b) = JStr v" by blast
      from rest False th obtain out where
        p: "stream_push f (Block i) (Block_event i (block_text_field b)) False v s = Inr (out, t)"
        and o: "outs = [dict_set fl (JObj (dict_set (block_text_field b) (JStr out) b)) d]"
        by (auto simp: Let_def tf v bind_result_Inr_iff)
      have "block_text_field b \<in> {''text'', ''thinking''}" "block_text_field b \<noteq> ''type''" by (simp_all add: block_text_field_def)
      then have "block_text_field (dict_set (block_text_field b) (JStr out) b) = block_text_field b" by (simp add: block_text_field_def)
      then have "texts outs = [out]"
        using False fl o \<open>block_text_field b \<noteq> ''type''\<close> by (simp add: block_texts_def bo)
      moreover have "block_texts d = [v]" using False b v by (simp add: block_texts_def bo)
      moreover note stream_push_text [OF p \<open>block_text_field b \<in> {''text'', ''thinking''}\<close> assms(2)]
      ultimately show ?thesis by (simp add: shows_text_def)
    next
      case none: False
      with rest False th obtain e where e: "clean_doc f d = Inr e" "outs = [e]" "t = s"
        by (auto simp: Let_def tf bind_result_Inr_iff split: json.split_asm)
      obtain c where "optional e fl = JObj c" "\<forall>v. optional c (block_text_field c) \<noteq> JStr v"
        using clean_block_texts [OF e(1) fl(1) b] none by blast
      then have "block_texts e = []" using clean_kind [OF e(1)] by (auto simp: block_texts_def bo split: json.split)
      moreover have "block_texts d = []" using b none by (auto simp: block_texts_def bo split: json.split)
      ultimately show ?thesis using e by (simp add: shows_nothing)
    qed
  qed
qed

lemma other_kind_texts: "block_kind d \<notin> {''content_block_start'', ''content_block_delta''} \<Longrightarrow> block_texts d = []"
  by (simp add: block_texts_def block_of_def)

lemma api_event_shows:
  assumes "api_event f d s = Inr (outs, t)" "of_block i d" "well_named i s"
    "block_kind d \<noteq> ''message_stop''" "block_kind d \<noteq> ''content_block_stop''"
  shows "shows_text f i (block_texts d) (texts outs) s t"
proof -
  have a: "anthropic_event f (block_kind d) d s = Inr (outs, t)" using assms(1) block_api [OF assms(2)] by simp
  have c: "block_kind d \<noteq> ''completion''" by (auto simp: block_kind_def split: json.splits if_splits)
  have i: "block_index d = Inr i" using a c assms(2) by (auto simp: anthropic_event_def of_block_def block_index_def bind_result_def)
  show ?thesis
  proof (cases "block_kind d \<in> {''content_block_start'', ''content_block_delta''}")
    case True
    then show ?thesis
      using a c i block_event_shows [of f _ d i s outs t] assms(3) by (auto simp: anthropic_event_def)
  next
    case False
    then obtain e where e: "clean_doc f d = Inr e" "outs = [e]" "t = s"
      using a c i assms(4,5) by (auto simp: anthropic_event_def bind_result_Inr_iff)
    then show ?thesis using False other_kind_texts clean_kind [OF e(1)] by (simp add: shows_nothing)
  qed
qed

lemma shows_append: "shows_text f i xs ys s t \<Longrightarrow> shows_text f i xs' ys' t u \<Longrightarrow> shows_text f i (xs @ xs') (ys @ ys') s u"
  by (fastforce simp: shows_text_def pushes_append)

definition sent_in :: "int \<Rightarrow> doc list \<Rightarrow> string list" where
  "sent_in i ds = texts (filter (of_block i) ds)"

definition shown_in :: "int \<Rightarrow> doc list \<Rightarrow> doc list list \<Rightarrow> string list" where
  "shown_in i ds outss = concat (map (\<lambda>(d, outs). texts outs) (filter (\<lambda>(d, outs). of_block i d) (zip ds outss)))"

lemma run_shows:
  assumes "thread (api_event f) ds s = Inr (outss, t)" "well_named i s"
    "\<forall>d \<in> set ds. block_kind d \<noteq> ''message_stop'' \<and> (of_block i d \<longrightarrow> block_kind d \<noteq> ''content_block_stop'')"
  shows "shows_text f i (sent_in i ds) (shown_in i ds outss) s t"
  using assms
proof (induction ds arbitrary: s outss)
  case Nil
  then show ?case by (simp add: sent_in_def shown_in_def shows_nothing)
next
  case (Cons d ds)
  from Cons.prems(1) obtain outs u oss where 1: "api_event f d s = Inr (outs, u)" "thread (api_event f) ds u = Inr (oss, t)"
    and o: "outss = outs # oss" by (auto split: sum.splits)
  show ?case
  proof (cases "of_block i d")
    case True
    from api_event_shows [OF 1(1) True Cons.prems(2)] have p: "shows_text f i (block_texts d) (texts outs) s u"
      using True Cons.prems(3) by simp
    then have "well_named i u" using Cons.prems(2) by (simp add: shows_text_def)
    from shows_append [OF p Cons.IH [OF 1(2) this]] Cons.prems(3) True o show ?thesis
      by (simp add: sent_in_def shown_in_def)
  next
    case False
    have e: "block_stream i u = block_stream i s"
      using api_event_other [OF 1(1) False] Cons.prems(3) by simp
    then have "well_named i u" using Cons.prems(2) by (simp add: well_named_def)
    from shows_append [OF shows_nothing [OF e, of "[]"] Cons.IH [OF 1(2) this]] Cons.prems(3) False o show ?thesis
      by (simp add: sent_in_def shown_in_def)
  qed
qed

lemma stop_shows:
  assumes "api_event f d s = Inr (outs, t)" "of_block i d" "block_kind d = ''content_block_stop''" "well_named i s"
    and ts: "block_stream i s = Some (ts, tm)"
  shows "\<exists>rest ts'. finish (ai_string f) ts = Inr (rest, ts') \<and> concat (texts outs) = rest"
proof -
  have "anthropic_event f (block_kind d) d s = Inr (outs, t)" using assms(1) block_api [OF assms(2)] by simp
  then obtain out1 u e where 1: "stop_block f i s = Inr (out1, u)" "clean_doc f d = Inr e" "outs = out1 @ [e]"
    using assms(2,3) by (auto simp: anthropic_event_def of_block_def bind_result_Inr_iff dest!: block_index_int)
  from 1(1) obtain rest ts' where fin: "finish (ai_string f) ts = Inr (rest, ts')"
    using ts by (auto simp: stop_block_def api_pop_def bind_result_def Let_def split: if_split_asm sum.split_asm)
  with 1(1) ts have o: "out1 = (if rest = [] then [] else [event_of tm rest])
      \<or> (\<exists>whole. out1 = (if rest = [] then [] else [event_of tm rest]) @ [input_delta i whole])"
    by (auto simp: stop_block_def api_pop_def bind_result_def Let_def split: if_split_asm sum.split_asm option.split_asm)
  have n: "block_texts (input_delta i x) = []" for x
    by (simp add: block_texts_def block_of_def block_kind_def input_delta_def optional_def ANTHROPIC_def)
  have b: "block_texts (event_of tm rest) = [rest]"
    using assms(4) ts
    by (auto simp: well_named_def block_texts_def block_of_def block_kind_def optional_def ANTHROPIC_def block_text_field_def)
  have "block_texts e = []" using clean_kind [OF 1(2)] assms(3) by (simp add: other_kind_texts)
  with o n b 1(3) have "concat (texts outs) = rest" by auto
  with fin show ?thesis by blast
qed

text \<open>
  The text of a block is shown checked as a whole.  Whatever other events come between, of
  other blocks or of other protocols, what the events of a block of an answer show together, its stop
  included, is what the check makes of all the text they brought, and if the check refuses it the
  events do not pass.
\<close>

theorem block_text_checked:
  assumes "thread (api_event f) (datas @ [stop]) s = Inr (outss, t)"
    and "map_of (ap_streams s) (Block i) = None"
    and "\<forall>d \<in> set datas. block_kind d \<noteq> ''message_stop'' \<and> (of_block i d \<longrightarrow> block_kind d \<noteq> ''content_block_stop'')"
    and "of_block i stop" "block_kind stop = ''content_block_stop''"
    and "sent_in i datas \<noteq> []"
  shows "ai_string f (concat (sent_in i (datas @ [stop]))) = Inr (concat (shown_in i (datas @ [stop]) outss))"
proof -
  from assms(1) obtain oss u outs where 1: "thread (api_event f) datas s = Inr (oss, u)" "api_event f stop u = Inr (outs, t)"
    and o: "outss = oss @ [outs]"
    by (auto simp: thread_append split: sum.splits)
  have w: "well_named i s" using assms(2) by (simp add: well_named_def)
  have p: "shows_text f i (sent_in i datas) (shown_in i datas oss) s u" by (rule run_shows [OF 1(1) w assms(3)])
  then obtain ts tm os where ts: "block_stream i u = Some (ts, tm)"
    and ps: "pushes f (ai_string f) (sent_in i datas) new_stream = Inr (os, ts)" "concat os = concat (shown_in i datas oss)"
    using assms(2,6) by (auto simp: shows_text_def block_entry_def)
  obtain rest ts' where r: "finish (ai_string f) ts = Inr (rest, ts')" "concat (texts outs) = rest"
    using stop_shows [OF 1(2) assms(4,5) _ ts] p w by (auto simp: shows_text_def)
  have "sent_in i (datas @ [stop]) = sent_in i datas" using assms(5) by (simp add: sent_in_def other_kind_texts)
  moreover have "shown_in i (datas @ [stop]) outss = shown_in i datas oss @ texts outs"
    using assms(4) thread_length [OF 1(1)] by (simp add: shown_in_def o)
  ultimately show ?thesis using stream_total [OF ps(1) r(1)] ps(2) r(2) by simp
qed

definition example_block :: "int \<Rightarrow> string \<Rightarrow> doc" where
  "example_block i s =
     [(''type'', JStr ''content_block_delta''), (''index'', JInt i), (''delta'', JObj [(''type'', JStr ''text_delta''), (''text'', JStr s)])]"

definition example_stop :: doc where
  "example_stop = [(''type'', JStr ''content_block_stop''), (''index'', JInt 0)]"

lemma example_api_event:
  assumes "map_of (ap_streams s) (Block i) = None \<and> ts = new_stream \<and> tm = Block_event i ''text'' \<or> map_of (ap_streams s) (Block i) = Some (ts, tm)"
    "length (ap_streams s) < 256" "0 \<le> i" "i \<le> 1024" "push f (ai_string f) x ts = Inr (out, ts')"
  shows "api_event f (example_block i x) s
    = Inr ([example_block i out], s\<lparr>ap_streams := dict_set (Block i) (ts', tm) (ap_streams s)\<rparr>)"
  using assms
  by (auto simp: api_event_def example_block_def optional_def ANTHROPIC_def anthropic_event_def block_index_def call_index_def
      block_event_def ai_mapping_def type_in_def stream_push_def api_get_def MAX_STREAMS_def Let_def)

lemma block_text_checked_witness:
  "\<exists>outss t. thread (api_event example_filters) [example_block 0 ''Hi! '', example_block 1 ''You!'', example_block 0 ''there!'', example_stop] new_api
       = Inr (outss, t)
     \<and> concat (shown_in 0 [example_block 0 ''Hi! '', example_block 1 ''You!'', example_block 0 ''there!'', example_stop] outss) = ''Hi. there.''"
proof -
  let ?f = example_filters and ?g = "ai_string example_filters"
  let ?ds = "[example_block 0 ''Hi! '', example_block 1 ''You!'', example_block 0 ''there!'']"
  have n: "\<not> sublist ''bikini'' ''Hi! ''" "\<not> sublist ''bikini'' ''Hi! there!''" "\<not> sublist ''bikini'' ''You!''" by code_simp+
  have m: "count_marks ''Hi! '' = 0" "count_marks ''Hi! there!'' = 0" "count_marks ''You!'' = 0" by code_simp+
  have g: "?g ''Hi! '' = Inr ''Hi. ''" "?g ''Hi! there!'' = Inr ''Hi. there.''" "?g ''You!'' = Inr ''You.''"
    using n m by (simp_all add: plain_string example_check)
  have p: "push ?f ?g ''Hi! '' \<lparr>ts_raw = [], ts_released = []\<rparr> = Inr ([], \<lparr>ts_raw = ''Hi! '', ts_released = []\<rparr>)"
    "push ?f ?g ''there!'' \<lparr>ts_raw = ''Hi! '', ts_released = []\<rparr> = Inr ([], \<lparr>ts_raw = ''Hi! there!'', ts_released = []\<rparr>)"
    "push ?f ?g ''You!'' \<lparr>ts_raw = [], ts_released = []\<rparr> = Inr ([], \<lparr>ts_raw = ''You!'', ts_released = []\<rparr>)"
    by (simp_all add: example_push g)
  have e: "finish ?g \<lparr>ts_raw = ''Hi! there!'', ts_released = []\<rparr>
      = Inr (''Hi. there.'', \<lparr>ts_raw = ''Hi! there!'', ts_released = ''Hi. there.''\<rparr>)"
    by (simp add: finish_def g starts_with_def)
  have c: "clean_doc ?f example_stop = Inr example_stop"
    using no_mark [of "''content_block_stop''"]
    by (simp add: clean_doc_def ai_mapping_def ai_clean.simps AI_MAX_DEPTH_def is_tool_call_def ALL_TEXT_def TOOL_CALLS_def
        TEXT_TABLES_def EMBEDDED_JSON_def TEXT_FIELDS_def IMAGE_FIELDS_def clean_data_def example_stop_def ANTHROPIC_def child_field_def)
  define s3 where "s3 = new_api\<lparr>ap_streams :=
    [(Block 0, \<lparr>ts_raw = ''Hi! there!'', ts_released = []\<rparr>, Block_event 0 ''text''),
     (Block 1, \<lparr>ts_raw = ''You!'', ts_released = []\<rparr>, Block_event 1 ''text'')]\<rparr>"
  have r: "thread (api_event ?f) ?ds new_api = Inr ([[example_block 0 []], [example_block 1 []], [example_block 0 []]], s3)"
    using p by (simp add: new_api_def s3_def new_stream_def
        example_api_event [where ts = new_stream and tm = "Block_event i ''text''" and i = i for i, unfolded new_stream_def]
        example_api_event [where ts = "\<lparr>ts_raw = ''Hi! '', ts_released = []\<rparr>" and tm = "Block_event 0 ''text''"])
  obtain t where st: "api_event ?f example_stop s3 = Inr ([event_of (Block_event 0 ''text'') ''Hi. there.'', example_stop], t)"
    using c e by (auto simp: api_event_def example_stop_def optional_def ANTHROPIC_def anthropic_event_def block_index_def call_index_def
        stop_block_def api_pop_def s3_def new_api_def Let_def bind_result_def)
  have all: "thread (api_event ?f) (?ds @ [example_stop]) new_api
      = Inr ([[example_block 0 []], [example_block 1 []], [example_block 0 []], [event_of (Block_event 0 ''text'') ''Hi. there.'', example_stop]], t)"
    unfolding thread_append r by (simp add: st)
  have k: "block_kind (example_block i x) = ''content_block_delta''" "call_index (example_block i x) = JInt i"
    "block_texts (example_block i x) = [x]" "block_kind example_stop = ''content_block_stop''" "call_index example_stop = JInt 0"
    "block_texts example_stop = []" for i x
    by (simp_all add: block_kind_def block_texts_def block_of_def block_text_field_def example_block_def example_stop_def optional_def ANTHROPIC_def call_index_def)
  have "?g (concat (sent_in 0 (?ds @ [example_stop]))) = Inr (concat (shown_in 0 (?ds @ [example_stop])
      [[example_block 0 []], [example_block 1 []], [example_block 0 []], [event_of (Block_event 0 ''text'') ''Hi. there.'', example_stop]]))"
    by (rule block_text_checked [OF all]) (simp_all add: new_api_def of_block_def k sent_in_def)
  then show ?thesis using all by (simp add: sent_in_def of_block_def k g)
qed

section \<open>The arguments of a tool\<close>

definition arguments_in :: "doc \<Rightarrow> string list" where
  "arguments_in d =
     (case block_of d of
        JObj b \<Rightarrow> if optional b ''type'' = JStr ''input_json_delta''
                 then (case optional b ''partial_json'' of JStr s \<Rightarrow> if s = [] then [] else [s] | _ \<Rightarrow> []) else []
      | _ \<Rightarrow> [])"

lemma no_arguments: "block_kind d \<notin> {''content_block_start'', ''content_block_delta''} \<Longrightarrow> arguments_in d = []"
  by (simp add: arguments_in_def block_of_def)

lemma block_event_arguments:
  assumes "block_event f fl d i s = Inr (outs, t)" "e \<in> set outs"
    and k: "(fl = ''content_block'' \<and> block_kind d = ''content_block_start'') \<or> (fl = ''delta'' \<and> block_kind d = ''content_block_delta'')"
  shows "arguments_in e = []"
proof -
  have fl: "fl \<in> {''content_block'', ''delta''}" "fl \<noteq> ''type''" using k by auto
  have bo: "block_of e = optional e fl" if "block_kind e = block_kind d" for e
    using that k by (auto simp: block_of_def)
  from assms(1) obtain b where b: "optional d fl = JObj b"
    by (auto simp: block_event_def ai_mapping_def elim!: bind_InrE split: json.split_asm)
  then consider (held) "e = dict_set fl (JObj (dict_set ''partial_json'' (JStr []) b)) d"
    | (worded) tf v where "e = dict_set fl (JObj (dict_set tf (JStr v) b)) d" "tf \<in> {''thinking'', ''text''}"
        "optional b ''type'' \<noteq> JStr ''input_json_delta''"
    | (clean) "clean_doc f d = Inr e" "optional b ''type'' \<noteq> JStr ''input_json_delta''"
    using assms(1,2)
    by (auto simp: block_event_def ai_mapping_def bind_result_def Let_def split: if_split_asm sum.split_asm json.split_asm)
  then show ?thesis
  proof cases
    case held
    then show ?thesis using fl by (simp add: arguments_in_def bo)
  next
    case worded
    then show ?thesis using fl by (auto simp: arguments_in_def bo)
  next
    case clean
    obtain c where c: "optional e fl = JObj c" "c = b \<or> ai_clean f fl 1 (JObj b) = Inr (JObj c)"
      using clean_block [OF clean(1) fl(1) b] by blast
    have "optional c ''type'' \<noteq> JStr ''input_json_delta''"
    proof (cases "c = b")
      case False
      with c have "ai_clean f fl 1 (JObj b) = Inr (JObj c)" by simp
      from clean_type [OF this _ no_mark [of "''input_json_delta''"]] clean(2) fl show ?thesis by auto
    qed (use clean(2) in simp)
    then show ?thesis using clean_kind [OF clean(1)] c(1) by (simp add: arguments_in_def bo)
  qed
qed

text \<open>
  The arguments of a tool are let out whole, once, and only when checked.  While the pieces of a
  block's arguments come, no event passes any of them on; what its stop lets out is all that was held,
  and that is a JSON document every string of which the check leaves as it is.
\<close>

theorem arguments_held_until_checked:
  assumes "api_event f d s = Inr (outs, t)" "of_block i d" "block_kind d \<noteq> ''message_stop''" "well_named i s"
    and "e \<in> set outs" "x \<in> set (arguments_in e)"
  shows "block_kind d = ''content_block_stop'' \<and> (\<exists>j. map_of (ap_inputs s) (Block i) = Some (j, x))
    \<and> map_of (ap_inputs t) (Block i) = None
    \<and> (\<exists>v. ai_loads f x = Some v \<and> (\<forall>y \<in> set (texts_in v). ai_string f y = Inr y))"
proof -
  have a: "anthropic_event f (block_kind d) d s = Inr (outs, t)" using assms(1) block_api [OF assms(2)] by simp
  have c: "block_kind d \<noteq> ''completion''" by (auto simp: block_kind_def split: json.splits if_splits)
  have i: "block_index d = Inr i" using a c assms(2) by (auto simp: anthropic_event_def of_block_def block_index_def bind_result_def)
  have k: "block_kind d = ''content_block_stop''"
  proof (rule ccontr)
    assume n: "block_kind d \<noteq> ''content_block_stop''"
    show False
    proof (cases "block_kind d \<in> {''content_block_start'', ''content_block_delta''}")
      case True
      then show False
        using a c i block_event_arguments [of f _ d i s outs t e] assms(5,6) by (auto simp: anthropic_event_def)
    next
      case False
      then obtain q where q: "clean_doc f d = Inr q" "outs = [q]"
        using a c i n assms(3) by (auto simp: anthropic_event_def bind_result_Inr_iff)
      then show False using False no_arguments clean_kind [OF q(1)] assms(5,6) by simp
    qed
  qed
  with a i obtain out1 u q where 1: "stop_block f i s = Inr (out1, u)" "clean_doc f d = Inr q" "outs = out1 @ [q]" "t = u"
    by (auto simp: anthropic_event_def bind_result_Inr_iff)
  have q: "arguments_in q = []" using no_arguments clean_kind [OF 1(2)] k by simp
  from 1(1) obtain out2 u2 where f: "flush f [Block i] s = Inr (out2, u2)"
    and r: "(out1 = out2 \<or> (\<exists>j whole v. map_of (ap_inputs u2) (Block i) = Some (j, whole) \<and> out1 = out2 @ [input_delta i whole]
      \<and> ai_parse f whole = Inr v \<and> tool f v = Inr ()))" "map_of (ap_inputs u) (Block i) = None"
    by (auto simp: stop_block_def api_pop_def bind_result_def Let_def simp del: flush.simps
        split: sum.split_asm option.split_asm if_split_asm)
  have fo: "arguments_in z = []" if "z \<in> set out2" for z
  proof -
    from f that obtain ts tm y where "block_stream i s = Some (ts, tm)" "z = event_of tm y"
      by (auto simp: api_pop_def bind_result_def Let_def split: if_split_asm option.split_asm sum.split_asm)
    with assms(4) show ?thesis
      by (auto simp: well_named_def arguments_in_def block_of_def block_kind_def optional_def ANTHROPIC_def)
  qed
  have u2: "ap_inputs u2 = ap_inputs s" using flush_other [OF f, of Completion] by simp
  have ia: "set (arguments_in (input_delta i w)) \<subseteq> {w}" for w
    by (simp add: arguments_in_def input_delta_def block_of_def block_kind_def optional_def ANTHROPIC_def)
  from assms(5,6) q fo 1(3) r(1) obtain j whole v where w: "map_of (ap_inputs u2) (Block i) = Some (j, whole)"
    "e = input_delta i whole" "ai_parse f whole = Inr v" "tool f v = Inr ()"
    by (auto simp del: flush.simps)
  with ia [of whole] assms(6) have "x = whole" by auto
  then show ?thesis
    using k w r(2) 1(4) u2 tool_texts [OF w(4)] by (auto simp: ai_parse_def split: option.split_asm)
qed

lemma arguments_held_until_checked_witness:
  "\<exists>f s outs t. api_event f example_stop s = Inr (outs, t) \<and> input_delta 0 ''{Hi}'' \<in> set outs
     \<and> map_of (ap_inputs s) (Block 0) = Some (JInt 0, ''{Hi}'') \<and> map_of (ap_inputs t) (Block 0) = None
     \<and> ai_loads f ''{Hi}'' = Some (JObj [(''q'', JStr ''Hi'')]) \<and> ai_string f ''Hi'' = Inr ''Hi''"
proof -
  let ?f = "example_filters\<lparr>ai_loads := (\<lambda>_. Some (JObj [(''q'', JStr ''Hi'')]))\<rparr>"
  let ?s = "new_api\<lparr>ap_inputs := [(Block 0, JInt 0, ''{Hi}'')]\<rparr>"
  have "\<not> sublist ''bikini'' ''Hi''" "count_marks ''Hi'' = 0" by code_simp+
  then have "text_check example_filters ''Hi'' = Inr ''Hi''" and p: "ai_string ?f ''Hi'' = text_check ?f ''Hi''"
    by (simp_all add: example_check plain_string)
  moreover have "text_check ?f ''Hi'' = text_check example_filters ''Hi''"
    by (simp add: text_check_def cong: option.case_cong)
  ultimately have g: "ai_string ?f ''Hi'' = Inr ''Hi''" by simp
  have c: "clean_doc ?f example_stop = Inr example_stop"
    using no_mark [of "''content_block_stop''"]
    by (simp add: clean_doc_def ai_mapping_def ai_clean.simps AI_MAX_DEPTH_def is_tool_call_def ALL_TEXT_def TOOL_CALLS_def
        TEXT_TABLES_def EMBEDDED_JSON_def TEXT_FIELDS_def IMAGE_FIELDS_def clean_data_def example_stop_def ANTHROPIC_def child_field_def)
  obtain t where a: "api_event ?f example_stop ?s = Inr ([input_delta 0 ''{Hi}'', example_stop], t)"
    using c g by (auto simp: api_event_def example_stop_def optional_def ANTHROPIC_def anthropic_event_def block_index_def call_index_def
        stop_block_def api_pop_def new_api_def Let_def bind_result_def ai_parse_def)
  have k: "of_block 0 example_stop" "block_kind example_stop = ''content_block_stop''"
    by (simp_all add: of_block_def block_kind_def example_stop_def optional_def ANTHROPIC_def call_index_def)
  have "''{Hi}'' \<in> set (arguments_in (input_delta 0 ''{Hi}''))"
    by (simp add: arguments_in_def input_delta_def block_of_def block_kind_def optional_def ANTHROPIC_def)
  from arguments_held_until_checked [OF a k(1) _ _ _ this] k(2) show ?thesis
    using a g by (intro exI [of _ ?f] exI [of _ ?s] exI) (auto simp: well_named_def new_api_def)
qed

end
