(* ===== verification/AiBrowser.thy ===== *)
theory AiBrowser
  imports AiBlocks
begin

text \<open>
  ChatGPT in the browser: \<open>BrowserStream\<close> of \<open>ai_browser.py\<close> and \<open>SocketFilter\<close> of \<open>ai_socket.py\<close> under
  \<open>kosherd/src/kosherd\<close>.  \<open>ai_dumps_spaced\<close> is \<open>json.dumps\<close> with its own separators.  A text is
  written as its bytes.  The documents of a channel are values: that a message which is itself marked as the call
  of a tool is handed on by \<open>clean\<close> without being copied, and so shortened in the channel too, is left out.
\<close>

section \<open>A generation as events\<close>

record browser =
  br_decoder :: sse
  br_channels :: channels
  br_legacy :: "doc option"
  br_ended :: bool
  br_events :: nat

definition new_browser :: browser where
  "new_browser = \<lparr>br_decoder = new_sse, br_channels = new_channels, br_legacy = None, br_ended = False, br_events = 0\<rparr>"

definition hold_part :: "ai_filters \<Rightarrow> json \<Rightarrow> json" where
  "hold_part f v = (case v of JStr s \<Rightarrow> JStr (withhold f s) | _ \<Rightarrow> v)"

definition status_in :: "doc \<Rightarrow> string list \<Rightarrow> bool result" where
  "status_in d xs =
     (case optional d ''status'' of
        JStr s \<Rightarrow> Inr (s \<in> set xs) | JList ys \<Rightarrow> Inl wrong_type | JObj x \<Rightarrow> Inl wrong_type | _ \<Rightarrow> Inr False)"

definition said_by_user :: "doc \<Rightarrow> bool" where
  "said_by_user message = (case optional message ''author'' of JObj a \<Rightarrow> optional a ''role'' = JStr ''user'' | _ \<Rightarrow> False)"

text \<open>A cleaned document with the unfinished text of its message held back.\<close>

definition hold_message :: "ai_filters \<Rightarrow> doc \<Rightarrow> doc \<Rightarrow> doc result" where
  "hold_message f d message =
     (if said_by_user message then Inr d
      else (case optional message ''content'' of
        JObj content \<Rightarrow>
          (case optional content ''parts'' of
             JList parts \<Rightarrow>
               bind_result (status_in message [''finished_successfully'', ''finished_partial'']) (\<lambda>is_done.
               Inr (if is_done then d
                    else dict_set ''message'' (JObj (dict_set ''content''
                           (JObj (dict_set ''parts'' (JList (map (hold_part f) parts)) content)) message)) d))
           | _ \<Rightarrow> Inr d)
      | _ \<Rightarrow> Inr d))"

definition browser_snapshot :: "ai_filters \<Rightarrow> json \<Rightarrow> json result" where
  "browser_snapshot f document =
     bind_result (ai_clean f [] 0 document) (\<lambda>w.
     case w of
       JObj d \<Rightarrow>
         (case optional d ''message'' of
            JObj message \<Rightarrow> bind_result (hold_message f d message) (\<lambda>d. Inr (JObj d))
          | _ \<Rightarrow> Inr w)
     | _ \<Rightarrow> Inr w)"

definition channel_doc :: "int \<Rightarrow> json \<Rightarrow> json" where
  "channel_doc c v = JObj [(''c'', JInt c), (''p'', JStr []), (''o'', JStr ''replace''), (''v'', v)]"

definition final_channel :: "ai_filters \<Rightarrow> int \<times> json \<Rightarrow> string result" where
  "final_channel f e =
     (case e of (c, document) \<Rightarrow>
        bind_result (ai_clean f [] 0 document) (\<lambda>w.
        Inr (encode_data (ai_dumps_spaced f (channel_doc c w)) [''event: delta''])))"

definition final_legacy :: "ai_filters \<Rightarrow> doc option \<Rightarrow> string result" where
  "final_legacy f legacy =
     (case legacy of
        None \<Rightarrow> Inr []
      | Some d \<Rightarrow> bind_result (ai_clean f [] 0 (JObj d)) (\<lambda>w. Inr (encode_data (ai_dumps_spaced f w) [])))"

definition browser_done :: "ai_filters \<Rightarrow> event \<Rightarrow> browser \<Rightarrow> (string \<times> browser) result" where
  "browser_done f ev s =
     bind_result (final_legacy f (br_legacy s)) (\<lambda>old.
     bind_result (map_result (final_channel f) (ch_documents (br_channels s))) (\<lambda>chs.
     Inr (old @ concat chs @ encode ev, s\<lparr>br_ended := True\<rparr>)))"

definition browser_delta :: "ai_filters \<Rightarrow> event \<Rightarrow> json \<Rightarrow> browser \<Rightarrow> (string \<times> browser) result" where
  "browser_delta f ev v s =
     bind_result (update_channel v (br_channels s)) (\<lambda>((c, document), chs).
     if length (ai_dumps_spaced f document) > MAX_EVENT_BYTES then Inl protocol
     else bind_result (browser_snapshot f document) (\<lambda>w.
       Inr (encode_data (ai_dumps_spaced f (channel_doc c w)) ev, s\<lparr>br_channels := chs\<rparr>)))"

definition browser_plain :: "ai_filters \<Rightarrow> event \<Rightarrow> json \<Rightarrow> browser \<Rightarrow> (string \<times> browser) result" where
  "browser_plain f ev v s =
     (let s = (case v of
                 JObj d \<Rightarrow> (case optional d ''message'' of JObj m \<Rightarrow> s\<lparr>br_legacy := Some d\<rparr> | _ \<Rightarrow> s)
               | _ \<Rightarrow> s) in
      bind_result (browser_snapshot f v) (\<lambda>w. Inr (encode_data (ai_dumps_spaced f w) ev, s)))"

definition browser_event :: "ai_filters \<Rightarrow> event \<Rightarrow> browser \<Rightarrow> (string \<times> browser) result" where
  "browser_event f ev s =
     bind_result (event_data (ai_utf8 f) ev) (\<lambda>payload.
     case payload of
       None \<Rightarrow> Inr (encode ev, s)
     | Some p \<Rightarrow>
         if br_ended s then Inl protocol
         else if p = ''[DONE]'' then browser_done f ev s
         else bind_result (ai_parse f p) (\<lambda>v.
           bind_result (event_name (ai_utf8 f) ev) (\<lambda>nm.
           if nm = ''delta_encoding''
           then (if v \<noteq> JStr ''v1'' then Inl protocol else Inr (encode ev, s\<lparr>br_channels := new_channels\<rparr>))
           else if nm = ''delta'' then browser_delta f ev v s
           else browser_plain f ev v s)))"

definition count_browser_event :: "ai_filters \<Rightarrow> event \<Rightarrow> browser \<Rightarrow> (string \<times> browser) result" where
  "count_browser_event f ev s =
     (let s = s\<lparr>br_events := br_events s + 1\<rparr> in
      if br_events s > MAX_EVENTS then Inl protocol else browser_event f ev s)"

definition browser_feed :: "ai_filters \<Rightarrow> string \<Rightarrow> browser \<Rightarrow> (string \<times> browser) result" where
  "browser_feed f chunk s =
     bind_result (sse_feed chunk (br_decoder s)) (\<lambda>(evs, d).
     bind_result (thread (count_browser_event f) evs (s\<lparr>br_decoder := d\<rparr>)) (\<lambda>(outs, s). Inr (concat outs, s)))"

definition browser_finish :: "browser \<Rightarrow> unit result" where
  "browser_finish s =
     bind_result (sse_finish (br_decoder s)) (\<lambda>_. if br_ended s then Inr () else Inl protocol)"

section \<open>Generations over a socket\<close>

record ai_socket =
  so_topics :: "(string, browser) dict"
  so_api :: "api option"

definition new_socket :: ai_socket where "new_socket = \<lparr>so_topics = [], so_api = None\<rparr>"

definition encoded_item :: "doc \<Rightarrow> (doc \<times> doc \<times> string) option" where
  "encoded_item envelope =
     (case optional envelope ''payload'' of
        JObj outer \<Rightarrow>
          (case optional outer ''payload'' of
             JObj inner \<Rightarrow> (case optional inner ''encoded_item'' of JStr s \<Rightarrow> Some (outer, inner, s) | _ \<Rightarrow> None)
           | _ \<Rightarrow> None)
      | _ \<Rightarrow> None)"

definition topic_feed :: "ai_filters \<Rightarrow> json \<Rightarrow> string \<Rightarrow> ai_socket \<Rightarrow> (string \<times> ai_socket) result" where
  "topic_feed f topic encoded so =
     (case topic of
        JStr tp \<Rightarrow>
          if tp = [] \<or> length tp > 512 then Inl protocol
          else if map_of (so_topics so) tp = None \<and> length (so_topics so) \<ge> 32 then Inl protocol
          else let b = (case map_of (so_topics so) tp of None \<Rightarrow> new_browser | Some b \<Rightarrow> b) in
            bind_result (browser_feed f encoded b) (\<lambda>(out, b).
            bind_result (decoded (ai_utf8 f) out) (\<lambda>checked.
            bind_result (sse_finish (br_decoder b)) (\<lambda>_.
            Inr (checked, so\<lparr>so_topics := (if br_ended b then dict_pop tp (so_topics so) else dict_set tp b (so_topics so))\<rparr>))))
      | _ \<Rightarrow> Inl protocol)"

definition envelope :: "ai_filters \<Rightarrow> json \<Rightarrow> ai_socket \<Rightarrow> (json \<times> ai_socket) result" where
  "envelope f v so =
     bind_result (ai_mapping v) (\<lambda>d.
     case encoded_item d of
       Some (outer, inner, s) \<Rightarrow>
         bind_result (topic_feed f (optional d ''topic_id'') s so) (\<lambda>(checked, so).
         Inr (JObj (dict_set ''payload'' (JObj (dict_set ''payload''
                (JObj (dict_set ''encoded_item'' (JStr checked) inner)) outer)) d), so))
     | None \<Rightarrow> bind_result (clean_doc f d) (\<lambda>d. Inr (JObj d, so)))"

text \<open>The frames to send in place of one that came.\<close>

definition socket_feed :: "ai_filters \<Rightarrow> string \<Rightarrow> ai_socket \<Rightarrow> (string list \<times> ai_socket) result" where
  "socket_feed f content so =
     (if length content > MAX_EVENT_BYTES then Inl protocol
      else bind_result (ai_parse f content) (\<lambda>v.
        case v of
          JList xs \<Rightarrow> bind_result (thread (envelope f) xs so) (\<lambda>(ys, so). Inr ([ai_dumps f (JList ys)], so))
        | JObj d \<Rightarrow>
            bind_result (api_event f d (case so_api so of None \<Rightarrow> new_api | Some a \<Rightarrow> a)) (\<lambda>(outs, st).
            Inr (map (\<lambda>d. ai_dumps f (JObj d)) outs, so\<lparr>so_api := Some st\<rparr>))
        | _ \<Rightarrow> Inl protocol))"

section \<open>However the network cuts it\<close>

text \<open>What was let out and the state after, unless the stream was refused.\<close>

definition told :: "(string \<times> 's) result \<Rightarrow> (string \<times> 's) option" where
  "told r = (case r of Inl e \<Rightarrow> None | Inr p \<Rightarrow> Some p)"

definition together :: "(string list \<times> 's) result \<Rightarrow> (string \<times> 's) result" where
  "together r = (case r of Inl e \<Rightarrow> Inl e | Inr (outs, s) \<Rightarrow> Inr (concat outs, s))"

text \<open>
  A stream that decodes its bytes and passes on each event with a step of its own, the decoder's state in
  a field that the step does not touch.
\<close>

locale checked_stream = decoder feed fit
  for feed :: "string \<Rightarrow> 'd \<Rightarrow> ('e list \<times> 'd) result" and fit :: "'d \<Rightarrow> bool" +
  fixes step :: "'e \<Rightarrow> 's \<Rightarrow> (string \<times> 's) result" and dec :: "'s \<Rightarrow> 'd" and put :: "'d \<Rightarrow> 's \<Rightarrow> 's"
    and passed :: "string \<Rightarrow> 's \<Rightarrow> (string \<times> 's) result"
  assumes dec_put: "dec (put d s) = d" and put_dec: "put (dec s) s = s" and put_put: "put d (put d' s) = put d s"
    and step_put: "step e (put d s) = (case step e s of Inl x \<Rightarrow> Inl x | Inr (x, t) \<Rightarrow> Inr (x, put d t))"
    and passed_eq: "passed chunk s = bind_result (feed chunk (dec s)) (\<lambda>(evs, d).
      bind_result (thread step evs (put d s)) (\<lambda>(outs, s). Inr (concat outs, s)))"
begin

lemma thread_put: "thread step evs (put d s) = (case thread step evs s of Inl x \<Rightarrow> Inl x | Inr (x, t) \<Rightarrow> Inr (x, put d t))"
  by (induction evs arbitrary: s) (auto simp: step_put split: sum.splits)

lemma thread_dec:
  assumes "thread step evs s = Inr (outs, t)" shows "dec t = dec s"
  using assms thread_put [of evs "dec s" s] by (auto simp: put_dec) (metis dec_put)

lemma passed_nil: "fit (dec s) \<Longrightarrow> passed [] s = Inr ([], s)"
  by (simp add: passed_eq feed_nil put_dec)

lemma passedE:
  assumes "passed a s = Inr (x, t)"
  obtains evs d outs t' where "feed a (dec s) = Inr (evs, d)" "thread step evs s = Inr (outs, t')" "x = concat outs" "t = put d t'"
  using assms by (auto simp: passed_eq bind_result_def thread_put split: sum.split_asm)

lemma passed_fit: "fit (dec s) \<Longrightarrow> passed a s = Inr (x, t) \<Longrightarrow> fit (dec t)"
  by (erule passedE) (use feed_fit dec_put in auto)

lemma passed_append:
  assumes "fit (dec s)"
  shows "told (passed (a @ b) s) =
     (case passed a s of Inl e \<Rightarrow> None | Inr (x, t) \<Rightarrow> map_option (\<lambda>(y, u). (x @ y, u)) (told (passed b t)))"
  using feed_append [OF assms, of a b]
  by (auto simp: told_def passed_eq [of "a @ b"] passed_eq [of a s] passed_eq [of b] andthen_def bind_result_def thread_put
      thread_append dec_put put_put split: sum.splits)

lemma passed_concat:
  "fit (dec s) \<Longrightarrow> told (together (thread passed xs s)) = told (passed (concat xs) s)"
proof (induction xs arbitrary: s)
  case Nil
  then show ?case by (simp add: passed_nil together_def)
next
  case (Cons x xs)
  show ?case
  proof (cases "passed x s")
    case (Inl e)
    then show ?thesis using passed_append [OF Cons.prems, of x "concat xs"] by (simp add: told_def together_def)
  next
    case (Inr p)
    then obtain y t where p: "passed x s = Inr (y, t)" by (cases p) auto
    from Cons.IH [OF passed_fit [OF Cons.prems p]] passed_append [OF Cons.prems, of x "concat xs"] p
    show ?thesis by (auto simp: told_def together_def split: sum.splits)
  qed
qed

lemma same_answer_for_any_cut:
  assumes "fit (dec s)" "concat xs = concat ys"
  shows "told (together (thread passed xs s))
    = told (together (thread passed ys s))"
  by (simp add: passed_concat assms)

end

lemma done_steps:
  "browser_done f ev (s\<lparr>br_decoder := d\<rparr>)
     = (case browser_done f ev s of Inl x \<Rightarrow> Inl x | Inr (x, t) \<Rightarrow> Inr (x, t\<lparr>br_decoder := d\<rparr>))"
  by (simp add: browser_done_def bind_result_def split: sum.split)

lemma delta_steps:
  "browser_delta f ev v (s\<lparr>br_decoder := d\<rparr>)
     = (case browser_delta f ev v s of Inl x \<Rightarrow> Inl x | Inr (x, t) \<Rightarrow> Inr (x, t\<lparr>br_decoder := d\<rparr>))"
  by (simp add: browser_delta_def bind_result_def split: sum.split prod.split)

lemma plain_steps:
  "browser_plain f ev v (s\<lparr>br_decoder := d\<rparr>)
     = (case browser_plain f ev v s of Inl x \<Rightarrow> Inl x | Inr (x, t) \<Rightarrow> Inr (x, t\<lparr>br_decoder := d\<rparr>))"
  by (cases v) (simp_all add: browser_plain_def bind_result_def split: sum.split json.split)

lemma event_steps:
  "browser_event f ev (s\<lparr>br_decoder := d\<rparr>)
     = (case browser_event f ev s of Inl x \<Rightarrow> Inl x | Inr (x, t) \<Rightarrow> Inr (x, t\<lparr>br_decoder := d\<rparr>))"
proof (cases "event_data (ai_utf8 f) ev")
  case (Inr payload)
  then show ?thesis
    by (cases payload; simp add: browser_event_def bind_result_def done_steps delta_steps plain_steps split: sum.split)
qed (simp add: browser_event_def bind_result_def)

lemma browser_steps:
  "count_browser_event f ev (s\<lparr>br_decoder := d\<rparr>)
     = (case count_browser_event f ev s of Inl x \<Rightarrow> Inl x | Inr (x, t) \<Rightarrow> Inr (x, t\<lparr>br_decoder := d\<rparr>))"
proof -
  have e: "s\<lparr>br_decoder := d, br_events := n\<rparr> = s\<lparr>br_events := n, br_decoder := d\<rparr>" for n by simp
  show ?thesis by (simp add: count_browser_event_def Let_def e event_steps)
qed

interpretation browser_bytes: checked_stream sse_feed sse_fit "count_browser_event f" br_decoder
    "\<lambda>d s. s\<lparr>br_decoder := d\<rparr>" "browser_feed f" for f
  by unfold_locales (simp_all add: browser_steps browser_feed_def)

lemma unread_steps:
  "unread_event f ev p (s\<lparr>as_decoder := d\<rparr>)
     = (case unread_event f ev p s of Inl x \<Rightarrow> Inl x | Inr (x, t) \<Rightarrow> Inr (x, t\<lparr>as_decoder := d\<rparr>))"
  by (simp add: unread_event_def bind_result_def split: sum.split prod.split)

lemma read_steps:
  "read_event f lenient ev v (s\<lparr>as_decoder := d\<rparr>)
     = (case read_event f lenient ev v s of Inl x \<Rightarrow> Inl x | Inr (x, t) \<Rightarrow> Inr (x, t\<lparr>as_decoder := d\<rparr>))"
  by (cases v) (simp_all add: read_event_def bind_result_def split: sum.split prod.split)

lemma stream_steps:
  "stream_event f lenient ev (s\<lparr>as_decoder := d\<rparr>)
     = (case stream_event f lenient ev s of Inl x \<Rightarrow> Inl x | Inr (x, t) \<Rightarrow> Inr (x, t\<lparr>as_decoder := d\<rparr>))"
proof (cases "event_data (ai_utf8 f) ev")
  case (Inr payload)
  show ?thesis
  proof (cases payload)
    case (Some p)
    show ?thesis
    proof (cases "strip is_space p = ''[DONE]''")
      case True
      then show ?thesis by (simp add: stream_event_def Inr Some bind_result_def split: sum.split prod.split)
    next
      case False
      have e: "s\<lparr>as_decoder := d, as_named := b\<rparr> = s\<lparr>as_named := b, as_decoder := d\<rparr>" for b by simp
      show ?thesis using False
        by (cases "event_name (ai_utf8 f) ev"; cases "ai_loads f p")
          (simp_all add: stream_event_def Inr Some bind_result_def Let_def e unread_steps read_steps)
    qed
  qed (simp add: stream_event_def Inr bind_result_def)
qed (simp add: stream_event_def bind_result_def)

lemma api_steps:
  "count_event f lenient ev (s\<lparr>as_decoder := d\<rparr>)
     = (case count_event f lenient ev s of Inl x \<Rightarrow> Inl x | Inr (x, t) \<Rightarrow> Inr (x, t\<lparr>as_decoder := d\<rparr>))"
proof -
  have e: "s\<lparr>as_decoder := d, as_events := n\<rparr> = s\<lparr>as_events := n, as_decoder := d\<rparr>" for n by simp
  show ?thesis by (simp add: count_event_def Let_def e stream_steps)
qed

interpretation api_bytes: checked_stream sse_feed sse_fit "count_event f lenient" as_decoder
    "\<lambda>d s. s\<lparr>as_decoder := d\<rparr>" "api_stream_feed f lenient" for f lenient
  by unfold_locales (simp_all add: api_steps api_stream_feed_def)

text \<open>
  Where the network cuts an answer makes no difference to what is shown of it.  However the bytes of an
  answer are cut, in the browser's protocol or in that of a programming interface, the same bytes go on
  to the browser, the handler ends in the same state, and the same answers are refused.
\<close>

theorem answer_any_cut:
  assumes "concat xs = concat ys"
  shows "told (together (thread (browser_feed f) xs new_browser)) = told (together (thread (browser_feed f) ys new_browser))
    \<and> told (together (thread (api_stream_feed f lenient) xs new_api_stream))
      = told (together (thread (api_stream_feed f lenient) ys new_api_stream))"
proof -
  have "sse_fit (br_decoder new_browser)" "sse_fit (as_decoder new_api_stream)"
    by (simp_all add: new_browser_def new_api_stream_def sse_fit_def new_sse_def)
  then show ?thesis
    using browser_bytes.same_answer_for_any_cut [OF _ assms] api_bytes.same_answer_for_any_cut [OF _ assms] by blast
qed

end
