(* ===== verification/Spec2Isabelle.thy ===== *)
theory Spec2Isabelle
  imports Access Sessions GuardianAuth PolicyStore AppAccess FamilyGroups
  TimeLimits Timekeeping Filtering Resolver UrlRules AccessRequests UidMap
  BuildSources Calm DaemonInvariants DaemonGrants DaemonOrdinary AiBrowser
begin

text \<open>
  KosherOS, a family's operating system: the daemon \<open>kosherd\<close> and the filtering proxy.

  The program.  Every account of the computer has a policy (\<open>policy.py\<close>): how its web is filtered
  (its mode), its own address rules and blocked categories, how pictures, words, YouTube and the
  addictive sites are treated, which apps it may install, and when it may be signed in.  The daemon
  (\<open>daemon.py\<close>) holds the policy, serves D-Bus calls that change it, saves it, and applies it: it
  renders the firewall's table (\<open>nft.py\<close>), the resolver's configuration (\<open>dns.py\<close>), the list of times
  for the login (\<open>timelimits.py\<close>) and the rules file of the proxy (\<open>apply.py\<close>), and once in a while
  its timekeeper ticks (\<open>timekeeper.py\<close>).  The firewall sends each filtered account to the proxy by a
  port of its own; the proxy (\<open>mitm/kosher_filter.py\<close>) knows the account by that port, reads the rules
  file, and decides on each request and each answer.

  Sources are under \<open>src/kosherd/src/kosherd/\<close> unless they are named \<open>mitm/...\<close>, which are under \<open>src/\<close>.


  The theories, what each models, and what its lemmas show.

  \<^item> \<open>Prelude\<close>: Python's exceptions as \<open>string + 'a\<close> (\<open>'a result\<close>, \<open>Inl\<close> the exception), dictionaries
    as association lists in insertion order (\<open>dict_set\<close>, \<open>dict_get\<close>, \<open>dict_pop\<close>), JSON documents (\<open>json\<close>,
    \<open>doc\<close>), the string methods that are used, and their lemmas.

  \<^item> \<open>Access\<close> (\<open>access.py\<close>): the tables of calls and \<open>evaluate\<close>: which check a call meets;
    the tables agree with each other.  \<open>Sessions\<close> (\<open>session.py\<close>): admin sessions and guardian proofs as
    two instances of one locale of sliding leases (\<open>lease\<close>).  \<open>GuardianAuth\<close> (\<open>guardian.py\<close>): the password,
    its counted guesses and lockout; the bound on guesses holds over every sequence of guesses.

  \<^item> \<open>PolicyStore\<close> (\<open>policy.py\<close>): accounts, policy, document form, migration, load and save, with the
    round trip.  \<open>FamilyGroups\<close> (\<open>profiles.py\<close>): a family's named groups.  \<open>AppAccess\<close> (\<open>appkinds.py\<close>,
    \<open>appaccess.py\<close>): which apps an account may have, with monotonicity in the settings.  \<open>Calm\<close>
    (\<open>calm.py\<close>): the settings of the calmer sites.  \<open>Whitelists\<close> (\<open>whitelists.py\<close>,
    \<open>paymentsecurity.py\<close>): the ready-made lists of sites.  \<open>AccessRequests\<close> (\<open>accessreq.py\<close>): the spool of
    pages asked for.

  \<^item> \<open>Categories\<close> (\<open>categories.py\<close>): the category lists in memory and in SQLite.  Both interpret the locale
    \<open>suffix_lookup\<close>, whose lemmas are about the most specific entry; the database refines the list.

  \<^item> \<open>TimeLimits\<close> (\<open>timelimits.py\<close>) and \<open>Timekeeping\<close> (\<open>timekeeper.py\<close>): the schedule, the day's budget and
    what the tick does about them.  \<open>steady_zone\<close> is the locale of zones without clock changes.
    \<open>history\<close> is the inductive relation of the effects that a sequence of ticks leaves.

  \<^item> \<open>IpNet\<close> (what is used of Python's \<open>ipaddress\<close>), \<open>Firewall\<close> (\<open>nft.py\<close>, \<open>devenvproxy.py\<close>, the ports of
    \<open>syncthing.py\<close>): the rendered table.  \<open>Filtering\<close>: what the table does with a packet, so that its
    theorems speak of \<open>render\<close>, the code, and of packets, not of rules.  \<open>Resolver\<close> (\<open>dns.py\<close>): the
    resolver's drop-ins.  \<open>UidMap\<close> (\<open>uidmap.py\<close>): who owns a connection.

  \<^item> \<open>UrlRules\<close> (\<open>urlrules.py\<close>): address rules, compiled to a list of atoms, and \<open>urlsplit\<close>.
    \<open>BuildSources\<close> (\<open>buildsources.py\<close>): what a Nix build may fetch.  \<open>SiteRules\<close> (\<open>siterules.py\<close>): the
    departments of shops.

  \<^item> The daemon (\<open>daemon.py\<close>, with \<open>auth.py\<close>).  \<open>DaemonState\<close>: the record \<open>machine\<close> (policy in memory and on
    disk, sessions, guardian, spool, system accounts, log) and the record \<open>world\<close> of what is outside.
    \<open>DaemonCalls\<close>: the calls as a datatype, with their names.  \<open>DaemonAccounts\<close> and \<open>DaemonHousehold\<close>: one
    definition per \<open>impl_\<close> method.  \<open>DaemonDispatch\<close>: \<open>handle_call\<close> (\<open>_handle_call\<close>): authorize, snapshot,
    run, put back on failure, log; and the rules (\<open>wp_simps\<close>) by which all calls are reasoned about.
    \<open>DaemonSafety\<close>: what the guardian protects.  \<open>DaemonOrdinary\<close>: what an account without an
    administrator's rights can change, over the calls of everyone.  \<open>DaemonInvariants\<close>: what every
    sequence of calls keeps, with the step relation \<open>served\<close> and the locale \<open>kept\<close>, interpreted three
    times.  \<open>DaemonGrants\<close>: from a granted page to the decision of the address rules.

  \<^item> The proxy (\<open>mitm/kosher_filter.py\<close>).  \<open>ProxyRules\<close>: \<open>write_mitm_rules\<close> of \<open>apply.py\<close>, which writes the
    rules file, and \<open>PolicyCache\<close>, which reads it; their composition is a round trip.  \<open>ProxyFlow\<close>: a
    request, its answer, the marks on the flow and the addon's own state in one record, \<open>turn\<close>; what is
    outside in the record \<open>env\<close>; the block page.  \<open>ProxyPages\<close>: the judgement of a page's words
    (\<open>_filter_page\<close>), the page script's token and questions, where the script goes.  \<open>ProxyCalm\<close>: the
    heartbeats and budgets of the calmer sites.  \<open>ProxyRequests\<close>: the request hook as a whole.
    \<open>ProxyMedia\<close>: pictures and clips, and what is decided from an answer's headers.  \<open>YouTube\<close>: channels
    under their spellings, players and feeds.  \<open>ProxyAnswers\<close>: the suggestions of search boxes
    (\<open>suggest.py\<close>), the response hook as a whole, and what passes both hooks of an answer.

  \<^item> The answers of AI services (\<open>ai_*.py\<close>).  \<open>AiText\<close>: the check of a text, a picture and a document
    (\<open>ai_text.py\<close>, \<open>ai_images.py\<close>, \<open>ai_json.py\<close>), and the stream that holds back what is not finished.
    \<open>AiFraming\<close>: events and lines out of bytes (\<open>ai_sse.py\<close>), with the locale \<open>decoder\<close> of what is
    indifferent to the network's cutting.  \<open>AiDelta\<close>: patches of documents (\<open>ai_delta.py\<close>).
    \<open>AiLines\<close>: the conversation by lines, with the notice for what is refused (\<open>ai_lines.py\<close>).
    \<open>AiApi\<close>: the events of the programming interfaces, and of shapes nobody listed (\<open>ai_api.py\<close>,
    \<open>ai_generic.py\<close>); \<open>AiBlocks\<close>: what the blocks of an answer show through interleaved events, and that a
    tool's arguments are let out whole and checked.  \<open>AiBrowser\<close>: the same conversations as the browser and
    the socket carry them (\<open>ai_browser.py\<close>, \<open>ai_socket.py\<close>), and the locale \<open>checked_stream\<close>, by which
    what is shown does not depend on how the network cut the answer.


  Conventions.  A definition has the name of its function, without a leading underscore and with a
  suffix or the module's word where Isabelle has the name already.  A class is a record.  Text is a
  list of characters; where a component reads it in a way that depends on more than ASCII, its own
  header says so.  Python's integers are \<open>int\<close>; floats of clocks are \<open>rat\<close>, or \<open>int\<close> where a header
  says seconds are whole.  No machine integer of a fixed width occurs in the program: addresses are
  bounded by their prefix arithmetic (\<open>IpNet\<close>), ports by the checks of the code.  A call that raises
  is an \<open>Inl\<close>, or the field \<open>failed\<close> of a \<open>turn\<close>, after which mitmproxy goes on with what is there.

  Loops and bounds.  Almost every loop is over a list, and its recursion is structural or has a
  measure; there is no fuel in the program's own loops.  The one bounded unfolding is of the
  firewall's jumps: a chain is run to a given depth, and \<open>every_packet_answered\<close> shows the depth used
  is enough for every rendered table, since its chains jump to mode chains and from there to nothing
  deeper (\<open>JUMP_DEPTH\<close> is the kernel's own limit).  The walks over a site's JSON stop at the depths the
  code has (\<open>FEED_DEPTH\<close>, \<open>SHAPE_DEPTH\<close>, \<open>MAX_DEPTH\<close>), and their theorems speak of what is within.  The search for the next change of a weekly schedule walks 169 hours, a week and one, which
  meets every change there is (\<open>schedule_changes_exact\<close>).


  What is an argument.  The JSON parser and its schema, the password hash, the clocks and the time
  zone, polkit and logind, SQLite, the kernel's socket tables, the random identifiers, and inside the
  proxy the trained scorer of words, the word lists and the HMAC.  Where a theorem relies on one of
  them it says what it relies on, and its witness uses a concrete one.

  Not modelled.  The drivers of flatpak, Nix, bootc and systemd (\<open>apps.py\<close>, \<open>nixapps.py\<close>,
  \<open>upstreamapps.py\<close>, \<open>updates.py\<close>, \<open>catalogsync.py\<close>, \<open>mct.py\<close>), since what they do is done by the programs
  they run; the trained models and the heuristics around them (\<open>vision.py\<close>, \<open>persons.py\<close>, \<open>content.py\<close>,
  \<open>videocheck.py\<close>, \<open>imageedit.py\<close>), whose tables are data and whose behaviour is statistical; the
  calls of the daemon that only hand over to those; the addon that chooses among the
  handlers of AI services (\<open>ai_proxy.py\<close>); the activity log beyond that a line is written; the keyboard's configuration; the
  command line, the desktop and web applications and the portal, which are clients of the calls
  modelled here; and the build, test and release scripts.  The manifest says for each component
  modelled in part what is left out of it.
\<close>

end
